(* ===== verification/Prelude.thy ===== *)
theory Prelude
  imports Main "HOL-Library.Word" "HOL-Library.List_Lexorder" "HOL-Library.Product_Lexorder"
begin

text \<open>
  Shared vocabulary of the development: machine integers at their Rust width, byte strings,
  Rust's \<open>Result\<close> as a sum type with early return, checked and saturating arithmetic, the
  all-zero test that guards identifiers, and \<open>BTreeMap\<close> as a key-sorted association list
  with the interface every component relies on stated as a locale.
\<close>

section \<open>Integers, byte strings and results\<close>

type_synonym u8 = "8 word"
type_synonym u16 = "16 word"
type_synonym u32 = "32 word"
type_synonym u64 = "64 word"
type_synonym usize = nat

type_synonym bytes = "u8 list"

text \<open>
  A fixed-size Rust array \<open>[u8; N]\<close> is a byte string whose length is \<open>N\<close>; the well-formedness
  predicates of the components carry the length. Rust's \<open>Result<A, E>\<close> is \<open>'e + 'a\<close>.
\<close>

type_synonym ident = bytes

abbreviation Err :: "'e \<Rightarrow> 'e + 'a" where
  "Err \<equiv> Inl"

abbreviation Ok :: "'a \<Rightarrow> 'e + 'a" where
  "Ok \<equiv> Inr"

text \<open>The \<open>?\<close> operator and \<open>map_err\<close>.\<close>

named_theorems ok_iff \<open>when a fallible computation returns a value\<close>

definition and_then :: "'e + 'a \<Rightarrow> ('a \<Rightarrow> 'e + 'b) \<Rightarrow> 'e + 'b" where
  "and_then r f = (case r of Inl e \<Rightarrow> Inl e | Inr x \<Rightarrow> f x)"

definition map_err :: "('e \<Rightarrow> 'f) \<Rightarrow> 'e + 'a \<Rightarrow> 'f + 'a" where
  "map_err g r = (case r of Inl e \<Rightarrow> Inl (g e) | Inr x \<Rightarrow> Inr x)"

definition ok_or :: "'e \<Rightarrow> 'a option \<Rightarrow> 'e + 'a" where
  "ok_or e v = (case v of None \<Rightarrow> Inl e | Some x \<Rightarrow> Inr x)"

lemma and_then_simps [simp]:
  "and_then (Inl e) f = Inl e"
  "and_then (Inr x) f = f x"
  by (simp_all add: and_then_def)

lemma and_then_eq_Inr [ok_iff]:
  "and_then r f = Inr y \<longleftrightarrow> (\<exists>x. r = Inr x \<and> f x = Inr y)"
  by (cases r) simp_all

lemma guard_eq_Inr [ok_iff]:
  "(if c then Inl e else r) = Inr y \<longleftrightarrow> \<not> c \<and> r = Inr y"
  "(if c then r else Inl e) = Inr y \<longleftrightarrow> c \<and> r = Inr y"
  by auto

lemma and_then_eq_Inl:
  "and_then r f = Inl e \<longleftrightarrow> r = Inl e \<or> (\<exists>x. r = Inr x \<and> f x = Inl e)"
  by (cases r) simp_all

lemma map_err_simps [simp]:
  "map_err g (Inl e) = Inl (g e)"
  "map_err g (Inr x) = Inr x"
  by (simp_all add: map_err_def)

lemma map_err_eq_Inr [ok_iff]: "map_err g r = Inr x \<longleftrightarrow> r = Inr x"
  by (cases r) simp_all

lemma ok_or_simps [simp]:
  "ok_or e None = Inl e"
  "ok_or e (Some x) = Inr x"
  by (simp_all add: ok_or_def)

lemma ok_or_eq_Inr [ok_iff]: "ok_or e v = Inr x \<longleftrightarrow> v = Some x"
  by (cases v) simp_all

definition is_ok :: "'e + 'a \<Rightarrow> bool" where
  "is_ok r = (case r of Inl _ \<Rightarrow> False | Inr _ \<Rightarrow> True)"

lemma is_ok_simps [simp]: "\<not> is_ok (Inl e)" "is_ok (Inr x)"
  by (simp_all add: is_ok_def)

lemma is_ok_iff: "is_ok r \<longleftrightarrow> (\<exists>x. r = Inr x)"
  by (cases r) simp_all

section \<open>Checked and saturating arithmetic\<close>

definition checked_add :: "'w::len word \<Rightarrow> 'w word \<Rightarrow> 'w word option" where
  "checked_add a b = (if unat a + unat b < 2 ^ LENGTH('w) then Some (a + b) else None)"

text \<open>\<open>saturating_add\<close> on \<open>usize\<close>, and subtraction that must not go below zero.\<close>

definition usize_saturating_add :: "usize \<Rightarrow> usize \<Rightarrow> usize" where
  "usize_saturating_add a b = min (a + b) (2 ^ 64 - 1)"

definition checked_sub :: "'w::len word \<Rightarrow> 'w word \<Rightarrow> 'w word option" where
  "checked_sub a b = (if b \<le> a then Some (a - b) else None)"

definition saturating_add :: "'w::len word \<Rightarrow> 'w word \<Rightarrow> 'w word" where
  "saturating_add a b = (case checked_add a b of Some c \<Rightarrow> c | None \<Rightarrow> - 1)"

definition saturating_sub :: "'w::len word \<Rightarrow> 'w word \<Rightarrow> 'w word" where
  "saturating_sub a b = (if b \<le> a then a - b else 0)"

lemma checked_add_SomeD:
  "checked_add a b = Some c \<Longrightarrow> unat c = unat a + unat b"
  by (auto simp: checked_add_def unat_word_ariths split: if_splits)

lemma checked_add_Some_le: "checked_add a b = Some c \<Longrightarrow> a \<le> c"
  by (drule checked_add_SomeD) (simp add: word_le_nat_alt)

lemma checked_add_1_iff: "checked_add a 1 = Some c \<longleftrightarrow> c = a + 1 \<and> a < c" for a :: u64
proof -
  have "unat a < 2 ^ 64" using unsigned_less [of a, where 'a = nat] by simp
  then have "a < a + 1 \<longleftrightarrow> unat a + 1 < 2 ^ 64"
    by (cases "unat a + 1 = 2 ^ 64") (simp_all add: word_less_nat_alt unat_word_ariths)
  then show ?thesis by (auto simp: checked_add_def)
qed

lemma checked_add_1_None: "checked_add a 1 = None \<longleftrightarrow> \<not> a < a + 1" for a :: u64
  using checked_add_1_iff [of a "a + 1"] by (auto simp: checked_add_def)

lemma checked_add_Some_less: "checked_add a b = Some c \<Longrightarrow> b \<noteq> 0 \<Longrightarrow> a < c"
proof -
  assume c: "checked_add a b = Some c" and b: "b \<noteq> 0"
  from b have "0 < unat b" by (simp add: unat_gt_0)
  with checked_add_SomeD [OF c] show "a < c" by (simp add: word_less_nat_alt)
qed

lemma checked_add_one_Some:
  "checked_add a 1 = Some c \<Longrightarrow> unat c = Suc (unat a)"
  using checked_add_SomeD [of a 1 c] by (simp add: unat_1)

lemma checked_sub_SomeD:
  "checked_sub a b = Some c \<Longrightarrow> unat c = unat a - unat b \<and> b \<le> a"
  by (auto simp: checked_sub_def unat_sub split: if_splits)

lemma unat_saturating_add:
  "unat (saturating_add a (b :: 'w::len word)) = min (unat a + unat b) (2 ^ LENGTH('w) - 1)"
proof (cases "checked_add a b")
  case None
  have unat_minus_one_eq: "unat (- 1 :: 'w word) = 2 ^ LENGTH('w) - 1"
    by (transfer, simp add: take_bit_minus_one_eq_mask mask_eq_exp_minus_1 nat_diff_distrib nat_power_eq)
  from None have "\<not> unat a + unat b < 2 ^ LENGTH('w)"
    by (simp add: checked_add_def split: if_splits)
  with None show ?thesis by (simp add: saturating_add_def unat_minus_one_eq)
next
  case (Some c)
  then have "unat a + unat b < 2 ^ LENGTH('w)"
    by (simp add: checked_add_def split: if_splits)
  with Some checked_add_SomeD [OF Some] show ?thesis by (simp add: saturating_add_def)
qed

lemma unat_saturating_sub: "unat (saturating_sub a b) = unat a - unat b"
  by (auto simp: saturating_sub_def unat_sub word_le_nat_alt)

section \<open>The reserved all-zero value\<close>

definition all_zero :: "bytes \<Rightarrow> bool" where
  "all_zero bs \<longleftrightarrow> list_all (\<lambda>b. b = 0) bs"

lemma all_zero_simps [simp]:
  "all_zero []"
  "all_zero (b # bs) \<longleftrightarrow> b = 0 \<and> all_zero bs"
  by (simp_all add: all_zero_def)

lemma all_zero_iff_replicate: "all_zero bs \<longleftrightarrow> bs = replicate (length bs) 0"
  by (induction bs) auto

lemma all_zero_replicate: "all_zero (replicate n b) \<longleftrightarrow> n = 0 \<or> b = 0"
  by (induction n) auto

section \<open>Ordered maps\<close>

text \<open>
  \<open>BTreeMap<K, V>\<close> as an association list sorted strictly by key: iteration order is list
  order, \<open>get_mut\<close> followed by an assignment is \<open>bt_update\<close>, and the length is the number of
  entries.
\<close>

type_synonym ('k, 'v) btree_map = "('k \<times> 'v) list"

definition bt_get :: "('k, 'v) btree_map \<Rightarrow> 'k \<Rightarrow> 'v option" where
  "bt_get m k = map_of m k"

fun bt_insert :: "'k::linorder \<Rightarrow> 'v \<Rightarrow> ('k, 'v) btree_map \<Rightarrow> ('k, 'v) btree_map" where
  "bt_insert k v [] = [(k, v)]"
| "bt_insert k v ((k', v') # m) =
     (if k < k' then (k, v) # (k', v') # m
      else if k = k' then (k, v) # m
      else (k', v') # bt_insert k v m)"

definition bt_remove :: "'k \<Rightarrow> ('k, 'v) btree_map \<Rightarrow> ('k, 'v) btree_map" where
  "bt_remove k m = filter (\<lambda>(k', _). k' \<noteq> k) m"

definition bt_update :: "'k \<Rightarrow> ('v \<Rightarrow> 'v) \<Rightarrow> ('k, 'v) btree_map \<Rightarrow> ('k, 'v) btree_map" where
  "bt_update k f m = map (\<lambda>(k', v). (k', if k' = k then f v else v)) m"

definition bt_map_values :: "('v \<Rightarrow> 'v) \<Rightarrow> ('k, 'v) btree_map \<Rightarrow> ('k, 'v) btree_map" where
  "bt_map_values f m = map (\<lambda>(k, v). (k, f v)) m"

definition bt_retain :: "('v \<Rightarrow> bool) \<Rightarrow> ('k, 'v) btree_map \<Rightarrow> ('k, 'v) btree_map" where
  "bt_retain P m = filter (\<lambda>(_, v). P v) m"

definition bt_values :: "('k, 'v) btree_map \<Rightarrow> 'v list" where
  "bt_values m = map snd m"

definition bt_keys :: "('k, 'v) btree_map \<Rightarrow> 'k list" where
  "bt_keys m = map fst m"

definition bt_wf :: "('k::linorder, 'v) btree_map \<Rightarrow> bool" where
  "bt_wf m \<longleftrightarrow> sorted_wrt (<) (map fst m)"

lemma bt_get_insert:
  "bt_get (bt_insert k v m) k' = (if k' = k then Some v else bt_get m k')"
  by (induction k v m rule: bt_insert.induct) (auto simp: bt_get_def)

lemma bt_get_remove: "bt_get (bt_remove k m) k' = (if k' = k then None else bt_get m k')"
  by (induction m) (auto simp: bt_get_def bt_remove_def)

lemma bt_get_update:
  "bt_get (bt_update k f m) k' = (if k' = k then map_option f (bt_get m k') else bt_get m k')"
  by (induction m) (auto simp: bt_get_def bt_update_def)

lemma bt_get_map_values: "bt_get (bt_map_values f m) k = map_option f (bt_get m k)"
  by (induction m) (auto simp: bt_get_def bt_map_values_def)

lemma bt_get_empty: "bt_get [] k = None"
  by (simp add: bt_get_def)

lemma set_keys_insert: "fst ` set (bt_insert k v m) = insert k (fst ` set m)"
  by (induction k v m rule: bt_insert.induct) auto

lemma bt_wf_Nil: "bt_wf []"
  by (simp add: bt_wf_def)

lemma bt_wf_Cons: "bt_wf ((k, v) # m) \<longleftrightarrow> (\<forall>k' \<in> fst ` set m. k < k') \<and> bt_wf m"
  by (auto simp: bt_wf_def)

lemma bt_wf_insert: "bt_wf m \<Longrightarrow> bt_wf (bt_insert k v m)"
  by (induction k v m rule: bt_insert.induct)
    (auto simp: bt_wf_Nil bt_wf_Cons set_keys_insert dest: less_trans)

lemma bt_wf_filter: "bt_wf m \<Longrightarrow> bt_wf (filter P m)"
  by (induction m) (auto simp: bt_wf_Nil bt_wf_Cons)

lemma bt_wf_remove: "bt_wf m \<Longrightarrow> bt_wf (bt_remove k m)"
  by (simp add: bt_remove_def bt_wf_filter)

lemma bt_wf_retain: "bt_wf m \<Longrightarrow> bt_wf (bt_retain P m)"
  by (simp add: bt_retain_def bt_wf_filter)

lemma bt_keys_update: "map fst (bt_update k f m) = map fst m"
  by (induction m) (auto simp: bt_update_def)

lemma bt_keys_map_values: "map fst (bt_map_values f m) = map fst m"
  by (induction m) (auto simp: bt_map_values_def)

lemma bt_wf_update: "bt_wf (bt_update k f m) \<longleftrightarrow> bt_wf m"
  by (simp add: bt_wf_def bt_keys_update)

lemma bt_wf_map_values: "bt_wf (bt_map_values f m) \<longleftrightarrow> bt_wf m"
  by (simp add: bt_wf_def bt_keys_map_values)

lemma bt_wf_distinct: "bt_wf m \<Longrightarrow> distinct (map fst m)"
  by (simp add: bt_wf_def strict_sorted_iff)

lemma bt_get_mem: "bt_wf m \<Longrightarrow> (k, v) \<in> set m \<longleftrightarrow> bt_get m k = Some v"
  by (auto simp: bt_get_def dest: bt_wf_distinct map_of_SomeD intro: map_of_is_SomeI)

lemma bt_get_retain:
  assumes "bt_wf m"
  shows "bt_get (bt_retain P m) k =
    (case bt_get m k of None \<Rightarrow> None | Some v \<Rightarrow> if P v then Some v else None)"
proof -
  from assms have "distinct (map fst m)" by (rule bt_wf_distinct)
  then show ?thesis
    by (induction m)
      (force simp: bt_get_def bt_retain_def split: option.splits dest: map_of_SomeD)+
qed

lemma bt_values_mem: "bt_wf m \<Longrightarrow> v \<in> set (bt_values m) \<longleftrightarrow> (\<exists>k. bt_get m k = Some v)"
  using bt_get_mem [of m] by (auto simp: bt_values_def image_iff) (metis snd_conv)

lemma bt_values_ex:
  "bt_wf m \<Longrightarrow> list_ex P (bt_values m) \<longleftrightarrow> (\<exists>k v. bt_get m k = Some v \<and> P v)"
  by (metis Bex_set bt_values_mem)

lemmas bt_get_simps = bt_get_insert bt_get_remove bt_get_update bt_get_map_values bt_get_empty
lemmas bt_wf_simps = bt_wf_Nil bt_wf_insert bt_wf_remove bt_wf_retain bt_wf_update bt_wf_map_values

subsection \<open>The interface the components rely on\<close>

text \<open>
  What the stores of this repository use of an ordered map: lookup after insertion, removal,
  in-place mutation and \<open>retain\<close>. The combination every bounded store performs (drop the
  expired entries, then insert one) is derived here once.
\<close>

locale keyed_store =
  fixes get :: "'m \<Rightarrow> 'k \<Rightarrow> 'v option"
    and put :: "'k \<Rightarrow> 'v \<Rightarrow> 'm \<Rightarrow> 'm"
    and del :: "'k \<Rightarrow> 'm \<Rightarrow> 'm"
    and upd :: "'k \<Rightarrow> ('v \<Rightarrow> 'v) \<Rightarrow> 'm \<Rightarrow> 'm"
    and keep :: "('v \<Rightarrow> bool) \<Rightarrow> 'm \<Rightarrow> 'm"
    and wf :: "'m \<Rightarrow> bool"
  assumes get_put: "get (put k v m) k' = (if k' = k then Some v else get m k')"
    and get_del: "get (del k m) k' = (if k' = k then None else get m k')"
    and get_upd: "get (upd k f m) k' = (if k' = k then map_option f (get m k') else get m k')"
    and get_keep: "wf m \<Longrightarrow> get (keep P m) k = (case get m k of None \<Rightarrow> None
                     | Some v \<Rightarrow> if P v then Some v else None)"
    and wf_put: "wf m \<Longrightarrow> wf (put k v m)"
    and wf_del: "wf m \<Longrightarrow> wf (del k m)"
    and wf_upd: "wf m \<Longrightarrow> wf (upd k f m)"
    and wf_keep: "wf m \<Longrightarrow> wf (keep P m)"
begin

lemma wf_prune_put: "wf m \<Longrightarrow> wf (put k v (keep P m))"
  by (rule wf_put [OF wf_keep])

lemma get_prune_put_same: "get (put k v (keep P m)) k = Some v"
  by (simp add: get_put)

lemma get_prune_put_kept:
  "wf m \<Longrightarrow> k' \<noteq> k \<Longrightarrow> get m k' = Some v' \<Longrightarrow> P v' \<Longrightarrow> get (put k v (keep P m)) k' = Some v'"
  by (simp add: get_put get_keep)

lemma get_prune_putD:
  "wf m \<Longrightarrow> get (put k v (keep P m)) k' = Some w \<Longrightarrow>
     k' = k \<and> w = v \<or> k' \<noteq> k \<and> get m k' = Some w \<and> P w"
  by (auto simp: get_put get_keep split: if_splits option.splits)

lemma get_upd_cases:
  "get (upd k f m) k' = Some w \<Longrightarrow>
     k' = k \<and> (\<exists>v. get m k = Some v \<and> w = f v) \<or> k' \<noteq> k \<and> get m k' = Some w"
  by (auto simp: get_upd split: if_splits)

end

interpretation btree: keyed_store bt_get bt_insert bt_remove bt_update bt_retain bt_wf
  by unfold_locales
    (simp_all add: bt_get_simps bt_get_retain bt_wf_simps)

section \<open>Counting\<close>

lemma bt_retain_length: "length (bt_retain P m) = length (filter P (bt_values m))"
  by (induction m) (auto simp: bt_retain_def bt_values_def)

lemma bt_insert_length:
  "length (bt_insert k v m) \<le> Suc (length m)"
  by (induction k v m rule: bt_insert.induct) auto

lemma bt_insert_length_new:
  "bt_get m k = None \<Longrightarrow> length (bt_insert k v m) = Suc (length m)"
  by (induction k v m rule: bt_insert.induct) (auto simp: bt_get_def split: if_splits)

lemma bt_remove_length: "length (bt_remove k m) \<le> length m"
  by (simp add: bt_remove_def)

lemma bt_remove_length_less: "bt_get m k \<noteq> None \<Longrightarrow> length (bt_remove k m) < length m"
proof -
  assume "bt_get m k \<noteq> None"
  then obtain v where "(k, v) \<in> set m" by (auto simp: bt_get_def dest: map_of_SomeD)
  then show ?thesis by (auto simp: bt_remove_def intro!: length_filter_less)
qed

lemma bt_update_length: "length (bt_update k f m) = length m"
  by (simp add: bt_update_def)

lemma bt_map_values_length: "length (bt_map_values f m) = length m"
  by (simp add: bt_map_values_def)

lemmas bt_length_simps = bt_update_length bt_map_values_length

end
