(* ===== verification/Cbor.thy ===== *)
theory Cbor
  imports Prelude
begin

text \<open>
  The CBOR library the wire objects are built on (\<open>minicbor\<close>) is not part of the repository.
  It is a parameter of the model: a record of the encoder and decoder calls the sources make,
  with the behaviour they rely on collected in the locale \<open>cbor_library\<close>. A codec written from
  RFC 8949 satisfies every law, so the laws are consistent.
\<close>

section \<open>Encoder and decoder calls\<close>

text \<open>
  One encoder call of the sources (\<open>Encoder::array\<close>, \<open>u16\<close>, \<open>u64\<close>, \<open>bytes\<close>); \<open>None\<close> is a
  write error. A decoder call reads one item from the front of the remaining input and returns
  the value and what is left; \<open>None\<close> is a decoding error. \<open>Decoder::array\<close> yields \<open>None\<close> for an
  array of indefinite length.
\<close>

datatype cbor_item = CArray u64 | CU16 u16 | CU64 u64 | CBytes bytes

record cbor =
  cb_encode :: "cbor_item \<Rightarrow> bytes option"
  cb_array :: "bytes \<Rightarrow> (u64 option \<times> bytes) option"
  cb_u16 :: "bytes \<Rightarrow> (u16 \<times> bytes) option"
  cb_u64 :: "bytes \<Rightarrow> (u64 \<times> bytes) option"
  cb_bytes :: "bytes \<Rightarrow> (bytes \<times> bytes) option"

text \<open>A chain of encoder calls appends to the output and stops at the first write error.\<close>

fun encode_items :: "cbor \<Rightarrow> cbor_item list \<Rightarrow> bytes option" where
  "encode_items C [] = Some []"
| "encode_items C (i # is) =
     (case cb_encode C i of None \<Rightarrow> None
      | Some b \<Rightarrow> (case encode_items C is of None \<Rightarrow> None | Some bs \<Rightarrow> Some (b @ bs)))"

lemma encode_items_append:
  "encode_items C (is @ js) =
     (case encode_items C is of None \<Rightarrow> None
      | Some b \<Rightarrow> map_option ((@) b) (encode_items C js))"
  by (induction "is") (auto split: option.splits simp: map_option_case)

section \<open>Sizes of the preferred serialization\<close>

definition head_length :: "nat \<Rightarrow> nat" where
  "head_length n = (if n < 24 then 1 else if n < 2 ^ 8 then 2 else if n < 2 ^ 16 then 3
     else if n < 2 ^ 32 then 5 else 9)"

fun item_length :: "cbor_item \<Rightarrow> nat" where
  "item_length (CArray n) = head_length (unat n)"
| "item_length (CU16 v) = head_length (unat v)"
| "item_length (CU64 v) = head_length (unat v)"
| "item_length (CBytes b) = head_length (length b) + length b"

fun item_ok :: "cbor_item \<Rightarrow> bool" where
  "item_ok (CBytes b) \<longleftrightarrow> length b < 2 ^ 64"
| "item_ok _ \<longleftrightarrow> True"

fun same_kind :: "cbor_item \<Rightarrow> cbor_item \<Rightarrow> bool" where
  "same_kind (CArray _) (CArray _) \<longleftrightarrow> True"
| "same_kind (CU16 _) (CU16 _) \<longleftrightarrow> True"
| "same_kind (CU64 _) (CU64 _) \<longleftrightarrow> True"
| "same_kind (CBytes _) (CBytes _) \<longleftrightarrow> True"
| "same_kind _ _ \<longleftrightarrow> False"

lemma head_length_bounds: "1 \<le> head_length n" "head_length n \<le> 9"
  by (simp_all add: head_length_def)

lemma head_length_small: "n < 24 \<Longrightarrow> head_length n = 1"
  by (simp add: head_length_def)

lemma head_length_16: "n < 2 ^ 16 \<Longrightarrow> head_length n \<le> 3"
  by (simp add: head_length_def)

definition items_length :: "cbor_item list \<Rightarrow> nat" where
  "items_length is = sum_list (map item_length is)"

lemma items_length_simps [simp]:
  "items_length [] = 0"
  "items_length (i # is) = item_length i + items_length is"
  by (simp_all add: items_length_def)

section \<open>The behaviour the sources rely on\<close>

text \<open>
  \<open>minicbor\<close> writes definite-length items in the shortest form to an infallible \<open>Vec<u8>\<close>
  writer, and a decoder call reads back what the matching encoder call wrote, leaving the rest
  of the input untouched.
\<close>

locale cbor_library =
  fixes C :: cbor
  assumes encode_total: "item_ok i \<Longrightarrow> \<exists>b. cb_encode C i = Some b \<and> length b = item_length i"
    and array_read: "cb_encode C (CArray n) = Some b \<Longrightarrow> cb_array C (b @ r) = Some (Some n, r)"
    and u16_read: "cb_encode C (CU16 v) = Some b \<Longrightarrow> cb_u16 C (b @ r) = Some (v, r)"
    and u64_read: "cb_encode C (CU64 w) = Some b \<Longrightarrow> cb_u64 C (b @ r) = Some (w, r)"
    and bytes_read: "length x < 2 ^ 64 \<Longrightarrow> cb_encode C (CBytes x) = Some b \<Longrightarrow>
      cb_bytes C (b @ r) = Some (x, r)"
begin

text \<open>What a decoder call finds at the front of the output of a chain of encoder calls.\<close>

lemma items_read:
  "encode_items C (CArray n # is) = Some b \<Longrightarrow>
     \<exists>d. cb_array C b = Some (Some n, d) \<and> encode_items C is = Some d"
  "encode_items C (CU16 v # is) = Some b \<Longrightarrow>
     \<exists>d. cb_u16 C b = Some (v, d) \<and> encode_items C is = Some d"
  "encode_items C (CU64 w # is) = Some b \<Longrightarrow>
     \<exists>d. cb_u64 C b = Some (w, d) \<and> encode_items C is = Some d"
  "encode_items C (CBytes x # is) = Some b \<Longrightarrow> length x < 2 ^ 64 \<Longrightarrow>
     \<exists>d. cb_bytes C b = Some (x, d) \<and> encode_items C is = Some d"
  by (auto split: option.splits intro: array_read u16_read u64_read bytes_read)

lemma items_end: "encode_items C [] = Some b \<Longrightarrow> b = []"
  by simp

text \<open>Chains of the same shape that write the same bytes wrote the same values.\<close>

lemma encode_items_inj:
  "list_all2 same_kind is js \<Longrightarrow> list_all item_ok is \<Longrightarrow> list_all item_ok js \<Longrightarrow>
     encode_items C is = Some b \<Longrightarrow> encode_items C js = Some b \<Longrightarrow> is = js"
proof (induction "is" js arbitrary: b rule: list_all2_induct)
  case Nil
  then show ?case by simp
next
  case (Cons i "is" j js)
  then show ?case by (cases i; cases j) (auto simp del: encode_items.simps dest!: items_read)
qed

lemma encode_items_total:
  "list_all item_ok is \<Longrightarrow> \<exists>b. encode_items C is = Some b \<and> length b = items_length is"
proof (induction "is")
  case Nil
  then show ?case by simp
next
  case (Cons i "is")
  then obtain b where "encode_items C is = Some b" "length b = items_length is" by auto
  moreover from Cons.prems obtain c where "cb_encode C i = Some c" "length c = item_length i"
    using encode_total [of i] by auto
  ultimately show ?case by simp
qed

end

declare encode_items.simps [simp del]

section \<open>A codec written from RFC 8949\<close>

fun be_bytes :: "nat \<Rightarrow> nat \<Rightarrow> bytes" where
  "be_bytes 0 n = []"
| "be_bytes (Suc k) n = word_of_nat (n div 256 ^ k) # be_bytes k (n mod 256 ^ k)"

fun be_nat :: "bytes \<Rightarrow> nat" where
  "be_nat [] = 0"
| "be_nat (b # bs) = unat b * 256 ^ length bs + be_nat bs"

lemma length_be_bytes [simp]: "length (be_bytes k n) = k"
  by (induction k arbitrary: n) auto

lemma be_nat_be_bytes: "n < 256 ^ k \<Longrightarrow> be_nat (be_bytes k n) = n"
proof (induction k arbitrary: n)
  case 0
  then show ?case by simp
next
  case (Suc k)
  have "n div 256 ^ k < 256"
    using Suc.prems by (simp add: less_mult_imp_div_less)
  then have "unat (word_of_nat (n div 256 ^ k) :: u8) = n div 256 ^ k"
    by (simp add: unat_of_nat)
  moreover have "be_nat (be_bytes k (n mod 256 ^ k)) = n mod 256 ^ k"
    by (rule Suc.IH) simp
  ultimately show ?case by (simp only: be_bytes.simps be_nat.simps length_be_bytes div_mult_mod_eq)
qed

definition rfc_head :: "nat \<Rightarrow> nat \<Rightarrow> bytes" where
  "rfc_head major n =
     (if n < 24 then [word_of_nat (major * 32 + n)]
      else if n < 2 ^ 8 then word_of_nat (major * 32 + 24) # be_bytes 1 n
      else if n < 2 ^ 16 then word_of_nat (major * 32 + 25) # be_bytes 2 n
      else if n < 2 ^ 32 then word_of_nat (major * 32 + 26) # be_bytes 4 n
      else word_of_nat (major * 32 + 27) # be_bytes 8 n)"

definition rfc_arg :: "nat \<Rightarrow> nat \<Rightarrow> bytes \<Rightarrow> (nat \<times> bytes) option" where
  "rfc_arg k info r =
     (if info < 24 then Some (info, r)
      else if length r < k then None
      else Some (be_nat (take k r), drop k r))"

fun rfc_read_head :: "nat \<Rightarrow> bytes \<Rightarrow> (nat \<times> bytes) option" where
  "rfc_read_head major [] = None"
| "rfc_read_head major (b # r) =
     (let info = unat b mod 32 in
      if unat b div 32 \<noteq> major then None
      else if info < 24 then rfc_arg 0 info r
      else if info = 24 then rfc_arg 1 info r
      else if info = 25 then rfc_arg 2 info r
      else if info = 26 then rfc_arg 4 info r
      else if info = 27 then rfc_arg 8 info r
      else None)"

lemma rfc_arg_bytes: "24 \<le> info \<Longrightarrow> n < 256 ^ k \<Longrightarrow> rfc_arg k info (be_bytes k n @ r) = Some (n, r)"
  by (simp add: rfc_arg_def be_nat_be_bytes)

lemma rfc_initial_byte:
  assumes "major < 8" and "info < 32"
  shows "unat (word_of_nat (major * 32 + info) :: u8) div 32 = major"
    and "unat (word_of_nat (major * 32 + info) :: u8) mod 32 = info"
proof -
  from assms have "major * 32 + info < 256" by linarith
  then have "unat (word_of_nat (major * 32 + info) :: u8) = major * 32 + info"
    by (simp add: unat_of_nat del: of_nat_add of_nat_mult)
  with assms show "unat (word_of_nat (major * 32 + info) :: u8) div 32 = major"
    and "unat (word_of_nat (major * 32 + info) :: u8) mod 32 = info"
    by simp_all
qed

lemma rfc_read_head_Cons:
  assumes "major < 8" and "info < 32"
  shows "rfc_read_head major (word_of_nat (major * 32 + info) # r) =
     (if info < 24 then rfc_arg 0 info r else if info = 24 then rfc_arg 1 info r
      else if info = 25 then rfc_arg 2 info r else if info = 26 then rfc_arg 4 info r
      else if info = 27 then rfc_arg 8 info r else None)"
  using rfc_initial_byte [OF assms] by (simp add: Let_def del: of_nat_add of_nat_mult)

lemma rfc_read_head_head:
  assumes m: "major < 8" and n: "n < 2 ^ 64"
  shows "rfc_read_head major (rfc_head major n @ r) = Some (n, r)"
proof -
  note cons = rfc_read_head_Cons [OF m]
  consider "n < 24" | "24 \<le> n" "n < 256 ^ 1" | "256 ^ 1 \<le> n" "n < 256 ^ 2"
    | "256 ^ 2 \<le> n" "n < 256 ^ 4" | "256 ^ 4 \<le> n" "n < 256 ^ 8"
    using n by fastforce
  then show ?thesis
  proof cases
    case 1
    then show ?thesis using cons [of n r] by (simp add: rfc_head_def rfc_arg_def)
  next
    case 2
    then show ?thesis using cons [of 24] rfc_arg_bytes [of 24 n 1 r]
      by (simp add: rfc_head_def del: be_bytes.simps of_nat_add of_nat_mult)
  next
    case 3
    then show ?thesis using cons [of 25] rfc_arg_bytes [of 25 n 2 r]
      by (simp add: rfc_head_def del: be_bytes.simps of_nat_add of_nat_mult)
  next
    case 4
    then show ?thesis using cons [of 26] rfc_arg_bytes [of 26 n 4 r]
      by (simp add: rfc_head_def del: be_bytes.simps of_nat_add of_nat_mult)
  next
    case 5
    then show ?thesis using cons [of 27] rfc_arg_bytes [of 27 n 8 r]
      by (simp add: rfc_head_def del: be_bytes.simps of_nat_add of_nat_mult)
  qed
qed

lemma length_rfc_head: "length (rfc_head major n) = head_length n"
  by (simp add: rfc_head_def head_length_def del: be_bytes.simps)

definition rfc_uint :: "nat \<Rightarrow> bytes \<Rightarrow> ('w::len word \<times> bytes) option" where
  "rfc_uint major bs = (case rfc_read_head major bs of None \<Rightarrow> None
     | Some (n, r) \<Rightarrow> if n < 2 ^ LENGTH('w) then Some (word_of_nat n, r) else None)"

definition rfc_cbor :: cbor where
  "rfc_cbor = \<lparr>
     cb_encode = (\<lambda>i. case i of CArray n \<Rightarrow> Some (rfc_head 4 (unat n))
       | CU16 v \<Rightarrow> Some (rfc_head 0 (unat v)) | CU64 v \<Rightarrow> Some (rfc_head 0 (unat v))
       | CBytes b \<Rightarrow> Some (rfc_head 2 (length b) @ b)),
     cb_array = (\<lambda>bs. map_option (apfst Some) (rfc_uint 4 bs)),
     cb_u16 = rfc_uint 0,
     cb_u64 = rfc_uint 0,
     cb_bytes = (\<lambda>bs. case rfc_read_head 2 bs of None \<Rightarrow> None
       | Some (n, r) \<Rightarrow> if n \<le> length r then Some (take n r, drop n r) else None) \<rparr>"

lemma rfc_uint_head:
  "major < 8 \<Longrightarrow> LENGTH('w::len) \<le> 64 \<Longrightarrow>
     rfc_uint major (rfc_head major (unat (v :: 'w word)) @ r) = Some (v, r)"
proof -
  assume m: "major < 8" and l: "LENGTH('w) \<le> 64"
  have v: "unat v < 2 ^ LENGTH('w)" by (rule unsigned_less)
  also have "(2 :: nat) ^ LENGTH('w) \<le> 2 ^ 64" using l by (rule power_increasing) simp
  finally have "unat v < 2 ^ 64" .
  with m v show ?thesis by (simp add: rfc_uint_def rfc_read_head_head)
qed

interpretation rfc: cbor_library rfc_cbor
proof (unfold_locales, goal_cases)
  case (1 i)
  then show ?case by (cases i) (auto simp: rfc_cbor_def length_rfc_head)
next
  case (2 n b r)
  then show ?case by (auto simp: rfc_cbor_def rfc_uint_head)
next
  case (3 v b r)
  then show ?case by (auto simp: rfc_cbor_def rfc_uint_head)
next
  case (4 w b r)
  then show ?case by (auto simp: rfc_cbor_def rfc_uint_head)
next
  case (5 x b r)
  then show ?case by (auto simp: rfc_cbor_def rfc_read_head_head)
qed

end
