(* ===== verification/Wire.thy ===== *)
theory Wire
  imports Cbor
begin

text \<open>
  The version 1 wire boundary of \<open>crates/session-protocol/src/lib.rs\<close>: its error type, the
  opaque transport envelope with its canonical encoder and decoder, and the field helpers that
  \<open>invitation.rs\<close> and \<open>protected_join.rs\<close> share. The contract every canonical wire object
  meets is the locale \<open>canonical_codec\<close>.
\<close>

section \<open>Errors and limits\<close>

datatype (plugins only: size code) wire_error =
    WireObjectTooLarge usize usize
  | CiphertextTooLarge usize usize
  | UnsupportedVersion u16
  | UnsupportedObjectType u16
  | InvalidEnvelopeIdLength usize
  | InvalidInvitationIdLength usize
  | InvalidJoinChallengeLength usize
  | InvalidSecretCapabilityLength usize
  | InvalidVerifyingKeyLength usize
  | InvalidSignatureLength usize
  | UnsupportedSignatureSuite u16
  | UnsupportedAdmissionMode u16
  | UnsupportedInvitationUsePolicy u16
  | UnsupportedInvitationEncryptionSuite u16
  | UnsupportedJoinRequestSchema u16
  | UnsupportedApplicationProtocolVersion u16
  | UnsupportedTransportProfile u16
  | ZeroInvitationId
  | ZeroJoinChallenge
  | ZeroSecretCapability
  | ZeroInvitationKeyId
  | ZeroHpkePublicKey
  | InvalidInvitationKeyIdLength usize
  | InvalidHpkePublicKeyLength usize
  | InvalidHpkeEncapsulatedKeyLength usize
  | EmptyProtectedJoinCiphertext
  | ProtectedJoinCiphertextTooLarge usize usize
  | UnsupportedAdmissionProofVersion u16
  | UnsupportedMlsProtocolVersion u16
  | UnsupportedMlsCiphersuite u16
  | UnsupportedCredentialType u16
  | InvalidTransportInstanceIdLength usize
  | InvalidMailboxIdLength usize
  | InvalidDepositCapabilityLength usize
  | ZeroTransportInstanceId
  | ZeroMailboxId
  | ZeroDepositCapability
  | InvalidJoinRequestIdLength usize
  | InvalidRequestNonceLength usize
  | InvalidKeyPackageReferenceLength usize
  | InvalidCredentialIdentityLength usize
  | InvalidLeafSignatureKeyLength usize
  | ZeroJoinRequestId
  | ZeroRequestNonce
  | ZeroCredentialIdentity
  | ZeroLeafSignatureKey
  | InvalidLeafSignatureKey
  | EmptyKeyPackage
  | KeyPackageTooLarge usize usize
  | InvalidJoinRequestTimeRange u64 u64
  | ResponseEndpointOutlivesRequest
  | InvalidInvitationTimeRange u64 u64
  | InvalidVerifyingKey
  | InvalidSignature
  | Malformed
  | TrailingData
  | NonDeterministicEncoding
  | Encoding

definition PROTOCOL_VERSION :: u16 where
  "PROTOCOL_VERSION = 1"

definition MAX_WIRE_OBJECT_BYTES :: usize where
  "MAX_WIRE_OBJECT_BYTES = 64 * 1024"

definition MAX_ENVELOPE_CIPHERTEXT_BYTES :: usize where
  "MAX_ENVELOPE_CIPHERTEXT_BYTES = 60 * 1024"

definition ENVELOPE_ID_BYTES :: usize where
  "ENVELOPE_ID_BYTES = 16"

definition OPAQUE_ENVELOPE_FIELDS :: u64 where
  "OPAQUE_ENVELOPE_FIELDS = 5"

named_theorems wire_consts \<open>numeric values of the wire constants\<close>

lemmas [wire_consts] = PROTOCOL_VERSION_def MAX_WIRE_OBJECT_BYTES_def
  MAX_ENVELOPE_CIPHERTEXT_BYTES_def ENVELOPE_ID_BYTES_def OPAQUE_ENVELOPE_FIELDS_def

datatype wire_object_type = OpaqueEnvelope | SignedCapabilityInvitation | ProtectedJoinRequest

fun wire_object_code :: "wire_object_type \<Rightarrow> u16" where
  "wire_object_code OpaqueEnvelope = 1"
| "wire_object_code SignedCapabilityInvitation = 2"
| "wire_object_code ProtectedJoinRequest = 3"

definition WireObjectType_try_from :: "u16 \<Rightarrow> wire_error + wire_object_type" where
  "WireObjectType_try_from v =
     (if v = wire_object_code OpaqueEnvelope then Ok OpaqueEnvelope
      else if v = wire_object_code SignedCapabilityInvitation then Ok SignedCapabilityInvitation
      else if v = wire_object_code ProtectedJoinRequest then Ok ProtectedJoinRequest
      else Err (UnsupportedObjectType v))"

section \<open>Field helpers\<close>

text \<open>A decoder call whose error is reported as \<open>Malformed\<close>.\<close>

definition dec :: "(bytes \<Rightarrow> ('a \<times> bytes) option) \<Rightarrow> bytes \<Rightarrow> wire_error + 'a \<times> bytes" where
  "dec f d = ok_or Malformed (f d)"

definition prebound :: "bytes \<Rightarrow> usize \<Rightarrow> wire_error + unit" where
  "prebound bs maximum =
     (if length bs > maximum then Err (WireObjectTooLarge (length bs) maximum) else Ok ())"

definition require_array :: "cbor \<Rightarrow> bytes \<Rightarrow> u64 \<Rightarrow> wire_error + bytes" where
  "require_array C d n_fields =
     and_then (dec (cb_array C) d) (\<lambda>(n, d). if n \<noteq> Some n_fields then Err Malformed else Ok d)"

definition require_value :: "cbor \<Rightarrow> bytes \<Rightarrow> u16 \<Rightarrow> (u16 \<Rightarrow> wire_error) \<Rightarrow> wire_error + bytes" where
  "require_value C d expected error =
     and_then (dec (cb_u16 C) d) (\<lambda>(actual, d). if actual \<noteq> expected then Err (error actual) else Ok d)"

definition decode_fixed ::
    "cbor \<Rightarrow> usize \<Rightarrow> bytes \<Rightarrow> (usize \<Rightarrow> wire_error) \<Rightarrow> wire_error + bytes \<times> bytes" where
  "decode_fixed C N d length_error =
     and_then (dec (cb_bytes C) d) (\<lambda>(encoded, d).
       if length encoded \<noteq> N then Err (length_error (length encoded)) else Ok (encoded, d))"

definition reject_zero :: "bytes \<Rightarrow> wire_error \<Rightarrow> wire_error + unit" where
  "reject_zero bs error = (if all_zero bs then Err error else Ok ())"

definition reject_trailing :: "bytes \<Rightarrow> wire_error + unit" where
  "reject_trailing d = (if d \<noteq> [] then Err TrailingData else Ok ())"

text \<open>\<open>TryFrom<u16>\<close> of an enumeration with the single member \<open>code\<close>.\<close>

definition try_single :: "u16 \<Rightarrow> (u16 \<Rightarrow> wire_error) \<Rightarrow> u16 \<Rightarrow> wire_error + unit" where
  "try_single code unsupported v = (if v = code then Ok () else Err (unsupported v))"

text \<open>\<open>T::try_from(decoder.u16()?)?\<close> for such an enumeration.\<close>

definition dec_enum :: "cbor \<Rightarrow> bytes \<Rightarrow> (u16 \<Rightarrow> wire_error + unit) \<Rightarrow> wire_error + bytes" where
  "dec_enum C d try_from =
     and_then (dec (cb_u16 C) d) (\<lambda>(v, d). and_then (try_from v) (\<lambda>_. Ok d))"

lemma dec_eq_Inr [ok_iff]: "dec f d = Inr p \<longleftrightarrow> f d = Some p"
  by (simp add: dec_def ok_iff)

lemma prebound_eq_Inr [ok_iff]: "prebound bs m = Inr u \<longleftrightarrow> length bs \<le> m"
  by (simp add: prebound_def)

lemma reject_zero_eq_Inr [ok_iff]: "reject_zero bs e = Inr u \<longleftrightarrow> \<not> all_zero bs"
  by (simp add: reject_zero_def)

lemma reject_trailing_eq_Inr [ok_iff]: "reject_trailing d = Inr u \<longleftrightarrow> d = []"
  by (simp add: reject_trailing_def)

lemma try_single_eq_Inr [ok_iff]: "try_single code e v = Inr u \<longleftrightarrow> v = code"
  by (simp add: try_single_def)

lemma require_array_eq_Inr [ok_iff]:
  "require_array C d n = Inr d' \<longleftrightarrow> cb_array C d = Some (Some n, d')"
  by (auto simp: require_array_def ok_iff split: if_splits)

lemma require_value_eq_Inr [ok_iff]:
  "require_value C d v e = Inr d' \<longleftrightarrow> cb_u16 C d = Some (v, d')"
  by (auto simp: require_value_def ok_iff split: if_splits)

lemma decode_fixed_eq_Inr [ok_iff]:
  "decode_fixed C N d e = Inr (x, d') \<longleftrightarrow> cb_bytes C d = Some (x, d') \<and> length x = N"
  by (auto simp: decode_fixed_def ok_iff split: if_splits)

lemma dec_enum_eq_Inr [ok_iff]:
  "dec_enum C d (try_single code e) = Inr d' \<longleftrightarrow> cb_u16 C d = Some (code, d')"
  by (auto simp: dec_enum_def ok_iff)

section \<open>The opaque envelope\<close>

record opaque_envelope =
  envelope_id :: ident
  env_expires_at :: u64
  ciphertext :: bytes

definition OpaqueEnvelope_new ::
    "ident \<Rightarrow> u64 \<Rightarrow> bytes \<Rightarrow> wire_error + opaque_envelope" where
  "OpaqueEnvelope_new eid expires_at ct =
     (if length ct > MAX_ENVELOPE_CIPHERTEXT_BYTES
      then Err (CiphertextTooLarge (length ct) MAX_ENVELOPE_CIPHERTEXT_BYTES)
      else Ok \<lparr> envelope_id = eid, env_expires_at = expires_at, ciphertext = ct \<rparr>)"

definition OpaqueEnvelope_encode_canonical ::
    "cbor \<Rightarrow> opaque_envelope \<Rightarrow> wire_error + bytes" where
  "OpaqueEnvelope_encode_canonical C e =
     and_then (ok_or Encoding (encode_items C
       [CArray OPAQUE_ENVELOPE_FIELDS, CU16 PROTOCOL_VERSION,
        CU16 (wire_object_code OpaqueEnvelope), CBytes (envelope_id e),
        CU64 (env_expires_at e), CBytes (ciphertext e)]))
     (\<lambda>encoded. if length encoded > MAX_WIRE_OBJECT_BYTES
       then Err (WireObjectTooLarge (length encoded) MAX_WIRE_OBJECT_BYTES)
       else Ok encoded)"

definition OpaqueEnvelope_decode_canonical ::
    "cbor \<Rightarrow> bytes \<Rightarrow> wire_error + opaque_envelope" where
  "OpaqueEnvelope_decode_canonical C bs =
     (if length bs > MAX_WIRE_OBJECT_BYTES
      then Err (WireObjectTooLarge (length bs) MAX_WIRE_OBJECT_BYTES)
      else and_then (dec (cb_array C) bs) (\<lambda>(n, d).
        if n \<noteq> Some OPAQUE_ENVELOPE_FIELDS then Err Malformed
        else and_then (dec (cb_u16 C) d) (\<lambda>(version, d).
        if version \<noteq> PROTOCOL_VERSION then Err (UnsupportedVersion version)
        else and_then (dec (cb_u16 C) d) (\<lambda>(object_type, d).
        if object_type \<noteq> wire_object_code OpaqueEnvelope
        then Err (UnsupportedObjectType object_type)
        else and_then (dec (cb_bytes C) d) (\<lambda>(encoded_id, d).
        if length encoded_id \<noteq> ENVELOPE_ID_BYTES
        then Err (InvalidEnvelopeIdLength (length encoded_id))
        else and_then (dec (cb_u64 C) d) (\<lambda>(expires_at, d).
        and_then (dec (cb_bytes C) d) (\<lambda>(ct, d).
        if length ct > MAX_ENVELOPE_CIPHERTEXT_BYTES
        then Err (CiphertextTooLarge (length ct) MAX_ENVELOPE_CIPHERTEXT_BYTES)
        else if d \<noteq> [] then Err TrailingData
        else and_then (OpaqueEnvelope_new encoded_id expires_at ct) (\<lambda>envelope.
        and_then (OpaqueEnvelope_encode_canonical C envelope) (\<lambda>reencoded.
        if reencoded \<noteq> bs then Err NonDeterministicEncoding else Ok envelope)))))))))"

definition envelope_wf :: "opaque_envelope \<Rightarrow> bool" where
  "envelope_wf e \<longleftrightarrow> length (envelope_id e) = ENVELOPE_ID_BYTES
     \<and> length (ciphertext e) \<le> MAX_ENVELOPE_CIPHERTEXT_BYTES"

section \<open>The contract of a canonical wire object\<close>

text \<open>
  Every well-formed value has an encoding, decoding that encoding returns the value, and nothing
  else decodes: a byte string accepted by the decoder is the encoding of the value it yields.
\<close>

locale canonical_codec =
  fixes encode :: "'a \<Rightarrow> 'e + bytes"
    and decode :: "bytes \<Rightarrow> 'e + 'a"
    and wf :: "'a \<Rightarrow> bool"
  assumes encode_ok: "wf x \<Longrightarrow> \<exists>b. encode x = Inr b"
    and decode_encode: "wf x \<Longrightarrow> encode x = Inr b \<Longrightarrow> decode b = Inr x"
    and encode_decode: "decode b = Inr x \<Longrightarrow> encode x = Inr b"
    and decode_wf: "decode b = Inr x \<Longrightarrow> wf x"
begin

lemma round_trip: "wf x \<Longrightarrow> \<exists>b. encode x = Inr b \<and> decode b = Inr x"
  using encode_ok decode_encode by blast

lemma decode_iff: "decode b = Inr x \<longleftrightarrow> wf x \<and> encode x = Inr b"
  using decode_encode encode_decode decode_wf by blast

lemma decode_unique: "decode b = Inr x \<Longrightarrow> decode b' = Inr x \<Longrightarrow> b = b'"
  by (auto dest!: encode_decode)

lemma encode_inj: "wf x \<Longrightarrow> wf y \<Longrightarrow> encode x = Inr b \<Longrightarrow> encode y = Inr b \<Longrightarrow> x = y"
  using decode_encode [of x b] decode_encode [of y b] by simp

end

lemma envelope_encode_decode:
  "OpaqueEnvelope_decode_canonical C b = Inr e \<Longrightarrow> OpaqueEnvelope_encode_canonical C e = Inr b"
  by (auto simp: OpaqueEnvelope_decode_canonical_def ok_iff split: if_splits)

lemma envelope_decode_wf: "OpaqueEnvelope_decode_canonical C b = Inr e \<Longrightarrow> envelope_wf e"
  by (auto simp: OpaqueEnvelope_decode_canonical_def OpaqueEnvelope_new_def envelope_wf_def ok_iff
      split: if_splits)

context cbor_library
begin

lemma envelope_encode_ok:
  assumes "envelope_wf e"
  shows "\<exists>b. OpaqueEnvelope_encode_canonical C e = Inr b"
proof -
  let ?is = "[CArray OPAQUE_ENVELOPE_FIELDS, CU16 PROTOCOL_VERSION,
        CU16 (wire_object_code OpaqueEnvelope), CBytes (envelope_id e),
        CU64 (env_expires_at e), CBytes (ciphertext e)]"
  obtain b where b: "encode_items C ?is = Some b" "length b = items_length ?is"
    using assms encode_items_total [of ?is] by (auto simp: envelope_wf_def wire_consts)
  moreover have "items_length ?is \<le> MAX_WIRE_OBJECT_BYTES"
    using assms head_length_bounds(2) [of "unat (env_expires_at e)"]
      head_length_16 [of "length (ciphertext e)"]
    by (simp add: envelope_wf_def wire_consts head_length_small)
  ultimately show ?thesis by (simp add: OpaqueEnvelope_encode_canonical_def)
qed

lemma envelope_decode_encode:
  assumes wf: "envelope_wf e" and enc: "OpaqueEnvelope_encode_canonical C e = Inr b"
  shows "OpaqueEnvelope_decode_canonical C b = Inr e"
proof -
  have new: "OpaqueEnvelope_new (envelope_id e) (env_expires_at e) (ciphertext e) = Inr e"
    using wf by (simp add: OpaqueEnvelope_new_def envelope_wf_def)
  have "length (envelope_id e) < 2 ^ 64" "length (ciphertext e) < 2 ^ 64"
    using wf by (auto simp: envelope_wf_def wire_consts)
  moreover have "length b \<le> MAX_WIRE_OBJECT_BYTES"
    using enc by (auto simp: OpaqueEnvelope_encode_canonical_def ok_iff split: if_splits)
  moreover have "encode_items C [CArray OPAQUE_ENVELOPE_FIELDS, CU16 PROTOCOL_VERSION,
        CU16 (wire_object_code OpaqueEnvelope), CBytes (envelope_id e),
        CU64 (env_expires_at e), CBytes (ciphertext e)] = Some b"
    using enc by (auto simp: OpaqueEnvelope_encode_canonical_def ok_iff split: if_splits)
  ultimately show ?thesis
    using enc wf new
    by (auto simp: OpaqueEnvelope_decode_canonical_def dec_def envelope_wf_def
        dest!: items_read items_end)
qed

end

sublocale cbor_library \<subseteq> envelope: canonical_codec
  "OpaqueEnvelope_encode_canonical C" "OpaqueEnvelope_decode_canonical C" envelope_wf
proof (unfold_locales, goal_cases)
  case (1 x)
  then show ?case by (rule envelope_encode_ok)
next
  case (2 x b)
  then show ?case by (rule envelope_decode_encode)
next
  case (3 b x)
  then show ?case by (rule envelope_encode_decode)
next
  case (4 b x)
  then show ?case by (rule envelope_decode_wf)
qed

end
