(* ===== verification/Invitation.thy ===== *)
theory Invitation
  imports Wire
begin

text \<open>
  The signed capability invitations of \<open>crates/session-protocol/src/invitation.rs\<close>: claims,
  the domain-separated signing input, signing, the canonical encoding and the verifying decoder,
  for schema versions 1 and 2. Ed25519 (\<open>ed25519_dalek\<close>) is a parameter.
\<close>

section \<open>Ed25519 as a parameter\<close>

text \<open>
  \<open>ed_from_bytes\<close> is \<open>VerifyingKey::from_bytes\<close>, \<open>ed_to_bytes\<close> is \<open>to_bytes\<close>, \<open>ed_verify_strict\<close>
  takes the key, the message and the signature bytes.
\<close>

record ('sk, 'vk) ed25519 =
  ed_verifying_key :: "'sk \<Rightarrow> 'vk"
  ed_sign :: "'sk \<Rightarrow> bytes \<Rightarrow> bytes"
  ed_from_bytes :: "bytes \<Rightarrow> 'vk option"
  ed_to_bytes :: "'vk \<Rightarrow> bytes"
  ed_is_weak :: "'vk \<Rightarrow> bool"
  ed_verify_strict :: "'vk \<Rightarrow> bytes \<Rightarrow> bytes \<Rightarrow> bool"

section \<open>Constants and closed enumerations\<close>

definition MAX_SIGNED_INVITATION_BYTES :: usize where
  "MAX_SIGNED_INVITATION_BYTES = 512"

definition ascii_bytes :: "string \<Rightarrow> bytes" where
  "ascii_bytes s = map of_char s"

definition SIGNED_INVITATION_SIGNATURE_DOMAIN :: bytes where
  "SIGNED_INVITATION_SIGNATURE_DOMAIN = ascii_bytes ''session-chat/signed-invitation/v1'' @ [0]"

definition SIGNED_INVITATION_V2_SIGNATURE_DOMAIN :: bytes where
  "SIGNED_INVITATION_V2_SIGNATURE_DOMAIN = ascii_bytes ''session-chat/signed-invitation/v2'' @ [0]"

definition INVITATION_V2_VERSION :: u16 where "INVITATION_V2_VERSION = 2"
definition INVITATION_ID_BYTES :: usize where "INVITATION_ID_BYTES = 16"
definition JOIN_CHALLENGE_BYTES :: usize where "JOIN_CHALLENGE_BYTES = 32"
definition SECRET_CAPABILITY_BYTES :: usize where "SECRET_CAPABILITY_BYTES = 32"
definition VERIFYING_KEY_BYTES :: usize where "VERIFYING_KEY_BYTES = 32"
definition SIGNATURE_BYTES :: usize where "SIGNATURE_BYTES = 64"
definition UNSIGNED_INVITATION_FIELDS :: u64 where "UNSIGNED_INVITATION_FIELDS = 11"
definition SIGNED_INVITATION_FIELDS :: u64 where "SIGNED_INVITATION_FIELDS = 12"
definition UNSIGNED_INVITATION_V2_FIELDS :: u64 where "UNSIGNED_INVITATION_V2_FIELDS = 17"
definition SIGNED_INVITATION_V2_FIELDS :: u64 where "SIGNED_INVITATION_V2_FIELDS = 18"
definition INVITATION_KEY_ID_BYTES :: usize where "INVITATION_KEY_ID_BYTES = 16"
definition HPKE_PUBLIC_KEY_BYTES :: usize where "HPKE_PUBLIC_KEY_BYTES = 32"

lemmas [wire_consts] = MAX_SIGNED_INVITATION_BYTES_def INVITATION_V2_VERSION_def
  INVITATION_ID_BYTES_def JOIN_CHALLENGE_BYTES_def SECRET_CAPABILITY_BYTES_def
  VERIFYING_KEY_BYTES_def SIGNATURE_BYTES_def UNSIGNED_INVITATION_FIELDS_def
  SIGNED_INVITATION_FIELDS_def UNSIGNED_INVITATION_V2_FIELDS_def SIGNED_INVITATION_V2_FIELDS_def
  INVITATION_KEY_ID_BYTES_def HPKE_PUBLIC_KEY_BYTES_def

text \<open>Each enumeration has one member; it is represented by its discriminant.\<close>

definition SignatureSuite_Ed25519 :: u16 where "SignatureSuite_Ed25519 = 1"
definition AdmissionMode_SecretCapability :: u16 where "AdmissionMode_SecretCapability = 1"
definition InvitationUsePolicy_SingleUse :: u16 where "InvitationUsePolicy_SingleUse = 1"
definition InvitationEncryptionSuite_X25519Psk :: u16 where "InvitationEncryptionSuite_X25519Psk = 1"
definition JoinRequestSchemaVersion_V1 :: u16 where "JoinRequestSchemaVersion_V1 = 1"
definition ApplicationProtocolVersion_V1 :: u16 where "ApplicationProtocolVersion_V1 = 1"
definition TransportProfile_LocalMemory :: u16 where "TransportProfile_LocalMemory = 1"

lemmas [wire_consts] = SignatureSuite_Ed25519_def AdmissionMode_SecretCapability_def
  InvitationUsePolicy_SingleUse_def InvitationEncryptionSuite_X25519Psk_def
  JoinRequestSchemaVersion_V1_def ApplicationProtocolVersion_V1_def TransportProfile_LocalMemory_def

named_theorems enum_defs \<open>definitions of the closed enumerations' conversions\<close>

definition SignatureSuite_try_from :: "u16 \<Rightarrow> wire_error + unit" where
  [enum_defs]: "SignatureSuite_try_from = try_single SignatureSuite_Ed25519 UnsupportedSignatureSuite"

definition AdmissionMode_try_from :: "u16 \<Rightarrow> wire_error + unit" where
  [enum_defs]: "AdmissionMode_try_from = try_single AdmissionMode_SecretCapability UnsupportedAdmissionMode"

definition InvitationUsePolicy_try_from :: "u16 \<Rightarrow> wire_error + unit" where
  [enum_defs]: "InvitationUsePolicy_try_from =
     try_single InvitationUsePolicy_SingleUse UnsupportedInvitationUsePolicy"

definition InvitationEncryptionSuite_try_from :: "u16 \<Rightarrow> wire_error + unit" where
  [enum_defs]: "InvitationEncryptionSuite_try_from =
     try_single InvitationEncryptionSuite_X25519Psk UnsupportedInvitationEncryptionSuite"

definition JoinRequestSchemaVersion_try_from :: "u16 \<Rightarrow> wire_error + unit" where
  [enum_defs]: "JoinRequestSchemaVersion_try_from =
     try_single JoinRequestSchemaVersion_V1 UnsupportedJoinRequestSchema"

definition ApplicationProtocolVersion_try_from :: "u16 \<Rightarrow> wire_error + unit" where
  [enum_defs]: "ApplicationProtocolVersion_try_from =
     try_single ApplicationProtocolVersion_V1 UnsupportedApplicationProtocolVersion"

definition TransportProfile_try_from :: "u16 \<Rightarrow> wire_error + unit" where
  [enum_defs]: "TransportProfile_try_from =
     try_single TransportProfile_LocalMemory UnsupportedTransportProfile"

section \<open>Claims\<close>

definition SecretCapability_new :: "bytes \<Rightarrow> wire_error + bytes" where
  "SecretCapability_new bs = (if all_zero bs then Err ZeroSecretCapability else Ok bs)"

record capability_invitation_claims =
  cl_invitation_id :: ident
  cl_issued_at :: u64
  cl_expires_at :: u64
  cl_join_challenge :: bytes
  cl_capability :: bytes

definition CapabilityInvitationClaims_new ::
    "ident \<Rightarrow> u64 \<Rightarrow> u64 \<Rightarrow> bytes \<Rightarrow> bytes \<Rightarrow> wire_error + capability_invitation_claims" where
  "CapabilityInvitationClaims_new iid issued_at expires_at challenge capability =
     (if all_zero iid then Err ZeroInvitationId
      else if all_zero challenge then Err ZeroJoinChallenge
      else if expires_at \<le> issued_at then Err (InvalidInvitationTimeRange issued_at expires_at)
      else Ok \<lparr> cl_invitation_id = iid, cl_issued_at = issued_at, cl_expires_at = expires_at,
                cl_join_challenge = challenge, cl_capability = capability \<rparr>)"

record capability_invitation_v2_claims =
  cl2_base :: capability_invitation_claims
  cl2_invitation_key_id :: ident
  cl2_hpke_public_key :: bytes

definition CapabilityInvitationV2Claims_new ::
    "capability_invitation_claims \<Rightarrow> ident \<Rightarrow> bytes \<Rightarrow> wire_error + capability_invitation_v2_claims" where
  "CapabilityInvitationV2Claims_new base key_id public_key =
     (if all_zero key_id then Err ZeroInvitationKeyId
      else if all_zero public_key then Err ZeroHpkePublicKey
      else Ok \<lparr> cl2_base = base, cl2_invitation_key_id = key_id, cl2_hpke_public_key = public_key \<rparr>)"

definition claims_wf :: "capability_invitation_claims \<Rightarrow> bool" where
  "claims_wf c \<longleftrightarrow>
     length (cl_invitation_id c) = INVITATION_ID_BYTES \<and> \<not> all_zero (cl_invitation_id c)
     \<and> length (cl_join_challenge c) = JOIN_CHALLENGE_BYTES \<and> \<not> all_zero (cl_join_challenge c)
     \<and> length (cl_capability c) = SECRET_CAPABILITY_BYTES \<and> \<not> all_zero (cl_capability c)
     \<and> cl_issued_at c < cl_expires_at c"

definition claims_v2_wf :: "capability_invitation_v2_claims \<Rightarrow> bool" where
  "claims_v2_wf c \<longleftrightarrow> claims_wf (cl2_base c)
     \<and> length (cl2_invitation_key_id c) = INVITATION_KEY_ID_BYTES \<and> \<not> all_zero (cl2_invitation_key_id c)
     \<and> length (cl2_hpke_public_key c) = HPKE_PUBLIC_KEY_BYTES \<and> \<not> all_zero (cl2_hpke_public_key c)"

section \<open>Version 1\<close>

record signed_capability_invitation =
  inv_claims :: capability_invitation_claims
  inv_verifying_key :: bytes
  inv_signature :: bytes

definition invitation_items ::
    "u64 \<Rightarrow> capability_invitation_claims \<Rightarrow> bytes \<Rightarrow> cbor_item list" where
  "invitation_items field_count c vk =
     [CArray field_count, CU16 PROTOCOL_VERSION, CU16 (wire_object_code SignedCapabilityInvitation),
      CU16 SignatureSuite_Ed25519, CBytes (cl_invitation_id c), CU64 (cl_issued_at c),
      CU64 (cl_expires_at c), CU16 AdmissionMode_SecretCapability, CU16 InvitationUsePolicy_SingleUse,
      CBytes (cl_join_challenge c), CBytes (cl_capability c), CBytes vk]"

definition encode_fields ::
    "cbor \<Rightarrow> u64 \<Rightarrow> capability_invitation_claims \<Rightarrow> bytes \<Rightarrow> wire_error + bytes" where
  "encode_fields C field_count c vk = ok_or Encoding (encode_items C (invitation_items field_count c vk))"

definition signing_input ::
    "cbor \<Rightarrow> capability_invitation_claims \<Rightarrow> bytes \<Rightarrow> wire_error + bytes" where
  "signing_input C c vk =
     and_then (encode_fields C UNSIGNED_INVITATION_FIELDS c vk) (\<lambda>unsigned.
       Ok (SIGNED_INVITATION_SIGNATURE_DOMAIN @ unsigned))"

definition SignedCapabilityInvitation_sign ::
    "cbor \<Rightarrow> ('sk, 'vk) ed25519 \<Rightarrow> capability_invitation_claims \<Rightarrow> 'sk
      \<Rightarrow> wire_error + signed_capability_invitation" where
  "SignedCapabilityInvitation_sign C E c sk =
     (let vk = ed_to_bytes E (ed_verifying_key E sk) in
      and_then (signing_input C c vk) (\<lambda>input.
        Ok \<lparr> inv_claims = c, inv_verifying_key = vk, inv_signature = ed_sign E sk input \<rparr>))"

definition SignedCapabilityInvitation_encode_canonical ::
    "cbor \<Rightarrow> signed_capability_invitation \<Rightarrow> wire_error + bytes" where
  "SignedCapabilityInvitation_encode_canonical C i =
     and_then (encode_fields C SIGNED_INVITATION_FIELDS (inv_claims i) (inv_verifying_key i)) (\<lambda>b.
     and_then (ok_or Encoding (encode_items C [CBytes (inv_signature i)])) (\<lambda>s.
       let encoded = b @ s in
       if length encoded > MAX_SIGNED_INVITATION_BYTES
       then Err (WireObjectTooLarge (length encoded) MAX_SIGNED_INVITATION_BYTES)
       else Ok encoded))"

definition SignedCapabilityInvitation_decode_and_verify ::
    "cbor \<Rightarrow> ('sk, 'vk) ed25519 \<Rightarrow> bytes \<Rightarrow> wire_error + signed_capability_invitation" where
  "SignedCapabilityInvitation_decode_and_verify C E bs =
     (if length bs > MAX_SIGNED_INVITATION_BYTES
      then Err (WireObjectTooLarge (length bs) MAX_SIGNED_INVITATION_BYTES)
      else and_then (dec (cb_array C) bs) (\<lambda>(n, d).
        if n \<noteq> Some SIGNED_INVITATION_FIELDS then Err Malformed
        else and_then (dec (cb_u16 C) d) (\<lambda>(version, d).
        if version \<noteq> PROTOCOL_VERSION then Err (UnsupportedVersion version)
        else and_then (dec (cb_u16 C) d) (\<lambda>(object_type, d).
        if object_type \<noteq> wire_object_code SignedCapabilityInvitation
        then Err (UnsupportedObjectType object_type)
        else and_then (dec_enum C d SignatureSuite_try_from) (\<lambda>d.
        and_then (decode_fixed C INVITATION_ID_BYTES d InvalidInvitationIdLength) (\<lambda>(iid, d).
        and_then (dec (cb_u64 C) d) (\<lambda>(issued_at, d).
        and_then (dec (cb_u64 C) d) (\<lambda>(expires_at, d).
        and_then (dec_enum C d AdmissionMode_try_from) (\<lambda>d.
        and_then (dec_enum C d InvitationUsePolicy_try_from) (\<lambda>d.
        and_then (decode_fixed C JOIN_CHALLENGE_BYTES d InvalidJoinChallengeLength) (\<lambda>(challenge, d).
        and_then (decode_fixed C SECRET_CAPABILITY_BYTES d InvalidSecretCapabilityLength) (\<lambda>(capability, d).
        and_then (decode_fixed C VERIFYING_KEY_BYTES d InvalidVerifyingKeyLength) (\<lambda>(vk, d).
        and_then (decode_fixed C SIGNATURE_BYTES d InvalidSignatureLength) (\<lambda>(signature, d).
        if d \<noteq> [] then Err TrailingData
        else and_then (SecretCapability_new capability) (\<lambda>capability.
        and_then (CapabilityInvitationClaims_new iid issued_at expires_at challenge capability) (\<lambda>claims.
        let invitation = \<lparr> inv_claims = claims, inv_verifying_key = vk, inv_signature = signature \<rparr> in
        and_then (SignedCapabilityInvitation_encode_canonical C invitation) (\<lambda>canonical.
        if canonical \<noteq> bs then Err NonDeterministicEncoding
        else and_then (ok_or InvalidVerifyingKey (ed_from_bytes E vk)) (\<lambda>key.
        and_then (signing_input C claims vk) (\<lambda>input.
        if ed_verify_strict E key input signature then Ok invitation
        else Err InvalidSignature)))))))))))))))))))"

section \<open>Version 2\<close>

record signed_capability_invitation_v2 =
  inv2_claims :: capability_invitation_v2_claims
  inv2_verifying_key :: bytes
  inv2_signature :: bytes

definition invitation_v2_items ::
    "u64 \<Rightarrow> capability_invitation_v2_claims \<Rightarrow> bytes \<Rightarrow> cbor_item list" where
  "invitation_v2_items field_count c vk =
     [CArray field_count, CU16 INVITATION_V2_VERSION,
      CU16 (wire_object_code SignedCapabilityInvitation), CU16 SignatureSuite_Ed25519,
      CU16 InvitationEncryptionSuite_X25519Psk, CU16 JoinRequestSchemaVersion_V1,
      CU16 ApplicationProtocolVersion_V1, CU16 TransportProfile_LocalMemory,
      CBytes (cl_invitation_id (cl2_base c)), CU64 (cl_issued_at (cl2_base c)),
      CU64 (cl_expires_at (cl2_base c)), CU16 AdmissionMode_SecretCapability,
      CU16 InvitationUsePolicy_SingleUse, CBytes (cl_join_challenge (cl2_base c)),
      CBytes (cl_capability (cl2_base c)), CBytes vk, CBytes (cl2_invitation_key_id c),
      CBytes (cl2_hpke_public_key c)]"

definition encode_fields_v2 ::
    "cbor \<Rightarrow> u64 \<Rightarrow> capability_invitation_v2_claims \<Rightarrow> bytes \<Rightarrow> wire_error + bytes" where
  "encode_fields_v2 C field_count c vk =
     ok_or Encoding (encode_items C (invitation_v2_items field_count c vk))"

definition signing_input_v2 ::
    "cbor \<Rightarrow> capability_invitation_v2_claims \<Rightarrow> bytes \<Rightarrow> wire_error + bytes" where
  "signing_input_v2 C c vk =
     and_then (encode_fields_v2 C UNSIGNED_INVITATION_V2_FIELDS c vk) (\<lambda>unsigned.
       Ok (SIGNED_INVITATION_V2_SIGNATURE_DOMAIN @ unsigned))"

definition SignedCapabilityInvitationV2_sign ::
    "cbor \<Rightarrow> ('sk, 'vk) ed25519 \<Rightarrow> capability_invitation_v2_claims \<Rightarrow> 'sk
      \<Rightarrow> wire_error + signed_capability_invitation_v2" where
  "SignedCapabilityInvitationV2_sign C E c sk =
     (let vk = ed_to_bytes E (ed_verifying_key E sk) in
      and_then (signing_input_v2 C c vk) (\<lambda>input.
        Ok \<lparr> inv2_claims = c, inv2_verifying_key = vk, inv2_signature = ed_sign E sk input \<rparr>))"

definition SignedCapabilityInvitationV2_encode_canonical ::
    "cbor \<Rightarrow> signed_capability_invitation_v2 \<Rightarrow> wire_error + bytes" where
  "SignedCapabilityInvitationV2_encode_canonical C i =
     and_then (encode_fields_v2 C SIGNED_INVITATION_V2_FIELDS (inv2_claims i) (inv2_verifying_key i)) (\<lambda>b.
     and_then (ok_or Encoding (encode_items C [CBytes (inv2_signature i)])) (\<lambda>s.
       let encoded = b @ s in
       if length encoded > MAX_SIGNED_INVITATION_BYTES
       then Err (WireObjectTooLarge (length encoded) MAX_SIGNED_INVITATION_BYTES)
       else Ok encoded))"

definition SignedCapabilityInvitationV2_decode_and_verify ::
    "cbor \<Rightarrow> ('sk, 'vk) ed25519 \<Rightarrow> bytes \<Rightarrow> wire_error + signed_capability_invitation_v2" where
  "SignedCapabilityInvitationV2_decode_and_verify C E bs =
     (if length bs > MAX_SIGNED_INVITATION_BYTES
      then Err (WireObjectTooLarge (length bs) MAX_SIGNED_INVITATION_BYTES)
      else and_then (dec (cb_array C) bs) (\<lambda>(n, d).
        if n \<noteq> Some SIGNED_INVITATION_V2_FIELDS then Err Malformed
        else and_then (dec (cb_u16 C) d) (\<lambda>(version, d).
        if version \<noteq> INVITATION_V2_VERSION then Err (UnsupportedVersion version)
        else and_then (dec (cb_u16 C) d) (\<lambda>(object_type, d).
        if object_type \<noteq> wire_object_code SignedCapabilityInvitation
        then Err (UnsupportedObjectType object_type)
        else and_then (dec_enum C d SignatureSuite_try_from) (\<lambda>d.
        and_then (dec_enum C d InvitationEncryptionSuite_try_from) (\<lambda>d.
        and_then (dec_enum C d JoinRequestSchemaVersion_try_from) (\<lambda>d.
        and_then (dec_enum C d ApplicationProtocolVersion_try_from) (\<lambda>d.
        and_then (dec_enum C d TransportProfile_try_from) (\<lambda>d.
        and_then (decode_fixed C INVITATION_ID_BYTES d InvalidInvitationIdLength) (\<lambda>(iid, d).
        and_then (dec (cb_u64 C) d) (\<lambda>(issued_at, d).
        and_then (dec (cb_u64 C) d) (\<lambda>(expires_at, d).
        and_then (dec_enum C d AdmissionMode_try_from) (\<lambda>d.
        and_then (dec_enum C d InvitationUsePolicy_try_from) (\<lambda>d.
        and_then (decode_fixed C JOIN_CHALLENGE_BYTES d InvalidJoinChallengeLength) (\<lambda>(challenge, d).
        and_then (decode_fixed C SECRET_CAPABILITY_BYTES d InvalidSecretCapabilityLength) (\<lambda>(capability, d).
        and_then (decode_fixed C VERIFYING_KEY_BYTES d InvalidVerifyingKeyLength) (\<lambda>(vk, d).
        and_then (decode_fixed C INVITATION_KEY_ID_BYTES d InvalidInvitationKeyIdLength) (\<lambda>(key_id, d).
        and_then (decode_fixed C HPKE_PUBLIC_KEY_BYTES d InvalidHpkePublicKeyLength) (\<lambda>(public_key, d).
        and_then (decode_fixed C SIGNATURE_BYTES d InvalidSignatureLength) (\<lambda>(signature, d).
        if d \<noteq> [] then Err TrailingData
        else and_then (SecretCapability_new capability) (\<lambda>capability.
        and_then (CapabilityInvitationClaims_new iid issued_at expires_at challenge capability) (\<lambda>base.
        and_then (CapabilityInvitationV2Claims_new base key_id public_key) (\<lambda>claims.
        let invitation = \<lparr> inv2_claims = claims, inv2_verifying_key = vk, inv2_signature = signature \<rparr> in
        and_then (SignedCapabilityInvitationV2_encode_canonical C invitation) (\<lambda>canonical.
        if canonical \<noteq> bs then Err NonDeterministicEncoding
        else and_then (ok_or InvalidVerifyingKey (ed_from_bytes E vk)) (\<lambda>key.
        and_then (signing_input_v2 C claims vk) (\<lambda>input.
        if ed_verify_strict E key input signature then Ok invitation
        else Err InvalidSignature))))))))))))))))))))))))))"

section \<open>What an accepted invitation is\<close>

text \<open>
  Structural validity (the types' lengths and the constructors' checks) and authenticity: the
  embedded key parses and verifies the signature over the domain-separated unsigned encoding.
\<close>

definition invitation_wf :: "signed_capability_invitation \<Rightarrow> bool" where
  "invitation_wf i \<longleftrightarrow> claims_wf (inv_claims i)
     \<and> length (inv_verifying_key i) = VERIFYING_KEY_BYTES \<and> length (inv_signature i) = SIGNATURE_BYTES"

definition invitation_authentic ::
    "cbor \<Rightarrow> ('sk, 'vk) ed25519 \<Rightarrow> signed_capability_invitation \<Rightarrow> bool" where
  "invitation_authentic C E i =
     (case (ed_from_bytes E (inv_verifying_key i), signing_input C (inv_claims i) (inv_verifying_key i)) of
        (Some key, Inr input) \<Rightarrow> ed_verify_strict E key input (inv_signature i)
      | _ \<Rightarrow> False)"

definition invitation_v2_wf :: "signed_capability_invitation_v2 \<Rightarrow> bool" where
  "invitation_v2_wf i \<longleftrightarrow> claims_v2_wf (inv2_claims i)
     \<and> length (inv2_verifying_key i) = VERIFYING_KEY_BYTES \<and> length (inv2_signature i) = SIGNATURE_BYTES"

definition invitation_v2_authentic ::
    "cbor \<Rightarrow> ('sk, 'vk) ed25519 \<Rightarrow> signed_capability_invitation_v2 \<Rightarrow> bool" where
  "invitation_v2_authentic C E i =
     (case (ed_from_bytes E (inv2_verifying_key i),
            signing_input_v2 C (inv2_claims i) (inv2_verifying_key i)) of
        (Some key, Inr input) \<Rightarrow> ed_verify_strict E key input (inv2_signature i)
      | _ \<Rightarrow> False)"

lemma claims_new_eq_Inr [ok_iff]:
  "CapabilityInvitationClaims_new iid iat exp ch cap = Inr c \<longleftrightarrow>
     \<not> all_zero iid \<and> \<not> all_zero ch \<and> iat < exp \<and>
     c = \<lparr> cl_invitation_id = iid, cl_issued_at = iat, cl_expires_at = exp,
           cl_join_challenge = ch, cl_capability = cap \<rparr>"
  by (auto simp: CapabilityInvitationClaims_new_def)

lemma claims_v2_new_eq_Inr [ok_iff]:
  "CapabilityInvitationV2Claims_new base kid pk = Inr c \<longleftrightarrow>
     \<not> all_zero kid \<and> \<not> all_zero pk \<and>
     c = \<lparr> cl2_base = base, cl2_invitation_key_id = kid, cl2_hpke_public_key = pk \<rparr>"
  by (auto simp: CapabilityInvitationV2Claims_new_def)

lemma secret_capability_new_eq_Inr [ok_iff]:
  "SecretCapability_new bs = Inr x \<longleftrightarrow> x = bs \<and> \<not> all_zero bs"
  by (auto simp: SecretCapability_new_def)

text \<open>Everything the verifying decoder accepts is canonical, well formed and authentic.\<close>

lemma invitation_decode_sound:
  assumes "SignedCapabilityInvitation_decode_and_verify C E b = Inr i"
  shows "SignedCapabilityInvitation_encode_canonical C i = Inr b"
    and "invitation_wf i" and "invitation_authentic C E i"
  using assms
  by (auto simp: SignedCapabilityInvitation_decode_and_verify_def ok_iff enum_defs Let_def
      invitation_wf_def claims_wf_def invitation_authentic_def split: if_splits)

lemma invitation_v2_decode_sound:
  assumes "SignedCapabilityInvitationV2_decode_and_verify C E b = Inr i"
  shows "SignedCapabilityInvitationV2_encode_canonical C i = Inr b"
    and "invitation_v2_wf i" and "invitation_v2_authentic C E i"
  using assms
  by (auto simp: SignedCapabilityInvitationV2_decode_and_verify_def ok_iff enum_defs Let_def
      invitation_v2_wf_def claims_v2_wf_def claims_wf_def invitation_v2_authentic_def split: if_splits)

section \<open>Round trips under the codec's laws\<close>

lemma invitation_wf_sizes:
  "invitation_wf i \<Longrightarrow> length (cl_invitation_id (inv_claims i)) = 16
     \<and> length (cl_join_challenge (inv_claims i)) = 32 \<and> length (cl_capability (inv_claims i)) = 32
     \<and> length (inv_verifying_key i) = 32 \<and> length (inv_signature i) = 64"
  by (simp add: invitation_wf_def claims_wf_def wire_consts)

lemma invitation_v2_wf_sizes:
  "invitation_v2_wf i \<Longrightarrow> length (cl_invitation_id (cl2_base (inv2_claims i))) = 16
     \<and> length (cl_join_challenge (cl2_base (inv2_claims i))) = 32
     \<and> length (cl_capability (cl2_base (inv2_claims i))) = 32
     \<and> length (cl2_invitation_key_id (inv2_claims i)) = 16
     \<and> length (cl2_hpke_public_key (inv2_claims i)) = 32
     \<and> length (inv2_verifying_key i) = 32 \<and> length (inv2_signature i) = 64"
  by (simp add: invitation_v2_wf_def claims_v2_wf_def claims_wf_def wire_consts)

text \<open>The two-stage encoder output is one chain of items.\<close>

lemma invitation_encode_eq_Inr:
  "SignedCapabilityInvitation_encode_canonical C i = Inr b \<longleftrightarrow>
     encode_items C (invitation_items SIGNED_INVITATION_FIELDS (inv_claims i) (inv_verifying_key i)
       @ [CBytes (inv_signature i)]) = Some b \<and> length b \<le> MAX_SIGNED_INVITATION_BYTES"
  by (auto simp: SignedCapabilityInvitation_encode_canonical_def encode_fields_def ok_iff Let_def
      encode_items_append split: option.splits if_splits)

lemma invitation_v2_encode_eq_Inr:
  "SignedCapabilityInvitationV2_encode_canonical C i = Inr b \<longleftrightarrow>
     encode_items C (invitation_v2_items SIGNED_INVITATION_V2_FIELDS (inv2_claims i) (inv2_verifying_key i)
       @ [CBytes (inv2_signature i)]) = Some b \<and> length b \<le> MAX_SIGNED_INVITATION_BYTES"
  by (auto simp: SignedCapabilityInvitationV2_encode_canonical_def encode_fields_v2_def ok_iff Let_def
      encode_items_append split: option.splits if_splits)

context cbor_library
begin

lemma invitation_encode_ok:
  assumes "invitation_wf i"
  shows "\<exists>b. SignedCapabilityInvitation_encode_canonical C i = Inr b"
proof -
  let ?is = "invitation_items SIGNED_INVITATION_FIELDS (inv_claims i) (inv_verifying_key i)
    @ [CBytes (inv_signature i)]"
  note sizes = invitation_wf_sizes [OF assms]
  obtain b where "encode_items C ?is = Some b" "length b = items_length ?is"
    using sizes encode_items_total [of ?is] by (auto simp: invitation_items_def)
  moreover have "items_length ?is \<le> MAX_SIGNED_INVITATION_BYTES"
    using sizes head_length_bounds(2) [of "unat (cl_issued_at (inv_claims i))"]
      head_length_bounds(2) [of "unat (cl_expires_at (inv_claims i))"]
    by (simp add: invitation_items_def wire_consts head_length_def)
  ultimately show ?thesis by (auto simp: invitation_encode_eq_Inr)
qed

lemma invitation_v2_encode_ok:
  assumes "invitation_v2_wf i"
  shows "\<exists>b. SignedCapabilityInvitationV2_encode_canonical C i = Inr b"
proof -
  let ?is = "invitation_v2_items SIGNED_INVITATION_V2_FIELDS (inv2_claims i) (inv2_verifying_key i)
    @ [CBytes (inv2_signature i)]"
  note sizes = invitation_v2_wf_sizes [OF assms]
  obtain b where "encode_items C ?is = Some b" "length b = items_length ?is"
    using sizes encode_items_total [of ?is] by (auto simp: invitation_v2_items_def)
  moreover have "items_length ?is \<le> MAX_SIGNED_INVITATION_BYTES"
    using sizes head_length_bounds(2) [of "unat (cl_issued_at (cl2_base (inv2_claims i)))"]
      head_length_bounds(2) [of "unat (cl_expires_at (cl2_base (inv2_claims i)))"]
    by (simp add: invitation_v2_items_def wire_consts head_length_def)
  ultimately show ?thesis by (auto simp: invitation_v2_encode_eq_Inr)
qed

lemma invitation_decode_complete:
  assumes wf: "invitation_wf i" and auth: "invitation_authentic C E i"
    and enc: "SignedCapabilityInvitation_encode_canonical C i = Inr b"
  shows "SignedCapabilityInvitation_decode_and_verify C E b = Inr i"
proof -
  from enc have items: "encode_items C (invitation_items SIGNED_INVITATION_FIELDS (inv_claims i)
      (inv_verifying_key i) @ [CBytes (inv_signature i)]) = Some b"
    and len: "length b \<le> MAX_SIGNED_INVITATION_BYTES"
    by (simp_all add: invitation_encode_eq_Inr)
  from auth obtain key input where key: "ed_from_bytes E (inv_verifying_key i) = Some key"
    and input: "signing_input C (inv_claims i) (inv_verifying_key i) = Inr input"
    and ok: "ed_verify_strict E key input (inv_signature i)"
    by (auto simp: invitation_authentic_def split: option.splits sum.splits)
  have new: "CapabilityInvitationClaims_new (cl_invitation_id (inv_claims i)) (cl_issued_at (inv_claims i))
      (cl_expires_at (inv_claims i)) (cl_join_challenge (inv_claims i)) (cl_capability (inv_claims i))
      = Inr (inv_claims i)"
    and cap: "SecretCapability_new (cl_capability (inv_claims i)) = Inr (cl_capability (inv_claims i))"
    using wf by (simp_all add: invitation_wf_def claims_wf_def ok_iff)
  have rebuilt: "\<lparr> inv_claims = inv_claims i, inv_verifying_key = inv_verifying_key i,
      inv_signature = inv_signature i \<rparr> = i"
    by simp
  note sizes = invitation_wf_sizes [OF wf]
  show ?thesis
    using items len key input ok new cap sizes enc
    by (auto simp: SignedCapabilityInvitation_decode_and_verify_def invitation_items_def dec_def
        dec_enum_def decode_fixed_def enum_defs try_single_def wire_consts Let_def rebuilt
        dest!: items_read items_end)
qed

lemma invitation_v2_decode_complete:
  assumes wf: "invitation_v2_wf i" and auth: "invitation_v2_authentic C E i"
    and enc: "SignedCapabilityInvitationV2_encode_canonical C i = Inr b"
  shows "SignedCapabilityInvitationV2_decode_and_verify C E b = Inr i"
proof -
  let ?c = "inv2_claims i"
  let ?b = "cl2_base ?c"
  from enc have items: "encode_items C (invitation_v2_items SIGNED_INVITATION_V2_FIELDS (inv2_claims i)
      (inv2_verifying_key i) @ [CBytes (inv2_signature i)]) = Some b"
    and len: "length b \<le> MAX_SIGNED_INVITATION_BYTES"
    by (simp_all add: invitation_v2_encode_eq_Inr)
  from auth obtain key input where key: "ed_from_bytes E (inv2_verifying_key i) = Some key"
    and input: "signing_input_v2 C (inv2_claims i) (inv2_verifying_key i) = Inr input"
    and ok: "ed_verify_strict E key input (inv2_signature i)"
    by (auto simp: invitation_v2_authentic_def split: option.splits sum.splits)
  have new: "CapabilityInvitationClaims_new (cl_invitation_id ?b) (cl_issued_at ?b)
      (cl_expires_at ?b) (cl_join_challenge ?b) (cl_capability ?b) = Inr ?b"
    and new2: "CapabilityInvitationV2Claims_new ?b (cl2_invitation_key_id ?c) (cl2_hpke_public_key ?c) = Inr ?c"
    and cap: "SecretCapability_new (cl_capability ?b) = Inr (cl_capability ?b)"
    using wf by (simp_all add: invitation_v2_wf_def claims_v2_wf_def claims_wf_def ok_iff)
  have rebuilt: "\<lparr> inv2_claims = inv2_claims i, inv2_verifying_key = inv2_verifying_key i,
      inv2_signature = inv2_signature i \<rparr> = i"
    by simp
  note sizes = invitation_v2_wf_sizes [OF wf]
  show ?thesis
    using items len key input ok new new2 cap sizes enc
    by (auto simp: SignedCapabilityInvitationV2_decode_and_verify_def invitation_v2_items_def dec_def
        dec_enum_def decode_fixed_def enum_defs try_single_def wire_consts Let_def rebuilt
        dest!: items_read items_end)
qed

text \<open>Both verifying decoders meet the canonical contract, whatever the signature scheme does.\<close>

lemma invitation_codec:
  "canonical_codec (SignedCapabilityInvitation_encode_canonical C)
     (SignedCapabilityInvitation_decode_and_verify C E)
     (\<lambda>i. invitation_wf i \<and> invitation_authentic C E i)"
  by unfold_locales
    (auto dest: invitation_decode_sound intro: invitation_encode_ok invitation_decode_complete)

lemma invitation_v2_codec:
  "canonical_codec (SignedCapabilityInvitationV2_encode_canonical C)
     (SignedCapabilityInvitationV2_decode_and_verify C E)
     (\<lambda>i. invitation_v2_wf i \<and> invitation_v2_authentic C E i)"
  by unfold_locales
    (auto dest: invitation_v2_decode_sound intro: invitation_v2_encode_ok invitation_v2_decode_complete)

end

section \<open>What a signature binds\<close>

text \<open>The two domains have the same length and differ in the version digit.\<close>

lemma signature_domains_disjoint:
  "SIGNED_INVITATION_SIGNATURE_DOMAIN @ x \<noteq> SIGNED_INVITATION_V2_SIGNATURE_DOMAIN @ y"
  by (simp add: SIGNED_INVITATION_SIGNATURE_DOMAIN_def SIGNED_INVITATION_V2_SIGNATURE_DOMAIN_def
      ascii_bytes_def)

lemma signing_input_eq_Inr [ok_iff]:
  "signing_input C c vk = Inr m \<longleftrightarrow> (\<exists>b. encode_items C (invitation_items UNSIGNED_INVITATION_FIELDS c vk)
     = Some b \<and> m = SIGNED_INVITATION_SIGNATURE_DOMAIN @ b)"
  by (auto simp: signing_input_def encode_fields_def ok_iff)

lemma signing_input_v2_eq_Inr [ok_iff]:
  "signing_input_v2 C c vk = Inr m \<longleftrightarrow> (\<exists>b. encode_items C (invitation_v2_items UNSIGNED_INVITATION_V2_FIELDS c vk)
     = Some b \<and> m = SIGNED_INVITATION_V2_SIGNATURE_DOMAIN @ b)"
  by (auto simp: signing_input_v2_def encode_fields_v2_def ok_iff)

context cbor_library
begin

lemma invitation_items_binding:
  assumes "encode_items C (invitation_items n c vk) = Some b"
    and "encode_items C (invitation_items n c' vk') = Some b"
    and "claims_wf c" "claims_wf c'" "length vk < 2 ^ 64" "length vk' < 2 ^ 64"
  shows "c = c' \<and> vk = vk'"
proof -
  have "invitation_items n c vk = invitation_items n c' vk'"
    by (rule encode_items_inj [OF _ _ _ assms(1,2)])
      (use assms(3-6) in \<open>simp_all add: invitation_items_def claims_wf_def wire_consts\<close>)
  then show ?thesis
    by (auto simp: invitation_items_def intro!: capability_invitation_claims.equality)
qed

lemma invitation_v2_items_binding:
  assumes "encode_items C (invitation_v2_items n c vk) = Some b"
    and "encode_items C (invitation_v2_items n c' vk') = Some b"
    and "claims_v2_wf c" "claims_v2_wf c'" "length vk < 2 ^ 64" "length vk' < 2 ^ 64"
  shows "c = c' \<and> vk = vk'"
proof -
  have "invitation_v2_items n c vk = invitation_v2_items n c' vk'"
    by (rule encode_items_inj [OF _ _ _ assms(1,2)])
      (use assms(3-6) in \<open>simp_all add: invitation_v2_items_def claims_v2_wf_def claims_wf_def wire_consts\<close>)
  then show ?thesis
    by (auto simp: invitation_v2_items_def intro!: capability_invitation_v2_claims.equality
        capability_invitation_claims.equality)
qed

lemma signing_input_ok:
  assumes "claims_wf c" and "length vk = VERIFYING_KEY_BYTES"
  shows "\<exists>m. signing_input C c vk = Inr m"
  using assms encode_items_total [of "invitation_items UNSIGNED_INVITATION_FIELDS c vk"]
  by (auto simp: ok_iff invitation_items_def claims_wf_def wire_consts)

end

end
