(* ===== verification/Protected_Join.thy ===== *)
theory Protected_Join
  imports Invitation
begin

text \<open>
  \<open>crates/session-protocol/src/protected_join.rs\<close>: the HPKE-protected outer join request with its
  associated data, the deposit-only local Welcome endpoint, and the canonical decrypted capability
  join request with its three bindings.
\<close>

section \<open>Constants and enumerations\<close>

definition MAX_LOCAL_WELCOME_ENDPOINT_BYTES :: usize where
  "MAX_LOCAL_WELCOME_ENDPOINT_BYTES = 128"
definition MAX_CAPABILITY_JOIN_REQUEST_BYTES :: usize where
  "MAX_CAPABILITY_JOIN_REQUEST_BYTES = 24 * 1024"
definition MAX_JOIN_KEY_PACKAGE_BYTES :: usize where
  "MAX_JOIN_KEY_PACKAGE_BYTES = 16 * 1024"
definition MAX_PROTECTED_JOIN_REQUEST_BYTES :: usize where
  "MAX_PROTECTED_JOIN_REQUEST_BYTES = 32 * 1024"
definition MAX_PROTECTED_JOIN_CIPHERTEXT_BYTES :: usize where
  "MAX_PROTECTED_JOIN_CIPHERTEXT_BYTES = MAX_PROTECTED_JOIN_REQUEST_BYTES - 75"
definition LOCAL_WELCOME_ENDPOINT_VERSION :: u16 where "LOCAL_WELCOME_ENDPOINT_VERSION = 1"
definition CAPABILITY_JOIN_REQUEST_VERSION :: u16 where "CAPABILITY_JOIN_REQUEST_VERSION = 1"
definition PROTECTED_JOIN_REQUEST_VERSION :: u16 where "PROTECTED_JOIN_REQUEST_VERSION = 1"
definition LOCAL_WELCOME_ENDPOINT_FIELDS :: u64 where "LOCAL_WELCOME_ENDPOINT_FIELDS = 7"
definition CAPABILITY_JOIN_REQUEST_FIELDS :: u64 where "CAPABILITY_JOIN_REQUEST_FIELDS = 21"
definition PROTECTED_JOIN_REQUEST_FIELDS :: u64 where "PROTECTED_JOIN_REQUEST_FIELDS = 7"
definition PROTECTED_JOIN_AAD_FIELDS :: u64 where "PROTECTED_JOIN_AAD_FIELDS = 6"
definition IDENTIFIER_BYTES :: usize where "IDENTIFIER_BYTES = 16"
definition FIXED_KEY_BYTES :: usize where "FIXED_KEY_BYTES = 32"
definition DEPOSIT_CAPABILITY_BYTES :: usize where "DEPOSIT_CAPABILITY_BYTES = 32"

datatype nested_object_type = CapabilityJoinRequest | LocalWelcomeDepositEndpoint

fun nested_object_code :: "nested_object_type \<Rightarrow> u16" where
  "nested_object_code CapabilityJoinRequest = 4"
| "nested_object_code LocalWelcomeDepositEndpoint = 5"

definition AdmissionProofVersion_HpkePskCapability :: u16 where
  "AdmissionProofVersion_HpkePskCapability = 1"
definition MlsProtocolVersion_Mls10 :: u16 where "MlsProtocolVersion_Mls10 = 1"
definition MlsCiphersuite_Suite1 :: u16 where "MlsCiphersuite_Suite1 = 1"
definition CredentialType_Basic :: u16 where "CredentialType_Basic = 1"

lemmas [wire_consts] = MAX_LOCAL_WELCOME_ENDPOINT_BYTES_def MAX_CAPABILITY_JOIN_REQUEST_BYTES_def
  MAX_JOIN_KEY_PACKAGE_BYTES_def MAX_PROTECTED_JOIN_REQUEST_BYTES_def
  MAX_PROTECTED_JOIN_CIPHERTEXT_BYTES_def LOCAL_WELCOME_ENDPOINT_VERSION_def
  CAPABILITY_JOIN_REQUEST_VERSION_def PROTECTED_JOIN_REQUEST_VERSION_def
  LOCAL_WELCOME_ENDPOINT_FIELDS_def CAPABILITY_JOIN_REQUEST_FIELDS_def
  PROTECTED_JOIN_REQUEST_FIELDS_def PROTECTED_JOIN_AAD_FIELDS_def IDENTIFIER_BYTES_def
  FIXED_KEY_BYTES_def DEPOSIT_CAPABILITY_BYTES_def AdmissionProofVersion_HpkePskCapability_def
  MlsProtocolVersion_Mls10_def MlsCiphersuite_Suite1_def CredentialType_Basic_def

definition AdmissionProofVersion_try_from :: "u16 \<Rightarrow> wire_error + unit" where
  [enum_defs]: "AdmissionProofVersion_try_from =
     try_single AdmissionProofVersion_HpkePskCapability UnsupportedAdmissionProofVersion"

definition MlsProtocolVersion_try_from :: "u16 \<Rightarrow> wire_error + unit" where
  [enum_defs]: "MlsProtocolVersion_try_from =
     try_single MlsProtocolVersion_Mls10 UnsupportedMlsProtocolVersion"

definition MlsCiphersuite_try_from :: "u16 \<Rightarrow> wire_error + unit" where
  [enum_defs]: "MlsCiphersuite_try_from = try_single MlsCiphersuite_Suite1 UnsupportedMlsCiphersuite"

definition CredentialType_try_from :: "u16 \<Rightarrow> wire_error + unit" where
  [enum_defs]: "CredentialType_try_from = try_single CredentialType_Basic UnsupportedCredentialType"

section \<open>The protected outer request\<close>

record protected_join_request =
  pj_invitation_id :: ident
  pj_invitation_key_id :: ident
  pj_encapsulated_key :: bytes
  pj_ciphertext :: bytes

definition ProtectedJoinRequest_new ::
    "ident \<Rightarrow> ident \<Rightarrow> bytes \<Rightarrow> bytes \<Rightarrow> wire_error + protected_join_request" where
  "ProtectedJoinRequest_new iid kid encapsulated ct =
     and_then (reject_zero iid ZeroInvitationId) (\<lambda>_.
     and_then (reject_zero kid ZeroInvitationKeyId) (\<lambda>_.
       if ct = [] then Err EmptyProtectedJoinCiphertext
       else if length ct > MAX_PROTECTED_JOIN_CIPHERTEXT_BYTES
       then Err (ProtectedJoinCiphertextTooLarge (length ct) MAX_PROTECTED_JOIN_CIPHERTEXT_BYTES)
       else Ok \<lparr> pj_invitation_id = iid, pj_invitation_key_id = kid,
                 pj_encapsulated_key = encapsulated, pj_ciphertext = ct \<rparr>))"

definition protected_join_prefix :: "protected_join_request \<Rightarrow> u64 \<Rightarrow> cbor_item list" where
  "protected_join_prefix p n =
     [CArray n, CU16 PROTECTED_JOIN_REQUEST_VERSION, CU16 (wire_object_code ProtectedJoinRequest),
      CU16 InvitationEncryptionSuite_X25519Psk, CBytes (pj_invitation_id p),
      CBytes (pj_invitation_key_id p), CBytes (pj_encapsulated_key p)]"

definition ProtectedJoinRequest_encode_prefix ::
    "cbor \<Rightarrow> protected_join_request \<Rightarrow> u64 \<Rightarrow> wire_error + bytes" where
  "ProtectedJoinRequest_encode_prefix C p n =
     ok_or Encoding (encode_items C (protected_join_prefix p n))"

definition ProtectedJoinRequest_aad_canonical ::
    "cbor \<Rightarrow> protected_join_request \<Rightarrow> wire_error + bytes" where
  "ProtectedJoinRequest_aad_canonical C p =
     ProtectedJoinRequest_encode_prefix C p PROTECTED_JOIN_AAD_FIELDS"

definition ProtectedJoinRequest_encode_canonical ::
    "cbor \<Rightarrow> protected_join_request \<Rightarrow> wire_error + bytes" where
  "ProtectedJoinRequest_encode_canonical C p =
     and_then (ProtectedJoinRequest_encode_prefix C p PROTECTED_JOIN_REQUEST_FIELDS) (\<lambda>b.
     and_then (ok_or Encoding (encode_items C [CBytes (pj_ciphertext p)])) (\<lambda>c.
       let encoded = b @ c in
       if length encoded > MAX_PROTECTED_JOIN_REQUEST_BYTES
       then Err (WireObjectTooLarge (length encoded) MAX_PROTECTED_JOIN_REQUEST_BYTES)
       else Ok encoded))"

definition ProtectedJoinRequest_decode_canonical ::
    "cbor \<Rightarrow> bytes \<Rightarrow> wire_error + protected_join_request" where
  "ProtectedJoinRequest_decode_canonical C bs =
     and_then (prebound bs MAX_PROTECTED_JOIN_REQUEST_BYTES) (\<lambda>_.
     and_then (require_array C bs PROTECTED_JOIN_REQUEST_FIELDS) (\<lambda>d.
     and_then (require_value C d PROTECTED_JOIN_REQUEST_VERSION UnsupportedVersion) (\<lambda>d.
     and_then (require_value C d (wire_object_code ProtectedJoinRequest) UnsupportedObjectType) (\<lambda>d.
     and_then (dec_enum C d InvitationEncryptionSuite_try_from) (\<lambda>d.
     and_then (decode_fixed C IDENTIFIER_BYTES d InvalidInvitationIdLength) (\<lambda>(iid, d).
     and_then (decode_fixed C IDENTIFIER_BYTES d InvalidInvitationKeyIdLength) (\<lambda>(kid, d).
     and_then (decode_fixed C FIXED_KEY_BYTES d InvalidHpkeEncapsulatedKeyLength) (\<lambda>(encapsulated, d).
     and_then (dec (cb_bytes C) d) (\<lambda>(ct, d).
     if ct = [] then Err EmptyProtectedJoinCiphertext
     else if length ct > MAX_PROTECTED_JOIN_CIPHERTEXT_BYTES
     then Err (ProtectedJoinCiphertextTooLarge (length ct) MAX_PROTECTED_JOIN_CIPHERTEXT_BYTES)
     else and_then (reject_trailing d) (\<lambda>_.
     and_then (ProtectedJoinRequest_new iid kid encapsulated ct) (\<lambda>decoded.
     and_then (ProtectedJoinRequest_encode_canonical C decoded) (\<lambda>reencoded.
     if reencoded \<noteq> bs then Err NonDeterministicEncoding else Ok decoded))))))))))))"

definition protected_join_wf :: "protected_join_request \<Rightarrow> bool" where
  "protected_join_wf p \<longleftrightarrow>
     length (pj_invitation_id p) = IDENTIFIER_BYTES \<and> \<not> all_zero (pj_invitation_id p)
     \<and> length (pj_invitation_key_id p) = IDENTIFIER_BYTES \<and> \<not> all_zero (pj_invitation_key_id p)
     \<and> length (pj_encapsulated_key p) = FIXED_KEY_BYTES
     \<and> pj_ciphertext p \<noteq> [] \<and> length (pj_ciphertext p) \<le> MAX_PROTECTED_JOIN_CIPHERTEXT_BYTES"

section \<open>The local Welcome deposit endpoint\<close>

definition DepositCapability_new :: "bytes \<Rightarrow> wire_error + bytes" where
  "DepositCapability_new bs = and_then (reject_zero bs ZeroDepositCapability) (\<lambda>_. Ok bs)"

record local_welcome_deposit_endpoint =
  ep_transport_instance_id :: ident
  ep_mailbox_id :: ident
  ep_deposit_capability :: bytes
  ep_expires_at :: u64

definition LocalWelcomeDepositEndpoint_new ::
    "ident \<Rightarrow> ident \<Rightarrow> bytes \<Rightarrow> u64 \<Rightarrow> wire_error + local_welcome_deposit_endpoint" where
  "LocalWelcomeDepositEndpoint_new instance_id mailbox capability expires_at =
     and_then (reject_zero instance_id ZeroTransportInstanceId) (\<lambda>_.
     and_then (reject_zero mailbox ZeroMailboxId) (\<lambda>_.
       Ok \<lparr> ep_transport_instance_id = instance_id, ep_mailbox_id = mailbox,
            ep_deposit_capability = capability, ep_expires_at = expires_at \<rparr>))"

definition endpoint_items :: "local_welcome_deposit_endpoint \<Rightarrow> cbor_item list" where
  "endpoint_items e =
     [CArray LOCAL_WELCOME_ENDPOINT_FIELDS, CU16 LOCAL_WELCOME_ENDPOINT_VERSION,
      CU16 (nested_object_code LocalWelcomeDepositEndpoint), CU16 TransportProfile_LocalMemory,
      CBytes (ep_transport_instance_id e), CBytes (ep_mailbox_id e),
      CBytes (ep_deposit_capability e), CU64 (ep_expires_at e)]"

definition LocalWelcomeDepositEndpoint_encode_into ::
    "cbor \<Rightarrow> local_welcome_deposit_endpoint \<Rightarrow> wire_error + bytes" where
  "LocalWelcomeDepositEndpoint_encode_into C e = ok_or Encoding (encode_items C (endpoint_items e))"

definition LocalWelcomeDepositEndpoint_encode_canonical ::
    "cbor \<Rightarrow> local_welcome_deposit_endpoint \<Rightarrow> wire_error + bytes" where
  "LocalWelcomeDepositEndpoint_encode_canonical C e =
     and_then (LocalWelcomeDepositEndpoint_encode_into C e) (\<lambda>encoded.
       if length encoded > MAX_LOCAL_WELCOME_ENDPOINT_BYTES
       then Err (WireObjectTooLarge (length encoded) MAX_LOCAL_WELCOME_ENDPOINT_BYTES)
       else Ok encoded)"

definition LocalWelcomeDepositEndpoint_decode_from ::
    "cbor \<Rightarrow> bytes \<Rightarrow> wire_error + local_welcome_deposit_endpoint \<times> bytes" where
  "LocalWelcomeDepositEndpoint_decode_from C d =
     and_then (require_array C d LOCAL_WELCOME_ENDPOINT_FIELDS) (\<lambda>d.
     and_then (require_value C d LOCAL_WELCOME_ENDPOINT_VERSION UnsupportedVersion) (\<lambda>d.
     and_then (require_value C d (nested_object_code LocalWelcomeDepositEndpoint) UnsupportedObjectType) (\<lambda>d.
     and_then (dec_enum C d TransportProfile_try_from) (\<lambda>d.
     and_then (decode_fixed C IDENTIFIER_BYTES d InvalidTransportInstanceIdLength) (\<lambda>(instance_id, d).
     and_then (decode_fixed C IDENTIFIER_BYTES d InvalidMailboxIdLength) (\<lambda>(mailbox, d).
     and_then (decode_fixed C DEPOSIT_CAPABILITY_BYTES d InvalidDepositCapabilityLength) (\<lambda>(capability, d).
     and_then (dec (cb_u64 C) d) (\<lambda>(expires_at, d).
     and_then (DepositCapability_new capability) (\<lambda>capability.
     and_then (LocalWelcomeDepositEndpoint_new instance_id mailbox capability expires_at) (\<lambda>e.
       Ok (e, d)))))))))))"

definition LocalWelcomeDepositEndpoint_decode_canonical ::
    "cbor \<Rightarrow> bytes \<Rightarrow> wire_error + local_welcome_deposit_endpoint" where
  "LocalWelcomeDepositEndpoint_decode_canonical C bs =
     and_then (prebound bs MAX_LOCAL_WELCOME_ENDPOINT_BYTES) (\<lambda>_.
     and_then (LocalWelcomeDepositEndpoint_decode_from C bs) (\<lambda>(endpoint, d).
     and_then (reject_trailing d) (\<lambda>_.
     and_then (LocalWelcomeDepositEndpoint_encode_canonical C endpoint) (\<lambda>reencoded.
     if reencoded \<noteq> bs then Err NonDeterministicEncoding else Ok endpoint))))"

definition endpoint_wf :: "local_welcome_deposit_endpoint \<Rightarrow> bool" where
  "endpoint_wf e \<longleftrightarrow>
     length (ep_transport_instance_id e) = IDENTIFIER_BYTES \<and> \<not> all_zero (ep_transport_instance_id e)
     \<and> length (ep_mailbox_id e) = IDENTIFIER_BYTES \<and> \<not> all_zero (ep_mailbox_id e)
     \<and> length (ep_deposit_capability e) = DEPOSIT_CAPABILITY_BYTES \<and> \<not> all_zero (ep_deposit_capability e)"

section \<open>The decrypted capability join request\<close>

record invitation_join_binding =
  ib_invitation_id :: ident
  ib_join_challenge :: bytes
  ib_invitation_key_id :: ident
  ib_intended_verifier :: bytes

text \<open>A key that parses and is not weak, as its canonical bytes.\<close>

definition strong_key :: "('sk, 'vk) ed25519 \<Rightarrow> bytes \<Rightarrow> wire_error \<Rightarrow> wire_error + bytes" where
  "strong_key E bs error =
     and_then (ok_or error (ed_from_bytes E bs)) (\<lambda>key.
       if ed_is_weak E key then Err error else Ok (ed_to_bytes E key))"

definition InvitationJoinBinding_new ::
    "('sk, 'vk) ed25519 \<Rightarrow> ident \<Rightarrow> bytes \<Rightarrow> ident \<Rightarrow> bytes \<Rightarrow> wire_error + invitation_join_binding" where
  "InvitationJoinBinding_new E iid challenge kid verifier =
     and_then (reject_zero iid ZeroInvitationId) (\<lambda>_.
     and_then (reject_zero challenge ZeroJoinChallenge) (\<lambda>_.
     and_then (reject_zero kid ZeroInvitationKeyId) (\<lambda>_.
     and_then (strong_key E verifier InvalidVerifyingKey) (\<lambda>verifier.
       Ok \<lparr> ib_invitation_id = iid, ib_join_challenge = challenge, ib_invitation_key_id = kid,
            ib_intended_verifier = verifier \<rparr>))))"

record join_request_binding =
  rb_join_request_id :: ident
  rb_issued_at :: u64
  rb_expires_at :: u64
  rb_request_nonce :: bytes

definition JoinRequestBinding_new ::
    "ident \<Rightarrow> u64 \<Rightarrow> u64 \<Rightarrow> bytes \<Rightarrow> wire_error + join_request_binding" where
  "JoinRequestBinding_new rid issued_at expires_at nonce =
     and_then (reject_zero rid ZeroJoinRequestId) (\<lambda>_.
     and_then (reject_zero nonce ZeroRequestNonce) (\<lambda>_.
       if expires_at \<le> issued_at then Err (InvalidJoinRequestTimeRange issued_at expires_at)
       else Ok \<lparr> rb_join_request_id = rid, rb_issued_at = issued_at, rb_expires_at = expires_at,
                 rb_request_nonce = nonce \<rparr>))"

record mls_key_package_binding =
  kb_key_package_reference :: bytes
  kb_key_package :: bytes
  kb_credential_identity :: bytes
  kb_leaf_signature_key :: bytes

definition MlsKeyPackageBinding_new ::
    "('sk, 'vk) ed25519 \<Rightarrow> bytes \<Rightarrow> bytes \<Rightarrow> bytes \<Rightarrow> bytes \<Rightarrow> wire_error + mls_key_package_binding" where
  "MlsKeyPackageBinding_new E reference package identity leaf =
     (if package = [] then Err EmptyKeyPackage
      else if length package > MAX_JOIN_KEY_PACKAGE_BYTES
      then Err (KeyPackageTooLarge (length package) MAX_JOIN_KEY_PACKAGE_BYTES)
      else and_then (reject_zero identity ZeroCredentialIdentity) (\<lambda>_.
      and_then (reject_zero leaf ZeroLeafSignatureKey) (\<lambda>_.
      and_then (strong_key E leaf InvalidLeafSignatureKey) (\<lambda>leaf.
        Ok \<lparr> kb_key_package_reference = reference, kb_key_package = package,
             kb_credential_identity = identity, kb_leaf_signature_key = leaf \<rparr>))))"

record capability_join_request =
  jr_invitation :: invitation_join_binding
  jr_request :: join_request_binding
  jr_mls :: mls_key_package_binding
  jr_response_endpoint :: local_welcome_deposit_endpoint

definition CapabilityJoinRequest_new ::
    "invitation_join_binding \<Rightarrow> join_request_binding \<Rightarrow> mls_key_package_binding
      \<Rightarrow> local_welcome_deposit_endpoint \<Rightarrow> wire_error + capability_join_request" where
  "CapabilityJoinRequest_new invitation request mls endpoint =
     (if ep_expires_at endpoint > rb_expires_at request then Err ResponseEndpointOutlivesRequest
      else Ok \<lparr> jr_invitation = invitation, jr_request = request, jr_mls = mls,
                jr_response_endpoint = endpoint \<rparr>)"

definition join_request_items :: "capability_join_request \<Rightarrow> cbor_item list" where
  "join_request_items r =
     [CArray CAPABILITY_JOIN_REQUEST_FIELDS, CU16 CAPABILITY_JOIN_REQUEST_VERSION,
      CU16 (nested_object_code CapabilityJoinRequest), CU16 AdmissionProofVersion_HpkePskCapability,
      CBytes (ib_invitation_id (jr_invitation r)), CBytes (ib_join_challenge (jr_invitation r)),
      CBytes (ib_invitation_key_id (jr_invitation r)), CBytes (ib_intended_verifier (jr_invitation r)),
      CBytes (rb_join_request_id (jr_request r)), CU64 (rb_issued_at (jr_request r)),
      CU64 (rb_expires_at (jr_request r)), CBytes (rb_request_nonce (jr_request r)),
      CU16 MlsProtocolVersion_Mls10, CU16 MlsCiphersuite_Suite1,
      CBytes (kb_key_package_reference (jr_mls r)), CBytes (kb_key_package (jr_mls r)),
      CU16 CredentialType_Basic, CBytes (kb_credential_identity (jr_mls r)),
      CBytes (kb_leaf_signature_key (jr_mls r)), CU16 ApplicationProtocolVersion_V1,
      CU16 TransportProfile_LocalMemory]"

definition CapabilityJoinRequest_encode_canonical ::
    "cbor \<Rightarrow> capability_join_request \<Rightarrow> wire_error + bytes" where
  "CapabilityJoinRequest_encode_canonical C r =
     and_then (ok_or Encoding (encode_items C (join_request_items r))) (\<lambda>b.
     and_then (LocalWelcomeDepositEndpoint_encode_into C (jr_response_endpoint r)) (\<lambda>e.
       let encoded = b @ e in
       if length encoded > MAX_CAPABILITY_JOIN_REQUEST_BYTES
       then Err (WireObjectTooLarge (length encoded) MAX_CAPABILITY_JOIN_REQUEST_BYTES)
       else Ok encoded))"

definition CapabilityJoinRequest_decode_canonical ::
    "cbor \<Rightarrow> ('sk, 'vk) ed25519 \<Rightarrow> bytes \<Rightarrow> wire_error + capability_join_request" where
  "CapabilityJoinRequest_decode_canonical C E bs =
     and_then (prebound bs MAX_CAPABILITY_JOIN_REQUEST_BYTES) (\<lambda>_.
     and_then (require_array C bs CAPABILITY_JOIN_REQUEST_FIELDS) (\<lambda>d.
     and_then (require_value C d CAPABILITY_JOIN_REQUEST_VERSION UnsupportedVersion) (\<lambda>d.
     and_then (require_value C d (nested_object_code CapabilityJoinRequest) UnsupportedObjectType) (\<lambda>d.
     and_then (dec_enum C d AdmissionProofVersion_try_from) (\<lambda>d.
     and_then (decode_fixed C IDENTIFIER_BYTES d InvalidInvitationIdLength) (\<lambda>(iid, d).
     and_then (decode_fixed C FIXED_KEY_BYTES d InvalidJoinChallengeLength) (\<lambda>(challenge, d).
     and_then (decode_fixed C IDENTIFIER_BYTES d InvalidInvitationKeyIdLength) (\<lambda>(kid, d).
     and_then (decode_fixed C FIXED_KEY_BYTES d InvalidVerifyingKeyLength) (\<lambda>(verifier, d).
     and_then (decode_fixed C IDENTIFIER_BYTES d InvalidJoinRequestIdLength) (\<lambda>(rid, d).
     and_then (dec (cb_u64 C) d) (\<lambda>(issued_at, d).
     and_then (dec (cb_u64 C) d) (\<lambda>(expires_at, d).
     and_then (decode_fixed C FIXED_KEY_BYTES d InvalidRequestNonceLength) (\<lambda>(nonce, d).
     and_then (dec_enum C d MlsProtocolVersion_try_from) (\<lambda>d.
     and_then (dec_enum C d MlsCiphersuite_try_from) (\<lambda>d.
     and_then (decode_fixed C FIXED_KEY_BYTES d InvalidKeyPackageReferenceLength) (\<lambda>(reference, d).
     and_then (dec (cb_bytes C) d) (\<lambda>(package, d).
     if package = [] then Err EmptyKeyPackage
     else if length package > MAX_JOIN_KEY_PACKAGE_BYTES
     then Err (KeyPackageTooLarge (length package) MAX_JOIN_KEY_PACKAGE_BYTES)
     else and_then (dec_enum C d CredentialType_try_from) (\<lambda>d.
     and_then (decode_fixed C FIXED_KEY_BYTES d InvalidCredentialIdentityLength) (\<lambda>(identity, d).
     and_then (decode_fixed C FIXED_KEY_BYTES d InvalidLeafSignatureKeyLength) (\<lambda>(leaf, d).
     and_then (dec_enum C d ApplicationProtocolVersion_try_from) (\<lambda>d.
     and_then (dec_enum C d TransportProfile_try_from) (\<lambda>d.
     and_then (LocalWelcomeDepositEndpoint_decode_from C d) (\<lambda>(endpoint, d).
     and_then (reject_trailing d) (\<lambda>_.
     and_then (InvitationJoinBinding_new E iid challenge kid verifier) (\<lambda>invitation.
     and_then (JoinRequestBinding_new rid issued_at expires_at nonce) (\<lambda>request.
     and_then (MlsKeyPackageBinding_new E reference package identity leaf) (\<lambda>mls.
     and_then (CapabilityJoinRequest_new invitation request mls endpoint) (\<lambda>decoded.
     and_then (CapabilityJoinRequest_encode_canonical C decoded) (\<lambda>reencoded.
     if reencoded \<noteq> bs then Err NonDeterministicEncoding else Ok decoded)))))))))))))))))))))))))))))"

definition is_strong_key :: "('sk, 'vk) ed25519 \<Rightarrow> bytes \<Rightarrow> bool" where
  "is_strong_key E bs = (case ed_from_bytes E bs of None \<Rightarrow> False | Some key \<Rightarrow> \<not> ed_is_weak E key)"

text \<open>
  Well-formedness of a decrypted request: field sizes, the constructors' checks, and that both
  embedded keys are strong Ed25519 keys.
\<close>

definition join_request_wf :: "('sk, 'vk) ed25519 \<Rightarrow> capability_join_request \<Rightarrow> bool" where
  "join_request_wf E r \<longleftrightarrow>
     (let i = jr_invitation r; q = jr_request r; m = jr_mls r in
      length (ib_invitation_id i) = IDENTIFIER_BYTES \<and> \<not> all_zero (ib_invitation_id i)
      \<and> length (ib_join_challenge i) = FIXED_KEY_BYTES \<and> \<not> all_zero (ib_join_challenge i)
      \<and> length (ib_invitation_key_id i) = IDENTIFIER_BYTES \<and> \<not> all_zero (ib_invitation_key_id i)
      \<and> length (ib_intended_verifier i) = FIXED_KEY_BYTES
      \<and> is_strong_key E (ib_intended_verifier i)
      \<and> length (rb_join_request_id q) = IDENTIFIER_BYTES \<and> \<not> all_zero (rb_join_request_id q)
      \<and> length (rb_request_nonce q) = FIXED_KEY_BYTES \<and> \<not> all_zero (rb_request_nonce q)
      \<and> rb_issued_at q < rb_expires_at q
      \<and> length (kb_key_package_reference m) = FIXED_KEY_BYTES
      \<and> kb_key_package m \<noteq> [] \<and> length (kb_key_package m) \<le> MAX_JOIN_KEY_PACKAGE_BYTES
      \<and> length (kb_credential_identity m) = FIXED_KEY_BYTES \<and> \<not> all_zero (kb_credential_identity m)
      \<and> length (kb_leaf_signature_key m) = FIXED_KEY_BYTES \<and> \<not> all_zero (kb_leaf_signature_key m)
      \<and> is_strong_key E (kb_leaf_signature_key m)
      \<and> endpoint_wf (jr_response_endpoint r)
      \<and> ep_expires_at (jr_response_endpoint r) \<le> rb_expires_at q)"

section \<open>Soundness of the decoders\<close>

lemma protected_join_new_eq_Inr [ok_iff]:
  "ProtectedJoinRequest_new iid kid k ct = Inr p \<longleftrightarrow>
     \<not> all_zero iid \<and> \<not> all_zero kid \<and> ct \<noteq> [] \<and> length ct \<le> MAX_PROTECTED_JOIN_CIPHERTEXT_BYTES
     \<and> p = \<lparr> pj_invitation_id = iid, pj_invitation_key_id = kid, pj_encapsulated_key = k, pj_ciphertext = ct \<rparr>"
  by (auto simp: ProtectedJoinRequest_new_def ok_iff)

lemma endpoint_new_eq_Inr [ok_iff]:
  "LocalWelcomeDepositEndpoint_new i m c x = Inr e \<longleftrightarrow>
     \<not> all_zero i \<and> \<not> all_zero m \<and>
     e = \<lparr> ep_transport_instance_id = i, ep_mailbox_id = m, ep_deposit_capability = c, ep_expires_at = x \<rparr>"
  by (auto simp: LocalWelcomeDepositEndpoint_new_def ok_iff)

lemma deposit_capability_new_eq_Inr [ok_iff]:
  "DepositCapability_new bs = Inr c \<longleftrightarrow> c = bs \<and> \<not> all_zero bs"
  by (auto simp: DepositCapability_new_def ok_iff)

lemma protected_join_decode_sound:
  assumes "ProtectedJoinRequest_decode_canonical C b = Inr p"
  shows "ProtectedJoinRequest_encode_canonical C p = Inr b" and "protected_join_wf p"
  using assms
  by (auto simp: ProtectedJoinRequest_decode_canonical_def ok_iff enum_defs protected_join_wf_def)

lemma endpoint_decode_from_wf:
  "LocalWelcomeDepositEndpoint_decode_from C d = Inr (e, d') \<Longrightarrow> endpoint_wf e"
  by (auto simp: LocalWelcomeDepositEndpoint_decode_from_def ok_iff enum_defs endpoint_wf_def)

lemma endpoint_decode_sound:
  assumes "LocalWelcomeDepositEndpoint_decode_canonical C b = Inr e"
  shows "LocalWelcomeDepositEndpoint_encode_canonical C e = Inr b" and "endpoint_wf e"
  using assms
  by (auto simp: LocalWelcomeDepositEndpoint_decode_canonical_def ok_iff dest: endpoint_decode_from_wf)

text \<open>
  \<open>ed25519_dalek\<close> keeps the bytes a key was parsed from, so \<open>to_bytes\<close> after \<open>from_bytes\<close> is the
  identity on accepted keys.
\<close>

definition ed_keeps_bytes :: "('sk, 'vk) ed25519 \<Rightarrow> bool" where
  "ed_keeps_bytes E \<longleftrightarrow> (\<forall>bs key. ed_from_bytes E bs = Some key \<longrightarrow> ed_to_bytes E key = bs)"

lemma strong_key_eq_Inr:
  "ed_keeps_bytes E \<Longrightarrow> strong_key E bs e = Inr x \<longleftrightarrow> is_strong_key E bs \<and> x = bs"
  by (auto simp: strong_key_def ok_iff ed_keeps_bytes_def is_strong_key_def split: option.splits)

lemma join_request_decode_sound:
  assumes "CapabilityJoinRequest_decode_canonical C E b = Inr r"
  shows "CapabilityJoinRequest_encode_canonical C r = Inr b"
  using assms by (auto simp: CapabilityJoinRequest_decode_canonical_def ok_iff)

lemma join_request_decode_wf:
  assumes keys: "ed_keeps_bytes E" and dec: "CapabilityJoinRequest_decode_canonical C E b = Inr r"
  shows "join_request_wf E r"
  using dec
  by (auto simp: CapabilityJoinRequest_decode_canonical_def ok_iff enum_defs Let_def
      InvitationJoinBinding_new_def JoinRequestBinding_new_def MlsKeyPackageBinding_new_def
      CapabilityJoinRequest_new_def join_request_wf_def strong_key_eq_Inr [OF keys]
      dest!: endpoint_decode_from_wf)

section \<open>Round trips under the codec's laws\<close>

lemma protected_join_encode_eq_Inr:
  "ProtectedJoinRequest_encode_canonical C p = Inr b \<longleftrightarrow>
     encode_items C (protected_join_prefix p PROTECTED_JOIN_REQUEST_FIELDS @ [CBytes (pj_ciphertext p)])
       = Some b \<and> length b \<le> MAX_PROTECTED_JOIN_REQUEST_BYTES"
  by (auto simp: ProtectedJoinRequest_encode_canonical_def ProtectedJoinRequest_encode_prefix_def
      ok_iff Let_def encode_items_append split: option.splits)

lemma endpoint_encode_eq_Inr:
  "LocalWelcomeDepositEndpoint_encode_canonical C e = Inr b \<longleftrightarrow>
     encode_items C (endpoint_items e) = Some b \<and> length b \<le> MAX_LOCAL_WELCOME_ENDPOINT_BYTES"
  by (auto simp: LocalWelcomeDepositEndpoint_encode_canonical_def
      LocalWelcomeDepositEndpoint_encode_into_def ok_iff)

lemma join_request_encode_eq_Inr:
  "CapabilityJoinRequest_encode_canonical C r = Inr b \<longleftrightarrow>
     encode_items C (join_request_items r @ endpoint_items (jr_response_endpoint r)) = Some b
     \<and> length b \<le> MAX_CAPABILITY_JOIN_REQUEST_BYTES"
  by (auto simp: CapabilityJoinRequest_encode_canonical_def LocalWelcomeDepositEndpoint_encode_into_def
      ok_iff Let_def encode_items_append split: option.splits)

lemma protected_join_sizes:
  "protected_join_wf p \<Longrightarrow> length (pj_invitation_id p) = 16 \<and> length (pj_invitation_key_id p) = 16
     \<and> length (pj_encapsulated_key p) = 32 \<and> length (pj_ciphertext p) \<le> 32693"
  by (simp add: protected_join_wf_def wire_consts)

lemma endpoint_sizes:
  "endpoint_wf e \<Longrightarrow> length (ep_transport_instance_id e) = 16 \<and> length (ep_mailbox_id e) = 16
     \<and> length (ep_deposit_capability e) = 32"
  by (simp add: endpoint_wf_def wire_consts)

lemma join_request_sizes:
  "join_request_wf E r \<Longrightarrow> length (ib_invitation_id (jr_invitation r)) = 16
     \<and> length (ib_join_challenge (jr_invitation r)) = 32
     \<and> length (ib_invitation_key_id (jr_invitation r)) = 16
     \<and> length (ib_intended_verifier (jr_invitation r)) = 32
     \<and> length (rb_join_request_id (jr_request r)) = 16 \<and> length (rb_request_nonce (jr_request r)) = 32
     \<and> length (kb_key_package_reference (jr_mls r)) = 32
     \<and> kb_key_package (jr_mls r) \<noteq> [] \<and> length (kb_key_package (jr_mls r)) \<le> 16384
     \<and> length (kb_credential_identity (jr_mls r)) = 32 \<and> length (kb_leaf_signature_key (jr_mls r)) = 32"
  by (simp add: join_request_wf_def Let_def wire_consts)

lemma endpoint_items_length:
  assumes "endpoint_wf e" shows "items_length (endpoint_items e) \<le> 81"
  using endpoint_sizes [OF assms] head_length_bounds(2) [of "unat (ep_expires_at e)"]
  by (simp add: endpoint_items_def wire_consts head_length_def)

context cbor_library
begin

text \<open>The advertised maximum ciphertext fills the outer bound exactly: 72 bytes of prefix and 3 of head.\<close>

lemma protected_join_encode_ok:
  assumes "protected_join_wf p"
  shows "\<exists>b. ProtectedJoinRequest_encode_canonical C p = Inr b"
proof -
  let ?is = "protected_join_prefix p PROTECTED_JOIN_REQUEST_FIELDS @ [CBytes (pj_ciphertext p)]"
  note sizes = protected_join_sizes [OF assms]
  obtain b where "encode_items C ?is = Some b" "length b = items_length ?is"
    using sizes encode_items_total [of ?is] by (auto simp: protected_join_prefix_def)
  moreover have "items_length ?is \<le> MAX_PROTECTED_JOIN_REQUEST_BYTES"
    using sizes head_length_16 [of "length (pj_ciphertext p)"]
    by (simp add: protected_join_prefix_def wire_consts head_length_def)
  ultimately show ?thesis by (auto simp: protected_join_encode_eq_Inr)
qed

lemma endpoint_encode_ok:
  assumes "endpoint_wf e"
  shows "\<exists>b. LocalWelcomeDepositEndpoint_encode_canonical C e = Inr b"
proof -
  obtain b where "encode_items C (endpoint_items e) = Some b" "length b = items_length (endpoint_items e)"
    using endpoint_sizes [OF assms] encode_items_total [of "endpoint_items e"]
    by (auto simp: endpoint_items_def)
  with endpoint_items_length [OF assms] show ?thesis
    by (auto simp: endpoint_encode_eq_Inr wire_consts)
qed

lemma protected_join_decode_complete:
  assumes wf: "protected_join_wf p" and enc: "ProtectedJoinRequest_encode_canonical C p = Inr b"
  shows "ProtectedJoinRequest_decode_canonical C b = Inr p"
proof -
  from enc have items: "encode_items C (protected_join_prefix p PROTECTED_JOIN_REQUEST_FIELDS
      @ [CBytes (pj_ciphertext p)]) = Some b"
    and len: "length b \<le> MAX_PROTECTED_JOIN_REQUEST_BYTES"
    by (simp_all add: protected_join_encode_eq_Inr)
  have new: "ProtectedJoinRequest_new (pj_invitation_id p) (pj_invitation_key_id p)
      (pj_encapsulated_key p) (pj_ciphertext p) = Inr p" and "pj_ciphertext p \<noteq> []"
    using wf by (simp_all add: protected_join_wf_def ok_iff)
  with items len enc protected_join_sizes [OF wf] show ?thesis
    by (auto simp: ProtectedJoinRequest_decode_canonical_def protected_join_prefix_def dec_def
        dec_enum_def decode_fixed_def require_array_def require_value_def prebound_def
        reject_trailing_def enum_defs try_single_def wire_consts dest!: items_read items_end)
qed

lemma endpoint_decode_from_complete:
  assumes wf: "endpoint_wf e" and enc: "encode_items C (endpoint_items e @ is) = Some b"
  shows "\<exists>d. LocalWelcomeDepositEndpoint_decode_from C b = Inr (e, d) \<and> encode_items C is = Some d"
proof -
  have new: "LocalWelcomeDepositEndpoint_new (ep_transport_instance_id e) (ep_mailbox_id e)
      (ep_deposit_capability e) (ep_expires_at e) = Inr e"
    and cap: "DepositCapability_new (ep_deposit_capability e) = Inr (ep_deposit_capability e)"
    using wf by (simp_all add: endpoint_wf_def ok_iff)
  with enc endpoint_sizes [OF wf] show ?thesis
    by (auto simp: LocalWelcomeDepositEndpoint_decode_from_def endpoint_items_def dec_def
        dec_enum_def decode_fixed_def require_array_def require_value_def
        enum_defs try_single_def wire_consts dest!: items_read)
qed

lemma endpoint_decode_complete:
  assumes wf: "endpoint_wf e" and enc: "LocalWelcomeDepositEndpoint_encode_canonical C e = Inr b"
  shows "LocalWelcomeDepositEndpoint_decode_canonical C b = Inr e"
proof -
  from enc have "encode_items C (endpoint_items e @ []) = Some b"
    and len: "length b \<le> MAX_LOCAL_WELCOME_ENDPOINT_BYTES"
    by (simp_all add: endpoint_encode_eq_Inr)
  with endpoint_decode_from_complete [OF wf, of "[]" b]
  have "LocalWelcomeDepositEndpoint_decode_from C b = Inr (e, [])"
    by (auto dest!: items_end)
  with len enc show ?thesis
    by (simp add: LocalWelcomeDepositEndpoint_decode_canonical_def prebound_def reject_trailing_def)
qed

end

sublocale cbor_library \<subseteq> endpoint: canonical_codec
  "LocalWelcomeDepositEndpoint_encode_canonical C" "LocalWelcomeDepositEndpoint_decode_canonical C" endpoint_wf
  by unfold_locales
    (auto dest: endpoint_decode_sound intro: endpoint_encode_ok endpoint_decode_complete)

sublocale cbor_library \<subseteq> protected_join: canonical_codec
  "ProtectedJoinRequest_encode_canonical C" "ProtectedJoinRequest_decode_canonical C" protected_join_wf
  by unfold_locales
    (auto dest: protected_join_decode_sound intro: protected_join_encode_ok protected_join_decode_complete)

context cbor_library
begin

lemma join_request_encode_ok:
  assumes "join_request_wf E r"
  shows "\<exists>b. CapabilityJoinRequest_encode_canonical C r = Inr b"
proof -
  let ?is = "join_request_items r @ endpoint_items (jr_response_endpoint r)"
  note sizes = join_request_sizes [OF assms]
  have ep: "endpoint_wf (jr_response_endpoint r)"
    using assms by (simp add: join_request_wf_def Let_def)
  have "list_all item_ok ?is"
    using sizes endpoint_sizes [OF ep] by (simp add: join_request_items_def endpoint_items_def)
  then obtain b where "encode_items C ?is = Some b" "length b = items_length ?is"
    using encode_items_total [of ?is] by blast
  moreover have "items_length (join_request_items r) \<le> 16900"
    using sizes head_length_bounds(2) [of "unat (rb_issued_at (jr_request r))"]
      head_length_bounds(2) [of "unat (rb_expires_at (jr_request r))"]
      head_length_16 [of "length (kb_key_package (jr_mls r))"]
    by (simp add: join_request_items_def wire_consts head_length_small head_length_def [of 32])
  ultimately show ?thesis
    using endpoint_items_length [OF ep]
    by (auto simp: join_request_encode_eq_Inr items_length_def wire_consts)
qed

lemma join_request_decode_complete:
  assumes keys: "ed_keeps_bytes E" and wf: "join_request_wf E r"
    and enc: "CapabilityJoinRequest_encode_canonical C r = Inr b"
  shows "CapabilityJoinRequest_decode_canonical C E b = Inr r"
proof -
  let ?i = "jr_invitation r" and ?q = "jr_request r" and ?m = "jr_mls r"
  have ep: "endpoint_wf (jr_response_endpoint r)"
    using wf by (simp add: join_request_wf_def Let_def)
  have ep_read: "\<And>d. encode_items C (endpoint_items (jr_response_endpoint r)) = Some d \<Longrightarrow>
      LocalWelcomeDepositEndpoint_decode_from C d = Inr (jr_response_endpoint r, [])"
    using endpoint_decode_from_complete [OF ep, of "[]"] by (auto dest!: items_end)
  have items: "encode_items C (join_request_items r @ endpoint_items (jr_response_endpoint r)) = Some b"
    and len: "length b \<le> MAX_CAPABILITY_JOIN_REQUEST_BYTES"
    using enc by (simp_all add: join_request_encode_eq_Inr)
  have new: "InvitationJoinBinding_new E (ib_invitation_id ?i) (ib_join_challenge ?i)
        (ib_invitation_key_id ?i) (ib_intended_verifier ?i) = Inr ?i"
      "JoinRequestBinding_new (rb_join_request_id ?q) (rb_issued_at ?q) (rb_expires_at ?q)
        (rb_request_nonce ?q) = Inr ?q"
      "MlsKeyPackageBinding_new E (kb_key_package_reference ?m) (kb_key_package ?m)
        (kb_credential_identity ?m) (kb_leaf_signature_key ?m) = Inr ?m"
      "CapabilityJoinRequest_new ?i ?q ?m (jr_response_endpoint r) = Inr r"
    using wf by (auto simp: join_request_wf_def Let_def InvitationJoinBinding_new_def
        JoinRequestBinding_new_def MlsKeyPackageBinding_new_def CapabilityJoinRequest_new_def
        strong_key_eq_Inr [OF keys] ok_iff)
  show ?thesis
    using items len new enc join_request_sizes [OF wf]
    by (auto simp: CapabilityJoinRequest_decode_canonical_def join_request_items_def dec_def
        dec_enum_def decode_fixed_def require_array_def require_value_def prebound_def
        reject_trailing_def enum_defs try_single_def wire_consts dest!: items_read ep_read)
qed

lemma join_request_codec:
  assumes "ed_keeps_bytes E"
  shows "canonical_codec (CapabilityJoinRequest_encode_canonical C)
     (CapabilityJoinRequest_decode_canonical C E) (join_request_wf E)"
  by unfold_locales
    (auto intro: join_request_encode_ok join_request_decode_complete [OF assms]
      dest: join_request_decode_sound join_request_decode_wf [OF assms])

end

end
