(* ===== verification/Registry.thy ===== *)
theory Registry
  imports Protected_Join
begin

text \<open>
  The inviter-owned invitation registry of \<open>crates/session-core/src/lib.rs\<close>: policy, retained
  records with their lifecycle, and every operation (issue, validate, reserve, release, consume,
  the read-only preflight and the lifecycle view) for both invitation schemas.
\<close>

section \<open>Data\<close>

datatype lifecycle_error =
    Protocol wire_error
  | InvalidMaximumLifetime
  | InvalidCapacity
  | IssuedTooFarInFuture u64 u64
  | Expired u64 u64
  | LifetimeExceedsPolicy u64 u64
  | DuplicateInvitationId
  | CapacityExceeded usize
  | UnknownInvitation
  | DescriptorMismatch
  | ZeroJoinRequestId
  | AlreadyReserved
  | AlreadyConsumed
  | ReservationMismatch
  | NotReserved

record invitation_policy =
  ip_maximum_lifetime :: u64
  ip_maximum_future_skew :: u64
  ip_maximum_live :: usize

definition InvitationPolicy_new :: "u64 \<Rightarrow> u64 \<Rightarrow> usize \<Rightarrow> lifecycle_error + invitation_policy" where
  "InvitationPolicy_new lifetime skew live =
     (if lifetime = 0 then Err InvalidMaximumLifetime
      else if live = 0 then Err InvalidCapacity
      else Ok \<lparr> ip_maximum_lifetime = lifetime, ip_maximum_future_skew = skew, ip_maximum_live = live \<rparr>)"

datatype invitation_lifecycle = Available | Reserved | Consumed

datatype stored_lifecycle = StoredAvailable | StoredReserved ident | StoredConsumed

datatype invitation_schema = V1 | V2

record invitation_reservation =
  res_invitation_id :: ident
  res_join_request_id :: ident
  res_record_signature :: bytes
  res_schema :: invitation_schema

record invitation_record =
  rec_schema :: invitation_schema
  rec_expires_at :: u64
  rec_verifying_key :: bytes
  rec_signature :: bytes
  rec_lifecycle :: stored_lifecycle

definition InvitationRecord_matches :: "invitation_record \<Rightarrow> signed_capability_invitation \<Rightarrow> bool" where
  "InvitationRecord_matches r i \<longleftrightarrow> rec_schema r = V1
     \<and> rec_expires_at r = cl_expires_at (inv_claims i)
     \<and> rec_verifying_key r = inv_verifying_key i
     \<and> rec_signature r = inv_signature i"

definition InvitationRecord_matches_v2 :: "invitation_record \<Rightarrow> signed_capability_invitation_v2 \<Rightarrow> bool" where
  "InvitationRecord_matches_v2 r i \<longleftrightarrow> rec_schema r = V2
     \<and> rec_expires_at r = cl_expires_at (cl2_base (inv2_claims i))
     \<and> rec_verifying_key r = inv2_verifying_key i
     \<and> rec_signature r = inv2_signature i"

text \<open>
  A generated version 2 invitation pairs the signed object with its private key, which the
  registry passes through unopened.
\<close>

record 'k generated_invitation_v2 =
  gen_invitation :: signed_capability_invitation_v2
  gen_private_key :: 'k

record registry =
  reg_policy :: invitation_policy
  reg_records :: "(ident, invitation_record) btree_map"

definition InvitationRegistry_new :: "invitation_policy \<Rightarrow> registry" where
  "InvitationRegistry_new p = \<lparr> reg_policy = p, reg_records = [] \<rparr>"

section \<open>Private helpers\<close>

definition validate_time_values :: "registry \<Rightarrow> u64 \<Rightarrow> u64 \<Rightarrow> u64 \<Rightarrow> lifecycle_error + unit" where
  "validate_time_values g issued_at expires_at now =
     (let latest_allowed = saturating_add now (ip_maximum_future_skew (reg_policy g)) in
      if issued_at > latest_allowed then Err (IssuedTooFarInFuture issued_at latest_allowed)
      else if expires_at \<le> now then Err (Expired expires_at now)
      else let lifetime = saturating_sub expires_at issued_at in
        if lifetime > ip_maximum_lifetime (reg_policy g)
        then Err (LifetimeExceedsPolicy lifetime (ip_maximum_lifetime (reg_policy g)))
        else Ok ())"

definition current_record :: "registry \<Rightarrow> ident \<Rightarrow> u64 \<Rightarrow> lifecycle_error + invitation_record" where
  "current_record g iid now =
     (case bt_get (reg_records g) iid of
        None \<Rightarrow> Err UnknownInvitation
      | Some r \<Rightarrow> if rec_expires_at r \<le> now then Err (Expired (rec_expires_at r) now) else Ok r)"

definition is_live :: "u64 \<Rightarrow> invitation_record \<Rightarrow> bool" where
  "is_live now r \<longleftrightarrow> rec_expires_at r > now"

definition insert_record ::
    "registry \<Rightarrow> ident \<Rightarrow> u64 \<Rightarrow> bytes \<Rightarrow> bytes \<Rightarrow> invitation_schema \<Rightarrow> u64
      \<Rightarrow> (lifecycle_error + unit) \<times> registry" where
  "insert_record g iid expires_at vk signature schema now =
     (if (case bt_get (reg_records g) iid of None \<Rightarrow> False | Some r \<Rightarrow> is_live now r)
      then (Err DuplicateInvitationId, g)
      else if length (filter (is_live now) (bt_values (reg_records g))) \<ge> ip_maximum_live (reg_policy g)
      then (Err (CapacityExceeded (ip_maximum_live (reg_policy g))), g)
      else (Ok (), g\<lparr> reg_records := bt_insert iid
             \<lparr> rec_schema = schema, rec_expires_at = expires_at, rec_verifying_key = vk,
               rec_signature = signature, rec_lifecycle = StoredAvailable \<rparr>
             (bt_retain (is_live now) (reg_records g)) \<rparr>))"

definition set_lifecycle :: "registry \<Rightarrow> ident \<Rightarrow> stored_lifecycle \<Rightarrow> registry" where
  "set_lifecycle g iid l =
     g\<lparr> reg_records := bt_update iid (\<lambda>r. r\<lparr> rec_lifecycle := l \<rparr>) (reg_records g) \<rparr>"

section \<open>Operations\<close>

definition issue ::
    "cbor \<Rightarrow> ('sk, 'vk) ed25519 \<Rightarrow> registry \<Rightarrow> capability_invitation_claims \<Rightarrow> 'sk \<Rightarrow> u64
      \<Rightarrow> (lifecycle_error + signed_capability_invitation) \<times> registry" where
  "issue C E g claims sk now =
     (case SignedCapabilityInvitation_sign C E claims sk of
        Inl e \<Rightarrow> (Err (Protocol e), g)
      | Inr i \<Rightarrow>
        (case validate_time_values g (cl_issued_at (inv_claims i)) (cl_expires_at (inv_claims i)) now of
           Inl e \<Rightarrow> (Err e, g)
         | Inr _ \<Rightarrow>
           (case insert_record g (cl_invitation_id (inv_claims i)) (cl_expires_at (inv_claims i))
                   (inv_verifying_key i) (inv_signature i) V1 now of
              (Inl e, g') \<Rightarrow> (Err e, g')
            | (Inr _, g') \<Rightarrow> (Ok i, g'))))"

definition issue_v2 ::
    "registry \<Rightarrow> 'k generated_invitation_v2 \<Rightarrow> u64
      \<Rightarrow> (lifecycle_error + 'k generated_invitation_v2) \<times> registry" where
  "issue_v2 g generated now =
     (let i = gen_invitation generated; base = cl2_base (inv2_claims i) in
      case validate_time_values g (cl_issued_at base) (cl_expires_at base) now of
        Inl e \<Rightarrow> (Err e, g)
      | Inr _ \<Rightarrow>
        (case insert_record g (cl_invitation_id base) (cl_expires_at base)
                (inv2_verifying_key i) (inv2_signature i) V2 now of
           (Inl e, g') \<Rightarrow> (Err e, g')
         | (Inr _, g') \<Rightarrow> (Ok generated, g')))"

definition validate_descriptor ::
    "cbor \<Rightarrow> ('sk, 'vk) ed25519 \<Rightarrow> registry \<Rightarrow> bytes \<Rightarrow> u64
      \<Rightarrow> lifecycle_error + signed_capability_invitation" where
  "validate_descriptor C E g encoded now =
     and_then (map_err Protocol (SignedCapabilityInvitation_decode_and_verify C E encoded)) (\<lambda>i.
     and_then (validate_time_values g (cl_issued_at (inv_claims i)) (cl_expires_at (inv_claims i)) now) (\<lambda>_.
       Ok i))"

definition validate_descriptor_v2 ::
    "cbor \<Rightarrow> ('sk, 'vk) ed25519 \<Rightarrow> registry \<Rightarrow> bytes \<Rightarrow> u64
      \<Rightarrow> lifecycle_error + signed_capability_invitation_v2" where
  "validate_descriptor_v2 C E g encoded now =
     and_then (map_err Protocol (SignedCapabilityInvitationV2_decode_and_verify C E encoded)) (\<lambda>i.
     and_then (validate_time_values g (cl_issued_at (cl2_base (inv2_claims i)))
                 (cl_expires_at (cl2_base (inv2_claims i))) now) (\<lambda>_.
       Ok i))"

definition reserve_after_admission ::
    "registry \<Rightarrow> signed_capability_invitation \<Rightarrow> ident \<Rightarrow> u64
      \<Rightarrow> (lifecycle_error + invitation_reservation) \<times> registry" where
  "reserve_after_admission g i jid now =
     (if all_zero jid then (Err ZeroJoinRequestId, g)
      else case validate_time_values g (cl_issued_at (inv_claims i)) (cl_expires_at (inv_claims i)) now of
        Inl e \<Rightarrow> (Err e, g)
      | Inr _ \<Rightarrow>
        (let iid = cl_invitation_id (inv_claims i) in
         case bt_get (reg_records g) iid of
           None \<Rightarrow> (Err UnknownInvitation, g)
         | Some r \<Rightarrow>
           if \<not> InvitationRecord_matches r i then (Err DescriptorMismatch, g)
           else (case rec_lifecycle r of
              StoredAvailable \<Rightarrow>
                (Ok \<lparr> res_invitation_id = iid, res_join_request_id = jid,
                      res_record_signature = rec_signature r, res_schema = V1 \<rparr>,
                 set_lifecycle g iid (StoredReserved jid))
            | StoredReserved _ \<Rightarrow> (Err AlreadyReserved, g)
            | StoredConsumed \<Rightarrow> (Err AlreadyConsumed, g))))"

definition reserve_v2_after_admission ::
    "registry \<Rightarrow> signed_capability_invitation_v2 \<Rightarrow> ident \<Rightarrow> u64
      \<Rightarrow> (lifecycle_error + invitation_reservation) \<times> registry" where
  "reserve_v2_after_admission g i jid now =
     (if all_zero jid then (Err ZeroJoinRequestId, g)
      else case validate_time_values g (cl_issued_at (cl2_base (inv2_claims i)))
                  (cl_expires_at (cl2_base (inv2_claims i))) now of
        Inl e \<Rightarrow> (Err e, g)
      | Inr _ \<Rightarrow>
        (let iid = cl_invitation_id (cl2_base (inv2_claims i)) in
         case bt_get (reg_records g) iid of
           None \<Rightarrow> (Err UnknownInvitation, g)
         | Some r \<Rightarrow>
           if \<not> InvitationRecord_matches_v2 r i then (Err DescriptorMismatch, g)
           else (case rec_lifecycle r of
              StoredAvailable \<Rightarrow>
                (Ok \<lparr> res_invitation_id = iid, res_join_request_id = jid,
                      res_record_signature = rec_signature r, res_schema = V2 \<rparr>,
                 set_lifecycle g iid (StoredReserved jid))
            | StoredReserved _ \<Rightarrow> (Err AlreadyReserved, g)
            | StoredConsumed \<Rightarrow> (Err AlreadyConsumed, g))))"

definition release ::
    "registry \<Rightarrow> invitation_reservation \<Rightarrow> u64 \<Rightarrow> (lifecycle_error + unit) \<times> registry" where
  "release g res now =
     (case current_record g (res_invitation_id res) now of
        Inl e \<Rightarrow> (Err e, g)
      | Inr r \<Rightarrow>
        if rec_schema r \<noteq> res_schema res \<or> rec_signature r \<noteq> res_record_signature res
        then (Err ReservationMismatch, g)
        else (case rec_lifecycle r of
           StoredReserved jid \<Rightarrow>
             if jid = res_join_request_id res
             then (Ok (), set_lifecycle g (res_invitation_id res) StoredAvailable)
             else (Err ReservationMismatch, g)
         | StoredAvailable \<Rightarrow> (Err NotReserved, g)
         | StoredConsumed \<Rightarrow> (Err AlreadyConsumed, g)))"

definition consume_after_membership ::
    "registry \<Rightarrow> invitation_reservation \<Rightarrow> u64 \<Rightarrow> (lifecycle_error + unit) \<times> registry" where
  "consume_after_membership g res now =
     (case current_record g (res_invitation_id res) now of
        Inl e \<Rightarrow> (Err e, g)
      | Inr r \<Rightarrow>
        if rec_schema r \<noteq> res_schema res \<or> rec_signature r \<noteq> res_record_signature res
        then (Err ReservationMismatch, g)
        else (case rec_lifecycle r of
           StoredReserved jid \<Rightarrow>
             if jid = res_join_request_id res
             then (Ok (), set_lifecycle g (res_invitation_id res) StoredConsumed)
             else (Err ReservationMismatch, g)
         | StoredAvailable \<Rightarrow> (Err NotReserved, g)
         | StoredConsumed \<Rightarrow> (Err AlreadyConsumed, g)))"

definition validate_reservation ::
    "registry \<Rightarrow> invitation_reservation \<Rightarrow> u64 \<Rightarrow> lifecycle_error + unit" where
  "validate_reservation g res now =
     (case bt_get (reg_records g) (res_invitation_id res) of
        None \<Rightarrow> Err UnknownInvitation
      | Some r \<Rightarrow>
        if rec_expires_at r \<le> now then Err (Expired (rec_expires_at r) now)
        else if rec_schema r \<noteq> res_schema res \<or> rec_signature r \<noteq> res_record_signature res
        then Err ReservationMismatch
        else (case rec_lifecycle r of
           StoredReserved jid \<Rightarrow> if jid = res_join_request_id res then Ok () else Err ReservationMismatch
         | StoredAvailable \<Rightarrow> Err NotReserved
         | StoredConsumed \<Rightarrow> Err AlreadyConsumed))"

fun lifecycle_view :: "stored_lifecycle \<Rightarrow> invitation_lifecycle" where
  "lifecycle_view StoredAvailable = Available"
| "lifecycle_view (StoredReserved _) = Reserved"
| "lifecycle_view StoredConsumed = Consumed"

definition lifecycle :: "registry \<Rightarrow> ident \<Rightarrow> invitation_lifecycle option" where
  "lifecycle g iid = map_option (\<lambda>r. lifecycle_view (rec_lifecycle r)) (bt_get (reg_records g) iid)"

definition record_count :: "registry \<Rightarrow> usize" where
  "record_count g = length (reg_records g)"


section \<open>Runs of the registry\<close>

text \<open>
  One call of the registry's interface, with the clock value it is given, and a run: the calls in
  order, threading the registry, with the reservations that were granted on the way.
\<close>

datatype ('sk, 'k) registry_op =
    OpIssue capability_invitation_claims 'sk
  | OpIssueV2 "'k generated_invitation_v2"
  | OpReserve signed_capability_invitation ident
  | OpReserveV2 signed_capability_invitation_v2 ident
  | OpRelease invitation_reservation
  | OpConsume invitation_reservation

fun registry_apply ::
    "cbor \<Rightarrow> ('sk, 'vk) ed25519 \<Rightarrow> registry \<Rightarrow> ('sk, 'k) registry_op \<times> u64
      \<Rightarrow> (lifecycle_error + invitation_reservation option) \<times> registry" where
  "registry_apply C E g (OpIssue claims sk, now) =
     (let (r, g') = issue C E g claims sk now in (and_then r (\<lambda>_. Ok None), g'))"
| "registry_apply C E g (OpIssueV2 generated, now) =
     (let (r, g') = issue_v2 g generated now in (and_then r (\<lambda>_. Ok None), g'))"
| "registry_apply C E g (OpReserve i jid, now) =
     (let (r, g') = reserve_after_admission g i jid now in (and_then r (\<lambda>x. Ok (Some x)), g'))"
| "registry_apply C E g (OpReserveV2 i jid, now) =
     (let (r, g') = reserve_v2_after_admission g i jid now in (and_then r (\<lambda>x. Ok (Some x)), g'))"
| "registry_apply C E g (OpRelease res, now) =
     (let (r, g') = release g res now in (and_then r (\<lambda>_. Ok None), g'))"
| "registry_apply C E g (OpConsume res, now) =
     (let (r, g') = consume_after_membership g res now in (and_then r (\<lambda>_. Ok None), g'))"

fun granted :: "(lifecycle_error + invitation_reservation option) \<Rightarrow> invitation_reservation list" where
  "granted (Inr (Some x)) = [x]"
| "granted _ = []"

fun registry_run ::
    "cbor \<Rightarrow> ('sk, 'vk) ed25519 \<Rightarrow> registry \<Rightarrow> (('sk, 'k) registry_op \<times> u64) list
      \<Rightarrow> invitation_reservation list \<times> registry" where
  "registry_run C E g [] = ([], g)"
| "registry_run C E g (op # ops) =
     (let (r, g') = registry_apply C E g op; (rs, g'') = registry_run C E g' ops in (granted r @ rs, g''))"

section \<open>Record-level steps\<close>

text \<open>
  Every operation is one of five record-level steps. The label is the reservation the step
  grants, if any.
\<close>

inductive record_step :: "u64 \<Rightarrow> registry \<Rightarrow> invitation_reservation option \<Rightarrow> registry \<Rightarrow> bool" for now where
  step_skip: "record_step now g None g"
| step_insert: "\<lbrakk> \<forall>r. bt_get (reg_records g) iid = Some r \<longrightarrow> \<not> is_live now r;
      length (filter (is_live now) (bt_values (reg_records g))) < ip_maximum_live (reg_policy g);
      rec_lifecycle new = StoredAvailable; is_live now new \<rbrakk>
    \<Longrightarrow> record_step now g None
          (g\<lparr> reg_records := bt_insert iid new (bt_retain (is_live now) (reg_records g)) \<rparr>)"
| step_reserve: "\<lbrakk> bt_get (reg_records g) iid = Some r; rec_lifecycle r = StoredAvailable;
      is_live now r; \<not> all_zero jid;
      res = \<lparr> res_invitation_id = iid, res_join_request_id = jid,
              res_record_signature = rec_signature r, res_schema = rec_schema r \<rparr> \<rbrakk>
    \<Longrightarrow> record_step now g (Some res) (set_lifecycle g iid (StoredReserved jid))"
| step_release: "\<lbrakk> bt_get (reg_records g) iid = Some r; rec_lifecycle r = StoredReserved jid;
      is_live now r \<rbrakk>
    \<Longrightarrow> record_step now g None (set_lifecycle g iid StoredAvailable)"
| step_consume: "\<lbrakk> bt_get (reg_records g) iid = Some r; rec_lifecycle r = StoredReserved jid;
      is_live now r \<rbrakk>
    \<Longrightarrow> record_step now g None (set_lifecycle g iid StoredConsumed)"

lemma validate_time_values_eq_Inr [ok_iff]:
  "validate_time_values g issued expires now = Inr u \<longleftrightarrow>
     unat issued \<le> unat now + unat (ip_maximum_future_skew (reg_policy g)) \<and> now < expires
     \<and> unat expires - unat issued \<le> unat (ip_maximum_lifetime (reg_policy g))"
proof -
  have "unat issued < 2 ^ 64" using unsigned_less [of issued] by simp
  then show ?thesis
    by (auto simp: validate_time_values_def Let_def word_le_nat_alt word_less_nat_alt
        unat_saturating_add unat_saturating_sub not_less split: if_splits)
qed

lemma insert_record_ok:
  assumes "insert_record g iid expires_at vk sig schema now = (Inr u, g')" and "now < expires_at"
  shows "record_step now g None g'"
  using assms
  by (auto simp: insert_record_def is_live_def split: if_splits option.splits intro!: step_insert)

lemma insert_record_err:
  "insert_record g iid expires_at vk sig schema now = (Inl e, g') \<Longrightarrow> g' = g"
  by (auto simp: insert_record_def split: if_splits)

lemma issue_step:
  assumes "issue C E g claims sk now = (r, g')"
  shows "record_step now g None g' \<and> (\<forall>e. r = Inl e \<longrightarrow> g' = g)"
  using assms
  by (auto simp: issue_def ok_iff split: sum.splits prod.splits
      intro: step_skip dest: insert_record_err insert_record_ok)

lemma issue_v2_step:
  assumes "issue_v2 g gen now = (r, g')"
  shows "record_step now g None g' \<and> (\<forall>e. r = Inl e \<longrightarrow> g' = g)"
  using assms
  by (auto simp: issue_v2_def ok_iff Let_def split: sum.splits prod.splits
      intro: step_skip dest: insert_record_err insert_record_ok)

lemma reserve_ok_iff:
  "(\<exists>g'. reserve_after_admission g i jid now = (Inr res, g')) \<longleftrightarrow>
     \<not> all_zero jid
     \<and> validate_time_values g (cl_issued_at (inv_claims i)) (cl_expires_at (inv_claims i)) now = Inr ()
     \<and> (\<exists>r. bt_get (reg_records g) (cl_invitation_id (inv_claims i)) = Some r
          \<and> InvitationRecord_matches r i \<and> rec_lifecycle r = StoredAvailable
          \<and> res = \<lparr> res_invitation_id = cl_invitation_id (inv_claims i), res_join_request_id = jid,
                    res_record_signature = rec_signature r, res_schema = V1 \<rparr>)"
  by (auto simp: reserve_after_admission_def Let_def split: sum.splits option.splits stored_lifecycle.splits)

lemma reserve_step:
  assumes "reserve_after_admission g i jid now = (r, g')"
  shows "case r of Inl e \<Rightarrow> g' = g | Inr res \<Rightarrow> record_step now g (Some res) g'"
  using assms
  by (auto simp: reserve_after_admission_def Let_def ok_iff InvitationRecord_matches_def is_live_def
      split: sum.splits option.splits stored_lifecycle.splits if_splits intro!: step_reserve)

lemma reserve_v2_step:
  assumes "reserve_v2_after_admission g i jid now = (r, g')"
  shows "case r of Inl e \<Rightarrow> g' = g | Inr res \<Rightarrow> record_step now g (Some res) g'"
  using assms
  by (auto simp: reserve_v2_after_admission_def Let_def ok_iff InvitationRecord_matches_v2_def is_live_def
      split: sum.splits option.splits stored_lifecycle.splits if_splits intro!: step_reserve)

text \<open>Release and consume succeed exactly on the reservation the read-only preflight accepts.\<close>

definition holds_reservation :: "registry \<Rightarrow> invitation_reservation \<Rightarrow> u64 \<Rightarrow> bool" where
  "holds_reservation g res now \<longleftrightarrow> (\<exists>r. bt_get (reg_records g) (res_invitation_id res) = Some r
     \<and> is_live now r \<and> rec_schema r = res_schema res \<and> rec_signature r = res_record_signature res
     \<and> rec_lifecycle r = StoredReserved (res_join_request_id res))"

lemma validate_reservation_iff:
  "validate_reservation g res now = Inr u \<longleftrightarrow> holds_reservation g res now"
  by (auto simp: validate_reservation_def holds_reservation_def is_live_def not_le
      split: option.splits stored_lifecycle.splits)

lemma release_validates:
  "release g res now = (case validate_reservation g res now of Inl e \<Rightarrow> (Inl e, g)
     | Inr u \<Rightarrow> (Inr u, set_lifecycle g (res_invitation_id res) StoredAvailable))"
  by (auto simp: release_def validate_reservation_def current_record_def
      split: option.splits stored_lifecycle.splits)

lemma consume_validates:
  "consume_after_membership g res now = (case validate_reservation g res now of Inl e \<Rightarrow> (Inl e, g)
     | Inr u \<Rightarrow> (Inr u, set_lifecycle g (res_invitation_id res) StoredConsumed))"
  by (auto simp: consume_after_membership_def validate_reservation_def current_record_def
      split: option.splits stored_lifecycle.splits)

lemma release_step:
  assumes "release g res now = (r, g')"
  shows "case r of Inl e \<Rightarrow> g' = g | Inr _ \<Rightarrow> record_step now g None g'"
  using assms
  by (auto simp: release_validates validate_reservation_iff holds_reservation_def
      split: sum.splits intro: step_release)

lemma consume_step:
  assumes "consume_after_membership g res now = (r, g')"
  shows "case r of Inl e \<Rightarrow> g' = g | Inr _ \<Rightarrow> record_step now g None g'"
  using assms
  by (auto simp: consume_validates validate_reservation_iff holds_reservation_def
      split: sum.splits intro: step_consume)

lemmas op_steps = issue_step issue_v2_step reserve_step reserve_v2_step release_step consume_step

lemma registry_apply_step:
  assumes "registry_apply C E g (op, now) = (r, g')"
  shows "case r of Inl e \<Rightarrow> g' = g | Inr out \<Rightarrow> record_step now g out g'"
  using assms
  by (cases op)
    (auto simp: ok_iff and_then_eq_Inl split: prod.splits sum.splits dest: op_steps)

section \<open>Invariant\<close>

text \<open>
  The records are a map, never more of them than the policy allows (expired ones included), and
  a reserved record names a real request.
\<close>

definition reserved_ok :: "invitation_record \<Rightarrow> bool" where
  "reserved_ok r = (case rec_lifecycle r of StoredReserved jid \<Rightarrow> \<not> all_zero jid | _ \<Rightarrow> True)"

definition registry_inv :: "registry \<Rightarrow> bool" where
  "registry_inv g \<longleftrightarrow> bt_wf (reg_records g) \<and> length (reg_records g) \<le> ip_maximum_live (reg_policy g)
     \<and> (\<forall>iid r. bt_get (reg_records g) iid = Some r \<longrightarrow> reserved_ok r)"

lemma registry_inv_new: "registry_inv (InvitationRegistry_new p)"
  by (simp add: registry_inv_def InvitationRegistry_new_def bt_wf_Nil bt_get_empty)

lemma record_step_policy: "record_step now g out g' \<Longrightarrow> reg_policy g' = reg_policy g"
  by (induction rule: record_step.induct) (simp_all add: set_lifecycle_def)

lemma set_lifecycle_get:
  "bt_get (reg_records (set_lifecycle g iid l)) k =
     (if k = iid then map_option (\<lambda>r. r\<lparr> rec_lifecycle := l \<rparr>) (bt_get (reg_records g) k)
      else bt_get (reg_records g) k)"
  by (simp add: set_lifecycle_def bt_get_update)

lemma registry_inv_set_lifecycle:
  assumes "registry_inv g" and "\<And>jid. l = StoredReserved jid \<Longrightarrow> \<not> all_zero jid"
  shows "registry_inv (set_lifecycle g iid l)"
proof -
  have "\<forall>k r. bt_get (reg_records (set_lifecycle g iid l)) k = Some r \<longrightarrow> reserved_ok r"
    using assms by (auto simp: set_lifecycle_get registry_inv_def reserved_ok_def
        split: if_splits stored_lifecycle.splits)
  with assms(1) show ?thesis
    by (simp add: registry_inv_def set_lifecycle_def bt_wf_simps bt_length_simps)
qed

lemma record_step_inv:
  assumes "record_step now g out g'" and "registry_inv g"
  shows "registry_inv g'"
  using assms
proof (induction rule: record_step.induct)
  case (step_insert g iid new)
  let ?m = "bt_retain (is_live now) (reg_records g)"
  have "bt_get ?m iid = None"
    using step_insert by (auto simp: bt_get_retain registry_inv_def split: option.splits)
  then have "length (bt_insert iid new ?m) = Suc (length ?m)"
    by (rule bt_insert_length_new)
  moreover have "\<forall>k r. bt_get (bt_insert iid new ?m) k = Some r \<longrightarrow> reserved_ok r"
    using step_insert by (auto simp: registry_inv_def reserved_ok_def dest!: btree.get_prune_putD)
  ultimately show ?case
    using step_insert by (simp add: registry_inv_def bt_wf_simps bt_retain_length)
qed (auto intro: registry_inv_set_lifecycle)

lemma registry_apply_inv:
  "registry_inv g \<Longrightarrow> registry_inv (snd (registry_apply C E g (op, now)))"
  using registry_apply_step [of C E g op now] record_step_inv
  by (cases "registry_apply C E g (op, now)") (force split: sum.splits)

lemma registry_apply_policy:
  "reg_policy (snd (registry_apply C E g (op, now))) = reg_policy g"
  using registry_apply_step [of C E g op now] record_step_policy
  by (cases "registry_apply C E g (op, now)") (force split: sum.splits)

lemma registry_run_inv_policy:
  "registry_inv g \<Longrightarrow> registry_inv (snd (registry_run C E g ops))
     \<and> reg_policy (snd (registry_run C E g ops)) = reg_policy g"
proof (induction ops arbitrary: g)
  case (Cons op ops)
  obtain o' now where op: "op = (o', now)" by fastforce
  obtain r g1 where a: "registry_apply C E g op = (r, g1)" by fastforce
  have "registry_inv g1" "reg_policy g1 = reg_policy g"
    using registry_apply_inv [OF Cons.prems, of C E o' now] registry_apply_policy [of C E g o' now]
    by (simp_all add: a [unfolded op])
  with Cons.IH [of g1] a show ?case by (simp add: case_prod_unfold Let_def)
qed simp

section \<open>The promised lifecycle\<close>

text \<open>
  What the interface promises, over a ledger that keeps of each invitation only its expiry and its
  stage. Each call names what it asks for, and a call that succeeds makes exactly the one
  transition it names: issuing needs an identifier that no live entry has, adds it as available, and
  forgets the expired entries and no others; reserving takes an available entry; releasing and
  consuming take an entry reserved for the named join request. No call touches another live entry.
\<close>

datatype life_call =
    ToIssue ident u64
  | ToReserve ident ident
  | ToRelease ident ident
  | ToConsume ident ident

fun call_of :: "('sk, 'k) registry_op \<Rightarrow> life_call" where
  "call_of (OpIssue claims sk) = ToIssue (cl_invitation_id claims) (cl_expires_at claims)"
| "call_of (OpIssueV2 generated) =
     ToIssue (cl_invitation_id (cl2_base (inv2_claims (gen_invitation generated))))
       (cl_expires_at (cl2_base (inv2_claims (gen_invitation generated))))"
| "call_of (OpReserve i jid) = ToReserve (cl_invitation_id (inv_claims i)) jid"
| "call_of (OpReserveV2 i jid) = ToReserve (cl_invitation_id (cl2_base (inv2_claims i))) jid"
| "call_of (OpRelease res) = ToRelease (res_invitation_id res) (res_join_request_id res)"
| "call_of (OpConsume res) = ToConsume (res_invitation_id res) (res_join_request_id res)"

definition ledger :: "registry \<Rightarrow> ident \<Rightarrow> (u64 \<times> stored_lifecycle) option" where
  "ledger g iid = map_option (\<lambda>r. (rec_expires_at r, rec_lifecycle r)) (bt_get (reg_records g) iid)"

inductive life_step ::
    "u64 \<Rightarrow> life_call \<Rightarrow> (ident \<Rightarrow> (u64 \<times> stored_lifecycle) option)
      \<Rightarrow> (ident \<Rightarrow> (u64 \<times> stored_lifecycle) option) \<Rightarrow> bool" for now where
  life_issue: "\<lbrakk> live = {k. \<exists>x. L k = Some x \<and> now < fst x}; iid \<notin> live; now < e \<rbrakk>
    \<Longrightarrow> life_step now (ToIssue iid e) L ((L |` live)(iid \<mapsto> (e, StoredAvailable)))"
| life_reserve: "\<lbrakk> L iid = Some (e, StoredAvailable); now < e; \<not> all_zero jid \<rbrakk>
    \<Longrightarrow> life_step now (ToReserve iid jid) L (L(iid \<mapsto> (e, StoredReserved jid)))"
| life_release: "\<lbrakk> L iid = Some (e, StoredReserved jid); now < e \<rbrakk>
    \<Longrightarrow> life_step now (ToRelease iid jid) L (L(iid \<mapsto> (e, StoredAvailable)))"
| life_consume: "\<lbrakk> L iid = Some (e, StoredReserved jid); now < e \<rbrakk>
    \<Longrightarrow> life_step now (ToConsume iid jid) L (L(iid \<mapsto> (e, StoredConsumed)))"

lemma lifecycle_ledger: "lifecycle g iid = map_option (lifecycle_view \<circ> snd) (ledger g iid)"
  by (simp add: lifecycle_def ledger_def option.map_comp comp_def)

lemma ledger_set:
  assumes "bt_get (reg_records g) iid = Some r"
  shows "ledger (set_lifecycle g iid l) = (ledger g)(iid \<mapsto> (rec_expires_at r, l))"
  using assms by (auto simp: ledger_def set_lifecycle_get fun_eq_iff)

lemma ledger_insert:
  assumes "bt_wf (reg_records g)"
  shows "ledger (g\<lparr> reg_records := bt_insert iid new (bt_retain (is_live now) (reg_records g)) \<rparr>)
    = ((ledger g) |` {k. \<exists>x. ledger g k = Some x \<and> now < fst x})
        (iid \<mapsto> (rec_expires_at new, rec_lifecycle new))"
  using assms
  by (auto simp: ledger_def fun_eq_iff restrict_map_def bt_get_insert bt_get_retain is_live_def
      split: option.splits)

text \<open>Each operation that succeeds is the ledger transition its call names.\<close>

lemma insert_record_life:
  assumes "insert_record g iid e vk sig schema now = (Inr u, g')" "now < e" "bt_wf (reg_records g)"
  shows "life_step now (ToIssue iid e) (ledger g) (ledger g')"
proof -
  from assms(1) obtain new where
    free: "\<And>r. bt_get (reg_records g) iid = Some r \<Longrightarrow> \<not> is_live now r"
    and g': "g' = g\<lparr> reg_records := bt_insert iid new (bt_retain (is_live now) (reg_records g)) \<rparr>"
    and new: "rec_expires_at new = e" "rec_lifecycle new = StoredAvailable"
    by (auto simp: insert_record_def split: if_splits option.splits)
  have "iid \<notin> {k. \<exists>x. ledger g k = Some x \<and> now < fst x}"
    using free by (auto simp: ledger_def is_live_def)
  from life_issue [OF refl this assms(2)] show ?thesis
    unfolding g' ledger_insert [OF assms(3)] new .
qed

lemma issue_life:
  assumes "issue C E g claims sk now = (Inr i, g')" "bt_wf (reg_records g)"
  shows "life_step now (ToIssue (cl_invitation_id claims) (cl_expires_at claims)) (ledger g) (ledger g')"
  using assms
  by (auto simp: issue_def ok_iff SignedCapabilityInvitation_sign_def Let_def split: sum.splits prod.splits
      intro: insert_record_life)

lemma issue_v2_life:
  assumes "issue_v2 g generated now = (Inr i, g')" "bt_wf (reg_records g)"
  shows "life_step now (ToIssue (cl_invitation_id (cl2_base (inv2_claims (gen_invitation generated))))
           (cl_expires_at (cl2_base (inv2_claims (gen_invitation generated))))) (ledger g) (ledger g')"
  using assms
  by (auto simp: issue_v2_def ok_iff Let_def split: sum.splits prod.splits intro: insert_record_life)

lemma reserve_life:
  assumes "reserve_after_admission g i jid now = (Inr res, g')"
  shows "life_step now (ToReserve (cl_invitation_id (inv_claims i)) jid) (ledger g) (ledger g')"
  using assms
  by (auto simp: reserve_after_admission_def Let_def ok_iff InvitationRecord_matches_def ledger_set
      ledger_def [of g] simp del: fun_upd_apply
      split: sum.splits option.splits stored_lifecycle.splits if_splits intro!: life_reserve)

lemma reserve_v2_life:
  assumes "reserve_v2_after_admission g i jid now = (Inr res, g')"
  shows "life_step now (ToReserve (cl_invitation_id (cl2_base (inv2_claims i))) jid) (ledger g) (ledger g')"
  using assms
  by (auto simp: reserve_v2_after_admission_def Let_def ok_iff InvitationRecord_matches_v2_def ledger_set
      ledger_def [of g] simp del: fun_upd_apply
      split: sum.splits option.splits stored_lifecycle.splits if_splits intro!: life_reserve)

lemma release_life:
  assumes "release g res now = (Inr u, g')"
  shows "life_step now (ToRelease (res_invitation_id res) (res_join_request_id res)) (ledger g) (ledger g')"
proof -
  from assms obtain r where r: "bt_get (reg_records g) (res_invitation_id res) = Some r" "is_live now r"
    "rec_lifecycle r = StoredReserved (res_join_request_id res)"
    and g': "g' = set_lifecycle g (res_invitation_id res) StoredAvailable"
    by (auto simp: release_validates validate_reservation_iff holds_reservation_def split: sum.splits)
  then show ?thesis unfolding g' ledger_set [OF r(1)]
    by (intro life_release) (simp_all add: ledger_def is_live_def)
qed

lemma consume_life:
  assumes "consume_after_membership g res now = (Inr u, g')"
  shows "life_step now (ToConsume (res_invitation_id res) (res_join_request_id res)) (ledger g) (ledger g')"
proof -
  from assms obtain r where r: "bt_get (reg_records g) (res_invitation_id res) = Some r" "is_live now r"
    "rec_lifecycle r = StoredReserved (res_join_request_id res)"
    and g': "g' = set_lifecycle g (res_invitation_id res) StoredConsumed"
    by (auto simp: consume_validates validate_reservation_iff holds_reservation_def split: sum.splits)
  then show ?thesis unfolding g' ledger_set [OF r(1)]
    by (intro life_consume) (simp_all add: ledger_def is_live_def)
qed

lemma registry_apply_life:
  assumes "registry_apply C E g (op, now) = (Inr out, g')" "registry_inv g"
  shows "life_step now (call_of op) (ledger g) (ledger g')"
proof -
  have wf: "bt_wf (reg_records g)" using assms(2) by (simp add: registry_inv_def)
  show ?thesis
    using assms(1)
    by (cases op) (auto simp: ok_iff Let_def split: prod.splits
        intro: issue_life [OF _ wf] issue_v2_life [OF _ wf] reserve_life reserve_v2_life release_life consume_life)
qed

section \<open>Single use\<close>

text \<open>A consumed record is untouched by every step taken before it expires.\<close>

lemma record_step_consumed:
  assumes "record_step now g out g'" and "bt_wf (reg_records g)"
    and "bt_get (reg_records g) iid = Some r" and "rec_lifecycle r = StoredConsumed"
    and "is_live now r"
  shows "bt_get (reg_records g') iid = Some r"
  using assms
  by (induction rule: record_step.induct)
    (auto simp: set_lifecycle_get bt_get_insert bt_get_retain)

lemma registry_run_consumed:
  assumes "registry_inv g" and "bt_get (reg_records g) iid = Some r"
    and "rec_lifecycle r = StoredConsumed" and "list_all (\<lambda>op. is_live (snd op) r) ops"
  shows "bt_get (reg_records (snd (registry_run C E g ops))) iid = Some r"
  using assms
proof (induction ops arbitrary: g)
  case (Cons op ops)
  obtain o' now where op: "op = (o', now)" by fastforce
  obtain out g1 where a: "registry_apply C E g op = (out, g1)" by fastforce
  have inv: "registry_inv g1"
    using registry_apply_inv [OF Cons.prems(1), of C E o' now] by (simp add: a [unfolded op])
  have "bt_get (reg_records g1) iid = Some r"
    using registry_apply_step [OF a [unfolded op]] record_step_consumed [of now g _ g1 iid r] Cons.prems
    by (auto simp: op registry_inv_def split: sum.splits)
  with inv Cons.IH [of g1] Cons.prems a show ?case by (simp add: case_prod_unfold Let_def)
qed simp

lemma consumed_refuses:
  assumes "bt_get (reg_records g) iid = Some r" and "rec_lifecycle r = StoredConsumed"
  shows "cl_invitation_id (inv_claims i) = iid \<Longrightarrow> \<not> is_ok (fst (reserve_after_admission g i jid now))"
    and "cl_invitation_id (cl2_base (inv2_claims i2)) = iid
           \<Longrightarrow> \<not> is_ok (fst (reserve_v2_after_admission g i2 jid now))"
    and "res_invitation_id res = iid \<Longrightarrow> \<not> is_ok (fst (release g res now))"
    and "res_invitation_id res = iid \<Longrightarrow> \<not> is_ok (fst (consume_after_membership g res now))"
  using assms
  by (auto simp: reserve_after_admission_def reserve_v2_after_admission_def Let_def
      release_validates consume_validates is_ok_iff validate_reservation_iff holds_reservation_def
      split: sum.splits option.splits if_splits)

section \<open>Provenance of reservations\<close>

definition grants_cover :: "invitation_reservation list \<Rightarrow> registry \<Rightarrow> bool" where
  "grants_cover gs g \<longleftrightarrow> (\<forall>iid r jid. bt_get (reg_records g) iid = Some r
     \<and> rec_lifecycle r = StoredReserved jid \<longrightarrow>
       \<lparr> res_invitation_id = iid, res_join_request_id = jid,
         res_record_signature = rec_signature r, res_schema = rec_schema r \<rparr> \<in> set gs)"

lemma record_step_grants:
  assumes "record_step now g out g'" and "bt_wf (reg_records g)" and "grants_cover gs g"
  shows "grants_cover (gs @ (case out of None \<Rightarrow> [] | Some x \<Rightarrow> [x])) g'"
  using assms
  by (induction rule: record_step.induct)
    (auto simp: grants_cover_def set_lifecycle_get split: if_splits dest!: btree.get_prune_putD)

lemma registry_run_grants:
  assumes "registry_inv g" and "grants_cover gs g"
  shows "grants_cover (gs @ fst (registry_run C E g ops)) (snd (registry_run C E g ops))"
  using assms
proof (induction ops arbitrary: g gs)
  case (Cons op ops)
  obtain o' now where op: "op = (o', now)" by fastforce
  obtain out g1 where a: "registry_apply C E g op = (out, g1)" by fastforce
  have inv: "registry_inv g1"
    using registry_apply_inv [OF Cons.prems(1), of C E o' now] by (simp add: a [unfolded op])
  have "grants_cover (gs @ granted out) g1"
    using registry_apply_step [OF a [unfolded op]] Cons.prems
      record_step_grants [of now g "case out of Inl _ \<Rightarrow> None | Inr x \<Rightarrow> x" g1 gs]
    by (auto simp: registry_inv_def split: sum.splits option.splits)
  from Cons.IH [OF inv this] a show ?case by (simp add: case_prod_unfold Let_def)
qed simp

lemma holds_reservation_granted:
  assumes "grants_cover gs g" and "holds_reservation g res now"
  shows "res \<in> set gs"
  using assms unfolding grants_cover_def holds_reservation_def
  by (metis (full_types) invitation_reservation.surjective old.unit.exhaust)

end
