(* ===== verification/Examples.thy ===== *)
theory Examples
  imports Protected_Join
begin

text \<open>
  The documented behaviour of the signature scheme as hypotheses, a concrete scheme that satisfies
  them, and concrete protocol values the witnesses evaluate.
\<close>

section \<open>What the signature scheme promises\<close>

text \<open>
  An honest key serializes to 32 bytes and parses back, and verifies its own 64-byte signatures.
\<close>

definition ed_honest :: "('sk, 'vk) ed25519 \<Rightarrow> 'sk \<Rightarrow> bool" where
  "ed_honest E sk \<longleftrightarrow>
     length (ed_to_bytes E (ed_verifying_key E sk)) = VERIFYING_KEY_BYTES
     \<and> ed_from_bytes E (ed_to_bytes E (ed_verifying_key E sk)) = Some (ed_verifying_key E sk)
     \<and> (\<forall>m. length (ed_sign E sk m) = SIGNATURE_BYTES
          \<and> ed_verify_strict E (ed_verifying_key E sk) m (ed_sign E sk m))"

section \<open>A checksum scheme\<close>

text \<open>Keys are single bytes; a signature repeats the key plus the message's byte sum.\<close>

definition ex_ed :: "(u8, u8) ed25519" where
  "ex_ed = \<lparr> ed_verifying_key = (\<lambda>sk. sk),
             ed_sign = (\<lambda>sk m. replicate 64 (sk + sum_list m)),
             ed_from_bytes = (\<lambda>bs. if length bs = 32 \<and> bs = replicate 32 (hd bs) then Some (hd bs) else None),
             ed_to_bytes = (\<lambda>vk. replicate 32 vk),
             ed_is_weak = (\<lambda>vk. vk = 0),
             ed_verify_strict = (\<lambda>vk m s. s = replicate 64 (vk + sum_list m)) \<rparr>"

lemma ex_ed_honest: "ed_honest ex_ed sk"
  by (simp add: ed_honest_def ex_ed_def wire_consts)

lemma ex_ed_keeps_bytes: "ed_keeps_bytes ex_ed"
  by (auto simp: ed_keeps_bytes_def ex_ed_def split: if_splits)

section \<open>Concrete values\<close>

definition ex_envelope :: opaque_envelope where
  "ex_envelope = \<lparr> envelope_id = replicate 16 7, env_expires_at = 200, ciphertext = [1, 2, 3] \<rparr>"

definition ex_claims :: capability_invitation_claims where
  "ex_claims = \<lparr> cl_invitation_id = replicate 16 1, cl_issued_at = 100, cl_expires_at = 400,
                 cl_join_challenge = replicate 32 2, cl_capability = replicate 32 3 \<rparr>"

definition ex_claims_v2 :: capability_invitation_v2_claims where
  "ex_claims_v2 = \<lparr> cl2_base = ex_claims, cl2_invitation_key_id = replicate 16 4,
                    cl2_hpke_public_key = replicate 32 5 \<rparr>"

definition ex_endpoint :: local_welcome_deposit_endpoint where
  "ex_endpoint = \<lparr> ep_transport_instance_id = replicate 16 8, ep_mailbox_id = replicate 16 9,
                   ep_deposit_capability = replicate 32 10, ep_expires_at = 300 \<rparr>"

definition ex_protected :: protected_join_request where
  "ex_protected = \<lparr> pj_invitation_id = replicate 16 1, pj_invitation_key_id = replicate 16 4,
                    pj_encapsulated_key = replicate 32 6, pj_ciphertext = [1, 2, 3] \<rparr>"

definition ex_join_request :: capability_join_request where
  "ex_join_request =
     \<lparr> jr_invitation = \<lparr> ib_invitation_id = replicate 16 1, ib_join_challenge = replicate 32 2,
                         ib_invitation_key_id = replicate 16 4, ib_intended_verifier = replicate 32 5 \<rparr>,
       jr_request = \<lparr> rb_join_request_id = replicate 16 11, rb_issued_at = 100, rb_expires_at = 300,
                      rb_request_nonce = replicate 32 12 \<rparr>,
       jr_mls = \<lparr> kb_key_package_reference = replicate 32 13, kb_key_package = [1, 2, 3],
                  kb_credential_identity = replicate 32 14, kb_leaf_signature_key = replicate 32 15 \<rparr>,
       jr_response_endpoint = ex_endpoint \<rparr>"

lemma ex_values_wf:
  "envelope_wf ex_envelope" "claims_wf ex_claims" "claims_v2_wf ex_claims_v2"
  "endpoint_wf ex_endpoint" "protected_join_wf ex_protected" "join_request_wf ex_ed ex_join_request"
  by (simp_all add: envelope_wf_def ex_envelope_def claims_wf_def ex_claims_def claims_v2_wf_def
      ex_claims_v2_def endpoint_wf_def ex_endpoint_def protected_join_wf_def ex_protected_def
      join_request_wf_def ex_join_request_def is_strong_key_def ex_ed_def all_zero_replicate
      wire_consts Let_def)

text \<open>Their encodings under the RFC 8949 codec.\<close>

definition ex_welcome :: bytes where
  "ex_welcome = (case OpaqueEnvelope_encode_canonical rfc_cbor ex_envelope of Inr b \<Rightarrow> b | Inl _ \<Rightarrow> [])"

definition ex_endpoint_bytes :: bytes where
  "ex_endpoint_bytes =
     (case LocalWelcomeDepositEndpoint_encode_canonical rfc_cbor ex_endpoint of Inr b \<Rightarrow> b | Inl _ \<Rightarrow> [])"

lemma ex_welcome_ok:
  "OpaqueEnvelope_decode_canonical rfc_cbor ex_welcome = Inr ex_envelope"
  "length ex_welcome \<in> {16..MAX_WIRE_OBJECT_BYTES}"
  "length ex_welcome \<le> 256"
proof -
  obtain b where b: "OpaqueEnvelope_encode_canonical rfc_cbor ex_envelope = Inr b"
    using rfc.envelope_encode_ok [OF ex_values_wf(1)] by blast
  let ?is = "[CArray OPAQUE_ENVELOPE_FIELDS, CU16 PROTOCOL_VERSION,
        CU16 (wire_object_code OpaqueEnvelope), CBytes (envelope_id ex_envelope),
        CU64 (env_expires_at ex_envelope), CBytes (ciphertext ex_envelope)]"
  have "encode_items rfc_cbor ?is = Some b" "length b \<le> MAX_WIRE_OBJECT_BYTES"
    using b by (auto simp: OpaqueEnvelope_encode_canonical_def ok_iff split: if_splits)
  moreover from this have "length b = items_length ?is"
    using rfc.encode_items_total [of ?is] by (auto simp: ex_envelope_def wire_consts)
  ultimately show "length ex_welcome \<in> {16..MAX_WIRE_OBJECT_BYTES}" "length ex_welcome \<le> 256"
    using b by (auto simp: ex_welcome_def items_length_def ex_envelope_def head_length_def)
  show "OpaqueEnvelope_decode_canonical rfc_cbor ex_welcome = Inr ex_envelope"
    using rfc.envelope.decode_encode [OF ex_values_wf(1) b] b by (simp add: ex_welcome_def)
qed

lemma ex_endpoint_ok:
  "LocalWelcomeDepositEndpoint_decode_canonical rfc_cbor ex_endpoint_bytes = Inr ex_endpoint"
  "length ex_endpoint_bytes \<in> {1..MAX_LOCAL_WELCOME_ENDPOINT_BYTES}"
proof -
  obtain b where b: "LocalWelcomeDepositEndpoint_encode_canonical rfc_cbor ex_endpoint = Inr b"
    using rfc.endpoint_encode_ok [OF ex_values_wf(4)] by blast
  have "encode_items rfc_cbor (endpoint_items ex_endpoint) = Some b"
      "length b \<le> MAX_LOCAL_WELCOME_ENDPOINT_BYTES"
    using b by (auto simp: endpoint_encode_eq_Inr)
  moreover from this have "length b = items_length (endpoint_items ex_endpoint)"
    using rfc.encode_items_total [of "endpoint_items ex_endpoint"] endpoint_sizes [OF ex_values_wf(4)]
    by (auto simp: endpoint_items_def)
  ultimately show "length ex_endpoint_bytes \<in> {1..MAX_LOCAL_WELCOME_ENDPOINT_BYTES}"
    using b by (auto simp: ex_endpoint_bytes_def items_length_def endpoint_items_def ex_endpoint_def)
  show "LocalWelcomeDepositEndpoint_decode_canonical rfc_cbor ex_endpoint_bytes = Inr ex_endpoint"
    using rfc.endpoint.decode_encode [OF ex_values_wf(4) b] b by (simp add: ex_endpoint_bytes_def)
qed

end
