(* ===== verification/Protocol_Properties.thy ===== *)
theory Protocol_Properties
  imports Examples
begin

text \<open>
  The properties of the wire layer (\<open>crates/session-protocol\<close>): each codec accepts exactly the
  encodings of well-formed values, honest invitations round trip, and signatures bind every claim
  and the schema version.
\<close>

section \<open>Signing succeeds for an honest key\<close>

lemma sign_ok:
  assumes "cbor_library C" and "ed_honest E sk" and "claims_wf c"
  shows "\<exists>i. SignedCapabilityInvitation_sign C E c sk = Inr i \<and> invitation_wf i
    \<and> invitation_authentic C E i \<and> inv_claims i = c"
proof -
  let ?vk = "ed_to_bytes E (ed_verifying_key E sk)"
  have h: "length ?vk = VERIFYING_KEY_BYTES" using assms(2) by (simp add: ed_honest_def)
  obtain m where "signing_input C c ?vk = Inr m"
    using cbor_library.signing_input_ok [OF assms(1,3) h] by blast
  with assms(2,3) h show ?thesis
    by (simp add: SignedCapabilityInvitation_sign_def Let_def invitation_wf_def
        invitation_authentic_def ed_honest_def)
qed

lemma signing_input_v2_ok:
  assumes "cbor_library C" and "claims_v2_wf c" and "length vk = VERIFYING_KEY_BYTES"
  shows "\<exists>m. signing_input_v2 C c vk = Inr m"
  using assms(2,3)
    cbor_library.encode_items_total [OF assms(1), of "invitation_v2_items UNSIGNED_INVITATION_V2_FIELDS c vk"]
  by (auto simp: ok_iff invitation_v2_items_def claims_v2_wf_def claims_wf_def wire_consts)

lemma sign_v2_ok:
  assumes "cbor_library C" and "ed_honest E sk" and "claims_v2_wf c"
  shows "\<exists>i. SignedCapabilityInvitationV2_sign C E c sk = Inr i \<and> invitation_v2_wf i
    \<and> invitation_v2_authentic C E i \<and> inv2_claims i = c"
proof -
  let ?vk = "ed_to_bytes E (ed_verifying_key E sk)"
  have h: "length ?vk = VERIFYING_KEY_BYTES" using assms(2) by (simp add: ed_honest_def)
  obtain m where "signing_input_v2 C c ?vk = Inr m"
    using signing_input_v2_ok [OF assms(1,3) h] by blast
  with assms(2,3) h show ?thesis
    by (simp add: SignedCapabilityInvitationV2_sign_def Let_def invitation_v2_wf_def
        invitation_v2_authentic_def ed_honest_def)
qed

context cbor_library
begin

lemma envelope_decode_iff:
  "OpaqueEnvelope_decode_canonical C bs = Inr e \<longleftrightarrow>
     envelope_wf e \<and> OpaqueEnvelope_encode_canonical C e = Inr bs"
  by (rule envelope.decode_iff)

lemma endpoint_decode_iff:
  "LocalWelcomeDepositEndpoint_decode_canonical C bs = Inr e \<longleftrightarrow>
     endpoint_wf e \<and> LocalWelcomeDepositEndpoint_encode_canonical C e = Inr bs"
  by (rule endpoint.decode_iff)

lemma protected_join_decode_iff:
  "ProtectedJoinRequest_decode_canonical C bs = Inr p \<longleftrightarrow>
     protected_join_wf p \<and> ProtectedJoinRequest_encode_canonical C p = Inr bs"
  by (rule protected_join.decode_iff)

end

section \<open>Properties\<close>

text \<open>
  The version 1 verifying decoder accepts a byte string exactly when it is the canonical
  encoding of a structurally valid invitation whose embedded key verifies its signature.
\<close>

theorem invitation_decoder_exact:
  assumes "cbor_library C"
  shows "SignedCapabilityInvitation_decode_and_verify C E bs = Ok i \<longleftrightarrow>
    SignedCapabilityInvitation_encode_canonical C i = Ok bs \<and> invitation_wf i \<and> invitation_authentic C E i"
  using canonical_codec.decode_iff [OF cbor_library.invitation_codec [OF assms, of E]] by blast

theorem invitation_decoder_exact_witness:
  "\<exists>i bs. SignedCapabilityInvitation_encode_canonical rfc_cbor i = Ok bs
     \<and> SignedCapabilityInvitation_decode_and_verify rfc_cbor ex_ed bs = Ok i"
  using invitation_decoder_exact [OF rfc.cbor_library_axioms, of ex_ed]
    sign_ok [OF rfc.cbor_library_axioms ex_ed_honest ex_values_wf(2)] rfc.invitation_encode_ok by blast

text \<open>
  C22: the version 2 verifying decoder accepts a byte string exactly when it is the canonical
  encoding of a structurally valid version 2 invitation whose embedded key verifies its signature.
\<close>

theorem invitation_v2_decoder_exact:
  assumes "cbor_library C"
  shows "SignedCapabilityInvitationV2_decode_and_verify C E bs = Ok i \<longleftrightarrow>
    SignedCapabilityInvitationV2_encode_canonical C i = Ok bs \<and> invitation_v2_wf i
    \<and> invitation_v2_authentic C E i"
  using canonical_codec.decode_iff [OF cbor_library.invitation_v2_codec [OF assms, of E]] by blast

theorem invitation_v2_decoder_exact_witness:
  "\<exists>i bs. SignedCapabilityInvitationV2_encode_canonical rfc_cbor i = Ok bs
     \<and> SignedCapabilityInvitationV2_decode_and_verify rfc_cbor ex_ed bs = Ok i"
  using invitation_v2_decoder_exact [OF rfc.cbor_library_axioms, of ex_ed]
    sign_v2_ok [OF rfc.cbor_library_axioms ex_ed_honest ex_values_wf(3)] rfc.invitation_v2_encode_ok by blast

text \<open>
  An invitation signed with an honest key encodes within the size bound, and the verifying
  decoder returns exactly that invitation with the claims it was signed over.
\<close>

theorem signed_invitation_round_trip:
  assumes "cbor_library C" and "ed_honest E sk" and "claims_wf c"
  shows "\<exists>i bs. SignedCapabilityInvitation_sign C E c sk = Ok i \<and> inv_claims i = c
    \<and> SignedCapabilityInvitation_encode_canonical C i = Ok bs
    \<and> length bs \<le> MAX_SIGNED_INVITATION_BYTES
    \<and> SignedCapabilityInvitation_decode_and_verify C E bs = Ok i"
proof -
  obtain i where i: "SignedCapabilityInvitation_sign C E c sk = Inr i" "invitation_wf i"
      "invitation_authentic C E i" "inv_claims i = c"
    using sign_ok [OF assms] by blast
  moreover obtain bs where "SignedCapabilityInvitation_encode_canonical C i = Inr bs"
      "SignedCapabilityInvitation_decode_and_verify C E bs = Inr i"
    using canonical_codec.round_trip [OF cbor_library.invitation_codec [OF assms(1), of E]] i by blast
  ultimately show ?thesis by (auto simp: invitation_encode_eq_Inr)
qed

theorem signed_invitation_round_trip_witness:
  "\<exists>i bs. SignedCapabilityInvitation_sign rfc_cbor ex_ed ex_claims 9 = Ok i
    \<and> SignedCapabilityInvitation_decode_and_verify rfc_cbor ex_ed bs = Ok i"
  using signed_invitation_round_trip [OF rfc.cbor_library_axioms ex_ed_honest [of 9] ex_values_wf(2)]
  by blast

text \<open>
  A version 2 invitation signed with an honest key encodes within the size bound, and the
  verifying decoder returns exactly that invitation with the claims it was signed over.
\<close>

theorem signed_invitation_v2_round_trip:
  assumes "cbor_library C" and "ed_honest E sk" and "claims_v2_wf c"
  shows "\<exists>i bs. SignedCapabilityInvitationV2_sign C E c sk = Ok i \<and> inv2_claims i = c
    \<and> SignedCapabilityInvitationV2_encode_canonical C i = Ok bs
    \<and> length bs \<le> MAX_SIGNED_INVITATION_BYTES
    \<and> SignedCapabilityInvitationV2_decode_and_verify C E bs = Ok i"
proof -
  obtain i where i: "SignedCapabilityInvitationV2_sign C E c sk = Inr i" "invitation_v2_wf i"
      "invitation_v2_authentic C E i" "inv2_claims i = c"
    using sign_v2_ok [OF assms] by blast
  moreover obtain bs where "SignedCapabilityInvitationV2_encode_canonical C i = Inr bs"
      "SignedCapabilityInvitationV2_decode_and_verify C E bs = Inr i"
    using canonical_codec.round_trip [OF cbor_library.invitation_v2_codec [OF assms(1), of E]] i by blast
  ultimately show ?thesis by (auto simp: invitation_v2_encode_eq_Inr)
qed

theorem signed_invitation_v2_round_trip_witness:
  "\<exists>i bs. SignedCapabilityInvitationV2_sign rfc_cbor ex_ed ex_claims_v2 9 = Ok i
    \<and> SignedCapabilityInvitationV2_decode_and_verify rfc_cbor ex_ed bs = Ok i"
  using signed_invitation_v2_round_trip [OF rfc.cbor_library_axioms ex_ed_honest [of 9] ex_values_wf(3)]
  by blast

text \<open>
  The bytes a version 1 signature covers determine every claim and the key, and are never the
  bytes a version 2 signature covers, so a signature cannot be moved to other claims or to the
  other schema.
\<close>

theorem signature_binds_claims:
  assumes "cbor_library C" and "claims_wf c" and "length vk = VERIFYING_KEY_BYTES"
    and "signing_input C c vk = Ok m"
  shows "(claims_wf c' \<and> length vk' = VERIFYING_KEY_BYTES \<and> signing_input C c' vk' = Ok m
           \<longrightarrow> c' = c \<and> vk' = vk)
    \<and> signing_input_v2 C c2 vk2 \<noteq> Ok m"
proof -
  obtain b where b: "encode_items C (invitation_items UNSIGNED_INVITATION_FIELDS c vk) = Some b"
      "m = SIGNED_INVITATION_SIGNATURE_DOMAIN @ b"
    using assms(4) by (auto simp: ok_iff)
  have "claims_wf c' \<and> length vk' = VERIFYING_KEY_BYTES \<and> signing_input C c' vk' = Ok m
           \<longrightarrow> c' = c \<and> vk' = vk"
    using b assms(2,3) cbor_library.invitation_items_binding [OF assms(1) _ b(1), of c' vk']
    by (auto simp: ok_iff wire_consts)
  moreover have "signing_input_v2 C c2 vk2 \<noteq> Ok m"
    using b signature_domains_disjoint by (auto simp: ok_iff)
  ultimately show ?thesis ..
qed

theorem signature_binds_claims_witness:
  "\<exists>m. signing_input rfc_cbor ex_claims (replicate 32 9) = Ok m
     \<and> signing_input_v2 rfc_cbor ex_claims_v2 (replicate 32 9) \<noteq> Ok m"
  using rfc.signing_input_ok [OF ex_values_wf(2), of "replicate 32 9"]
    signature_binds_claims [OF rfc.cbor_library_axioms ex_values_wf(2), of "replicate 32 9"]
  by (auto simp: VERIFYING_KEY_BYTES_def)

text \<open>
  The opaque envelope decoder accepts exactly the canonical encodings of envelopes within the
  ciphertext bound, and every such envelope has one.
\<close>

theorem envelope_codec_exact:
  assumes "cbor_library C"
  shows "(OpaqueEnvelope_decode_canonical C bs = Ok e \<longleftrightarrow>
            envelope_wf e \<and> OpaqueEnvelope_encode_canonical C e = Ok bs)
    \<and> (envelope_wf e \<longrightarrow> is_ok (OpaqueEnvelope_encode_canonical C e))"
  using cbor_library.envelope_decode_iff [OF assms] cbor_library.envelope_encode_ok [OF assms]
  by (auto simp: is_ok_iff)

theorem envelope_codec_exact_witness:
  "\<exists>bs. OpaqueEnvelope_encode_canonical rfc_cbor ex_envelope = Ok bs
     \<and> OpaqueEnvelope_decode_canonical rfc_cbor bs = Ok ex_envelope"
  using envelope_codec_exact [OF rfc.cbor_library_axioms, of _ ex_envelope] ex_values_wf(1)
  by (auto simp: is_ok_iff)

text \<open>
  The deposit endpoint decoder accepts exactly the canonical encodings of well-formed
  endpoints, and every well-formed endpoint has one.
\<close>

theorem endpoint_codec_exact:
  assumes "cbor_library C"
  shows "(LocalWelcomeDepositEndpoint_decode_canonical C bs = Ok e \<longleftrightarrow>
            endpoint_wf e \<and> LocalWelcomeDepositEndpoint_encode_canonical C e = Ok bs)
    \<and> (endpoint_wf e \<longrightarrow> is_ok (LocalWelcomeDepositEndpoint_encode_canonical C e))"
  using cbor_library.endpoint_decode_iff [OF assms] cbor_library.endpoint_encode_ok [OF assms]
  by (auto simp: is_ok_iff)

theorem endpoint_codec_exact_witness:
  "\<exists>bs. LocalWelcomeDepositEndpoint_encode_canonical rfc_cbor ex_endpoint = Ok bs
     \<and> LocalWelcomeDepositEndpoint_decode_canonical rfc_cbor bs = Ok ex_endpoint"
  using endpoint_codec_exact [OF rfc.cbor_library_axioms, of _ ex_endpoint] ex_values_wf(4)
  by (auto simp: is_ok_iff)

text \<open>
  The protected join request decoder accepts exactly the canonical encodings of well-formed
  requests; the largest ciphertext the bound allows still encodes within the outer size limit.
\<close>

theorem protected_join_codec_exact:
  assumes "cbor_library C"
  shows "(ProtectedJoinRequest_decode_canonical C bs = Ok p \<longleftrightarrow>
            protected_join_wf p \<and> ProtectedJoinRequest_encode_canonical C p = Ok bs)
    \<and> (protected_join_wf p \<longrightarrow> is_ok (ProtectedJoinRequest_encode_canonical C p))"
  using cbor_library.protected_join_decode_iff [OF assms] cbor_library.protected_join_encode_ok [OF assms]
  by (auto simp: is_ok_iff)

theorem protected_join_codec_exact_witness:
  "\<exists>bs. ProtectedJoinRequest_encode_canonical rfc_cbor ex_protected = Ok bs
     \<and> ProtectedJoinRequest_decode_canonical rfc_cbor bs = Ok ex_protected"
  using protected_join_codec_exact [OF rfc.cbor_library_axioms, of _ ex_protected] ex_values_wf(5)
  by (auto simp: is_ok_iff)

text \<open>
  The decrypted join request decoder accepts exactly the canonical encodings of requests whose
  identifiers are non-zero, whose keys are strong, whose time range is not empty and whose response
  endpoint does not outlive the request.
\<close>

theorem join_request_codec_exact:
  assumes "cbor_library C" and "ed_keeps_bytes E"
  shows "CapabilityJoinRequest_decode_canonical C E bs = Ok r \<longleftrightarrow>
    join_request_wf E r \<and> CapabilityJoinRequest_encode_canonical C r = Ok bs"
  using canonical_codec.decode_iff [OF cbor_library.join_request_codec [OF assms]] by blast

theorem join_request_codec_exact_witness:
  "\<exists>bs. CapabilityJoinRequest_encode_canonical rfc_cbor ex_join_request = Ok bs
     \<and> CapabilityJoinRequest_decode_canonical rfc_cbor ex_ed bs = Ok ex_join_request"
  using join_request_codec_exact [OF rfc.cbor_library_axioms ex_ed_keeps_bytes, of _ ex_join_request]
    ex_values_wf(6) rfc.join_request_encode_ok [OF ex_values_wf(6)] by blast

end
