(* ===== verification/Registry_Properties.thy ===== *)
theory Registry_Properties
  imports Registry Protocol_Properties
begin

text \<open>
  The properties of the invitation registry (\<open>crates/session-core\<close>) over every run of its
  interface from an empty registry.
\<close>

section \<open>Concrete values\<close>

definition ex_policy :: invitation_policy where
  "ex_policy = \<lparr> ip_maximum_lifetime = 1000, ip_maximum_future_skew = 10, ip_maximum_live = 2 \<rparr>"

definition ex_invitation_v2 :: signed_capability_invitation_v2 where
  "ex_invitation_v2 = \<lparr> inv2_claims = ex_claims_v2, inv2_verifying_key = replicate 32 9,
                        inv2_signature = replicate 64 17 \<rparr>"

definition ex_request_id :: ident where "ex_request_id = replicate 16 11"

definition ex_reservation :: invitation_reservation where
  "ex_reservation = \<lparr> res_invitation_id = replicate 16 1, res_join_request_id = ex_request_id,
                      res_record_signature = replicate 64 17, res_schema = V2 \<rparr>"

definition ex_ops :: "((u8, unit) registry_op \<times> u64) list" where
  "ex_ops = [(OpIssueV2 \<lparr> gen_invitation = ex_invitation_v2, gen_private_key = () \<rparr>, 100),
             (OpReserveV2 ex_invitation_v2 ex_request_id, 110)]"

definition ex_record :: invitation_record where
  "ex_record = \<lparr> rec_schema = V2, rec_expires_at = 400, rec_verifying_key = replicate 32 9,
                 rec_signature = replicate 64 17, rec_lifecycle = StoredReserved ex_request_id \<rparr>"

lemmas ex_registry_defs = ex_policy_def ex_invitation_v2_def ex_request_id_def ex_reservation_def
  ex_ops_def ex_claims_v2_def ex_claims_def ex_record_def

lemma ex_run:
  "registry_run rfc_cbor ex_ed (InvitationRegistry_new ex_policy) ex_ops =
     ([ex_reservation], \<lparr> reg_policy = ex_policy, reg_records = [(replicate 16 1, ex_record)] \<rparr>)"
  by (simp add: ex_registry_defs InvitationRegistry_new_def issue_v2_def validate_time_values_def
      saturating_add_def checked_add_def saturating_sub_def insert_record_def bt_get_def bt_values_def
      bt_retain_def reserve_v2_after_admission_def InvitationRecord_matches_v2_def set_lifecycle_def
      bt_update_def all_zero_replicate Let_def)

lemma ex_consume:
  "consume_after_membership (snd (registry_run rfc_cbor ex_ed (InvitationRegistry_new ex_policy) ex_ops))
      ex_reservation 120 =
     (Inr (), \<lparr> reg_policy = ex_policy,
                reg_records = [(replicate 16 1, ex_record\<lparr> rec_lifecycle := StoredConsumed \<rparr>)] \<rparr>)"
  unfolding ex_run
  by (simp add: ex_registry_defs consume_after_membership_def current_record_def bt_get_def
      set_lifecycle_def bt_update_def)

lemma ex_get:
  "bt_get (reg_records (snd (registry_run rfc_cbor ex_ed (InvitationRegistry_new ex_policy) ex_ops)))
     (res_invitation_id ex_reservation) = Some ex_record"
  unfolding ex_run by (simp add: ex_reservation_def bt_get_def)

lemma ex_res_id: "res_invitation_id ex_reservation = replicate 16 1"
  by (simp only: ex_reservation_def invitation_reservation.simps)

lemma ex_times: "list_all (\<lambda>op. snd op < rec_expires_at ex_record) ex_ops"
  by (simp add: ex_ops_def ex_record_def)

section \<open>Properties\<close>

text \<open>
  C2: once a reservation of a reachable registry is consumed, then until the invitation expires,
  whatever calls follow, it stays consumed: no call reserves it, releases it or consumes it again.
\<close>

theorem consumed_invitation_stays_consumed:
  fixes E :: "('sk, 'vk) ed25519" and ops ops' :: "(('sk, 'k) registry_op \<times> u64) list"
  assumes "g = snd (registry_run C E (InvitationRegistry_new p) ops)"
    and "bt_get (reg_records g) (res_invitation_id res) = Some r"
    and "consume_after_membership g res now = (Ok (), g')"
    and "list_all (\<lambda>op. snd op < rec_expires_at r) ops'"
    and "h = snd (registry_run C E g' ops')"
  shows "lifecycle h (res_invitation_id res) = Some Consumed
    \<and> (cl_invitation_id (inv_claims i) = res_invitation_id res
         \<longrightarrow> \<not> is_ok (fst (reserve_after_admission h i jid t)))
    \<and> (cl_invitation_id (cl2_base (inv2_claims i2)) = res_invitation_id res
         \<longrightarrow> \<not> is_ok (fst (reserve_v2_after_admission h i2 jid t)))
    \<and> (res_invitation_id res' = res_invitation_id res
         \<longrightarrow> \<not> is_ok (fst (release h res' t)) \<and> \<not> is_ok (fst (consume_after_membership h res' t)))"
proof -
  let ?r = "r\<lparr> rec_lifecycle := StoredConsumed \<rparr>"
  have inv: "registry_inv g"
    using registry_run_inv_policy [OF registry_inv_new] assms(1) by blast
  have g': "g' = set_lifecycle g (res_invitation_id res) StoredConsumed"
    using assms(3) by (auto simp: consume_validates split: sum.splits)
  have "registry_inv g'" unfolding g' by (rule registry_inv_set_lifecycle [OF inv]) simp
  moreover have "bt_get (reg_records g') (res_invitation_id res) = Some ?r"
    using assms(2) by (simp add: g' set_lifecycle_get)
  ultimately have h: "bt_get (reg_records h) (res_invitation_id res) = Some ?r"
    using registry_run_consumed [of g' _ ?r ops' C E] assms(4,5) by (simp add: is_live_def)
  note no = consumed_refuses [OF h, simplified]
  show ?thesis using h no by (simp add: lifecycle_def)
qed

theorem consumed_invitation_stays_consumed_witness:
  "let g = snd (registry_run rfc_cbor ex_ed (InvitationRegistry_new ex_policy) ex_ops);
       (r, g') = consume_after_membership g ex_reservation 120;
       h = snd (registry_run rfc_cbor ex_ed g' ex_ops)
   in r = Ok () \<and> lifecycle h (replicate 16 1) = Some Consumed"
  using consumed_invitation_stays_consumed [OF refl ex_get ex_consume ex_times refl, THEN conjunct1]
  by (simp add: ex_consume ex_res_id)

text \<open>
  In every run from an empty registry, a reservation can be consumed only if an earlier
  reserve call of that run granted exactly that reservation.
\<close>

theorem consumed_reservation_was_granted:
  assumes "consume_after_membership (snd (registry_run C E (InvitationRegistry_new p) ops)) res now = (Ok u, g')"
  shows "res \<in> set (fst (registry_run C E (InvitationRegistry_new p) ops))"
proof -
  let ?run = "registry_run C E (InvitationRegistry_new p) ops"
  have "grants_cover [] (InvitationRegistry_new p)"
    by (simp add: grants_cover_def InvitationRegistry_new_def bt_get_empty)
  from registry_run_grants [OF registry_inv_new this] have "grants_cover (fst ?run) (snd ?run)" by simp
  moreover have "holds_reservation (snd ?run) res now"
    using assms by (auto simp: consume_validates validate_reservation_iff split: sum.splits)
  ultimately show ?thesis by (rule holds_reservation_granted)
qed

theorem consumed_reservation_was_granted_witness:
  "ex_reservation \<in> set (fst (registry_run rfc_cbor ex_ed (InvitationRegistry_new ex_policy) ex_ops))"
  by (rule consumed_reservation_was_granted [OF ex_consume])

text \<open>
  C23: the registry refines the promised lifecycle. In every reachable registry, a call that succeeds
  makes exactly the ledger transition it names, at the clock value it is given: an issue adds its
  own identifier, which no live entry had, and forgets expired entries only; a reserve takes an
  available invitation that has not expired; a release or a consume takes one reserved for the join request of
  the presented reservation; every other entry stays. A call that fails leaves the registry
  exactly as it was, and the public lifecycle view is the ledger's stage.
\<close>

theorem registry_refines_lifecycle:
  "(case registry_apply C E (snd (registry_run C E (InvitationRegistry_new p) ops)) (op, now) of
     (Inl e, g') \<Rightarrow> g' = snd (registry_run C E (InvitationRegistry_new p) ops)
   | (Inr out, g') \<Rightarrow>
       life_step now (call_of op) (ledger (snd (registry_run C E (InvitationRegistry_new p) ops))) (ledger g')
       \<and> lifecycle g' iid = map_option (lifecycle_view \<circ> snd) (ledger g' iid))"
proof -
  let ?g = "snd (registry_run C E (InvitationRegistry_new p) ops)"
  have "registry_inv ?g" using registry_run_inv_policy [OF registry_inv_new] by blast
  with registry_apply_step [of C E ?g op now] registry_apply_life [of C E ?g op now] show ?thesis
    by (auto simp: lifecycle_ledger split: prod.splits sum.splits)
qed

text \<open>
  Every reachable registry keeps its records ordered by invitation, holds no more of them than
  the policy allows even when expired ones await pruning, and never reserves for the zero request.
\<close>

theorem registry_bounded:
  "registry_inv (snd (registry_run C E (InvitationRegistry_new p) ops))
   \<and> record_count (snd (registry_run C E (InvitationRegistry_new p) ops)) \<le> ip_maximum_live p"
proof -
  have "registry_inv (snd (registry_run C E (InvitationRegistry_new p) ops))
      \<and> reg_policy (snd (registry_run C E (InvitationRegistry_new p) ops)) = p"
    using registry_run_inv_policy [OF registry_inv_new [of p], of C E ops]
    by (simp add: InvitationRegistry_new_def)
  then show ?thesis by (auto simp: registry_inv_def record_count_def)
qed

text \<open>
  Releasing and consuming answer exactly what the read-only preflight answers, so a caller that
  preflights a reservation is never surprised by the transition itself.
\<close>

theorem preflight_predicts_transitions:
  "fst (release g res now) = validate_reservation g res now
   \<and> fst (consume_after_membership g res now) = validate_reservation g res now"
  by (auto simp: release_validates consume_validates split: sum.splits)

text \<open>
  The time check accepts exactly the invitations issued no later than the allowed skew, still
  unexpired, and no longer than the maximum lifetime, with no wrap-around at the end of the clock.
\<close>

theorem time_check_exact:
  "validate_time_values g issued expires now = Ok () \<longleftrightarrow>
     unat issued \<le> unat now + unat (ip_maximum_future_skew (reg_policy g)) \<and> now < expires
     \<and> unat expires - unat issued \<le> unat (ip_maximum_lifetime (reg_policy g))"
  by (rule validate_time_values_eq_Inr)

text \<open>
  C37: an invitation issued under an honest key within policy completes: its encoding validates to
  the issued invitation, which can be reserved and then consumed.
\<close>

theorem issued_invitation_completes:
  assumes "cbor_library C" and "ed_honest E sk" and "claims_wf c"
    and "validate_time_values g (cl_issued_at c) (cl_expires_at c) now = Ok ()"
    and "case bt_get (reg_records g) (cl_invitation_id c) of None \<Rightarrow> True | Some r \<Rightarrow> \<not> is_live now r"
    and "length (filter (is_live now) (bt_values (reg_records g))) < ip_maximum_live (reg_policy g)"
    and "\<not> all_zero jid"
  shows "\<exists>i bs g1 res g2 g3. issue C E g c sk now = (Ok i, g1)
    \<and> SignedCapabilityInvitation_encode_canonical C i = Ok bs
    \<and> validate_descriptor C E g1 bs now = Ok i
    \<and> reserve_after_admission g1 i jid now = (Ok res, g2)
    \<and> consume_after_membership g2 res now = (Ok (), g3)
    \<and> lifecycle g3 (cl_invitation_id c) = Some Consumed"
proof -
  obtain i where i: "SignedCapabilityInvitation_sign C E c sk = Inr i" "invitation_wf i"
      "invitation_authentic C E i" "inv_claims i = c"
    using sign_ok [OF assms(1-3)] by blast
  obtain bs where bs: "SignedCapabilityInvitation_encode_canonical C i = Inr bs"
      "SignedCapabilityInvitation_decode_and_verify C E bs = Inr i"
    using canonical_codec.round_trip [OF cbor_library.invitation_codec [OF assms(1), of E]] i by blast
  let ?rec = "\<lparr> rec_schema = V1, rec_expires_at = cl_expires_at c, rec_verifying_key = inv_verifying_key i,
               rec_signature = inv_signature i, rec_lifecycle = StoredAvailable \<rparr>"
  let ?g1 = "g\<lparr> reg_records := bt_insert (cl_invitation_id c) ?rec (bt_retain (is_live now) (reg_records g)) \<rparr>"
  let ?res = "\<lparr> res_invitation_id = cl_invitation_id c, res_join_request_id = jid,
               res_record_signature = inv_signature i, res_schema = V1 \<rparr>"
  let ?g2 = "set_lifecycle ?g1 (cl_invitation_id c) (StoredReserved jid)"
  have time: "validate_time_values ?g1 (cl_issued_at c) (cl_expires_at c) now = Inr ()"
    using assms(4) by (simp add: validate_time_values_eq_Inr)
  have 1: "issue C E g c sk now = (Inr i, ?g1)"
    using assms(4-6) i by (auto simp: issue_def insert_record_def split: option.splits)
  have 2: "reserve_after_admission ?g1 i jid now = (Inr ?res, ?g2)"
    using time assms(7) i(4)
    by (simp add: reserve_after_admission_def Let_def bt_get_insert InvitationRecord_matches_def)
  have "now < cl_expires_at c" using assms(4) by (simp add: validate_time_values_eq_Inr)
  then have "holds_reservation ?g2 ?res now"
    by (simp add: holds_reservation_def set_lifecycle_get bt_get_insert is_live_def)
  then have 3: "consume_after_membership ?g2 ?res now =
      (Inr (), set_lifecycle ?g2 (cl_invitation_id c) StoredConsumed)"
    using validate_reservation_iff [of ?g2 ?res now "()"] by (simp add: consume_validates)
  have 4: "lifecycle (set_lifecycle ?g2 (cl_invitation_id c) StoredConsumed) (cl_invitation_id c) = Some Consumed"
    by (simp add: lifecycle_def set_lifecycle_get bt_get_insert)
  show ?thesis
    using 1 2 3 4 bs time i(4) by (fastforce simp: validate_descriptor_def)
qed

theorem issued_invitation_completes_witness:
  "\<exists>i g1. issue rfc_cbor ex_ed (InvitationRegistry_new ex_policy) ex_claims 9 100 = (Ok i, g1)"
proof -
  have "validate_time_values (InvitationRegistry_new ex_policy) (cl_issued_at ex_claims)
      (cl_expires_at ex_claims) 100 = Ok ()"
    by (simp add: validate_time_values_eq_Inr InvitationRegistry_new_def ex_registry_defs)
  then show ?thesis
    using issued_invitation_completes [OF rfc.cbor_library_axioms ex_ed_honest [of 9] ex_values_wf(2),
        of "InvitationRegistry_new ex_policy" 100 ex_request_id]
    by (auto simp: InvitationRegistry_new_def ex_registry_defs bt_get_def bt_values_def all_zero_replicate)
qed

end
