(* ===== verification/Outbox_Port.thy ===== *)
theory Outbox_Port
  imports Protected_Join
begin

text \<open>
  The owner-store port between the Welcome outbox and the delivery coordinator
  (\<open>crates/session-transport/src/outbox_port.rs\<close>): the leased work item, the port's failures,
  and the port itself as a locale whose laws an owner store has to discharge.
\<close>

record 'l leased_welcome =
  lw_lease :: 'l
  lw_welcome_envelope :: bytes
  lw_deposit_endpoint :: bytes
  lw_outbox_expires_at :: u64

definition LeasedWelcome_from_owner :: "'l \<Rightarrow> bytes \<Rightarrow> bytes \<Rightarrow> u64 \<Rightarrow> 'l leased_welcome" where
  "LeasedWelcome_from_owner l env ep expiry =
     \<lparr> lw_lease = l, lw_welcome_envelope = env, lw_deposit_endpoint = ep, lw_outbox_expires_at = expiry \<rparr>"

definition LeasedWelcome_into_parts :: "'l leased_welcome \<Rightarrow> 'l \<times> bytes \<times> bytes \<times> u64" where
  "LeasedWelcome_into_parts w =
     (lw_lease w, lw_welcome_envelope w, lw_deposit_endpoint w, lw_outbox_expires_at w)"

datatype outbox_port_error = PortUnavailable | PortConflict | PortInternal

text \<open>
  What the coordinator needs of the work it is handed at time \<open>now\<close>: canonical envelope and
  endpoint bytes whose lifetimes nest, outbox inside envelope inside endpoint, and none of which
  has ended.
\<close>

definition deliverable :: "cbor \<Rightarrow> u64 \<Rightarrow> bytes \<Rightarrow> bytes \<Rightarrow> u64 \<Rightarrow> bool" where
  "deliverable C now env ep expiry \<longleftrightarrow> now < expiry \<and>
     (\<exists>e d. OpaqueEnvelope_decode_canonical C env = Ok e
        \<and> LocalWelcomeDepositEndpoint_decode_canonical C ep = Ok d
        \<and> \<not> all_zero (envelope_id e) \<and> expiry \<le> env_expires_at e
        \<and> env_expires_at e \<le> ep_expires_at d)"

text \<open>
  The port. \<open>inv\<close> is the owner's invariant, \<open>held s l\<close> says that \<open>l\<close> is the authority the owner
  currently recognises for its work item, and \<open>accepted s l\<close> that the item of \<open>l\<close> is recorded as
  delivered under \<open>l\<close>.
\<close>

locale welcome_outbox_port =
  fixes C :: cbor
    and lease_next :: "'s \<Rightarrow> u64 \<Rightarrow> u64 \<Rightarrow> (outbox_port_error + 'l leased_welcome option) \<times> 's"
    and report_accepted :: "'s \<Rightarrow> 'l \<Rightarrow> u64 \<Rightarrow> (outbox_port_error + unit) \<times> 's"
    and report_failed :: "'s \<Rightarrow> 'l \<Rightarrow> (outbox_port_error + unit) \<times> 's"
    and inv :: "'s \<Rightarrow> bool"
    and held :: "'s \<Rightarrow> 'l \<Rightarrow> bool"
    and accepted :: "'s \<Rightarrow> 'l \<Rightarrow> bool"
  assumes lease_next_inv: "inv s \<Longrightarrow> lease_next s now secs = (r, s') \<Longrightarrow> inv s'"
    and accepted_inv: "inv s \<Longrightarrow> report_accepted s l now = (a, s') \<Longrightarrow> inv s'"
    and failed_inv: "inv s \<Longrightarrow> report_failed s l = (a, s') \<Longrightarrow> inv s'"
    and lease_next_held: "inv s \<Longrightarrow> lease_next s now secs = (Inr (Some w), s') \<Longrightarrow> held s' (lw_lease w)"
    and lease_next_deliverable: "inv s \<Longrightarrow> lease_next s now secs = (Inr (Some w), s') \<Longrightarrow>
          deliverable C now (lw_welcome_envelope w) (lw_deposit_endpoint w) (lw_outbox_expires_at w)"
    and failed_releases: "inv s \<Longrightarrow> held s l \<Longrightarrow>
          \<exists>s'. report_failed s l = (Inr (), s') \<and> \<not> held s' l \<and> \<not> accepted s' l"
    and accepted_records: "inv s \<Longrightarrow> report_accepted s l now = (Inr u, s') \<Longrightarrow> accepted s' l"
    and accepted_fails_closed: "report_accepted s l now = (Inl e, s') \<Longrightarrow> s' = s"
begin

text \<open>Reporting a failure for work just leased never errs and gives the lease up.\<close>

lemma lease_then_fail:
  assumes "inv s" and "lease_next s now secs = (Inr (Some w), s1)"
  obtains s2 where "report_failed s1 (lw_lease w) = (Inr (), s2)" and "inv s2"
    and "\<not> held s2 (lw_lease w)" and "\<not> accepted s2 (lw_lease w)"
proof -
  have i1: "inv s1" using lease_next_inv assms by blast
  obtain s2 where "report_failed s1 (lw_lease w) = (Inr (), s2)" "\<not> held s2 (lw_lease w)"
    "\<not> accepted s2 (lw_lease w)"
    using failed_releases [OF i1 lease_next_held [OF assms]] by blast
  with failed_inv [OF i1] that show thesis by blast
qed

end

end
