(* ===== verification/Transport_Contract.thy ===== *)
theory Transport_Contract
  imports Outbox_Port
begin

text \<open>
  The provider-neutral transport values of \<open>crates/session-transport/src/contract.rs\<close> and the
  checkpoint of \<open>dispatch.rs\<close>: every constructor with the bound it enforces, the normalized
  failures, and the clock and cancellation readings an operation makes.
\<close>

section \<open>Constants and errors\<close>

definition MAX_ADAPTER_ID_BYTES :: usize where "MAX_ADAPTER_ID_BYTES = 96"
definition MAX_CURSOR_BYTES :: usize where "MAX_CURSOR_BYTES = 256"
definition MAX_POLL_ENVELOPES :: u16 where "MAX_POLL_ENVELOPES = 64"
definition MAX_POLL_ENCODED_BYTES :: u32 where "MAX_POLL_ENCODED_BYTES = 4 * 1024 * 1024"
definition MAX_POLL_WAIT_SECONDS :: u64 where "MAX_POLL_WAIT_SECONDS = 60"
definition MAX_ACKNOWLEDGEMENT_IDS :: u16 where "MAX_ACKNOWLEDGEMENT_IDS = 64"
definition MAX_RETRY_DELAY_SECONDS :: u64 where "MAX_RETRY_DELAY_SECONDS = 3600"

datatype transport_contract_error =
    UnsupportedProfile
  | InvalidAdapterId
  | InvalidEnvelope
  | InvalidOperationBudget
  | InvalidCursor
  | InvalidPollWait
  | InvalidPollRequest
  | InvalidDepositRequest
  | InvalidAcknowledgementBatch
  | InvalidReceiveBatch
  | ExpiredReceivedEnvelope
  | InvalidRetryDelay

section \<open>Profiles and adapter identifiers\<close>

datatype transport_profile_id = LocalV1 | FastV1 | PrivateInteractiveV1 | PrivateMixnetV1 | OffGridV1

fun TransportProfileId_as_str :: "transport_profile_id \<Rightarrow> string" where
  "TransportProfileId_as_str LocalV1 = ''session-chat.transport.local.v1''"
| "TransportProfileId_as_str FastV1 = ''session-chat.transport.fast.v1''"
| "TransportProfileId_as_str PrivateInteractiveV1 = ''session-chat.transport.private-interactive.v1''"
| "TransportProfileId_as_str PrivateMixnetV1 = ''session-chat.transport.private-mixnet.v1''"
| "TransportProfileId_as_str OffGridV1 = ''session-chat.transport.off-grid.v1''"

definition TransportProfileId_try_from :: "string \<Rightarrow> transport_contract_error + transport_profile_id" where
  "TransportProfileId_try_from v =
     (if v = ''session-chat.transport.local.v1'' then Ok LocalV1
      else if v = ''session-chat.transport.fast.v1'' then Ok FastV1
      else if v = ''session-chat.transport.private-interactive.v1'' then Ok PrivateInteractiveV1
      else if v = ''session-chat.transport.private-mixnet.v1'' then Ok PrivateMixnetV1
      else if v = ''session-chat.transport.off-grid.v1'' then Ok OffGridV1
      else Err UnsupportedProfile)"

definition is_ascii_lowercase :: "u8 \<Rightarrow> bool" where
  "is_ascii_lowercase b \<longleftrightarrow> 97 \<le> b \<and> b \<le> 122"

definition is_ascii_uppercase :: "u8 \<Rightarrow> bool" where
  "is_ascii_uppercase b \<longleftrightarrow> 65 \<le> b \<and> b \<le> 90"

definition is_ascii_digit :: "u8 \<Rightarrow> bool" where
  "is_ascii_digit b \<longleftrightarrow> 48 \<le> b \<and> b \<le> 57"

definition is_ascii_alphanumeric :: "u8 \<Rightarrow> bool" where
  "is_ascii_alphanumeric b \<longleftrightarrow> is_ascii_lowercase b \<or> is_ascii_uppercase b \<or> is_ascii_digit b"

definition AdapterId_new :: "bytes \<Rightarrow> transport_contract_error + bytes" where
  "AdapterId_new value =
     (let valid_edge = (value \<noteq> [] \<and> is_ascii_alphanumeric (hd value) \<and> is_ascii_alphanumeric (last value));
          valid_bytes = list_all (\<lambda>b. is_ascii_lowercase b \<or> is_ascii_digit b \<or> b = 46 \<or> b = 45) value in
      if length value > MAX_ADAPTER_ID_BYTES \<or> \<not> valid_edge \<or> \<not> valid_bytes
      then Err InvalidAdapterId else Ok value)"

section \<open>Canonical envelopes and cursors\<close>

record canonical_envelope =
  ce_bytes :: bytes
  ce_envelope_id :: ident
  ce_expires_at :: u64

definition CanonicalEnvelope_from_validated ::
    "opaque_envelope \<Rightarrow> bytes \<Rightarrow> transport_contract_error + canonical_envelope" where
  "CanonicalEnvelope_from_validated env bs =
     (if all_zero (envelope_id env) \<or> env_expires_at env = 0 then Err InvalidEnvelope
      else Ok \<lparr> ce_bytes = bs, ce_envelope_id = envelope_id env, ce_expires_at = env_expires_at env \<rparr>)"

definition CanonicalEnvelope_from_opaque ::
    "cbor \<Rightarrow> opaque_envelope \<Rightarrow> transport_contract_error + canonical_envelope" where
  "CanonicalEnvelope_from_opaque C env =
     and_then (map_err (\<lambda>_. InvalidEnvelope) (OpaqueEnvelope_encode_canonical C env)) (\<lambda>bs.
       CanonicalEnvelope_from_validated env bs)"

definition CanonicalEnvelope_from_canonical_bytes ::
    "cbor \<Rightarrow> bytes \<Rightarrow> transport_contract_error + canonical_envelope" where
  "CanonicalEnvelope_from_canonical_bytes C bs =
     and_then (map_err (\<lambda>_. InvalidEnvelope) (OpaqueEnvelope_decode_canonical C bs)) (\<lambda>env.
       CanonicalEnvelope_from_validated env bs)"

definition Cursor_new :: "bytes \<Rightarrow> transport_contract_error + bytes" where
  "Cursor_new bs = (if bs = [] \<or> length bs > MAX_CURSOR_BYTES then Err InvalidCursor else Ok bs)"

section \<open>Budgets, waits and requests\<close>

text \<open>
  \<open>Duration\<close> and \<open>Instant\<close> count nanoseconds; an instant is at most the largest value of a signed
  64-bit second count, beyond which \<open>checked_add\<close> has no result.
\<close>

type_synonym duration = nat
type_synonym instant = nat

definition from_secs :: "u64 \<Rightarrow> duration" where
  "from_secs s = unat s * 1000000000"

definition instant_limit :: nat where
  "instant_limit = 2 ^ 63 * 1000000000"

definition instant_checked_add :: "instant \<Rightarrow> duration \<Rightarrow> instant option" where
  "instant_checked_add t d = (if t + d < instant_limit then Some (t + d) else None)"

record operation_budget =
  ob_deadline :: instant
  ob_max_network_bytes :: u64
  ob_max_attempts :: u16

definition OperationBudget_new :: "instant \<Rightarrow> u64 \<Rightarrow> u16 \<Rightarrow> transport_contract_error + operation_budget" where
  "OperationBudget_new deadline network attempts =
     (if network = 0 \<or> attempts = 0 then Err InvalidOperationBudget
      else Ok \<lparr> ob_deadline = deadline, ob_max_network_bytes = network, ob_max_attempts = attempts \<rparr>)"

definition PollWait_up_to :: "duration \<Rightarrow> transport_contract_error + duration" where
  "PollWait_up_to d =
     (if d < from_secs 1 \<or> d > from_secs MAX_POLL_WAIT_SECONDS then Err InvalidPollWait else Ok d)"

text \<open>The receive binding a poll carries is the receive owner's type \<open>'b\<close>.\<close>

record 'b poll_request =
  pr_cursor :: "bytes option"
  pr_receive_binding :: "'b option"
  pr_max_envelopes :: u16
  pr_max_encoded_bytes :: u32
  pr_wait :: duration
  pr_budget :: operation_budget

definition PollRequest_new ::
    "bytes option \<Rightarrow> u16 \<Rightarrow> u32 \<Rightarrow> duration \<Rightarrow> operation_budget
      \<Rightarrow> transport_contract_error + 'b poll_request" where
  "PollRequest_new cursor max_envelopes max_bytes wait budget =
     (if max_envelopes = 0 \<or> max_envelopes > MAX_POLL_ENVELOPES
         \<or> max_bytes = 0 \<or> max_bytes > MAX_POLL_ENCODED_BYTES
         \<or> unat max_bytes > unat (ob_max_network_bytes budget)
      then Err InvalidPollRequest
      else Ok \<lparr> pr_cursor = cursor, pr_receive_binding = None, pr_max_envelopes = max_envelopes,
                pr_max_encoded_bytes = max_bytes, pr_wait = wait, pr_budget = budget \<rparr>)"

definition PollRequest_bind_receive_checkpoint :: "'b poll_request \<Rightarrow> 'b \<Rightarrow> 'b poll_request" where
  "PollRequest_bind_receive_checkpoint p b = p\<lparr> pr_receive_binding := Some b \<rparr>"

record deposit_request =
  dr_envelope :: canonical_envelope
  dr_budget :: operation_budget

definition DepositRequest_new ::
    "canonical_envelope \<Rightarrow> operation_budget \<Rightarrow> transport_contract_error + deposit_request" where
  "DepositRequest_new env budget =
     (if length (ce_bytes env) \<ge> 2 ^ 64 then Err InvalidDepositRequest
      else if length (ce_bytes env) > unat (ob_max_network_bytes budget) then Err InvalidDepositRequest
      else Ok \<lparr> dr_envelope = env, dr_budget = budget \<rparr>)"

definition BoundedDeliveryIds_new :: "ident list \<Rightarrow> transport_contract_error + ident list" where
  "BoundedDeliveryIds_new ids =
     (if ids = [] \<or> length ids > unat MAX_ACKNOWLEDGEMENT_IDS
         \<or> list_ex (\<lambda>i. ids ! i \<in> set (drop (i + 1) ids)) [0..<length ids]
      then Err InvalidAcknowledgementBatch else Ok ids)"

record received_canonical_envelope =
  rc_delivery_id :: ident
  rc_envelope :: canonical_envelope

record 'b receive_batch =
  rb_items :: "received_canonical_envelope list"
  rb_next_cursor :: "bytes option"
  rb_receive_binding :: "'b option"

text \<open>
  The accumulating loop over the received items; \<open>usize\<close> is 64 bits wide, so its checked
  addition fails at \<open>2 ^ 64\<close>.
\<close>

fun check_batch_items ::
    "received_canonical_envelope list \<Rightarrow> usize \<Rightarrow> u32 \<Rightarrow> u64 \<Rightarrow> transport_contract_error + unit" where
  "check_batch_items [] encoded max_bytes now = Ok ()"
| "check_batch_items (item # items) encoded max_bytes now =
     (if ce_expires_at (rc_envelope item) \<le> now then Err ExpiredReceivedEnvelope
      else let encoded' = encoded + length (ce_bytes (rc_envelope item)) in
        if encoded' \<ge> 2 ^ 64 then Err InvalidReceiveBatch
        else if encoded' > unat max_bytes then Err InvalidReceiveBatch
        else check_batch_items items encoded' max_bytes now)"

definition ReceiveBatch_new ::
    "received_canonical_envelope list \<Rightarrow> bytes option \<Rightarrow> 'b poll_request \<Rightarrow> u64
      \<Rightarrow> transport_contract_error + 'b receive_batch" where
  "ReceiveBatch_new items next_cursor request now =
     (if length items > unat (pr_max_envelopes request) then Err InvalidReceiveBatch
      else if list_ex (\<lambda>i. rc_delivery_id (items ! i) \<in> rc_delivery_id ` set (drop (i + 1) items)) [0..<length items]
      then Err InvalidReceiveBatch
      else and_then (check_batch_items items 0 (pr_max_encoded_bytes request) now) (\<lambda>_.
        Ok \<lparr> rb_items = items, rb_next_cursor = next_cursor,
             rb_receive_binding = pr_receive_binding request \<rparr>))"

section \<open>Failures\<close>

definition BoundedRetryDelay_new :: "duration \<Rightarrow> transport_contract_error + duration" where
  "BoundedRetryDelay_new d =
     (if d = 0 \<or> d > from_secs MAX_RETRY_DELAY_SECONDS then Err InvalidRetryDelay else Ok d)"

datatype retry_advice = Never | Backoff | After duration

datatype transport_failure_code =
    InvalidAuthority
  | AuthorityScopeMismatch
  | ExpiredEnvelope
  | EnvelopeTooLarge
  | IdempotencyConflict
  | FailInvalidCursor
  | QueueFull
  | RateLimited
  | Unavailable
  | DeadlineExceeded
  | Cancelled
  | CorruptRemoteResponse
  | PolicyViolation
  | Misconfigured
  | Internal

record transport_failure =
  tf_code :: transport_failure_code
  tf_retry :: retry_advice

definition TransportFailure_new :: "transport_failure_code \<Rightarrow> retry_advice \<Rightarrow> transport_failure" where
  "TransportFailure_new code retry = \<lparr> tf_code = code, tf_retry = retry \<rparr>"

section \<open>Dispatch control\<close>

text \<open>
  One reading of the caller's control: the cancellation flag, the monotonic clock and the wall
  clock, which may have no value. A control is the sequence of readings an operation will make;
  making one moves to the rest.
\<close>

record reading =
  rd_cancelled :: bool
  rd_monotonic :: instant
  rd_wall :: "u64 option"

type_synonym control = "nat \<Rightarrow> reading"

definition after_reading :: "control \<Rightarrow> control" where
  "after_reading ctl = (\<lambda>n. ctl (Suc n))"

record dispatch_observation =
  do_monotonic_now :: instant
  do_wall_now :: u64

definition checkpoint :: "control \<Rightarrow> operation_budget \<Rightarrow> transport_failure + dispatch_observation" where
  "checkpoint ctl budget =
     (if rd_cancelled (ctl 0) then Err (TransportFailure_new Cancelled Never)
      else if rd_monotonic (ctl 0) \<ge> ob_deadline budget
      then Err (TransportFailure_new DeadlineExceeded Never)
      else and_then (ok_or (TransportFailure_new Internal Never) (rd_wall (ctl 0))) (\<lambda>wall.
        Ok \<lparr> do_monotonic_now = rd_monotonic (ctl 0), do_wall_now = wall \<rparr>))"

section \<open>Bounds the constructors establish\<close>

lemma canonical_from_bytes_ok:
  "CanonicalEnvelope_from_canonical_bytes C bs = Inr ce \<longleftrightarrow>
     (\<exists>env. OpaqueEnvelope_decode_canonical C bs = Inr env \<and> \<not> all_zero (envelope_id env)
        \<and> env_expires_at env \<noteq> 0
        \<and> ce = \<lparr> ce_bytes = bs, ce_envelope_id = envelope_id env, ce_expires_at = env_expires_at env \<rparr>)"
  by (auto simp: CanonicalEnvelope_from_canonical_bytes_def CanonicalEnvelope_from_validated_def ok_iff)

lemma pairwise_distinct_iff:
  "list_ex (\<lambda>i. xs ! i \<in> set (drop (i + 1) xs)) [0..<length xs] \<longleftrightarrow> \<not> distinct xs"
proof (induction xs)
  case (Cons x xs)
  have upto: "list_ex Q [0..<n] \<longleftrightarrow> (\<exists>i < n. Q i)" for Q n
    by (auto simp: list_ex_iff)
  have split: "list_ex P [0..<length (x # xs)] \<longleftrightarrow> P 0 \<or> list_ex (\<lambda>i. P (Suc i)) [0..<length xs]" for P
    by (simp only: upto length_Cons Ex_less_Suc2)
  show ?case unfolding split using Cons by simp
qed simp

lemma check_batch_items_ok:
  "check_batch_items items encoded max_bytes now = Inr u \<Longrightarrow>
     list_all (\<lambda>i. now < ce_expires_at (rc_envelope i)) items
     \<and> (items = [] \<or> encoded + sum_list (map (\<lambda>i. length (ce_bytes (rc_envelope i))) items) \<le> unat max_bytes)"
  by (induction items arbitrary: encoded) (force simp: Let_def not_le split: if_splits)+

lemma checkpoint_ok:
  "checkpoint ctl budget = Inr obs \<longleftrightarrow> \<not> rd_cancelled (ctl 0)
     \<and> rd_monotonic (ctl 0) < ob_deadline budget \<and> rd_wall (ctl 0) = Some (do_wall_now obs)
     \<and> do_monotonic_now obs = rd_monotonic (ctl 0)"
  by (cases obs) (auto simp: checkpoint_def ok_iff)

end
