(* ===== verification/Mailbox.thy ===== *)
theory Mailbox
  imports Transport_Contract
begin

text \<open>
  The bounded local Welcome mailbox of \<open>crates/session-transport/src/lib.rs\<close> with the
  capabilities of \<open>capability.rs\<close>: creation with three independent random authorities, deposit,
  receive and acknowledgement, and its adapter for the delivery coordinator. The random provider
  and SHA-256 are parameters.
\<close>

section \<open>Data\<close>

definition CAPABILITY_BYTES :: usize where "CAPABILITY_BYTES = 32"

definition CAPABILITY_DIGEST_DOMAIN :: bytes where
  "CAPABILITY_DIGEST_DOMAIN = ascii_bytes ''session-chat/local-mailbox-capability/v1'' @ [0]"

definition ENVELOPE_DIGEST_DOMAIN :: bytes where
  "ENVELOPE_DIGEST_DOMAIN = ascii_bytes ''session-chat/local-mailbox-envelope/v1'' @ [0]"

datatype local_transport_error = InvalidPolicy | Rejected | MailboxCapacityExceeded | ProviderFailure

record local_mailbox_policy =
  mp_maximum_lifetime :: u64
  mp_maximum_live :: usize

definition LocalMailboxPolicy_new :: "u64 \<Rightarrow> usize \<Rightarrow> local_transport_error + local_mailbox_policy" where
  "LocalMailboxPolicy_new lifetime live =
     (if lifetime = 0 \<or> live = 0 then Err InvalidPolicy
      else Ok \<lparr> mp_maximum_lifetime = lifetime, mp_maximum_live = live \<rparr>)"

definition DeliveryId_from_provider_bytes :: "bytes \<Rightarrow> ident option" where
  "DeliveryId_from_provider_bytes bs = (if all_zero bs then None else Some bs)"

record received_envelope =
  re_delivery_id :: ident
  re_envelope :: opaque_envelope

text \<open>Receive and acknowledgement capabilities have the same four fields and distinct types.\<close>

record receive_capability =
  rcap_transport_instance_id :: ident
  rcap_mailbox_id :: ident
  rcap_secret :: bytes
  rcap_expires_at :: u64

record acknowledgement_capability =
  acap_transport_instance_id :: ident
  acap_mailbox_id :: ident
  acap_secret :: bytes
  acap_expires_at :: u64

record local_welcome_mailbox =
  lm_deposit :: local_welcome_deposit_endpoint
  lm_receive :: receive_capability
  lm_acknowledgement :: acknowledgement_capability

record accepted_envelope =
  ae_envelope_id :: ident
  ae_envelope_digest :: bytes
  ae_delivery_id :: ident
  ae_envelope :: "opaque_envelope option"

record local_mailbox_record =
  mr_expires_at :: u64
  mr_deposit_digest :: bytes
  mr_receive_digest :: bytes
  mr_acknowledgement_digest :: bytes
  mr_accepted :: "accepted_envelope option"

record local_transport =
  lt_policy :: local_mailbox_policy
  lt_instance_id :: ident
  lt_mailboxes :: "(ident, local_mailbox_record) btree_map"

section \<open>Random bytes and digests\<close>

text \<open>
  The random provider fills a buffer of the requested size or fails; it is a function of its own
  state \<open>'g\<close>.
\<close>

type_synonym 'g rng = "'g \<Rightarrow> usize \<Rightarrow> bytes option \<times> 'g"

definition random_nonzero :: "'g rng \<Rightarrow> usize \<Rightarrow> 'g \<Rightarrow> (local_transport_error + bytes) \<times> 'g" where
  "random_nonzero rng n g =
     (case rng g n of
        (None, g') \<Rightarrow> (Err ProviderFailure, g')
      | (Some bs, g') \<Rightarrow> (if all_zero bs then Err ProviderFailure else Ok bs, g'))"

definition domain_digest :: "(bytes \<Rightarrow> bytes) \<Rightarrow> bytes \<Rightarrow> bytes \<Rightarrow> bytes" where
  "domain_digest sha256 domain value = sha256 (domain @ value)"

definition capability_digest :: "(bytes \<Rightarrow> bytes) \<Rightarrow> bytes \<Rightarrow> bytes" where
  "capability_digest sha256 secret = domain_digest sha256 CAPABILITY_DIGEST_DOMAIN secret"

definition secret_matches :: "(bytes \<Rightarrow> bytes) \<Rightarrow> bytes \<Rightarrow> bytes \<Rightarrow> bool" where
  "secret_matches sha256 expected secret \<longleftrightarrow> expected = capability_digest sha256 secret"

section \<open>Operations\<close>

definition LocalMemoryWelcomeTransport_new ::
    "'g rng \<Rightarrow> local_mailbox_policy \<Rightarrow> 'g \<Rightarrow> (local_transport_error + local_transport) \<times> 'g" where
  "LocalMemoryWelcomeTransport_new rng policy g =
     (case random_nonzero rng IDENTIFIER_BYTES g of
        (Inl e, g') \<Rightarrow> (Err e, g')
      | (Inr iid, g') \<Rightarrow> (Ok \<lparr> lt_policy = policy, lt_instance_id = iid, lt_mailboxes = [] \<rparr>, g'))"

definition mailbox_live :: "u64 \<Rightarrow> local_mailbox_record \<Rightarrow> bool" where
  "mailbox_live now r \<longleftrightarrow> mr_expires_at r > now"

definition install_mailbox ::
    "(bytes \<Rightarrow> bytes) \<Rightarrow> local_transport \<Rightarrow> ident \<Rightarrow> bytes \<Rightarrow> bytes \<Rightarrow> bytes \<Rightarrow> u64 \<Rightarrow> u64
      \<Rightarrow> (local_transport_error + local_welcome_mailbox) \<times> local_transport" where
  "install_mailbox sha256 t mid dsec rsec asec expires_at now =
     (if dsec = rsec \<or> dsec = asec \<or> rsec = asec then (Err ProviderFailure, t)
      else case and_then (map_err (\<lambda>_. ProviderFailure) (DepositCapability_new dsec)) (\<lambda>cap.
             map_err (\<lambda>_. ProviderFailure)
               (LocalWelcomeDepositEndpoint_new (lt_instance_id t) mid cap expires_at)) of
        Inl e \<Rightarrow> (Err e, t)
      | Inr deposit \<Rightarrow>
        (Ok \<lparr> lm_deposit = deposit,
              lm_receive = \<lparr> rcap_transport_instance_id = lt_instance_id t, rcap_mailbox_id = mid,
                             rcap_secret = rsec, rcap_expires_at = expires_at \<rparr>,
              lm_acknowledgement = \<lparr> acap_transport_instance_id = lt_instance_id t,
                             acap_mailbox_id = mid, acap_secret = asec, acap_expires_at = expires_at \<rparr> \<rparr>,
         t\<lparr> lt_mailboxes := bt_insert mid
              \<lparr> mr_expires_at = expires_at,
                mr_deposit_digest = capability_digest sha256 dsec,
                mr_receive_digest = capability_digest sha256 rsec,
                mr_acknowledgement_digest = capability_digest sha256 asec,
                mr_accepted = None \<rparr>
              (bt_retain (mailbox_live now) (lt_mailboxes t)) \<rparr>))"

definition create_welcome_mailbox ::
    "'g rng \<Rightarrow> (bytes \<Rightarrow> bytes) \<Rightarrow> local_transport \<Rightarrow> 'g \<Rightarrow> u64 \<Rightarrow> u64
      \<Rightarrow> (local_transport_error + local_welcome_mailbox) \<times> local_transport \<times> 'g" where
  "create_welcome_mailbox rng sha256 t g expires_at now =
     (case checked_sub expires_at now of
        None \<Rightarrow> (Err Rejected, t, g)
      | Some lifetime \<Rightarrow>
        if lifetime = 0 \<or> lifetime > mp_maximum_lifetime (lt_policy t) then (Err Rejected, t, g)
        else if length (filter (mailbox_live now) (bt_values (lt_mailboxes t))) \<ge> mp_maximum_live (lt_policy t)
        then (Err MailboxCapacityExceeded, t, g)
        else (case random_nonzero rng IDENTIFIER_BYTES g of
            (Inl e, g1) \<Rightarrow> (Err e, t, g1)
          | (Inr mid, g1) \<Rightarrow>
            if bt_get (lt_mailboxes t) mid \<noteq> None then (Err ProviderFailure, t, g1)
            else (case random_nonzero rng CAPABILITY_BYTES g1 of
                (Inl e, g2) \<Rightarrow> (Err e, t, g2)
              | (Inr dsec, g2) \<Rightarrow> (case random_nonzero rng CAPABILITY_BYTES g2 of
                (Inl e, g3) \<Rightarrow> (Err e, t, g3)
              | (Inr rsec, g3) \<Rightarrow> (case random_nonzero rng CAPABILITY_BYTES g3 of
                (Inl e, g4) \<Rightarrow> (Err e, t, g4)
              | (Inr asec, g4) \<Rightarrow>
                (let (r, t') = install_mailbox sha256 t mid dsec rsec asec expires_at now
                 in (r, t', g4)))))))"

definition set_accepted :: "local_transport \<Rightarrow> ident \<Rightarrow> accepted_envelope option \<Rightarrow> local_transport" where
  "set_accepted t mid a =
     t\<lparr> lt_mailboxes := bt_update mid (\<lambda>r. r\<lparr> mr_accepted := a \<rparr>) (lt_mailboxes t) \<rparr>"

definition deposit ::
    "cbor \<Rightarrow> 'g rng \<Rightarrow> (bytes \<Rightarrow> bytes) \<Rightarrow> local_transport \<Rightarrow> 'g
      \<Rightarrow> local_welcome_deposit_endpoint \<Rightarrow> opaque_envelope \<Rightarrow> u64
      \<Rightarrow> (local_transport_error + ident) \<times> local_transport \<times> 'g" where
  "deposit C rng sha256 t g ep env now =
     (if ep_transport_instance_id ep \<noteq> lt_instance_id t
         \<or> ep_expires_at ep \<le> now
         \<or> env_expires_at env \<le> now
         \<or> env_expires_at env > ep_expires_at ep
         \<or> all_zero (envelope_id env)
      then (Err Rejected, t, g)
      else case bt_get (lt_mailboxes t) (ep_mailbox_id ep) of
        None \<Rightarrow> (Err Rejected, t, g)
      | Some r \<Rightarrow>
        if mr_expires_at r \<noteq> ep_expires_at ep
           \<or> \<not> secret_matches sha256 (mr_deposit_digest r) (ep_deposit_capability ep)
        then (Err Rejected, t, g)
        else (case OpaqueEnvelope_encode_canonical C env of
           Inl _ \<Rightarrow> (Err Rejected, t, g)
         | Inr encoded \<Rightarrow>
           (let digest = domain_digest sha256 ENVELOPE_DIGEST_DOMAIN encoded in
            case mr_accepted r of
              Some a \<Rightarrow>
                (if ae_envelope_id a = envelope_id env \<and> ae_envelope_digest a = digest
                 then Ok (ae_delivery_id a) else Err Rejected, t, g)
            | None \<Rightarrow>
              (case random_nonzero rng IDENTIFIER_BYTES g of
                 (Inl e, g') \<Rightarrow> (Err e, t, g')
               | (Inr did, g') \<Rightarrow>
                 (Ok did, set_accepted t (ep_mailbox_id ep)
                    (Some \<lparr> ae_envelope_id = envelope_id env, ae_envelope_digest = digest,
                            ae_delivery_id = did, ae_envelope = Some env \<rparr>), g')))))"

definition drop_expired :: "u64 \<Rightarrow> accepted_envelope \<Rightarrow> accepted_envelope" where
  "drop_expired now a =
     (case ae_envelope a of
        Some env \<Rightarrow> if env_expires_at env \<le> now then a\<lparr> ae_envelope := None \<rparr> else a
      | None \<Rightarrow> a)"

definition receive ::
    "(bytes \<Rightarrow> bytes) \<Rightarrow> local_transport \<Rightarrow> receive_capability \<Rightarrow> u64
      \<Rightarrow> (local_transport_error + received_envelope option) \<times> local_transport" where
  "receive sha256 t auth now =
     (if rcap_transport_instance_id auth \<noteq> lt_instance_id t \<or> rcap_expires_at auth \<le> now
      then (Err Rejected, t)
      else case bt_get (lt_mailboxes t) (rcap_mailbox_id auth) of
        None \<Rightarrow> (Err Rejected, t)
      | Some r \<Rightarrow>
        if mr_expires_at r \<noteq> rcap_expires_at auth
           \<or> \<not> secret_matches sha256 (mr_receive_digest r) (rcap_secret auth)
        then (Err Rejected, t)
        else (case mr_accepted r of
           None \<Rightarrow> (Ok None, t)
         | Some a \<Rightarrow>
           (let a' = drop_expired now a in
            (Ok (map_option (\<lambda>env. \<lparr> re_delivery_id = ae_delivery_id a', re_envelope = env \<rparr>) (ae_envelope a')),
             set_accepted t (rcap_mailbox_id auth) (Some a')))))"

definition acknowledge ::
    "(bytes \<Rightarrow> bytes) \<Rightarrow> local_transport \<Rightarrow> acknowledgement_capability \<Rightarrow> ident \<Rightarrow> u64
      \<Rightarrow> (local_transport_error + unit) \<times> local_transport" where
  "acknowledge sha256 t auth did now =
     (if acap_transport_instance_id auth \<noteq> lt_instance_id t \<or> acap_expires_at auth \<le> now
      then (Err Rejected, t)
      else case bt_get (lt_mailboxes t) (acap_mailbox_id auth) of
        None \<Rightarrow> (Err Rejected, t)
      | Some r \<Rightarrow>
        if mr_expires_at r \<noteq> acap_expires_at auth
           \<or> \<not> secret_matches sha256 (mr_acknowledgement_digest r) (acap_secret auth)
        then (Err Rejected, t)
        else (case mr_accepted r of
           None \<Rightarrow> (Err Rejected, t)
         | Some a \<Rightarrow>
           if ae_delivery_id a \<noteq> did then (Err Rejected, t)
           else (Ok (), set_accepted t (acap_mailbox_id auth) (Some (a\<lparr> ae_envelope := None \<rparr>)))))"

definition mailbox_count :: "local_transport \<Rightarrow> usize" where
  "mailbox_count t = length (lt_mailboxes t)"

section \<open>The coordinator's deposit adapter\<close>

fun map_local_dispatch_failure :: "local_transport_error \<Rightarrow> transport_failure" where
  "map_local_dispatch_failure InvalidPolicy = TransportFailure_new Misconfigured Never"
| "map_local_dispatch_failure Rejected = TransportFailure_new InvalidAuthority Never"
| "map_local_dispatch_failure MailboxCapacityExceeded = TransportFailure_new QueueFull Backoff"
| "map_local_dispatch_failure ProviderFailure = TransportFailure_new Internal Backoff"

text \<open>
  The asynchronous \<open>EnvelopeDeposit\<close> implementation never awaits, so it runs to its end in one
  poll: two checkpoints around the synchronous deposit.
\<close>

definition local_deposit ::
    "cbor \<Rightarrow> 'g rng \<Rightarrow> (bytes \<Rightarrow> bytes) \<Rightarrow> local_transport \<times> 'g
      \<Rightarrow> local_welcome_deposit_endpoint \<Rightarrow> deposit_request \<Rightarrow> control
      \<Rightarrow> (transport_failure + ident) \<times> (local_transport \<times> 'g) \<times> control" where
  "local_deposit C rng sha256 tg ep request ctl =
     (let budget = dr_budget request; canonical = dr_envelope request; ctl1 = after_reading ctl in
      case checkpoint ctl budget of
        Inl f \<Rightarrow> (Err f, tg, ctl1)
      | Inr obs \<Rightarrow>
        if ce_expires_at canonical \<le> do_wall_now obs \<or> ce_expires_at canonical > ep_expires_at ep
        then (Err (TransportFailure_new ExpiredEnvelope Never), tg, ctl1)
        else (case OpaqueEnvelope_decode_canonical C (ce_bytes canonical) of
           Inl _ \<Rightarrow> (Err (TransportFailure_new CorruptRemoteResponse Never), tg, ctl1)
         | Inr env \<Rightarrow>
           (case deposit C rng sha256 (fst tg) (snd tg) ep env (do_wall_now obs) of
              (Inl e, t', g') \<Rightarrow> (Err (map_local_dispatch_failure e), (t', g'), ctl1)
            | (Inr did, t', g') \<Rightarrow>
              (case checkpoint ctl1 budget of
                 Inl f \<Rightarrow> (Err f, (t', g'), after_reading ctl1)
               | Inr _ \<Rightarrow> (Ok did, (t', g'), after_reading ctl1)))))"

section \<open>How a mailbox may change\<close>

text \<open>
  A mailbox's accepted delivery is fixed once: its identifiers and digest stay, and its envelope is
  kept or dropped.
\<close>

fun accepted_le :: "accepted_envelope option \<Rightarrow> accepted_envelope option \<Rightarrow> bool" where
  "accepted_le None _ \<longleftrightarrow> True"
| "accepted_le (Some a) None \<longleftrightarrow> False"
| "accepted_le (Some a) (Some b) \<longleftrightarrow> b = a \<or> b = a\<lparr> ae_envelope := None \<rparr>"

lemma accepted_le_refl [simp]: "accepted_le a a"
  by (cases a) auto

lemma accepted_le_trans: "accepted_le a b \<Longrightarrow> accepted_le b c \<Longrightarrow> accepted_le a c"
  by (cases a; cases b; cases c) auto

definition mailbox_le :: "local_mailbox_record \<Rightarrow> local_mailbox_record \<Rightarrow> bool" where
  "mailbox_le r r' \<longleftrightarrow> r' = r\<lparr> mr_accepted := mr_accepted r' \<rparr> \<and> accepted_le (mr_accepted r) (mr_accepted r')"

lemma mailbox_le_refl [simp]: "mailbox_le r r"
  by (simp add: mailbox_le_def)

lemma mailbox_le_fields:
  assumes "mailbox_le r r'"
  shows "mr_expires_at r' = mr_expires_at r" and "mr_deposit_digest r' = mr_deposit_digest r"
    and "mr_receive_digest r' = mr_receive_digest r"
    and "mr_acknowledgement_digest r' = mr_acknowledgement_digest r"
    and "accepted_le (mr_accepted r) (mr_accepted r')"
  using assms by (cases r; cases r'; simp add: mailbox_le_def)+

lemma mailbox_le_trans: "mailbox_le r r' \<Longrightarrow> mailbox_le r' r'' \<Longrightarrow> mailbox_le r r''"
  by (cases r; cases r'; cases r'') (auto simp: mailbox_le_def intro: accepted_le_trans)

definition accepted_ok :: "cbor \<Rightarrow> (bytes \<Rightarrow> bytes) \<Rightarrow> local_mailbox_record \<Rightarrow> bool" where
  "accepted_ok C sha256 r \<longleftrightarrow> (\<forall>a. mr_accepted r = Some a \<longrightarrow> \<not> all_zero (ae_delivery_id a) \<and>
     (\<forall>env. ae_envelope a = Some env \<longrightarrow> ae_envelope_id a = envelope_id env
        \<and> env_expires_at env \<le> mr_expires_at r
        \<and> (\<exists>encoded. OpaqueEnvelope_encode_canonical C env = Inr encoded
             \<and> ae_envelope_digest a = domain_digest sha256 ENVELOPE_DIGEST_DOMAIN encoded)))"

definition mailbox_inv :: "cbor \<Rightarrow> (bytes \<Rightarrow> bytes) \<Rightarrow> local_transport \<Rightarrow> bool" where
  "mailbox_inv C sha256 t \<longleftrightarrow> bt_wf (lt_mailboxes t)
     \<and> length (lt_mailboxes t) \<le> mp_maximum_live (lt_policy t)
     \<and> (\<forall>mid r. bt_get (lt_mailboxes t) mid = Some r \<longrightarrow> accepted_ok C sha256 r)"

text \<open>
  One operation at time \<open>now\<close>: it creates a mailbox under an unused identifier, dropping dead ones,
  or it moves one existing mailbox up.
\<close>

inductive mailbox_step :: "cbor \<Rightarrow> (bytes \<Rightarrow> bytes) \<Rightarrow> u64 \<Rightarrow> local_transport \<Rightarrow> local_transport \<Rightarrow> bool"
  for C sha256 now where
  mailbox_stay: "mailbox_step C sha256 now t t"
| mailbox_create: "\<lbrakk> bt_get (lt_mailboxes t) mid = None; mr_accepted new = None;
      length (filter (mailbox_live now) (bt_values (lt_mailboxes t))) < mp_maximum_live (lt_policy t) \<rbrakk>
    \<Longrightarrow> mailbox_step C sha256 now t
          (t\<lparr> lt_mailboxes := bt_insert mid new (bt_retain (mailbox_live now) (lt_mailboxes t)) \<rparr>)"
| mailbox_accept: "\<lbrakk> bt_get (lt_mailboxes t) mid = Some r; accepted_le (mr_accepted r) a;
      accepted_ok C sha256 r \<Longrightarrow> accepted_ok C sha256 (r\<lparr> mr_accepted := a \<rparr>) \<rbrakk>
    \<Longrightarrow> mailbox_step C sha256 now t (set_accepted t mid a)"

lemma random_nonzero_ok: "random_nonzero rng n g = (Inr bs, g') \<Longrightarrow> \<not> all_zero bs"
  by (auto simp: random_nonzero_def split: prod.splits option.splits if_splits)

lemma install_mailbox_step:
  assumes "install_mailbox sha256 t mid dsec rsec asec expires_at now = (r, t')"
    and "bt_get (lt_mailboxes t) mid = None"
    and "length (filter (mailbox_live now) (bt_values (lt_mailboxes t))) < mp_maximum_live (lt_policy t)"
  shows "mailbox_step C sha256 now t t'"
  using assms
  by (auto simp: install_mailbox_def split: if_splits sum.splits intro: mailbox_stay mailbox_create)

lemma create_step:
  assumes "create_welcome_mailbox rng sha256 t g expires_at now = (r, t', g')"
  shows "mailbox_step C sha256 now t t'"
  using assms
  by (auto simp: create_welcome_mailbox_def not_le
      split: option.splits if_splits prod.splits sum.splits
      intro: mailbox_stay install_mailbox_step)

lemma deposit_ok_cases:
  assumes "deposit C rng sha256 t g ep env now = (Inr did, t', g')"
  obtains r encoded where "bt_get (lt_mailboxes t) (ep_mailbox_id ep) = Some r"
    and "ep_transport_instance_id ep = lt_instance_id t"
    and "now < env_expires_at env" and "env_expires_at env \<le> ep_expires_at ep"
    and "\<not> all_zero (envelope_id env)"
    and "mr_expires_at r = ep_expires_at ep"
    and "mr_deposit_digest r = capability_digest sha256 (ep_deposit_capability ep)"
    and "OpaqueEnvelope_encode_canonical C env = Inr encoded"
    and "(\<exists>a. mr_accepted r = Some a \<and> ae_envelope_id a = envelope_id env
            \<and> ae_envelope_digest a = domain_digest sha256 ENVELOPE_DIGEST_DOMAIN encoded
            \<and> did = ae_delivery_id a \<and> t' = t)
       \<or> (mr_accepted r = None \<and> \<not> all_zero did
            \<and> t' = set_accepted t (ep_mailbox_id ep)
                (Some \<lparr> ae_envelope_id = envelope_id env,
                        ae_envelope_digest = domain_digest sha256 ENVELOPE_DIGEST_DOMAIN encoded,
                        ae_delivery_id = did, ae_envelope = Some env \<rparr>))"
  using assms
  by (auto simp: deposit_def Let_def secret_matches_def not_le not_less
      split: option.splits if_splits prod.splits sum.splits dest: random_nonzero_ok)

lemma deposit_err: "deposit C rng sha256 t g ep env now = (Inl e, t', g') \<Longrightarrow> t' = t"
  by (auto simp: deposit_def Let_def split: option.splits if_splits prod.splits sum.splits)

lemma deposit_step:
  assumes "deposit C rng sha256 t g ep env now = (r, t', g')"
  shows "mailbox_step C sha256 now t t'"
proof (cases r)
  case (Inl e)
  with assms deposit_err show ?thesis by (metis mailbox_stay)
next
  case (Inr did)
  with assms show ?thesis
    by (auto elim!: deposit_ok_cases intro!: mailbox_stay mailbox_accept simp: accepted_ok_def)
qed

lemma drop_expired_cases: "drop_expired now a = a \<or> drop_expired now a = a\<lparr> ae_envelope := None \<rparr>"
  by (auto simp: drop_expired_def split: option.splits)

lemma accepted_ok_drop:
  "accepted_ok C sha256 r \<Longrightarrow> mr_accepted r = Some a \<Longrightarrow> b = a \<or> b = a\<lparr> ae_envelope := None \<rparr>
     \<Longrightarrow> accepted_ok C sha256 (r\<lparr> mr_accepted := Some b \<rparr>)"
  by (auto simp: accepted_ok_def)

lemma receive_step:
  assumes "receive sha256 t auth now = (r, t')"
  shows "mailbox_step C sha256 now t t'"
  using assms drop_expired_cases
  by (auto simp: receive_def Let_def split: option.splits if_splits
      intro!: mailbox_stay mailbox_accept accepted_ok_drop)

lemma acknowledge_step:
  assumes "acknowledge sha256 t auth did now = (r, t')"
  shows "mailbox_step C sha256 now t t'"
  using assms
  by (auto simp: acknowledge_def split: option.splits if_splits
      intro!: mailbox_stay mailbox_accept accepted_ok_drop)

lemma mailbox_step_inv:
  assumes "mailbox_step C sha256 now t t'" and "mailbox_inv C sha256 t"
  shows "mailbox_inv C sha256 t'"
  using assms
proof (induction rule: mailbox_step.induct)
  case (mailbox_create t mid new)
  let ?m = "bt_retain (mailbox_live now) (lt_mailboxes t)"
  have "\<forall>k r. bt_get (bt_insert mid new ?m) k = Some r \<longrightarrow> accepted_ok C sha256 r"
    using mailbox_create by (auto simp: mailbox_inv_def accepted_ok_def dest!: btree.get_prune_putD)
  moreover have "length (bt_insert mid new ?m) \<le> Suc (length ?m)" by (rule bt_insert_length)
  ultimately show ?case
    using mailbox_create by (simp add: mailbox_inv_def bt_wf_simps bt_retain_length)
next
  case (mailbox_accept t mid r a)
  then show ?case
    by (auto simp: mailbox_inv_def set_accepted_def bt_wf_simps bt_length_simps bt_get_update split: if_splits)
qed simp

lemma mailbox_step_kept:
  assumes "mailbox_step C sha256 now t t'" and "bt_wf (lt_mailboxes t)"
    and "bt_get (lt_mailboxes t) mid = Some r" and "mailbox_live now r"
  shows "\<exists>r'. bt_get (lt_mailboxes t') mid = Some r' \<and> mailbox_le r r'"
  using assms
proof (induction rule: mailbox_step.induct)
  case (mailbox_accept t mid' x a)
  then show ?case
    by (auto simp: set_accepted_def bt_get_update mailbox_le_def)
qed (auto simp: bt_get_insert bt_get_retain)

lemma mailbox_step_frame:
  "mailbox_step C sha256 now t t' \<Longrightarrow> lt_policy t' = lt_policy t \<and> lt_instance_id t' = lt_instance_id t"
  by (induction rule: mailbox_step.induct) (auto simp: set_accepted_def)

section \<open>Runs\<close>

datatype mailbox_op =
    MbCreate u64
  | MbDeposit local_welcome_deposit_endpoint opaque_envelope
  | MbReceive receive_capability
  | MbAcknowledge acknowledgement_capability ident

fun mailbox_apply ::
    "cbor \<Rightarrow> 'g rng \<Rightarrow> (bytes \<Rightarrow> bytes) \<Rightarrow> local_transport \<times> 'g \<Rightarrow> mailbox_op \<times> u64 \<Rightarrow> local_transport \<times> 'g" where
  "mailbox_apply C rng sha256 (t, g) (MbCreate expires_at, now) =
     snd (create_welcome_mailbox rng sha256 t g expires_at now)"
| "mailbox_apply C rng sha256 (t, g) (MbDeposit ep env, now) = snd (deposit C rng sha256 t g ep env now)"
| "mailbox_apply C rng sha256 (t, g) (MbReceive auth, now) = (snd (receive sha256 t auth now), g)"
| "mailbox_apply C rng sha256 (t, g) (MbAcknowledge auth did, now) =
     (snd (acknowledge sha256 t auth did now), g)"

definition mailbox_run ::
    "cbor \<Rightarrow> 'g rng \<Rightarrow> (bytes \<Rightarrow> bytes) \<Rightarrow> local_transport \<times> 'g \<Rightarrow> (mailbox_op \<times> u64) list
      \<Rightarrow> local_transport \<times> 'g" where
  "mailbox_run C rng sha256 tg ops = foldl (mailbox_apply C rng sha256) tg ops"

lemma mailbox_apply_step:
  "mailbox_step C sha256 now (fst tg) (fst (mailbox_apply C rng sha256 tg (op, now)))"
proof (cases tg)
  case (Pair t g)
  then show ?thesis
    using create_step [of rng sha256 t g _ now] deposit_step [of C rng sha256 t g _ _ now]
      receive_step [of sha256 t _ now] acknowledge_step [of sha256 t _ _ now]
    by (cases op) (metis mailbox_apply.simps fst_conv prod.collapse)+
qed

lemma mailbox_run_inv:
  "mailbox_inv C sha256 (fst tg) \<Longrightarrow> mailbox_inv C sha256 (fst (mailbox_run C rng sha256 tg ops))
     \<and> lt_policy (fst (mailbox_run C rng sha256 tg ops)) = lt_policy (fst tg)
     \<and> lt_instance_id (fst (mailbox_run C rng sha256 tg ops)) = lt_instance_id (fst tg)"
  unfolding mailbox_run_def
proof (induction ops arbitrary: tg)
  case (Cons x ops)
  obtain op now where x: "x = (op, now)" by fastforce
  note st = mailbox_apply_step [of C sha256 now tg rng op]
  show ?case
    using Cons.IH [of "mailbox_apply C rng sha256 tg x"] mailbox_step_inv [OF st Cons.prems]
      mailbox_step_frame [OF st] by (simp add: x)
qed simp

lemma mailbox_run_kept:
  assumes "mailbox_inv C sha256 (fst tg)" and "bt_get (lt_mailboxes (fst tg)) mid = Some r"
    and "list_all (\<lambda>op. mailbox_live (snd op) r) ops"
  shows "\<exists>r'. bt_get (lt_mailboxes (fst (mailbox_run C rng sha256 tg ops))) mid = Some r' \<and> mailbox_le r r'"
  using assms unfolding mailbox_run_def
proof (induction ops arbitrary: tg r)
  case (Cons x ops)
  obtain op now where x: "x = (op, now)" by fastforce
  note st = mailbox_apply_step [of C sha256 now tg rng op]
  have wf: "bt_wf (lt_mailboxes (fst tg))" using Cons.prems(1) by (simp add: mailbox_inv_def)
  obtain r1 where r1: "bt_get (lt_mailboxes (fst (mailbox_apply C rng sha256 tg x))) mid = Some r1"
      "mailbox_le r r1"
    using mailbox_step_kept [OF st wf Cons.prems(2)] Cons.prems(3) by (auto simp: x)
  have "list_all (\<lambda>op. mailbox_live (snd op) r1) ops"
    using Cons.prems(3) mailbox_le_fields(1) [OF r1(2)] by (simp add: mailbox_live_def)
  from Cons.IH [OF _ r1(1) this] mailbox_step_inv [OF st Cons.prems(1)] r1(2) show ?case
    by (auto simp: x dest: mailbox_le_trans)
qed auto

lemma mailbox_inv_new:
  "LocalMemoryWelcomeTransport_new rng p g = (Inr t, g') \<Longrightarrow> mailbox_inv C sha256 t"
  by (auto simp: LocalMemoryWelcomeTransport_new_def mailbox_inv_def bt_wf_Nil bt_get_empty
      split: prod.splits sum.splits)

text \<open>
  What an accepted deposit leaves behind: the delivery and the digest by which a repeated deposit is
  recognised. The envelope itself is dropped once it is acknowledged or expires.
\<close>

definition envelope_digest :: "cbor \<Rightarrow> (bytes \<Rightarrow> bytes) \<Rightarrow> opaque_envelope \<Rightarrow> wire_error + bytes" where
  "envelope_digest C sha256 env =
     and_then (OpaqueEnvelope_encode_canonical C env) (\<lambda>encoded. Ok (domain_digest sha256 ENVELOPE_DIGEST_DOMAIN encoded))"

definition accepted_in :: "local_transport \<Rightarrow> ident \<Rightarrow> accepted_envelope option" where
  "accepted_in t mid = Option.bind (bt_get (lt_mailboxes t) mid) mr_accepted"

definition holds_delivery ::
    "cbor \<Rightarrow> (bytes \<Rightarrow> bytes) \<Rightarrow> local_transport \<Rightarrow> local_welcome_deposit_endpoint \<Rightarrow> opaque_envelope \<Rightarrow> ident \<Rightarrow> bool" where
  "holds_delivery C sha256 t ep env did \<longleftrightarrow>
     ep_transport_instance_id ep = lt_instance_id t \<and>
     (\<exists>r a encoded. bt_get (lt_mailboxes t) (ep_mailbox_id ep) = Some r
       \<and> mr_expires_at r = ep_expires_at ep
       \<and> mr_deposit_digest r = capability_digest sha256 (ep_deposit_capability ep)
       \<and> mr_accepted r = Some a \<and> ae_delivery_id a = did \<and> ae_envelope_id a = envelope_id env
       \<and> OpaqueEnvelope_encode_canonical C env = Inr encoded
       \<and> ae_envelope_digest a = domain_digest sha256 ENVELOPE_DIGEST_DOMAIN encoded)"

lemma deposit_holds:
  assumes "deposit C rng sha256 t g ep env now = (Inr did, t', g')"
  shows "holds_delivery C sha256 t' ep env did"
  using assms
  by (auto elim!: deposit_ok_cases simp: holds_delivery_def set_accepted_def bt_get_update)

text \<open>An accepted deposit either stores the envelope itself or repeats a delivery and changes nothing.\<close>

lemma deposit_stores:
  assumes "deposit C rng sha256 t g ep env now = (Inr did, t', g')"
  shows "if accepted_in t (ep_mailbox_id ep) = None
     then map_option ae_envelope (accepted_in t' (ep_mailbox_id ep)) = Some (Some env) else t' = t"
  using assms
  by (auto elim!: deposit_ok_cases simp: accepted_in_def set_accepted_def bt_get_update)

lemma holds_delivery_run:
  assumes "mailbox_inv C sha256 (fst tg)" and "holds_delivery C sha256 (fst tg) ep env did"
    and "list_all (\<lambda>op. snd op < ep_expires_at ep) ops"
  shows "holds_delivery C sha256 (fst (mailbox_run C rng sha256 tg ops)) ep env did"
proof -
  obtain r a encoded where r: "bt_get (lt_mailboxes (fst tg)) (ep_mailbox_id ep) = Some r"
      "mr_expires_at r = ep_expires_at ep"
      "mr_deposit_digest r = capability_digest sha256 (ep_deposit_capability ep)"
      "mr_accepted r = Some a" "ae_delivery_id a = did" "ae_envelope_id a = envelope_id env"
      "OpaqueEnvelope_encode_canonical C env = Inr encoded"
      "ae_envelope_digest a = domain_digest sha256 ENVELOPE_DIGEST_DOMAIN encoded"
    using assms(2) unfolding holds_delivery_def by blast
  have "list_all (\<lambda>op. mailbox_live (snd op) r) ops"
    using assms(3) r(2) by (simp add: mailbox_live_def)
  then obtain r' where r': "bt_get (lt_mailboxes (fst (mailbox_run C rng sha256 tg ops))) (ep_mailbox_id ep) = Some r'"
      and le: "mailbox_le r r'"
    using mailbox_run_kept [OF assms(1) r(1)] by blast
  obtain b where "mr_accepted r' = Some b" "b = a \<or> b = a\<lparr> ae_envelope := None \<rparr>"
    using mailbox_le_fields(5) [OF le] r(4) by (cases "mr_accepted r'") auto
  with r r' mailbox_le_fields [OF le] assms(2) mailbox_run_inv [OF assms(1)] show ?thesis
    unfolding holds_delivery_def by auto
qed

lemma holds_delivery_redeposit:
  assumes "holds_delivery C sha256 t ep env did" and "\<not> all_zero (envelope_id env)"
    and "now < env_expires_at env" and "env_expires_at env \<le> ep_expires_at ep"
  shows "deposit C rng sha256 t g ep env now = (Inr did, t, g)"
  using assms by (auto simp: holds_delivery_def deposit_def secret_matches_def)

lemma holds_delivery_conflict:
  assumes "holds_delivery C sha256 t ep env did"
    and "ep_mailbox_id ep' = ep_mailbox_id ep"
    and "envelope_id env' \<noteq> envelope_id env \<or> envelope_digest C sha256 env' \<noteq> envelope_digest C sha256 env"
  shows "deposit C rng sha256 t g ep' env' now = (Inl Rejected, t, g)"
  using assms
  by (auto simp: holds_delivery_def envelope_digest_def deposit_def secret_matches_def Let_def
      split: option.splits sum.splits)

text \<open>A mailbox whose envelope is gone stays empty.\<close>

definition emptied :: "local_transport \<Rightarrow> ident \<Rightarrow> u64 \<Rightarrow> bool" where
  "emptied t mid expires_at \<longleftrightarrow> (\<exists>r a. bt_get (lt_mailboxes t) mid = Some r
     \<and> mr_expires_at r = expires_at \<and> mr_accepted r = Some a \<and> ae_envelope a = None)"

lemma acknowledge_emptied:
  "acknowledge sha256 t auth did now = (Inr u, t') \<Longrightarrow> emptied t' (acap_mailbox_id auth) (acap_expires_at auth)"
  by (auto simp: acknowledge_def emptied_def set_accepted_def bt_get_update split: option.splits if_splits)

lemma emptied_run:
  assumes "mailbox_inv C sha256 (fst tg)" and "emptied (fst tg) mid expires_at"
    and "list_all (\<lambda>op. snd op < expires_at) ops"
  shows "emptied (fst (mailbox_run C rng sha256 tg ops)) mid expires_at"
proof -
  obtain r a where r: "bt_get (lt_mailboxes (fst tg)) mid = Some r" "mr_expires_at r = expires_at"
      "mr_accepted r = Some a" "ae_envelope a = None"
    using assms(2) unfolding emptied_def by blast
  have "list_all (\<lambda>op. mailbox_live (snd op) r) ops"
    using assms(3) r(2) by (simp add: mailbox_live_def)
  then obtain r' where r': "bt_get (lt_mailboxes (fst (mailbox_run C rng sha256 tg ops))) mid = Some r'"
      and le: "mailbox_le r r'"
    using mailbox_run_kept [OF assms(1) r(1)] by blast
  obtain b where "mr_accepted r' = Some b" "ae_envelope b = None"
    using mailbox_le_fields(5) [OF le] r(3,4) by (cases "mr_accepted r'") auto
  with r r' mailbox_le_fields [OF le] show ?thesis unfolding emptied_def by auto
qed

lemma emptied_receive:
  assumes "emptied t (rcap_mailbox_id auth) expires_at"
    and "receive sha256 t auth now = (Inr got, t')"
  shows "got = None"
  using assms
  by (auto simp: emptied_def receive_def Let_def drop_expired_def split: if_splits option.splits)

end
