(* ===== verification/Inviter_Store.thy ===== *)
theory Inviter_Store
  imports Outbox_Port
begin

text \<open>
  The bounded inviter-local join transaction store of
  \<open>crates/session-inviter-transaction/src/lib.rs\<close>: reservations, the atomic commit with its
  injected faults, recovery, and the leased Welcome outbox with its port implementation.
\<close>

section \<open>Data\<close>

definition HARD_MAXIMUM_TRANSACTIONS :: usize where "HARD_MAXIMUM_TRANSACTIONS = 4096"
definition HARD_MAXIMUM_RETIRED_RESERVATIONS :: usize where
  "HARD_MAXIMUM_RETIRED_RESERVATIONS = HARD_MAXIMUM_TRANSACTIONS"
definition HARD_MAXIMUM_GROUP_ID_BYTES :: usize where "HARD_MAXIMUM_GROUP_ID_BYTES = 255"
definition HARD_MAXIMUM_APPROVAL_BYTES :: usize where "HARD_MAXIMUM_APPROVAL_BYTES = 4096"
definition HARD_MAXIMUM_MLS_STATE_BYTES :: usize where "HARD_MAXIMUM_MLS_STATE_BYTES = 2097152"
definition HARD_MAXIMUM_WELCOME_BYTES :: usize where "HARD_MAXIMUM_WELCOME_BYTES = 65536"
definition HARD_MAXIMUM_ENDPOINT_BYTES :: usize where "HARD_MAXIMUM_ENDPOINT_BYTES = 4096"
definition HARD_MAXIMUM_DELIVERY_ATTEMPTS :: u32 where "HARD_MAXIMUM_DELIVERY_ATTEMPTS = 32"
definition HARD_MAXIMUM_LEASE_SECONDS :: u64 where "HARD_MAXIMUM_LEASE_SECONDS = 3600"

datatype outbox_state = Pending | Leased | Delivered | AttemptsExhausted

datatype stored_outbox_state =
    StoredPending
  | StoredLeased (ob_sequence: u64) (ob_expires_at: u64)
  | StoredDelivered u64
  | StoredAttemptsExhausted

datatype commit_outcome = Committed | AlreadyCommitted

datatype invitation_state = InvitationReserved | InvitationConsumed

datatype commit_fault =
    FaultNone
  | AfterReservationCheck
  | AfterReplayCheck
  | AfterApprovalStaging
  | AfterMlsStaging
  | AfterOutboxStaging
  | AfterCommit

datatype transaction_error =
    InvalidInput
  | CapacityExceeded
  | ReservationMismatch
  | Conflict
  | Expired
  | DeliveryUnavailable
  | LeaseMismatch
  | TxAttemptsExhausted
  | InjectedFailure
  | OutcomeUnknown

record transaction_policy =
  tp_maximum_transactions :: usize
  tp_maximum_group_id_bytes :: usize
  tp_maximum_approval_bytes :: usize
  tp_maximum_mls_state_bytes :: usize
  tp_maximum_welcome_bytes :: usize
  tp_maximum_endpoint_bytes :: usize
  tp_maximum_delivery_attempts :: u32
  tp_maximum_lease_seconds :: u64

definition TransactionPolicy_new ::
    "usize \<Rightarrow> usize \<Rightarrow> usize \<Rightarrow> usize \<Rightarrow> usize \<Rightarrow> usize \<Rightarrow> u32 \<Rightarrow> u64
      \<Rightarrow> transaction_error + transaction_policy" where
  "TransactionPolicy_new transactions group_id approval mls welcome endpoint attempts lease =
     (if transactions = 0 \<or> group_id = 0 \<or> approval = 0 \<or> mls = 0 \<or> welcome = 0 \<or> endpoint = 0
         \<or> attempts = 0 \<or> lease = 0
         \<or> transactions > HARD_MAXIMUM_TRANSACTIONS
         \<or> group_id > HARD_MAXIMUM_GROUP_ID_BYTES
         \<or> approval > HARD_MAXIMUM_APPROVAL_BYTES
         \<or> mls > HARD_MAXIMUM_MLS_STATE_BYTES
         \<or> welcome > HARD_MAXIMUM_WELCOME_BYTES
         \<or> endpoint > HARD_MAXIMUM_ENDPOINT_BYTES
         \<or> attempts > HARD_MAXIMUM_DELIVERY_ATTEMPTS
         \<or> lease > HARD_MAXIMUM_LEASE_SECONDS
      then Err InvalidInput
      else Ok \<lparr> tp_maximum_transactions = transactions, tp_maximum_group_id_bytes = group_id,
                tp_maximum_approval_bytes = approval, tp_maximum_mls_state_bytes = mls,
                tp_maximum_welcome_bytes = welcome, tp_maximum_endpoint_bytes = endpoint,
                tp_maximum_delivery_attempts = attempts, tp_maximum_lease_seconds = lease \<rparr>)"

record reserved_invitation =
  ri_invitation_id :: ident
  ri_generation :: bytes
  ri_join_request_id :: ident
  ri_expires_at :: u64

definition ReservedInvitation_new ::
    "ident \<Rightarrow> bytes \<Rightarrow> ident \<Rightarrow> u64 \<Rightarrow> transaction_error + reserved_invitation" where
  "ReservedInvitation_new iid generation jid expires_at =
     (if all_zero iid \<or> all_zero generation \<or> all_zero jid \<or> expires_at = 0 then Err InvalidInput
      else Ok \<lparr> ri_invitation_id = iid, ri_generation = generation, ri_join_request_id = jid,
                ri_expires_at = expires_at \<rparr>)"

record inviter_join_commit =
  jc_transaction_id :: ident
  jc_invitation_id :: ident
  jc_invitation_generation :: bytes
  jc_join_request_id :: ident
  jc_request_fingerprint :: bytes
  jc_group_id :: bytes
  jc_epoch_before :: u64
  jc_epoch_after :: u64
  jc_approval_record :: bytes
  jc_mls_state :: bytes
  jc_welcome_envelope :: bytes
  jc_deposit_endpoint :: bytes
  jc_outbox_expires_at :: u64

record reservation_record =
  rr_generation :: bytes
  rr_join_request_id :: ident
  rr_expires_at :: u64

record retired_reservation =
  rt_invitation_id :: ident
  rt_generation :: bytes

record committed_record =
  cr_invitation_id :: ident
  cr_invitation_generation :: bytes
  cr_join_request_id :: ident
  cr_request_fingerprint :: bytes
  cr_group_id :: bytes
  cr_epoch_before :: u64
  cr_epoch_after :: u64
  cr_approval_record :: bytes
  cr_mls_state :: bytes
  cr_welcome_envelope :: bytes
  cr_deposit_endpoint :: bytes
  cr_outbox_expires_at :: u64
  cr_outbox :: stored_outbox_state
  cr_delivery_attempts :: u32

definition CommittedRecord_matches :: "committed_record \<Rightarrow> inviter_join_commit \<Rightarrow> bool" where
  "CommittedRecord_matches r c \<longleftrightarrow>
     cr_invitation_id r = jc_invitation_id c
     \<and> cr_invitation_generation r = jc_invitation_generation c
     \<and> cr_join_request_id r = jc_join_request_id c
     \<and> cr_request_fingerprint r = jc_request_fingerprint c
     \<and> cr_group_id r = jc_group_id c
     \<and> cr_epoch_before r = jc_epoch_before c
     \<and> cr_epoch_after r = jc_epoch_after c
     \<and> cr_approval_record r = jc_approval_record c
     \<and> cr_mls_state r = jc_mls_state c
     \<and> cr_welcome_envelope r = jc_welcome_envelope c
     \<and> cr_deposit_endpoint r = jc_deposit_endpoint c
     \<and> cr_outbox_expires_at r = jc_outbox_expires_at c"

record transaction_view =
  tv_epoch_after :: u64
  tv_outbox_state :: outbox_state
  tv_delivery_attempts :: u32

text \<open>
  \<open>Arc<()>\<close> compared by pointer is the identity of the store that issued a lease: two stores made by
  two calls of \<open>new\<close> have different scopes.
\<close>

type_synonym store_scope = nat

record delivery_lease =
  dl_store_scope :: store_scope
  dl_transaction_id :: ident
  dl_lease_sequence :: u64

record payload_view =
  dp_welcome_envelope :: bytes
  dp_deposit_endpoint :: bytes
  dp_outbox_expires_at :: u64

record inviter_store =
  st_policy :: transaction_policy
  st_lease_scope :: store_scope
  st_next_lease_sequence :: u64
  st_reservations :: "(ident, reservation_record) btree_map"
  st_retired :: "retired_reservation list"
  st_commits :: "(ident, committed_record) btree_map"

definition InMemoryInviterJoinStore_new :: "transaction_policy \<Rightarrow> store_scope \<Rightarrow> inviter_store" where
  "InMemoryInviterJoinStore_new p scope =
     \<lparr> st_policy = p, st_lease_scope = scope, st_next_lease_sequence = 1, st_reservations = [],
       st_retired = [], st_commits = [] \<rparr>"

section \<open>Reservations\<close>

definition retire_reservation :: "ident \<Rightarrow> reservation_record \<Rightarrow> inviter_store \<Rightarrow> inviter_store" where
  "retire_reservation iid r s =
     (let kept = (if length (st_retired s) \<ge> HARD_MAXIMUM_RETIRED_RESERVATIONS
                  then tl (st_retired s) else st_retired s) in
      s\<lparr> st_retired := kept @ [\<lparr> rt_invitation_id = iid, rt_generation = rr_generation r \<rparr>] \<rparr>)"

definition oldest_expired :: "(ident, reservation_record) btree_map \<Rightarrow> u64 \<Rightarrow> ident option" where
  "oldest_expired m now =
     (case map (\<lambda>(iid, r). (rr_expires_at r, iid)) (filter (\<lambda>(_, r). rr_expires_at r \<le> now) m) of
        [] \<Rightarrow> None
      | c # cs \<Rightarrow> Some (snd (fold min cs c)))"

definition seed_reservation ::
    "inviter_store \<Rightarrow> reserved_invitation \<Rightarrow> u64 \<Rightarrow> (transaction_error + unit) \<times> inviter_store" where
  "seed_reservation s ri now =
     (let iid = ri_invitation_id ri;
          install = (\<lambda>s'. s'\<lparr> st_reservations := bt_insert iid
             \<lparr> rr_generation = ri_generation ri, rr_join_request_id = ri_join_request_id ri,
               rr_expires_at = ri_expires_at ri \<rparr> (st_reservations s') \<rparr>) in
      if list_ex (\<lambda>r. cr_invitation_id r = iid) (bt_values (st_commits s)) then (Err Conflict, s)
      else if ri_expires_at ri \<le> now then (Err Expired, s)
      else if list_ex (\<lambda>t. rt_invitation_id t = iid \<and> rt_generation t = ri_generation ri) (st_retired s)
      then (Err Conflict, s)
      else if (case bt_get (st_reservations s) iid of None \<Rightarrow> False
               | Some cur \<Rightarrow> rr_expires_at cur > now \<or> rr_generation cur = ri_generation ri)
      then (Err Conflict, s)
      else case bt_get (st_reservations s) iid of
        Some expired \<Rightarrow>
          (Ok (), install (retire_reservation iid expired
                    (s\<lparr> st_reservations := bt_remove iid (st_reservations s) \<rparr>)))
      | None \<Rightarrow>
          if length (st_reservations s) \<ge> tp_maximum_transactions (st_policy s) then
            (case oldest_expired (st_reservations s) now of
               None \<Rightarrow> (Err CapacityExceeded, s)
             | Some old \<Rightarrow>
               (case bt_get (st_reservations s) old of
                  None \<Rightarrow> (Err CapacityExceeded, s)
                | Some expired \<Rightarrow>
                  (Ok (), install (retire_reservation old expired
                            (s\<lparr> st_reservations := bt_remove old (st_reservations s) \<rparr>)))))
          else (Ok (), install s))"

section \<open>The atomic commit\<close>

definition validate_commit :: "cbor \<Rightarrow> transaction_policy \<Rightarrow> inviter_join_commit \<Rightarrow> transaction_error + unit" where
  "validate_commit C p c =
     (if all_zero (jc_transaction_id c) \<or> all_zero (jc_invitation_id c)
         \<or> all_zero (jc_invitation_generation c) \<or> all_zero (jc_join_request_id c)
         \<or> all_zero (jc_request_fingerprint c)
         \<or> jc_group_id c = [] \<or> length (jc_group_id c) > tp_maximum_group_id_bytes p
         \<or> jc_approval_record c = [] \<or> length (jc_approval_record c) > tp_maximum_approval_bytes p
         \<or> jc_mls_state c = [] \<or> length (jc_mls_state c) > tp_maximum_mls_state_bytes p
         \<or> jc_welcome_envelope c = [] \<or> length (jc_welcome_envelope c) > tp_maximum_welcome_bytes p
         \<or> jc_deposit_endpoint c = [] \<or> length (jc_deposit_endpoint c) > tp_maximum_endpoint_bytes p
         \<or> checked_add (jc_epoch_before c) 1 \<noteq> Some (jc_epoch_after c)
      then Err InvalidInput
      else
        and_then (map_err (\<lambda>_. InvalidInput) (OpaqueEnvelope_decode_canonical C (jc_welcome_envelope c))) (\<lambda>env.
        and_then (map_err (\<lambda>_. InvalidInput)
            (LocalWelcomeDepositEndpoint_decode_canonical C (jc_deposit_endpoint c))) (\<lambda>ep.
          if all_zero (envelope_id env)
             \<or> jc_outbox_expires_at c > env_expires_at env
             \<or> env_expires_at env > ep_expires_at ep
          then Err InvalidInput else Ok ())))"

definition fail_at :: "commit_fault \<Rightarrow> commit_fault \<Rightarrow> transaction_error + unit" where
  "fail_at actual expected = (if actual = expected then Err InjectedFailure else Ok ())"

definition staged_record :: "inviter_join_commit \<Rightarrow> committed_record" where
  "staged_record c =
     \<lparr> cr_invitation_id = jc_invitation_id c,
       cr_invitation_generation = jc_invitation_generation c,
       cr_join_request_id = jc_join_request_id c,
       cr_request_fingerprint = jc_request_fingerprint c,
       cr_group_id = jc_group_id c,
       cr_epoch_before = jc_epoch_before c,
       cr_epoch_after = jc_epoch_after c,
       cr_approval_record = jc_approval_record c,
       cr_mls_state = jc_mls_state c,
       cr_welcome_envelope = jc_welcome_envelope c,
       cr_deposit_endpoint = jc_deposit_endpoint c,
       cr_outbox_expires_at = jc_outbox_expires_at c,
       cr_outbox = StoredPending,
       cr_delivery_attempts = 0 \<rparr>"

definition check_reservation ::
    "inviter_store \<Rightarrow> inviter_join_commit \<Rightarrow> u64 \<Rightarrow> transaction_error + unit" where
  "check_reservation s c now =
     (case bt_get (st_reservations s) (jc_invitation_id c) of
        None \<Rightarrow> Err ReservationMismatch
      | Some r \<Rightarrow>
        if rr_generation r \<noteq> jc_invitation_generation c \<or> rr_join_request_id r \<noteq> jc_join_request_id c
        then Err ReservationMismatch
        else if rr_expires_at r \<le> now then Err Expired
        else Ok ())"

definition check_replay :: "inviter_store \<Rightarrow> inviter_join_commit \<Rightarrow> transaction_error + unit" where
  "check_replay s c =
     (if list_ex (\<lambda>r. (cr_invitation_id r = jc_invitation_id c
              \<and> cr_invitation_generation r = jc_invitation_generation c)
            \<or> cr_join_request_id r = jc_join_request_id c) (bt_values (st_commits s))
      then Err Conflict else Ok ())"

definition commit_checks ::
    "inviter_store \<Rightarrow> inviter_join_commit \<Rightarrow> u64 \<Rightarrow> commit_fault \<Rightarrow> transaction_error + unit" where
  "commit_checks s c now fault =
     (if jc_outbox_expires_at c \<le> now then Err Expired
      else if length (st_commits s) \<ge> tp_maximum_transactions (st_policy s) then Err CapacityExceeded
      else
        and_then (check_reservation s c now) (\<lambda>_.
        and_then (fail_at fault AfterReservationCheck) (\<lambda>_.
        and_then (check_replay s c) (\<lambda>_.
        and_then (fail_at fault AfterReplayCheck) (\<lambda>_.
        and_then (fail_at fault AfterApprovalStaging) (\<lambda>_.
        and_then (fail_at fault AfterMlsStaging) (\<lambda>_.
          fail_at fault AfterOutboxStaging)))))))"

definition commit_with_fault ::
    "cbor \<Rightarrow> inviter_store \<Rightarrow> inviter_join_commit \<Rightarrow> u64 \<Rightarrow> commit_fault
      \<Rightarrow> (transaction_error + commit_outcome) \<times> inviter_store" where
  "commit_with_fault C s c now fault =
     (case validate_commit C (st_policy s) c of
        Inl e \<Rightarrow> (Err e, s)
      | Inr _ \<Rightarrow>
        (case bt_get (st_commits s) (jc_transaction_id c) of
           Some r \<Rightarrow> (if CommittedRecord_matches r c then Ok AlreadyCommitted else Err Conflict, s)
         | None \<Rightarrow>
           (case commit_checks s c now fault of
              Inl e \<Rightarrow> (Err e, s)
            | Inr _ \<Rightarrow>
              (if fault = AfterCommit then Err OutcomeUnknown else Ok Committed,
               s\<lparr> st_reservations := bt_remove (jc_invitation_id c) (st_reservations s),
                  st_commits := bt_insert (jc_transaction_id c) (staged_record c) (st_commits s) \<rparr>))))"

section \<open>Views\<close>

definition invitation_state_of :: "inviter_store \<Rightarrow> ident \<Rightarrow> invitation_state option" where
  "invitation_state_of s iid =
     (if bt_get (st_reservations s) iid \<noteq> None then Some InvitationReserved
      else if list_ex (\<lambda>r. cr_invitation_id r = iid) (bt_values (st_commits s))
      then Some InvitationConsumed
      else None)"

fun outbox_view :: "stored_outbox_state \<Rightarrow> outbox_state" where
  "outbox_view StoredPending = Pending"
| "outbox_view (StoredLeased _ _) = Leased"
| "outbox_view (StoredDelivered _) = Delivered"
| "outbox_view StoredAttemptsExhausted = AttemptsExhausted"

definition recover :: "inviter_store \<Rightarrow> ident \<Rightarrow> transaction_view option" where
  "recover s tid = map_option (\<lambda>r. \<lparr> tv_epoch_after = cr_epoch_after r,
     tv_outbox_state = outbox_view (cr_outbox r),
     tv_delivery_attempts = cr_delivery_attempts r \<rparr>) (bt_get (st_commits s) tid)"

fun lease_available :: "stored_outbox_state \<Rightarrow> u64 \<Rightarrow> bool" where
  "lease_available StoredPending now = True"
| "lease_available (StoredLeased _ expires_at) now = (expires_at \<le> now)"
| "lease_available (StoredDelivered _) now = False"
| "lease_available StoredAttemptsExhausted now = False"

definition pending_transaction_ids :: "inviter_store \<Rightarrow> u64 \<Rightarrow> ident list" where
  "pending_transaction_ids s now =
     map fst (filter (\<lambda>(_, r). \<not> cr_outbox_expires_at r \<le> now
        \<and> \<not> cr_delivery_attempts r \<ge> tp_maximum_delivery_attempts (st_policy s)
        \<and> lease_available (cr_outbox r) now) (st_commits s))"

definition committed_count :: "inviter_store \<Rightarrow> usize" where
  "committed_count s = length (st_commits s)"

section \<open>The leased outbox\<close>

definition set_outbox :: "ident \<Rightarrow> stored_outbox_state \<Rightarrow> inviter_store \<Rightarrow> inviter_store" where
  "set_outbox tid o' s =
     s\<lparr> st_commits := bt_update tid (\<lambda>r. r\<lparr> cr_outbox := o' \<rparr>) (st_commits s) \<rparr>"

definition lease_delivery ::
    "inviter_store \<Rightarrow> ident \<Rightarrow> u64 \<Rightarrow> u64 \<Rightarrow> (transaction_error + delivery_lease) \<times> inviter_store" where
  "lease_delivery s tid now lease_seconds =
     (if all_zero tid \<or> lease_seconds = 0 \<or> lease_seconds > tp_maximum_lease_seconds (st_policy s)
      then (Err InvalidInput, s)
      else case checked_add now lease_seconds of
        None \<Rightarrow> (Err InvalidInput, s)
      | Some lease_expires_at \<Rightarrow>
        (case bt_get (st_commits s) tid of
           None \<Rightarrow> (Err DeliveryUnavailable, s)
         | Some r \<Rightarrow>
           if cr_outbox_expires_at r \<le> now \<or> lease_expires_at > cr_outbox_expires_at r
           then (Err Expired, s)
           else if cr_outbox r = StoredAttemptsExhausted then (Err TxAttemptsExhausted, s)
           else if \<not> lease_available (cr_outbox r) now then (Err DeliveryUnavailable, s)
           else if cr_delivery_attempts r \<ge> tp_maximum_delivery_attempts (st_policy s)
           then (Err TxAttemptsExhausted, set_outbox tid StoredAttemptsExhausted s)
           else (case checked_add (st_next_lease_sequence s) 1 of
              None \<Rightarrow> (Err DeliveryUnavailable, s)
            | Some next \<Rightarrow>
              (Ok \<lparr> dl_store_scope = st_lease_scope s, dl_transaction_id = tid,
                    dl_lease_sequence = st_next_lease_sequence s \<rparr>,
               s\<lparr> st_next_lease_sequence := next,
                  st_commits := bt_update tid
                    (\<lambda>r. r\<lparr> cr_delivery_attempts := cr_delivery_attempts r + 1,
                            cr_outbox := StoredLeased (st_next_lease_sequence s) lease_expires_at \<rparr>)
                    (st_commits s) \<rparr>))))"

definition require_local_lease :: "inviter_store \<Rightarrow> delivery_lease \<Rightarrow> transaction_error + unit" where
  "require_local_lease s l = (if st_lease_scope s = dl_store_scope l then Ok () else Err LeaseMismatch)"

definition delivery_payload ::
    "inviter_store \<Rightarrow> delivery_lease \<Rightarrow> u64 \<Rightarrow> transaction_error + payload_view" where
  "delivery_payload s l now =
     and_then (require_local_lease s l) (\<lambda>_.
     and_then (ok_or LeaseMismatch (bt_get (st_commits s) (dl_transaction_id l))) (\<lambda>r.
       if cr_outbox_expires_at r \<le> now then Err Expired
       else (case cr_outbox r of
          StoredLeased sq expires_at \<Rightarrow>
            if sq = dl_lease_sequence l \<and> expires_at > now
            then Ok \<lparr> dp_welcome_envelope = cr_welcome_envelope r,
                      dp_deposit_endpoint = cr_deposit_endpoint r,
                      dp_outbox_expires_at = cr_outbox_expires_at r \<rparr>
            else Err LeaseMismatch
        | _ \<Rightarrow> Err LeaseMismatch)))"

definition fail_delivery ::
    "inviter_store \<Rightarrow> delivery_lease \<Rightarrow> (transaction_error + unit) \<times> inviter_store" where
  "fail_delivery s l =
     (case require_local_lease s l of
        Inl e \<Rightarrow> (Err e, s)
      | Inr _ \<Rightarrow>
        (case bt_get (st_commits s) (dl_transaction_id l) of
           None \<Rightarrow> (Err LeaseMismatch, s)
         | Some r \<Rightarrow>
           (case cr_outbox r of
              StoredLeased sq _ \<Rightarrow>
                if sq = dl_lease_sequence l
                then (Ok (), set_outbox (dl_transaction_id l)
                        (if cr_delivery_attempts r \<ge> tp_maximum_delivery_attempts (st_policy s)
                         then StoredAttemptsExhausted else StoredPending) s)
                else (Err LeaseMismatch, s)
            | _ \<Rightarrow> (Err LeaseMismatch, s))))"

definition complete_delivery ::
    "inviter_store \<Rightarrow> delivery_lease \<Rightarrow> u64 \<Rightarrow> (transaction_error + unit) \<times> inviter_store" where
  "complete_delivery s l now =
     (case require_local_lease s l of
        Inl e \<Rightarrow> (Err e, s)
      | Inr _ \<Rightarrow>
        (case bt_get (st_commits s) (dl_transaction_id l) of
           None \<Rightarrow> (Err LeaseMismatch, s)
         | Some r \<Rightarrow>
           (case cr_outbox r of
              StoredLeased sq expires_at \<Rightarrow>
                if sq = dl_lease_sequence l \<and> expires_at > now \<and> cr_outbox_expires_at r > now
                then (Ok (), set_outbox (dl_transaction_id l) (StoredDelivered sq) s)
                else (Err LeaseMismatch, s)
            | StoredDelivered sq \<Rightarrow>
                if sq = dl_lease_sequence l then (Ok (), s) else (Err LeaseMismatch, s)
            | _ \<Rightarrow> (Err LeaseMismatch, s))))"

section \<open>The port implementation\<close>

fun map_outbox_port_error :: "transaction_error \<Rightarrow> outbox_port_error" where
  "map_outbox_port_error DeliveryUnavailable = PortConflict"
| "map_outbox_port_error LeaseMismatch = PortConflict"
| "map_outbox_port_error TxAttemptsExhausted = PortConflict"
| "map_outbox_port_error Expired = PortConflict"
| "map_outbox_port_error CapacityExceeded = PortUnavailable"
| "map_outbox_port_error InvalidInput = PortInternal"
| "map_outbox_port_error ReservationMismatch = PortInternal"
| "map_outbox_port_error Conflict = PortInternal"
| "map_outbox_port_error InjectedFailure = PortInternal"
| "map_outbox_port_error OutcomeUnknown = PortInternal"

definition exhaust_record :: "u32 \<Rightarrow> u64 \<Rightarrow> committed_record \<Rightarrow> committed_record" where
  "exhaust_record max_attempts now r =
     (if cr_outbox_expires_at r > now \<and> cr_delivery_attempts r \<ge> max_attempts
         \<and> lease_available (cr_outbox r) now
      then r\<lparr> cr_outbox := StoredAttemptsExhausted \<rparr> else r)"

definition exhaust_attempts :: "u64 \<Rightarrow> inviter_store \<Rightarrow> inviter_store" where
  "exhaust_attempts now s = s\<lparr> st_commits := bt_map_values
     (exhaust_record (tp_maximum_delivery_attempts (st_policy s)) now) (st_commits s) \<rparr>"

definition lease_next ::
    "inviter_store \<Rightarrow> u64 \<Rightarrow> u64
      \<Rightarrow> (outbox_port_error + delivery_lease leased_welcome option) \<times> inviter_store" where
  "lease_next s now lease_seconds =
     (if lease_seconds = 0 \<or> lease_seconds > tp_maximum_lease_seconds (st_policy s)
         \<or> checked_add now lease_seconds = None
      then (Err (map_outbox_port_error InvalidInput), s)
      else
        (let s1 = exhaust_attempts now s in
         case pending_transaction_ids s1 now of
           [] \<Rightarrow> (Ok None, s1)
         | tid # _ \<Rightarrow>
           (case lease_delivery s1 tid now lease_seconds of
              (Inl e, s2) \<Rightarrow> (Err (map_outbox_port_error e), s2)
            | (Inr l, s2) \<Rightarrow>
              (case delivery_payload s2 l now of
                 Inl e \<Rightarrow> (Err (map_outbox_port_error e), snd (fail_delivery s2 l))
               | Inr p \<Rightarrow> (Ok (Some (LeasedWelcome_from_owner l (dp_welcome_envelope p)
                              (dp_deposit_endpoint p) (dp_outbox_expires_at p))), s2)))))"

definition report_accepted ::
    "inviter_store \<Rightarrow> delivery_lease \<Rightarrow> u64 \<Rightarrow> (outbox_port_error + unit) \<times> inviter_store" where
  "report_accepted s l now =
     (let (r, s') = complete_delivery s l now in (map_err map_outbox_port_error r, s'))"

definition report_failed ::
    "inviter_store \<Rightarrow> delivery_lease \<Rightarrow> (outbox_port_error + unit) \<times> inviter_store" where
  "report_failed s l = (let (r, s') = fail_delivery s l in (map_err map_outbox_port_error r, s'))"

end
