(* ===== verification/Inviter_Invariants.thy ===== *)
theory Inviter_Invariants
  imports Inviter_Store
begin

text \<open>
  What the join transaction store keeps: every operation is one of four store steps, and the
  invariant (bounds, unique consumption, nested lifetimes, lease discipline) is proved once per
  step.
\<close>

section \<open>What may change in a committed record\<close>

text \<open>The part of a record that delivery must never touch.\<close>

definition sealed :: "committed_record \<Rightarrow> committed_record" where
  "sealed r = r\<lparr> cr_outbox := StoredPending, cr_delivery_attempts := 0 \<rparr>"

lemma sealed_upd [simp]:
  "sealed (r\<lparr> cr_outbox := o' \<rparr>) = sealed r"
  "sealed (r\<lparr> cr_delivery_attempts := n \<rparr>) = sealed r"
  by (simp_all add: sealed_def)

lemma sealed_fields:
  assumes "sealed r = sealed r'"
  shows "cr_invitation_id r = cr_invitation_id r'"
    and "cr_invitation_generation r = cr_invitation_generation r'"
    and "cr_join_request_id r = cr_join_request_id r'"
    and "cr_epoch_after r = cr_epoch_after r'"
    and "cr_mls_state r = cr_mls_state r'"
    and "cr_welcome_envelope r = cr_welcome_envelope r'"
    and "cr_deposit_endpoint r = cr_deposit_endpoint r'"
    and "cr_outbox_expires_at r = cr_outbox_expires_at r'"
  using assms by (cases r; cases r'; simp add: sealed_def)+

lemma matches_iff_sealed: "CommittedRecord_matches r c \<longleftrightarrow> sealed r = staged_record c"
  by (cases r) (auto simp: CommittedRecord_matches_def sealed_def staged_record_def)

text \<open>The moves of the outbox state machine other than taking a lease.\<close>

inductive out_move :: "u32 \<Rightarrow> committed_record \<Rightarrow> committed_record \<Rightarrow> bool" for max_attempts where
  move_stay: "out_move max_attempts r r"
| move_fail: "cr_outbox r = StoredLeased sq e \<Longrightarrow> cr_delivery_attempts r < max_attempts
    \<Longrightarrow> out_move max_attempts r (r\<lparr> cr_outbox := StoredPending \<rparr>)"
| move_deliver: "cr_outbox r = StoredLeased sq e
    \<Longrightarrow> out_move max_attempts r (r\<lparr> cr_outbox := StoredDelivered sq \<rparr>)"
| move_exhaust: "cr_outbox r = StoredPending \<or> (\<exists>sq e. cr_outbox r = StoredLeased sq e)
    \<Longrightarrow> cr_delivery_attempts r \<ge> max_attempts
    \<Longrightarrow> out_move max_attempts r (r\<lparr> cr_outbox := StoredAttemptsExhausted \<rparr>)"

lemma out_move_sealed: "out_move m r r' \<Longrightarrow> sealed r' = sealed r"
  by (induction rule: out_move.induct) simp_all

lemma out_move_attempts: "out_move m r r' \<Longrightarrow> cr_delivery_attempts r' = cr_delivery_attempts r"
  by (induction rule: out_move.induct) simp_all

fun outbox_sequence :: "stored_outbox_state \<Rightarrow> u64 option" where
  "outbox_sequence (StoredLeased sq _) = Some sq"
| "outbox_sequence (StoredDelivered sq) = Some sq"
| "outbox_sequence _ = None"

lemma out_move_sequence:
  "out_move m r r' \<Longrightarrow> outbox_sequence (cr_outbox r') = Some sq \<Longrightarrow> outbox_sequence (cr_outbox r) = Some sq"
  by (induction rule: out_move.induct) auto

lemma out_move_leased:
  "out_move m r r' \<Longrightarrow> cr_outbox r' = StoredLeased sq e \<Longrightarrow> r' = r"
  by (induction rule: out_move.induct) auto

lemma lease_available_cases:
  "lease_available o' now \<Longrightarrow> o' = StoredPending \<or> (\<exists>sq e. o' = StoredLeased sq e \<and> e \<le> now)"
  by (cases o') auto

section \<open>Store steps\<close>

definition commits_moved :: "inviter_store \<Rightarrow> (ident, committed_record) btree_map \<Rightarrow> bool" where
  "commits_moved s m \<longleftrightarrow> map fst m = map fst (st_commits s)
     \<and> (\<forall>tid r'. bt_get m tid = Some r' \<longrightarrow> (\<exists>r. bt_get (st_commits s) tid = Some r
          \<and> out_move (tp_maximum_delivery_attempts (st_policy s)) r r'))"

definition iid_committed :: "inviter_store \<Rightarrow> ident \<Rightarrow> bool" where
  "iid_committed s iid \<longleftrightarrow> (\<exists>tid r. bt_get (st_commits s) tid = Some r \<and> cr_invitation_id r = iid)"

inductive store_step :: "cbor \<Rightarrow> inviter_store \<Rightarrow> inviter_store \<Rightarrow> bool" for C where
  step_seed: "\<lbrakk> \<not> iid_committed s iid; bt_wf (st_reservations s) \<Longrightarrow> bt_wf m;
      bt_wf (st_reservations s) \<Longrightarrow> length (st_reservations s) \<le> tp_maximum_transactions (st_policy s)
        \<Longrightarrow> length m \<le> tp_maximum_transactions (st_policy s);
      length (st_retired s) \<le> HARD_MAXIMUM_RETIRED_RESERVATIONS
        \<Longrightarrow> length q \<le> HARD_MAXIMUM_RETIRED_RESERVATIONS;
      \<And>k. bt_get m k \<noteq> None \<Longrightarrow> k = iid \<or> bt_get (st_reservations s) k \<noteq> None \<rbrakk>
    \<Longrightarrow> store_step C s (s\<lparr> st_reservations := m, st_retired := q \<rparr>)"
| step_commit: "\<lbrakk> validate_commit C (st_policy s) c = Inr u; bt_get (st_commits s) (jc_transaction_id c) = None;
      commit_checks s c now FaultNone = Inr v \<rbrakk>
    \<Longrightarrow> store_step C s (s\<lparr> st_reservations := bt_remove (jc_invitation_id c) (st_reservations s),
          st_commits := bt_insert (jc_transaction_id c) (staged_record c) (st_commits s) \<rparr>)"
| step_lease: "\<lbrakk> bt_get (st_commits s) tid = Some r; lease_available (cr_outbox r) now;
      cr_delivery_attempts r < tp_maximum_delivery_attempts (st_policy s);
      now < e; e \<le> cr_outbox_expires_at r;
      checked_add (st_next_lease_sequence s) 1 = Some nxt \<rbrakk>
    \<Longrightarrow> store_step C s (s\<lparr> st_next_lease_sequence := nxt,
          st_commits := bt_update tid (\<lambda>r. r\<lparr> cr_delivery_attempts := cr_delivery_attempts r + 1,
             cr_outbox := StoredLeased (st_next_lease_sequence s) e \<rparr>) (st_commits s) \<rparr>)"
| step_move: "commits_moved s m \<Longrightarrow> store_step C s (s\<lparr> st_commits := m \<rparr>)"

lemma commits_moved_refl: "commits_moved s (st_commits s)"
  by (auto simp: commits_moved_def intro: move_stay)

lemma step_refl: "store_step C s s"
  using step_move [OF commits_moved_refl, of C s] by simp

lemma commits_moved_set_outbox:
  assumes "bt_get (st_commits s) tid = Some r"
    and "out_move (tp_maximum_delivery_attempts (st_policy s)) r (r\<lparr> cr_outbox := o' \<rparr>)"
  shows "commits_moved s (st_commits (set_outbox tid o' s))"
  using assms
  by (auto simp: commits_moved_def set_outbox_def bt_keys_update bt_get_update intro: move_stay)

lemma set_outbox_step:
  assumes "bt_get (st_commits s) tid = Some r"
    and "out_move (tp_maximum_delivery_attempts (st_policy s)) r (r\<lparr> cr_outbox := o' \<rparr>)"
  shows "store_step C s (set_outbox tid o' s)"
  using step_move [OF commits_moved_set_outbox [OF assms], of C] by (simp add: set_outbox_def)

subsection \<open>Every operation is a step\<close>

lemma oldest_expired_Some:
  assumes "bt_wf m" and "oldest_expired m now = Some iid"
  obtains r where "bt_get m iid = Some r" and "rr_expires_at r \<le> now"
proof -
  let ?l = "map (\<lambda>(iid, r). (rr_expires_at r, iid)) (filter (\<lambda>(_, r). rr_expires_at r \<le> now) m)"
  obtain c cs where l: "?l = c # cs" and i: "iid = snd (fold min cs c)"
    using assms(2) by (auto simp: oldest_expired_def split: list.splits)
  have "fold min cs c \<in> set (c # cs)" for c :: "u64 \<times> ident" and cs
    by (induction cs arbitrary: c) (auto simp: min_def)
  with l have "fold min cs c \<in> set ?l" by metis
  then obtain r where "(snd (fold min cs c), r) \<in> set m" "rr_expires_at r \<le> now" by auto
  with i assms(1) that show thesis by (simp add: bt_get_mem)
qed

lemma iid_committed_list_ex:
  "bt_wf (st_commits s) \<Longrightarrow>
     list_ex (\<lambda>r. cr_invitation_id r = iid) (bt_values (st_commits s)) \<longleftrightarrow> iid_committed s iid"
  by (simp add: bt_values_ex iid_committed_def)

lemma step_seed_install:
  assumes "\<not> iid_committed s iid" and "\<not> tp_maximum_transactions (st_policy s) \<le> length (st_reservations s)"
  shows "store_step C s (s\<lparr> st_reservations := bt_insert iid new (st_reservations s) \<rparr>)"
proof -
  have "store_step C s (s\<lparr> st_reservations := bt_insert iid new (st_reservations s),
                           st_retired := st_retired s \<rparr>)"
    using assms bt_insert_length [of iid new "st_reservations s"]
    by (intro step_seed [where iid = iid]) (auto simp: bt_get_insert bt_wf_simps split: if_splits)
  then show ?thesis by simp
qed

lemma retire_reservation_length:
  "length (st_retired s) \<le> HARD_MAXIMUM_RETIRED_RESERVATIONS \<Longrightarrow>
     length (st_retired (retire_reservation iid r s)) \<le> HARD_MAXIMUM_RETIRED_RESERVATIONS"
  by (auto simp: retire_reservation_def Let_def HARD_MAXIMUM_RETIRED_RESERVATIONS_def HARD_MAXIMUM_TRANSACTIONS_def)

lemma retire_reservation_upd:
  "st_reservations (retire_reservation iid r s) = st_reservations s"
  "(retire_reservation iid r (s\<lparr> st_reservations := x \<rparr>))\<lparr> st_reservations := m \<rparr>
     = s\<lparr> st_reservations := m, st_retired := st_retired (retire_reservation iid r s) \<rparr>"
  by (cases s, simp add: retire_reservation_def Let_def)+

lemma step_seed_replace:
  assumes "\<not> iid_committed s iid" and "bt_get (st_reservations s) old = Some r"
  shows "store_step C s
    ((retire_reservation old r (s\<lparr> st_reservations := bt_remove old (st_reservations s) \<rparr>))
       \<lparr> st_reservations := bt_insert iid new (bt_remove old (st_reservations s)) \<rparr>)"
proof -
  let ?m = "bt_insert iid new (bt_remove old (st_reservations s))"
  have "length ?m \<le> length (st_reservations s)"
    using bt_insert_length [of iid new "bt_remove old (st_reservations s)"]
      bt_remove_length_less [of "st_reservations s" old] assms(2) by simp
  then have "store_step C s (s\<lparr> st_reservations := ?m, st_retired := st_retired (retire_reservation old r s) \<rparr>)"
    using assms(1) retire_reservation_length [of s old r]
    by (intro step_seed [where iid = iid]) (auto simp: bt_get_simps bt_wf_simps split: if_splits)
  then show ?thesis by (simp add: retire_reservation_upd)
qed

lemma seed_reservation_step:
  assumes "seed_reservation s ri now = (r, s')" and "bt_wf (st_commits s)"
  shows "case r of Inl e \<Rightarrow> s' = s | Inr u \<Rightarrow> store_step C s s'"
  using assms
  by (auto simp: seed_reservation_def Let_def iid_committed_list_ex retire_reservation_upd(1)
      split: if_splits option.splits intro: step_seed_install step_seed_replace)

lemma commit_checks_fault:
  "commit_checks s c now fault = Inr u \<longleftrightarrow>
     commit_checks s c now FaultNone = Inr u \<and> fault \<in> {FaultNone, AfterCommit}"
  by (cases fault) (auto simp: commit_checks_def fail_at_def ok_iff)

lemma commit_cases:
  assumes "commit_with_fault C s c now fault = (r, s')"
  obtains (refused) "s' = s" and "r \<noteq> Inr Committed" and "r \<noteq> Inl OutcomeUnknown"
    "r = Inr AlreadyCommitted \<longrightarrow>
       (\<exists>x. bt_get (st_commits s) (jc_transaction_id c) = Some x \<and> CommittedRecord_matches x c)"
  | (installed) "validate_commit C (st_policy s) c = Inr ()"
    "bt_get (st_commits s) (jc_transaction_id c) = None"
    "commit_checks s c now FaultNone = Inr ()" "fault \<in> {FaultNone, AfterCommit}"
    "r = (if fault = AfterCommit then Inl OutcomeUnknown else Inr Committed)"
    "s' = s\<lparr> st_reservations := bt_remove (jc_invitation_id c) (st_reservations s),
            st_commits := bt_insert (jc_transaction_id c) (staged_record c) (st_commits s) \<rparr>"
proof -
  have e1: "validate_commit C (st_policy s) c = Inl e \<Longrightarrow> e \<noteq> OutcomeUnknown" for e
    by (auto simp: validate_commit_def and_then_eq_Inl map_err_def split: if_splits sum.splits)
  have e2: "commit_checks s c now fault = Inl e \<Longrightarrow> e \<noteq> OutcomeUnknown" for e
    by (auto simp: commit_checks_def and_then_eq_Inl fail_at_def check_reservation_def check_replay_def
        split: if_splits option.splits)
  show thesis
    using assms that e1 e2 commit_checks_fault [of s c now fault]
    by (auto simp: commit_with_fault_def split: sum.splits option.splits if_splits)
qed

lemma commit_step: "commit_with_fault C s c now fault = (r, s') \<Longrightarrow> store_step C s s'"
  by (erule commit_cases) (auto intro: step_refl step_commit)

lemma lease_delivery_ok:
  assumes "lease_delivery s tid now secs = (Inr l, s')"
  obtains r e nxt where "bt_get (st_commits s) tid = Some r" and "lease_available (cr_outbox r) now"
    and "cr_delivery_attempts r < tp_maximum_delivery_attempts (st_policy s)"
    and "checked_add now secs = Some e" and "now < e" and "e \<le> cr_outbox_expires_at r"
    and "checked_add (st_next_lease_sequence s) 1 = Some nxt" and "\<not> all_zero tid"
    and "l = \<lparr> dl_store_scope = st_lease_scope s, dl_transaction_id = tid,
              dl_lease_sequence = st_next_lease_sequence s \<rparr>"
    and "s' = s\<lparr> st_next_lease_sequence := nxt,
          st_commits := bt_update tid (\<lambda>r. r\<lparr> cr_delivery_attempts := cr_delivery_attempts r + 1,
             cr_outbox := StoredLeased (st_next_lease_sequence s) e \<rparr>) (st_commits s) \<rparr>"
  using assms that
  by (auto simp: lease_delivery_def not_le split: if_splits option.splits dest: checked_add_Some_less)

lemma lease_delivery_step:
  assumes "lease_delivery s tid now secs = (r, s')"
  shows "store_step C s s'"
proof (cases r)
  case (Inr l)
  with assms show ?thesis by (auto elim!: lease_delivery_ok intro: step_lease)
next
  case (Inl e)
  with assms show ?thesis
    by (auto simp: lease_delivery_def split: if_splits option.splits
        intro!: step_refl set_outbox_step move_exhaust dest: lease_available_cases)
qed

lemma fail_delivery_ok_iff:
  "fail_delivery s l = (Inr u, s') \<longleftrightarrow>
     st_lease_scope s = dl_store_scope l \<and>
     (\<exists>r e. bt_get (st_commits s) (dl_transaction_id l) = Some r
        \<and> cr_outbox r = StoredLeased (dl_lease_sequence l) e
        \<and> s' = set_outbox (dl_transaction_id l)
            (if cr_delivery_attempts r \<ge> tp_maximum_delivery_attempts (st_policy s)
             then StoredAttemptsExhausted else StoredPending) s)"
  by (auto simp: fail_delivery_def require_local_lease_def split: option.splits stored_outbox_state.splits)

lemma fail_delivery_err: "fail_delivery s l = (Inl e, s') \<Longrightarrow> s' = s"
  by (auto simp: fail_delivery_def split: sum.splits option.splits stored_outbox_state.splits if_splits)

lemma complete_delivery_ok_iff:
  "complete_delivery s l now = (Inr u, s') \<longleftrightarrow>
     st_lease_scope s = dl_store_scope l \<and>
     (\<exists>r. bt_get (st_commits s) (dl_transaction_id l) = Some r \<and>
        (cr_outbox r = StoredDelivered (dl_lease_sequence l) \<and> s' = s
         \<or> (\<exists>e. cr_outbox r = StoredLeased (dl_lease_sequence l) e \<and> now < e
               \<and> now < cr_outbox_expires_at r
               \<and> s' = set_outbox (dl_transaction_id l) (StoredDelivered (dl_lease_sequence l)) s)))"
  by (auto simp: complete_delivery_def require_local_lease_def
      split: option.splits stored_outbox_state.splits)

lemma complete_delivery_err: "complete_delivery s l now = (Inl e, s') \<Longrightarrow> s' = s"
  by (auto simp: complete_delivery_def split: sum.splits option.splits stored_outbox_state.splits if_splits)

lemma move_report_failed:
  "cr_outbox r = StoredLeased sq e \<Longrightarrow> out_move m r
     (r\<lparr> cr_outbox := if m \<le> cr_delivery_attempts r then StoredAttemptsExhausted else StoredPending \<rparr>)"
  using move_exhaust [of r m] move_fail [of r sq e m] by (simp add: not_le)

lemma fail_delivery_step: "fail_delivery s l = (r, s') \<Longrightarrow> store_step C s s'"
  by (cases r)
    (auto simp: fail_delivery_ok_iff dest: fail_delivery_err simp del: if_split
      intro: step_refl set_outbox_step move_report_failed)

lemma complete_delivery_step: "complete_delivery s l now = (r, s') \<Longrightarrow> store_step C s s'"
  by (cases r)
    (auto simp: complete_delivery_ok_iff dest: complete_delivery_err
      intro: step_refl set_outbox_step move_deliver)

lemma exhaust_record_move:
  "out_move m r (exhaust_record m now r)"
  by (auto simp: exhaust_record_def intro!: move_stay move_exhaust dest: lease_available_cases)

lemma exhaust_attempts_step: "store_step C s (exhaust_attempts now s)"
  unfolding exhaust_attempts_def
  by (rule step_move)
    (auto simp: commits_moved_def bt_keys_map_values bt_get_map_values exhaust_record_move)

definition store_steps :: "cbor \<Rightarrow> inviter_store \<Rightarrow> inviter_store \<Rightarrow> bool" where
  "store_steps C = (store_step C)\<^sup>*\<^sup>*"

lemma store_steps_step: "store_step C s s' \<Longrightarrow> store_steps C s s'"
  by (simp add: store_steps_def)

lemma store_steps_refl: "store_steps C s s"
  by (simp add: store_steps_def)

lemma store_steps_trans: "store_steps C s s' \<Longrightarrow> store_steps C s' s'' \<Longrightarrow> store_steps C s s''"
  by (simp add: store_steps_def)

lemma lease_next_cases:
  assumes "lease_next s now secs = (r, s')"
  obtains (invalid) e where "r = Inl e" and "s' = s"
  | (idle) "r = Inr None" and "s' = exhaust_attempts now s"
      and "pending_transaction_ids (exhaust_attempts now s) now = []"
  | (refused) e tid e' where "r = Inl e"
      and "lease_delivery (exhaust_attempts now s) tid now secs = (Inl e', s')"
  | (unpaid) e tid l e' s2 where "r = Inl e"
      and "lease_delivery (exhaust_attempts now s) tid now secs = (Inr l, s2)"
      and "delivery_payload s2 l now = Inl e'" and "s' = snd (fail_delivery s2 l)"
  | (leased) tid l p where "lease_delivery (exhaust_attempts now s) tid now secs = (Inr l, s')"
      and "delivery_payload s' l now = Inr p"
      and "r = Inr (Some (LeasedWelcome_from_owner l (dp_welcome_envelope p)
                 (dp_deposit_endpoint p) (dp_outbox_expires_at p)))"
  using assms
  by (auto simp: lease_next_def Let_def split: if_splits list.splits prod.splits sum.splits)

lemma lease_next_steps:
  assumes "lease_next s now secs = (r, s')"
  shows "store_steps C s s'"
  using assms
proof (cases rule: lease_next_cases)
  case (unpaid e tid l e' s2)
  then have "store_step C s2 s'" by (metis fail_delivery_step prod.collapse)
  with unpaid show ?thesis
    by (meson exhaust_attempts_step lease_delivery_step store_steps_step store_steps_trans)
qed (auto intro: store_steps_refl exhaust_attempts_step store_steps_step
    store_steps_trans lease_delivery_step [THEN store_steps_step])

section \<open>Runs\<close>

datatype store_op =
    OpSeed reserved_invitation u64
  | OpCommit inviter_join_commit u64 commit_fault
  | OpLease ident u64 u64
  | OpFail delivery_lease
  | OpComplete delivery_lease u64
  | OpLeaseNext u64 u64
  | OpReportAccepted delivery_lease u64
  | OpReportFailed delivery_lease

fun store_apply :: "cbor \<Rightarrow> inviter_store \<Rightarrow> store_op \<Rightarrow> inviter_store" where
  "store_apply C s (OpSeed ri now) = snd (seed_reservation s ri now)"
| "store_apply C s (OpCommit c now fault) = snd (commit_with_fault C s c now fault)"
| "store_apply C s (OpLease tid now secs) = snd (lease_delivery s tid now secs)"
| "store_apply C s (OpFail l) = snd (fail_delivery s l)"
| "store_apply C s (OpComplete l now) = snd (complete_delivery s l now)"
| "store_apply C s (OpLeaseNext now secs) = snd (lease_next s now secs)"
| "store_apply C s (OpReportAccepted l now) = snd (report_accepted s l now)"
| "store_apply C s (OpReportFailed l) = snd (report_failed s l)"

definition store_run :: "cbor \<Rightarrow> inviter_store \<Rightarrow> store_op list \<Rightarrow> inviter_store" where
  "store_run C s ops = foldl (store_apply C) s ops"

lemma store_apply_steps:
  assumes "bt_wf (st_commits s)"
  shows "store_steps C s (store_apply C s op)"
proof (cases op)
  case (OpSeed ri now)
  obtain r s' where "seed_reservation s ri now = (r, s')" by fastforce
  with seed_reservation_step [OF this assms, of C] OpSeed show ?thesis
    by (auto split: sum.splits intro: store_steps_refl store_steps_step)
qed (auto simp: report_accepted_def report_failed_def case_prod_unfold Let_def
    intro: store_steps_step commit_step lease_delivery_step fail_delivery_step
      complete_delivery_step lease_next_steps prod.collapse [symmetric])

section \<open>Invariant\<close>

definition committed_valid :: "cbor \<Rightarrow> transaction_policy \<Rightarrow> committed_record \<Rightarrow> bool" where
  "committed_valid C p r \<longleftrightarrow>
     unat (cr_epoch_after r) = Suc (unat (cr_epoch_before r))
     \<and> length (cr_group_id r) \<in> {1..tp_maximum_group_id_bytes p}
     \<and> length (cr_approval_record r) \<in> {1..tp_maximum_approval_bytes p}
     \<and> length (cr_mls_state r) \<in> {1..tp_maximum_mls_state_bytes p}
     \<and> length (cr_welcome_envelope r) \<in> {1..tp_maximum_welcome_bytes p}
     \<and> length (cr_deposit_endpoint r) \<in> {1..tp_maximum_endpoint_bytes p}
     \<and> (\<exists>env ep. OpaqueEnvelope_decode_canonical C (cr_welcome_envelope r) = Inr env
          \<and> LocalWelcomeDepositEndpoint_decode_canonical C (cr_deposit_endpoint r) = Inr ep
          \<and> \<not> all_zero (envelope_id env) \<and> cr_outbox_expires_at r \<le> env_expires_at env
          \<and> env_expires_at env \<le> ep_expires_at ep)"

lemma committed_valid_sealed: "sealed r = sealed r' \<Longrightarrow> committed_valid C p r = committed_valid C p r'"
  by (cases r; cases r'; simp add: sealed_def committed_valid_def)

definition record_ok :: "cbor \<Rightarrow> transaction_policy \<Rightarrow> u64 \<Rightarrow> ident \<Rightarrow> committed_record \<Rightarrow> bool" where
  "record_ok C p nxt tid r \<longleftrightarrow> \<not> all_zero tid \<and> committed_valid C p r
     \<and> cr_delivery_attempts r \<le> tp_maximum_delivery_attempts p
     \<and> (\<forall>sq. outbox_sequence (cr_outbox r) = Some sq \<longrightarrow> sq < nxt)
     \<and> (\<forall>sq e. cr_outbox r = StoredLeased sq e \<longrightarrow> e \<le> cr_outbox_expires_at r)"

definition commits_unique :: "(ident, committed_record) btree_map \<Rightarrow> bool" where
  "commits_unique m \<longleftrightarrow> (\<forall>t1 t2 r1 r2. bt_get m t1 = Some r1 \<and> bt_get m t2 = Some r2 \<and>
     (cr_invitation_id r1 = cr_invitation_id r2 \<or> cr_join_request_id r1 = cr_join_request_id r2
      \<or> outbox_sequence (cr_outbox r1) \<noteq> None
         \<and> outbox_sequence (cr_outbox r1) = outbox_sequence (cr_outbox r2)) \<longrightarrow> t1 = t2)"

definition store_inv :: "cbor \<Rightarrow> inviter_store \<Rightarrow> bool" where
  "store_inv C s \<longleftrightarrow> bt_wf (st_reservations s) \<and> bt_wf (st_commits s)
     \<and> length (st_reservations s) \<le> tp_maximum_transactions (st_policy s)
     \<and> length (st_commits s) \<le> tp_maximum_transactions (st_policy s)
     \<and> length (st_retired s) \<le> HARD_MAXIMUM_RETIRED_RESERVATIONS
     \<and> (\<forall>tid r. bt_get (st_commits s) tid = Some r
          \<longrightarrow> record_ok C (st_policy s) (st_next_lease_sequence s) tid r)
     \<and> (\<forall>iid. bt_get (st_reservations s) iid \<noteq> None \<longrightarrow> \<not> iid_committed s iid)
     \<and> commits_unique (st_commits s)"

lemma store_inv_new: "store_inv C (InMemoryInviterJoinStore_new p scope)"
  by (simp add: store_inv_def InMemoryInviterJoinStore_new_def bt_wf_Nil bt_get_empty commits_unique_def)

lemma validate_commit_staged:
  assumes "validate_commit C p c = Inr u"
  shows "record_ok C p nxt (jc_transaction_id c) (staged_record c)"
  using assms
  by (auto simp: validate_commit_def ok_iff record_ok_def committed_valid_def staged_record_def
      not_less Suc_le_eq dest: checked_add_one_Some)

lemma commit_checks_ok:
  assumes "commit_checks s c now FaultNone = Inr u" and "bt_wf (st_commits s)"
  shows "length (st_commits s) < tp_maximum_transactions (st_policy s)"
    and "bt_get (st_reservations s) (jc_invitation_id c) \<noteq> None"
    and "bt_get (st_commits s) tid = Some r \<Longrightarrow> cr_join_request_id r \<noteq> jc_join_request_id c"
    and "now < jc_outbox_expires_at c"
  using assms
  by (auto simp: commit_checks_def ok_iff check_reservation_def check_replay_def bt_values_ex
      split: if_splits option.splits)

lemma store_inv_seed:
  assumes "store_inv C s" and "\<not> iid_committed s iid"
    and "bt_wf m" and "length m \<le> tp_maximum_transactions (st_policy s)"
    and "length q \<le> HARD_MAXIMUM_RETIRED_RESERVATIONS"
    and "\<And>k. bt_get m k \<noteq> None \<Longrightarrow> k = iid \<or> bt_get (st_reservations s) k \<noteq> None"
  shows "store_inv C (s\<lparr> st_reservations := m, st_retired := q \<rparr>)"
proof -
  have "\<forall>k. bt_get m k \<noteq> None \<longrightarrow> \<not> iid_committed s k"
    using assms(1,2,6) unfolding store_inv_def by blast
  moreover have "iid_committed (s\<lparr> st_reservations := m, st_retired := q \<rparr>) = iid_committed s"
    by (simp add: iid_committed_def fun_eq_iff)
  ultimately show ?thesis using assms(1,3,4,5) by (simp add: store_inv_def)
qed

lemma commits_unique_insert:
  assumes "commits_unique m" and "outbox_sequence (cr_outbox r) = None"
    and "\<And>t x. bt_get m t = Some x \<Longrightarrow>
           cr_invitation_id x \<noteq> cr_invitation_id r \<and> cr_join_request_id x \<noteq> cr_join_request_id r"
  shows "commits_unique (bt_insert tid r m)"
  unfolding commits_unique_def
proof (intro allI impI)
  fix t1 t2 r1 r2
  assume "bt_get (bt_insert tid r m) t1 = Some r1 \<and> bt_get (bt_insert tid r m) t2 = Some r2 \<and>
    (cr_invitation_id r1 = cr_invitation_id r2 \<or> cr_join_request_id r1 = cr_join_request_id r2
      \<or> outbox_sequence (cr_outbox r1) \<noteq> None
         \<and> outbox_sequence (cr_outbox r1) = outbox_sequence (cr_outbox r2))"
  with assms show "t1 = t2"
    unfolding commits_unique_def bt_get_insert by (metis option.inject)
qed

lemma store_inv_commit:
  assumes inv: "store_inv C s" and v: "validate_commit C (st_policy s) c = Inr u"
    and new: "bt_get (st_commits s) (jc_transaction_id c) = None"
    and ok: "commit_checks s c now FaultNone = Inr u'"
  shows "store_inv C (s\<lparr> st_reservations := bt_remove (jc_invitation_id c) (st_reservations s),
          st_commits := bt_insert (jc_transaction_id c) (staged_record c) (st_commits s) \<rparr>)"
proof -
  let ?m = "bt_insert (jc_transaction_id c) (staged_record c) (st_commits s)"
  have wf: "bt_wf (st_commits s)" using inv by (simp add: store_inv_def)
  note chk = commit_checks_ok [OF ok wf]
  have fresh: "cr_invitation_id x \<noteq> jc_invitation_id c" if "bt_get (st_commits s) t = Some x" for t x
    using inv chk(2) that by (auto simp: store_inv_def iid_committed_def)
  have "commits_unique ?m"
    using inv fresh chk(3)
    by (intro commits_unique_insert) (auto simp: store_inv_def staged_record_def)
  moreover have "length ?m \<le> tp_maximum_transactions (st_policy s)"
    using chk(1) bt_insert_length [of "jc_transaction_id c" "staged_record c" "st_commits s"] by simp
  moreover have "length (bt_remove (jc_invitation_id c) (st_reservations s)) \<le> length (st_reservations s)"
    by (rule bt_remove_length)
  ultimately show ?thesis
    using inv validate_commit_staged [OF v]
    by (auto simp: store_inv_def bt_wf_simps bt_get_simps iid_committed_def staged_record_def
        split: if_splits)
qed

text \<open>Records that keep their sealed part and get at most a fresh sequence stay distinguishable.\<close>

lemma commits_unique_refine:
  assumes "commits_unique m"
    and step: "\<And>t r'. bt_get m' t = Some r' \<Longrightarrow> \<exists>r. bt_get m t = Some r \<and> sealed r' = sealed r
      \<and> (outbox_sequence (cr_outbox r') = None
         \<or> outbox_sequence (cr_outbox r') = outbox_sequence (cr_outbox r)
         \<or> t = fresh_tid \<and> outbox_sequence (cr_outbox r') = Some fresh)"
    and fresh: "\<And>t r. bt_get m t = Some r \<Longrightarrow> outbox_sequence (cr_outbox r) \<noteq> Some fresh"
  shows "commits_unique m'"
  unfolding commits_unique_def
proof (intro allI impI)
  fix t1 t2 r1 r2
  assume a: "bt_get m' t1 = Some r1 \<and> bt_get m' t2 = Some r2 \<and>
    (cr_invitation_id r1 = cr_invitation_id r2 \<or> cr_join_request_id r1 = cr_join_request_id r2
      \<or> outbox_sequence (cr_outbox r1) \<noteq> None
         \<and> outbox_sequence (cr_outbox r1) = outbox_sequence (cr_outbox r2))"
  obtain x1 where x1: "bt_get m t1 = Some x1" "sealed r1 = sealed x1"
      "outbox_sequence (cr_outbox r1) = None
         \<or> outbox_sequence (cr_outbox r1) = outbox_sequence (cr_outbox x1)
         \<or> t1 = fresh_tid \<and> outbox_sequence (cr_outbox r1) = Some fresh"
    using step a by blast
  obtain x2 where x2: "bt_get m t2 = Some x2" "sealed r2 = sealed x2"
      "outbox_sequence (cr_outbox r2) = None
         \<or> outbox_sequence (cr_outbox r2) = outbox_sequence (cr_outbox x2)
         \<or> t2 = fresh_tid \<and> outbox_sequence (cr_outbox r2) = Some fresh"
    using step a by blast
  have "cr_invitation_id x1 = cr_invitation_id x2 \<or> cr_join_request_id x1 = cr_join_request_id x2
      \<or> outbox_sequence (cr_outbox x1) \<noteq> None
         \<and> outbox_sequence (cr_outbox x1) = outbox_sequence (cr_outbox x2) \<or> t1 = t2"
    using a x1 x2 fresh sealed_fields(1,3) by metis
  with assms(1) x1(1) x2(1) show "t1 = t2" unfolding commits_unique_def by blast
qed

lemma iid_committed_sealed:
  assumes "\<And>t r'. bt_get (st_commits s') t = Some r' \<Longrightarrow>
             \<exists>r. bt_get (st_commits s) t = Some r \<and> sealed r' = sealed r"
    and "iid_committed s' iid"
  shows "iid_committed s iid"
  using assms sealed_fields(1) unfolding iid_committed_def by metis

lemma store_inv_move:
  assumes inv: "store_inv C s" and mv: "commits_moved s m"
  shows "store_inv C (s\<lparr> st_commits := m \<rparr>)"
proof -
  have origin: "\<exists>r. bt_get (st_commits s) t = Some r \<and> sealed r' = sealed r
      \<and> (outbox_sequence (cr_outbox r') = None
         \<or> outbox_sequence (cr_outbox r') = outbox_sequence (cr_outbox r))
      \<and> record_ok C (st_policy s) (st_next_lease_sequence s) t r'" if g: "bt_get m t = Some r'" for t r'
  proof -
    obtain r where r: "bt_get (st_commits s) t = Some r"
        "out_move (tp_maximum_delivery_attempts (st_policy s)) r r'"
      using mv g unfolding commits_moved_def by blast
    have ok: "record_ok C (st_policy s) (st_next_lease_sequence s) t r"
      using inv r(1) by (simp add: store_inv_def)
    note f = out_move_sealed [OF r(2)] out_move_attempts [OF r(2)] out_move_sequence [OF r(2)]
      out_move_leased [OF r(2)]
    have "record_ok C (st_policy s) (st_next_lease_sequence s) t r'"
      using ok f committed_valid_sealed [OF f(1)] unfolding record_ok_def by metis
    with r(1) f show ?thesis by (metis option.exhaust)
  qed
  have "commits_unique m"
  proof (rule commits_unique_refine [where m = "st_commits s"
        and fresh = "st_next_lease_sequence s" and fresh_tid = "[]"])
    show "commits_unique (st_commits s)" using inv by (simp add: store_inv_def)
    show "outbox_sequence (cr_outbox r) \<noteq> Some (st_next_lease_sequence s)"
      if "bt_get (st_commits s) t = Some r" for t r
      using inv that by (auto simp: store_inv_def record_ok_def)
  qed (use origin in blast)
  moreover have "iid_committed s iid" if "iid_committed (s\<lparr> st_commits := m \<rparr>) iid" for iid
    by (rule iid_committed_sealed [OF _ that]) (use origin in auto)
  moreover have "length m = length (st_commits s)" "bt_wf m \<longleftrightarrow> bt_wf (st_commits s)"
    using mv by (auto simp: commits_moved_def bt_wf_def dest: map_eq_imp_length_eq)
  ultimately show ?thesis using inv origin unfolding store_inv_def by auto
qed

lemma store_inv_lease:
  assumes inv: "store_inv C s" and r: "bt_get (st_commits s) tid = Some r"
    and att: "cr_delivery_attempts r < tp_maximum_delivery_attempts (st_policy s)"
    and e: "e \<le> cr_outbox_expires_at r"
    and nxt: "checked_add (st_next_lease_sequence s) 1 = Some nxt"
  shows "store_inv C (s\<lparr> st_next_lease_sequence := nxt,
          st_commits := bt_update tid (\<lambda>r. r\<lparr> cr_delivery_attempts := cr_delivery_attempts r + 1,
             cr_outbox := StoredLeased (st_next_lease_sequence s) e \<rparr>) (st_commits s) \<rparr>)"
    (is "store_inv C ?s")
proof -
  let ?m = "st_commits ?s"
  have lt: "st_next_lease_sequence s < nxt"
    using checked_add_Some_less [OF nxt] by simp
  have old: "record_ok C (st_policy s) (st_next_lease_sequence s) t x" if "bt_get (st_commits s) t = Some x" for t x
    using inv that by (simp add: store_inv_def)
  have origin: "\<exists>x. bt_get (st_commits s) t = Some x \<and> sealed r' = sealed x
      \<and> (outbox_sequence (cr_outbox r') = None
         \<or> outbox_sequence (cr_outbox r') = outbox_sequence (cr_outbox x)
         \<or> t = tid \<and> outbox_sequence (cr_outbox r') = Some (st_next_lease_sequence s))"
    if "bt_get ?m t = Some r'" for t r'
    using that r by (auto simp: bt_get_update split: if_splits)
  have "commits_unique ?m"
  proof (rule commits_unique_refine [where m = "st_commits s"
        and fresh = "st_next_lease_sequence s" and fresh_tid = tid])
    show "commits_unique (st_commits s)" using inv by (simp add: store_inv_def)
    show "outbox_sequence (cr_outbox x) \<noteq> Some (st_next_lease_sequence s)"
      if "bt_get (st_commits s) t = Some x" for t x
      using old [OF that] by (auto simp: record_ok_def)
  qed (rule origin)
  moreover have "record_ok C (st_policy s) nxt t r'" if "bt_get ?m t = Some r'" for t r'
    using that old r att e lt inc_le [OF att] order.strict_trans [OF _ lt]
    by (auto simp: bt_get_update record_ok_def committed_valid_def split: if_splits)
  moreover have "iid_committed s iid" if "iid_committed ?s iid" for iid
    by (rule iid_committed_sealed [OF _ that]) (use origin in auto)
  ultimately show ?thesis using inv unfolding store_inv_def
    by (auto simp: bt_wf_simps bt_length_simps)
qed

lemma store_step_inv: "store_step C s s' \<Longrightarrow> store_inv C s \<Longrightarrow> store_inv C s'"
proof (induction rule: store_step.induct)
  case (step_seed s iid m q)
  then show ?case by (intro store_inv_seed [where iid = iid]) (auto simp: store_inv_def)
qed (auto intro: store_inv_commit store_inv_lease store_inv_move)

lemma store_steps_inv: "store_steps C s s' \<Longrightarrow> store_inv C s \<Longrightarrow> store_inv C s'"
  unfolding store_steps_def by (induction rule: rtranclp_induct) (auto intro: store_step_inv)

lemma store_inv_wf: "store_inv C s \<Longrightarrow> bt_wf (st_commits s)"
  by (simp add: store_inv_def)

lemma store_run_steps:
  "store_inv C s \<Longrightarrow> store_steps C s (store_run C s ops)"
  unfolding store_run_def
proof (induction ops arbitrary: s)
  case (Cons op ops)
  have "store_steps C s (store_apply C s op)" by (rule store_apply_steps [OF store_inv_wf [OF Cons.prems]])
  with Cons store_steps_inv store_steps_trans show ?case by (metis foldl_Cons)
qed (simp add: store_steps_refl)

lemma store_run_inv: "store_inv C s \<Longrightarrow> store_inv C (store_run C s ops)"
  using store_run_steps store_steps_inv by blast

section \<open>What a run keeps\<close>

lemma store_step_frame:
  "store_step C s s' \<Longrightarrow> st_policy s' = st_policy s \<and> st_lease_scope s' = st_lease_scope s
     \<and> st_next_lease_sequence s \<le> st_next_lease_sequence s'"
  by (induction rule: store_step.induct) (auto dest: checked_add_Some_le)

lemma commits_moved_get:
  assumes "commits_moved s m" and "bt_get (st_commits s) tid = Some r"
  obtains r' where "bt_get m tid = Some r'"
    and "out_move (tp_maximum_delivery_attempts (st_policy s)) r r'"
proof -
  have "fst ` set m = fst ` set (st_commits s)"
    using assms(1) unfolding commits_moved_def by (metis set_map)
  then have "bt_get m tid \<noteq> None"
    using assms(2) unfolding bt_get_def by (metis map_of_eq_None_iff option.distinct(1))
  with assms that show thesis unfolding commits_moved_def by fastforce
qed

text \<open>Below the policy's bound the attempt counter does not wrap.\<close>

lemma attempts_below_bound:
  fixes n :: u32
  assumes "n < m"
  shows "unat (n + 1) = Suc (unat n)"
proof -
  have "unat n < unat m" "unat m < 2 ^ 32"
    using assms unsigned_less [of m] by (simp_all add: word_less_nat_alt)
  then show ?thesis by (simp add: unat_word_ariths)
qed

text \<open>A committed record stays committed, keeps its sealed part, and only ever counts attempts up.\<close>

lemma store_step_record:
  assumes "store_step C s s'" and "bt_get (st_commits s) tid = Some r"
  shows "\<exists>r'. bt_get (st_commits s') tid = Some r' \<and> sealed r' = sealed r
    \<and> cr_delivery_attempts r \<le> cr_delivery_attempts r'
    \<and> (\<forall>sq. cr_outbox r = StoredDelivered sq \<longrightarrow> r' = r)"
  using assms
proof (induction rule: store_step.induct)
  case (step_lease s tid' x now e nxt)
  have "cr_delivery_attempts x \<le> cr_delivery_attempts x + 1"
    using attempts_below_bound [OF step_lease(3)] by (simp add: word_le_nat_alt)
  with step_lease show ?case by (auto simp: bt_get_update)
next
  case (step_move s m)
  from step_move obtain r' where r': "bt_get m tid = Some r'"
      "out_move (tp_maximum_delivery_attempts (st_policy s)) r r'"
    by (rule commits_moved_get)
  then show ?case
    by (auto simp: out_move_sealed out_move_attempts elim: out_move.cases)
qed (auto simp: bt_get_insert)

lemma store_steps_frame:
  "store_steps C s s' \<Longrightarrow> st_policy s' = st_policy s \<and> st_lease_scope s' = st_lease_scope s
     \<and> st_next_lease_sequence s \<le> st_next_lease_sequence s'"
  unfolding store_steps_def
proof (induction rule: rtranclp_induct)
  case (step y z)
  then show ?case using store_step_frame [of C y z] by auto
qed simp

lemma store_steps_record:
  assumes "store_steps C s s'" and "bt_get (st_commits s) tid = Some r"
  shows "\<exists>r'. bt_get (st_commits s') tid = Some r' \<and> sealed r' = sealed r
    \<and> cr_delivery_attempts r \<le> cr_delivery_attempts r'
    \<and> (\<forall>sq. cr_outbox r = StoredDelivered sq \<longrightarrow> r' = r)"
  using assms unfolding store_steps_def
proof (induction rule: rtranclp_induct)
  case (step y z)
  then obtain r1 where "bt_get (st_commits y) tid = Some r1" "sealed r1 = sealed r"
    "cr_delivery_attempts r \<le> cr_delivery_attempts r1"
    "\<forall>sq. cr_outbox r = StoredDelivered sq \<longrightarrow> r1 = r" by blast
  with store_step_record [OF step(2) this(1)] show ?case by (metis order.trans)
qed auto

text \<open>A lease sequence that is no longer current never becomes current again.\<close>

definition fenced :: "inviter_store \<Rightarrow> ident \<Rightarrow> u64 \<Rightarrow> bool" where
  "fenced s tid sq \<longleftrightarrow> sq < st_next_lease_sequence s
     \<and> (\<forall>r. bt_get (st_commits s) tid = Some r \<longrightarrow> outbox_sequence (cr_outbox r) \<noteq> Some sq)"

lemma store_step_fenced: "store_step C s s' \<Longrightarrow> fenced s tid sq \<Longrightarrow> fenced s' tid sq"
proof (induction rule: store_step.induct)
  case (step_lease s tid' r now e nxt)
  then show ?case
    using checked_add_Some_le [OF step_lease(6)]
    by (auto simp: fenced_def bt_get_update split: if_splits)
next
  case (step_move s m)
  then show ?case
    unfolding fenced_def commits_moved_def by (auto dest: out_move_sequence)
qed (auto simp: fenced_def bt_get_insert staged_record_def)

lemma store_steps_fenced: "store_steps C s s' \<Longrightarrow> fenced s tid sq \<Longrightarrow> fenced s' tid sq"
  unfolding store_steps_def by (induction rule: rtranclp_induct) (auto intro: store_step_fenced)

lemma fenced_refuses:
  assumes "fenced s (dl_transaction_id l) (dl_lease_sequence l)"
  shows "complete_delivery s l now = (Inl LeaseMismatch, s)"
    and "fail_delivery s l = (Inl LeaseMismatch, s)"
    and "\<not> is_ok (delivery_payload s l now)"
  using assms
  by (auto simp: fenced_def complete_delivery_def fail_delivery_def delivery_payload_def
      require_local_lease_def ok_or_def is_ok_iff ok_iff split: option.splits stored_outbox_state.splits)

section \<open>The store discharges the outbox port\<close>

definition store_held :: "inviter_store \<Rightarrow> delivery_lease \<Rightarrow> bool" where
  "store_held s l \<longleftrightarrow> st_lease_scope s = dl_store_scope l \<and>
     (case bt_get (st_commits s) (dl_transaction_id l) of None \<Rightarrow> False
      | Some r \<Rightarrow> (case cr_outbox r of StoredLeased sq _ \<Rightarrow> sq = dl_lease_sequence l | _ \<Rightarrow> False))"

definition store_accepted :: "inviter_store \<Rightarrow> delivery_lease \<Rightarrow> bool" where
  "store_accepted s l \<longleftrightarrow> st_lease_scope s = dl_store_scope l \<and>
     (case bt_get (st_commits s) (dl_transaction_id l) of None \<Rightarrow> False
      | Some r \<Rightarrow> cr_outbox r = StoredDelivered (dl_lease_sequence l))"

lemma delivery_payload_ok_iff:
  "delivery_payload s l now = Inr p \<longleftrightarrow>
     st_lease_scope s = dl_store_scope l \<and>
     (\<exists>r e. bt_get (st_commits s) (dl_transaction_id l) = Some r
        \<and> cr_outbox r = StoredLeased (dl_lease_sequence l) e \<and> now < e \<and> now < cr_outbox_expires_at r
        \<and> p = \<lparr> dp_welcome_envelope = cr_welcome_envelope r, dp_deposit_endpoint = cr_deposit_endpoint r,
                dp_outbox_expires_at = cr_outbox_expires_at r \<rparr>)"
proof (cases "bt_get (st_commits s) (dl_transaction_id l)")
  case (Some r)
  then show ?thesis
    by (cases "cr_outbox r") (auto simp: delivery_payload_def require_local_lease_def)
qed (simp add: delivery_payload_def require_local_lease_def)

lemma lease_next_leased:
  assumes inv: "store_inv C s" and l: "lease_next s now secs = (Inr (Some w), s')"
  shows "store_held s' (lw_lease w)"
    and "deliverable C now (lw_welcome_envelope w) (lw_deposit_endpoint w) (lw_outbox_expires_at w)"
proof -
  have inv': "store_inv C s'" using lease_next_steps [OF l] store_steps_inv inv by blast
  obtain tid lease p where d: "lease_delivery (exhaust_attempts now s) tid now secs = (Inr lease, s')"
    and p: "delivery_payload s' lease now = Inr p"
    and w: "w = LeasedWelcome_from_owner lease (dp_welcome_envelope p) (dp_deposit_endpoint p)
               (dp_outbox_expires_at p)"
    using l by (cases rule: lease_next_cases) auto
  show "store_held s' (lw_lease w)"
    using d w by (auto elim!: lease_delivery_ok
        simp: store_held_def LeasedWelcome_from_owner_def bt_get_update)
  obtain r where "bt_get (st_commits s') (dl_transaction_id lease) = Some r"
      "now < cr_outbox_expires_at r" "dp_welcome_envelope p = cr_welcome_envelope r"
      "dp_deposit_endpoint p = cr_deposit_endpoint r" "dp_outbox_expires_at p = cr_outbox_expires_at r"
    using p by (auto simp: delivery_payload_ok_iff)
  moreover from this inv' have "committed_valid C (st_policy s') r"
    by (simp add: store_inv_def record_ok_def)
  ultimately show "deliverable C now (lw_welcome_envelope w) (lw_deposit_endpoint w) (lw_outbox_expires_at w)"
    using w by (simp add: deliverable_def committed_valid_def LeasedWelcome_from_owner_def)
qed

lemma store_held_cases:
  assumes "store_held s l"
  obtains r e where "st_lease_scope s = dl_store_scope l"
    and "bt_get (st_commits s) (dl_transaction_id l) = Some r"
    and "cr_outbox r = StoredLeased (dl_lease_sequence l) e"
  using assms that by (auto simp: store_held_def split: option.splits stored_outbox_state.splits)

lemma report_failed_held:
  assumes "store_held s l"
  shows "\<exists>s'. report_failed s l = (Inr (), s') \<and> \<not> store_held s' l \<and> \<not> store_accepted s' l"
  using assms
proof (cases rule: store_held_cases)
  case (1 r e)
  let ?o = "if cr_delivery_attempts r \<ge> tp_maximum_delivery_attempts (st_policy s)
            then StoredAttemptsExhausted else StoredPending"
  let ?s = "set_outbox (dl_transaction_id l) ?o s"
  have "report_failed s l = (Inr (), ?s)"
    using 1 by (simp add: report_failed_def fail_delivery_def require_local_lease_def)
  moreover have "\<not> store_held ?s l" "\<not> store_accepted ?s l"
    using 1 by (auto simp: store_held_def store_accepted_def set_outbox_def bt_get_update)
  ultimately show ?thesis by blast
qed

lemma report_accepted_ok:
  assumes "report_accepted s l now = (Inr u, s')"
  shows "store_accepted s' l"
proof -
  have "complete_delivery s l now = (Inr u, s')"
    using assms by (auto simp: report_accepted_def ok_iff split: prod.splits)
  then show ?thesis
    by (auto simp: complete_delivery_ok_iff store_accepted_def set_outbox_def bt_get_update)
qed

lemma report_accepted_err: "report_accepted s l now = (Inl e, s') \<Longrightarrow> s' = s"
  by (auto simp: report_accepted_def map_err_def split: prod.splits sum.splits dest: complete_delivery_err)

lemma report_steps:
  "report_accepted s l now = (a, s') \<Longrightarrow> store_step C s s'"
  "report_failed s l = (b, s') \<Longrightarrow> store_step C s s'"
  by (auto simp: report_accepted_def report_failed_def split: prod.splits
      intro: complete_delivery_step fail_delivery_step)

interpretation owner: welcome_outbox_port C lease_next report_accepted report_failed
    "store_inv C" store_held store_accepted for C
proof unfold_locales
  show "store_inv C s \<Longrightarrow> lease_next s now secs = (r, s') \<Longrightarrow> store_inv C s'" for s now secs r s'
    using lease_next_steps store_steps_inv by blast
  show "store_inv C s \<Longrightarrow> store_held s l \<Longrightarrow>
      \<exists>s'. report_failed s l = (Inr (), s') \<and> \<not> store_held s' l \<and> \<not> store_accepted s' l" for s l
    by (rule report_failed_held)
  show "store_inv C s \<Longrightarrow> report_accepted s l now = (Inr u, s') \<Longrightarrow> store_accepted s' l" for s l now u s'
    by (rule report_accepted_ok)
qed (auto intro: lease_next_leased report_steps store_step_inv dest: report_accepted_err)

end
