(* ===== verification/Coordinator.thy ===== *)
theory Coordinator
  imports Mailbox Inviter_Invariants
begin

text \<open>
  The stateless Welcome delivery coordinator of \<open>crates/session-transport/src/coordinator.rs\<close>: one
  pass leases work from the owner port, checks it, deposits it through an adapter and reports the
  result. The client lemmas are proved once for any owner that satisfies the outbox port.
\<close>

section \<open>Policy and outcomes\<close>

definition MAX_COORDINATOR_LEASE_SECONDS :: u64 where "MAX_COORDINATOR_LEASE_SECONDS = 3600"

datatype coordinator_outcome = Idle | Accepted

datatype coordinator_error =
    CoordinatorInvalidPolicy
  | OwnerStore outbox_port_error
  | InvalidOwnerWork
  | Transport transport_failure

datatype endpoint_resolution_error = EndpointRejected

record coordinator_policy =
  cp_operation_timeout :: duration
  cp_lease_seconds :: u64
  cp_maximum_network_bytes :: u64

definition CoordinatorPolicy_new ::
    "duration \<Rightarrow> u64 \<Rightarrow> u64 \<Rightarrow> coordinator_error + coordinator_policy" where
  "CoordinatorPolicy_new timeout lease_seconds network =
     (if timeout = 0 \<or> lease_seconds = 0 \<or> lease_seconds > MAX_COORDINATOR_LEASE_SECONDS
         \<or> timeout > from_secs lease_seconds
         \<or> network = 0 \<or> unat network > MAX_WIRE_OBJECT_BYTES
      then Err CoordinatorInvalidPolicy
      else Ok \<lparr> cp_operation_timeout = timeout, cp_lease_seconds = lease_seconds,
                cp_maximum_network_bytes = network \<rparr>)"

text \<open>The LocalV1 resolver; a deposit right is the endpoint it wraps.\<close>

definition LocalV1_resolve ::
    "cbor \<Rightarrow> bytes \<Rightarrow> u64 \<Rightarrow> endpoint_resolution_error + local_welcome_deposit_endpoint" where
  "LocalV1_resolve C encoded now =
     and_then (map_err (\<lambda>_. EndpointRejected) (LocalWelcomeDepositEndpoint_decode_canonical C encoded)) (\<lambda>ep.
       if ep_expires_at ep \<le> now then Err EndpointRejected else Ok ep)"

section \<open>One pass\<close>

text \<open>
  The owner's three operations, the resolver and the adapter are arguments. The adapter's future
  either completes or is dropped while pending (\<open>None\<close>); the pass then has no result.
\<close>

record ('s, 'l) owner_port =
  op_lease_next :: "'s \<Rightarrow> u64 \<Rightarrow> u64 \<Rightarrow> (outbox_port_error + 'l leased_welcome option) \<times> 's"
  op_report_accepted :: "'s \<Rightarrow> 'l \<Rightarrow> u64 \<Rightarrow> (outbox_port_error + unit) \<times> 's"
  op_report_failed :: "'s \<Rightarrow> 'l \<Rightarrow> (outbox_port_error + unit) \<times> 's"

type_synonym ('e, 'd) adapter =
  "'d \<Rightarrow> 'e \<Rightarrow> deposit_request \<Rightarrow> control \<Rightarrow> (transport_failure + ident) option \<times> 'd \<times> control"

definition report_failure ::
    "('s, 'l) owner_port \<Rightarrow> 's \<Rightarrow> 'l \<Rightarrow> coordinator_error
      \<Rightarrow> (coordinator_error + coordinator_outcome) \<times> 's" where
  "report_failure P s l e =
     (case op_report_failed P s l of
        (Inl pe, s') \<Rightarrow> (Err (OwnerStore pe), s')
      | (Inr _, s') \<Rightarrow> (Err e, s'))"

definition release_invalid ::
    "('s, 'l) owner_port \<Rightarrow> 's \<Rightarrow> 'l \<Rightarrow> (coordinator_error + coordinator_outcome) \<times> 's" where
  "release_invalid P s l = report_failure P s l InvalidOwnerWork"

definition settle ::
    "('s, 'l) owner_port \<Rightarrow> 's \<Rightarrow> 'l \<Rightarrow> transport_failure + ident \<Rightarrow> control
      \<Rightarrow> (coordinator_error + coordinator_outcome) \<times> 's" where
  "settle P s l result ctl =
     (case result of
        Inr _ \<Rightarrow>
          (case rd_wall (ctl 0) of
             None \<Rightarrow> (Err (Transport (TransportFailure_new Internal Never)), s)
           | Some completed_at \<Rightarrow>
             (case op_report_accepted P s l completed_at of
                (Inl pe, s') \<Rightarrow> (Err (OwnerStore pe), s')
              | (Inr _, s') \<Rightarrow> (Ok Accepted, s')))
      | Inl failure \<Rightarrow> report_failure P s l (Transport failure))"

definition prepare ::
    "cbor \<Rightarrow> (bytes \<Rightarrow> u64 \<Rightarrow> endpoint_resolution_error + 'e) \<Rightarrow> 'l leased_welcome \<Rightarrow> u64 \<Rightarrow> operation_budget
      \<Rightarrow> (deposit_request \<times> 'e) option" where
  "prepare C resolve w now budget =
     (let (l, envelope_bytes, endpoint_bytes, outbox_expiry) = LeasedWelcome_into_parts w in
      case CanonicalEnvelope_from_canonical_bytes C envelope_bytes of
        Inl _ \<Rightarrow> None
      | Inr canonical \<Rightarrow>
        if \<not> (outbox_expiry > now \<and> outbox_expiry \<le> ce_expires_at canonical) then None
        else (case resolve endpoint_bytes now of
           Inl _ \<Rightarrow> None
         | Inr endpoint \<Rightarrow>
           (case DepositRequest_new canonical budget of
              Inl _ \<Rightarrow> None
            | Inr request \<Rightarrow> Some (request, endpoint))))"

definition run_once ::
    "cbor \<Rightarrow> coordinator_policy \<Rightarrow> ('s, 'l) owner_port
      \<Rightarrow> (bytes \<Rightarrow> u64 \<Rightarrow> endpoint_resolution_error + 'e) \<Rightarrow> ('e, 'd) adapter
      \<Rightarrow> 's \<Rightarrow> 'd \<Rightarrow> control \<Rightarrow> (coordinator_error + coordinator_outcome) option \<times> 's \<times> 'd" where
  "run_once C policy P resolve adapter s d ctl =
     (case instant_checked_add (rd_monotonic (ctl 0)) (cp_operation_timeout policy) of
        None \<Rightarrow> (Some (Err CoordinatorInvalidPolicy), s, d)
      | Some deadline \<Rightarrow>
        (case OperationBudget_new deadline (cp_maximum_network_bytes policy) 1 of
           Inl _ \<Rightarrow> (Some (Err CoordinatorInvalidPolicy), s, d)
         | Inr budget \<Rightarrow>
           (let ctl1 = after_reading ctl in
            case checkpoint ctl1 budget of
              Inl f \<Rightarrow> (Some (Err (Transport f)), s, d)
            | Inr obs \<Rightarrow>
              (case op_lease_next P s (do_wall_now obs) (cp_lease_seconds policy) of
                 (Inl pe, s1) \<Rightarrow> (Some (Err (OwnerStore pe)), s1, d)
               | (Inr None, s1) \<Rightarrow> (Some (Ok Idle), s1, d)
               | (Inr (Some w), s1) \<Rightarrow>
                 (case prepare C resolve w (do_wall_now obs) budget of
                    None \<Rightarrow>
                      (let (r, s2) = release_invalid P s1 (lw_lease w) in (Some r, s2, d))
                  | Some (request, endpoint) \<Rightarrow>
                    (let ctl2 = after_reading ctl1 in
                     case checkpoint ctl2 budget of
                       Inl f \<Rightarrow>
                         (let (r, s2) = report_failure P s1 (lw_lease w) (Transport f) in (Some r, s2, d))
                     | Inr _ \<Rightarrow>
                       (case adapter d endpoint request (after_reading ctl2) of
                          (None, d', _) \<Rightarrow> (None, s1, d')
                        | (Some result, d', ctl3) \<Rightarrow>
                          (let (r, s2) = settle P s1 (lw_lease w) result ctl3 in (Some r, s2, d')))))))))"

text \<open>The composition used locally: the in-memory owner, the LocalV1 resolver and the local mailbox.\<close>

definition store_port :: "(inviter_store, delivery_lease) owner_port" where
  "store_port = \<lparr> op_lease_next = lease_next, op_report_accepted = report_accepted,
                  op_report_failed = report_failed \<rparr>"

definition local_adapter ::
    "cbor \<Rightarrow> 'g rng \<Rightarrow> (bytes \<Rightarrow> bytes) \<Rightarrow> (local_welcome_deposit_endpoint, local_transport \<times> 'g) adapter" where
  "local_adapter C rng sha256 d ep request ctl =
     (let (r, d', ctl') = local_deposit C rng sha256 d ep request ctl in (Some r, d', ctl'))"

section \<open>The stages of a pass\<close>

lemma run_once_cases:
  assumes "run_once C policy P resolve adapter s d ctl = (r, s', d')"
  obtains (refused) e where "r = Some (Inl e)" and "e \<noteq> InvalidOwnerWork" and "s' = s" and "d' = d"
  | (owner) now pe where "op_lease_next P s now (cp_lease_seconds policy) = (Inl pe, s')"
      and "r = Some (Inl (OwnerStore pe))" and "d' = d"
  | (idle) now where "op_lease_next P s now (cp_lease_seconds policy) = (Inr None, s')"
      and "r = Some (Inr Idle)" and "d' = d"
  | (invalid) now w s1 budget r0 where "op_lease_next P s now (cp_lease_seconds policy) = (Inr (Some w), s1)"
      and "ob_max_network_bytes budget = cp_maximum_network_bytes policy"
      and "prepare C resolve w now budget = None"
      and "release_invalid P s1 (lw_lease w) = (r0, s')" and "r = Some r0" and "d' = d"
  | (late) now w s1 f r0 where "op_lease_next P s now (cp_lease_seconds policy) = (Inr (Some w), s1)"
      and "report_failure P s1 (lw_lease w) (Transport f) = (r0, s')" and "r = Some r0" and "d' = d"
  | (dropped) now w where "op_lease_next P s now (cp_lease_seconds policy) = (Inr (Some w), s')"
      and "r = None"
  | (settled) now w s1 budget request endpoint ctl2 result ctl3 r0
    where "op_lease_next P s now (cp_lease_seconds policy) = (Inr (Some w), s1)"
      and "prepare C resolve w now budget = Some (request, endpoint)"
      and "adapter d endpoint request ctl2 = (Some result, d', ctl3)"
      and "settle P s1 (lw_lease w) result ctl3 = (r0, s')" and "r = Some r0"
      and "rd_wall (ctl (Suc 0)) = Some now"
proof -
  consider (a) e where "r = Some (Inl e)" "e \<noteq> InvalidOwnerWork" "s' = s" "d' = d"
    | (b) deadline budget obs where
        "OperationBudget_new deadline (cp_maximum_network_bytes policy) 1 = Inr budget"
        "checkpoint (after_reading ctl) budget = Inr obs"
        "instant_checked_add (rd_monotonic (ctl 0)) (cp_operation_timeout policy) = Some deadline"
    using assms by (auto simp: run_once_def Let_def split: option.splits sum.splits)
  then show thesis
  proof cases
    case a
    then show ?thesis by (rule refused)
  next
    case (b deadline budget obs)
    have nb: "ob_max_network_bytes budget = cp_maximum_network_bytes policy"
      using b(1) by (auto simp: OperationBudget_new_def split: if_splits)
    have wall: "rd_wall (ctl (Suc 0)) = Some (do_wall_now obs)"
      using b(2) by (auto simp: checkpoint_def after_reading_def ok_iff split: if_splits)
    show ?thesis
      using assms b(1,2,3) owner idle invalid [OF _ nb] late dropped settled [OF _ _ _ _ _ wall]
      by (auto simp: run_once_def Let_def
          split: option.splits sum.splits prod.splits)
  qed
qed

lemma prepare_ok:
  assumes "prepare C resolve w now budget = Some (request, endpoint)"
  shows "ce_bytes (dr_envelope request) = lw_welcome_envelope w"
    and "\<exists>env. OpaqueEnvelope_decode_canonical C (lw_welcome_envelope w) = Inr env
           \<and> ce_expires_at (dr_envelope request) = env_expires_at env"
    and "resolve (lw_deposit_endpoint w) now = Inr endpoint"
    and "length (lw_welcome_envelope w) \<le> unat (ob_max_network_bytes budget)"
  using assms
  by (auto simp: prepare_def LeasedWelcome_into_parts_def canonical_from_bytes_ok DepositRequest_new_def
      split: sum.splits if_splits)

text \<open>Work an owner may hand out is always accepted by the coordinator if it fits the byte budget.\<close>

lemma prepare_deliverable:
  assumes "deliverable C now (lw_welcome_envelope w) (lw_deposit_endpoint w) (lw_outbox_expires_at w)"
    and "length (lw_welcome_envelope w) \<le> unat (ob_max_network_bytes budget)"
  shows "prepare C (LocalV1_resolve C) w now budget \<noteq> None"
proof -
  obtain env ep where d: "OpaqueEnvelope_decode_canonical C (lw_welcome_envelope w) = Inr env"
      "LocalWelcomeDepositEndpoint_decode_canonical C (lw_deposit_endpoint w) = Inr ep"
      "\<not> all_zero (envelope_id env)" "now < lw_outbox_expires_at w"
      "lw_outbox_expires_at w \<le> env_expires_at env" "env_expires_at env \<le> ep_expires_at ep"
    using assms(1) unfolding deliverable_def by blast
  have "now < env_expires_at env" and live: "\<not> ep_expires_at ep \<le> now"
    using d by (auto simp: not_le intro: less_le_trans)
  then have "env_expires_at env \<noteq> 0" by auto
  with d have "CanonicalEnvelope_from_canonical_bytes C (lw_welcome_envelope w) =
      Inr \<lparr> ce_bytes = lw_welcome_envelope w, ce_envelope_id = envelope_id env,
            ce_expires_at = env_expires_at env \<rparr>"
    by (simp add: canonical_from_bytes_ok)
  moreover have "unat (ob_max_network_bytes budget) < 2 ^ 64"
    using unsigned_less [of "ob_max_network_bytes budget"] by simp
  ultimately show ?thesis
    using d live assms(2)
    by (simp add: prepare_def LeasedWelcome_into_parts_def LocalV1_resolve_def DepositRequest_new_def)
qed

section \<open>What a pass does to any owner\<close>

context welcome_outbox_port
begin

lemma report_failure_releases:
  assumes "inv s" and "lease_next s now secs = (Inr (Some w), s1)"
    and "P = \<lparr> op_lease_next = lease_next, op_report_accepted = report_accepted, op_report_failed = report_failed \<rparr>"
    and "report_failure P s1 (lw_lease w) e = (r, s')"
  shows "r = Inl e" and "inv s'" and "\<not> held s' (lw_lease w)" and "\<not> accepted s' (lw_lease w)"
proof -
  from assms(1,2) obtain s2 where "report_failed s1 (lw_lease w) = (Inr (), s2)" and "inv s2"
    and "\<not> held s2 (lw_lease w)" and "\<not> accepted s2 (lw_lease w)"
    by (rule lease_then_fail)
  with assms(3,4) show "r = Inl e" "inv s'" "\<not> held s' (lw_lease w)" "\<not> accepted s' (lw_lease w)"
    by (simp_all add: report_failure_def)
qed

lemma settle_accepts:
  assumes "inv s" and "lease_next s now secs = (Inr (Some w), s1)"
    and "P = \<lparr> op_lease_next = lease_next, op_report_accepted = report_accepted, op_report_failed = report_failed \<rparr>"
    and "settle P s1 (lw_lease w) result ctl = (r, s')"
  shows "inv s'" and "r = Inr Accepted \<Longrightarrow> accepted s' (lw_lease w) \<and> (\<exists>did. result = Inr did)"
    and "r \<noteq> Inl InvalidOwnerWork"
    and "result = Inl f \<Longrightarrow> r = Inl (Transport f) \<and> \<not> held s' (lw_lease w) \<and> \<not> accepted s' (lw_lease w)"
proof -
  have i1: "inv s1" using lease_next_inv assms(1,2) by blast
  note rf = report_failure_releases [OF assms(1,2,3)]
  show "result = Inl f \<Longrightarrow> r = Inl (Transport f) \<and> \<not> held s' (lw_lease w) \<and> \<not> accepted s' (lw_lease w)"
    using assms(4) rf by (simp add: settle_def)
  show "inv s'"
    using assms(3,4) rf i1 accepted_inv
    by (auto simp: settle_def split: sum.splits option.splits prod.splits)
  show "r = Inr Accepted \<Longrightarrow> accepted s' (lw_lease w) \<and> (\<exists>did. result = Inr did)"
    using assms(3,4) rf(1) accepted_records [OF i1]
    by (auto simp: settle_def split: sum.splits option.splits prod.splits)
  show "r \<noteq> Inl InvalidOwnerWork"
    using assms(3,4) rf(1)
    by (auto simp: settle_def split: sum.splits option.splits prod.splits)
qed

lemma run_once_inv:
  assumes "inv s"
    and "P = \<lparr> op_lease_next = lease_next, op_report_accepted = report_accepted, op_report_failed = report_failed \<rparr>"
    and "run_once C' policy P resolve adapter s d ctl = (r, s', d')"
  shows "inv s'"
  using assms(3)
proof (cases rule: run_once_cases)
  case (invalid now w s1 budget r0)
  with assms report_failure_releases(2) [of s now "cp_lease_seconds policy" w s1 P InvalidOwnerWork r0 s'] show ?thesis
    by (simp add: release_invalid_def)
next
  case (late now w s1 f r0)
  with assms report_failure_releases(2) [of s now "cp_lease_seconds policy" w s1 P "Transport f" r0 s'] show ?thesis by simp
next
  case (settled now w s1 budget request endpoint ctl2 result ctl3 r0)
  with assms settle_accepts(1) [of s now "cp_lease_seconds policy" w s1 P result ctl3 r0 s'] show ?thesis by simp
qed (use assms lease_next_inv in auto)

text \<open>
  The pass reports acceptance only when the adapter accepted exactly the leased envelope and the
  owner recorded the delivery.
\<close>

lemma run_once_accepted:
  assumes "inv s"
    and "P = \<lparr> op_lease_next = lease_next, op_report_accepted = report_accepted, op_report_failed = report_failed \<rparr>"
    and "run_once C' policy P resolve adapter s d ctl = (Some (Inr Accepted), s', d')"
  obtains now w s1 budget request endpoint ctl2 did ctl3
  where "lease_next s now (cp_lease_seconds policy) = (Inr (Some w), s1)"
    and "prepare C' resolve w now budget = Some (request, endpoint)"
    and "adapter d endpoint request ctl2 = (Some (Inr did), d', ctl3)"
    and "accepted s' (lw_lease w)"
    and "\<exists>t. report_accepted s1 (lw_lease w) t = (Inr (), s')"
    and "rd_wall (ctl (Suc 0)) = Some now"
  using assms(3)
proof (cases rule: run_once_cases)
  case (settled now w s1 budget request endpoint ctl2 result ctl3 r0)
  have l: "lease_next s now (cp_lease_seconds policy) = (Inr (Some w), s1)"
    using settled(1) assms(2) by simp
  have "r0 = Inr Accepted" using settled by simp
  with settle_accepts(2) [OF assms(1) l assms(2) settled(4)] obtain did
    where r: "result = Inr did" "accepted s' (lw_lease w)" by blast
  moreover have "\<exists>t. report_accepted s1 (lw_lease w) t = (Inr (), s')"
    using settled(4) assms(2) r(1) \<open>r0 = Inr Accepted\<close>
    by (auto simp: settle_def split: option.splits prod.splits sum.splits)
  ultimately show thesis using that l settled(2,3,6) by blast
next
  case (invalid now w s1 budget r0)
  with assms report_failure_releases(1) [of s now "cp_lease_seconds policy" w s1 P InvalidOwnerWork r0 s'] show thesis
    by (simp add: release_invalid_def)
next
  case (late now w s1 f r0)
  with assms report_failure_releases(1) [of s now "cp_lease_seconds policy" w s1 P "Transport f" r0 s'] show thesis by simp
qed auto

text \<open>Owner work is only ever called invalid when it exceeds the byte budget.\<close>

lemma run_once_invalid_work:
  assumes "inv s"
    and "P = \<lparr> op_lease_next = lease_next, op_report_accepted = report_accepted, op_report_failed = report_failed \<rparr>"
    and "run_once C policy P (LocalV1_resolve C) adapter s d ctl = (Some (Inl InvalidOwnerWork), s', d')"
  obtains now w s1 where "lease_next s now (cp_lease_seconds policy) = (Inr (Some w), s1)"
    and "unat (cp_maximum_network_bytes policy) < length (lw_welcome_envelope w)"
    and "\<not> held s' (lw_lease w)" and "\<not> accepted s' (lw_lease w)"
  using assms(3)
proof (cases rule: run_once_cases)
  case (invalid now w s1 budget r0)
  have l: "lease_next s now (cp_lease_seconds policy) = (Inr (Some w), s1)"
    using invalid(1) assms(2) by simp
  have "unat (cp_maximum_network_bytes policy) < length (lw_welcome_envelope w)"
    using prepare_deliverable [OF lease_next_deliverable [OF assms(1) l], of budget] invalid(2,3)
    by (simp add: not_le [symmetric]) (metis not_le)
  with that [OF l] report_failure_releases(3,4) [OF assms(1) l assms(2)] invalid(4) show thesis
    by (simp add: release_invalid_def)
next
  case (late now w s1 f r0)
  with assms report_failure_releases(1) [of s now "cp_lease_seconds policy" w s1 P "Transport f" r0 s'] show thesis by simp
next
  case (settled now w s1 budget request endpoint ctl2 result ctl3 r0)
  with assms settle_accepts(3) [of s now "cp_lease_seconds policy" w s1 P result ctl3 r0 s'] show thesis by simp
qed auto

end

end
