(* ===== verification/Inviter_Properties.thy ===== *)
theory Inviter_Properties
  imports Inviter_Invariants Examples
begin

text \<open>
  The properties of the join transaction store (\<open>crates/session-inviter-transaction\<close>) over every
  run of its interface from an empty store, injected faults included.
\<close>

section \<open>Concrete values\<close>

definition ex_tx_policy :: transaction_policy where
  "ex_tx_policy = \<lparr> tp_maximum_transactions = 4, tp_maximum_group_id_bytes = 255,
     tp_maximum_approval_bytes = 4096, tp_maximum_mls_state_bytes = 2097152,
     tp_maximum_welcome_bytes = 65536, tp_maximum_endpoint_bytes = 4096,
     tp_maximum_delivery_attempts = 2, tp_maximum_lease_seconds = 3600 \<rparr>"

text \<open>The reservation and the commit of one join, selected by a byte \<open>n\<close>.\<close>

definition ex_reserved :: "u8 \<Rightarrow> reserved_invitation" where
  "ex_reserved n = \<lparr> ri_invitation_id = replicate 16 n, ri_generation = replicate 64 n,
     ri_join_request_id = replicate 16 n, ri_expires_at = 400 \<rparr>"

definition ex_commit :: "u8 \<Rightarrow> u64 \<Rightarrow> inviter_join_commit" where
  "ex_commit n expiry = \<lparr> jc_transaction_id = replicate 16 n, jc_invitation_id = replicate 16 n,
     jc_invitation_generation = replicate 64 n, jc_join_request_id = replicate 16 n,
     jc_request_fingerprint = replicate 32 n, jc_group_id = [1], jc_epoch_before = 5,
     jc_epoch_after = 6, jc_approval_record = [1], jc_mls_state = [2],
     jc_welcome_envelope = ex_welcome, jc_deposit_endpoint = ex_endpoint_bytes,
     jc_outbox_expires_at = expiry \<rparr>"

definition ex_reservation_record :: "u8 \<Rightarrow> reservation_record" where
  "ex_reservation_record n = \<lparr> rr_generation = replicate 64 n, rr_join_request_id = replicate 16 n,
     rr_expires_at = 400 \<rparr>"

abbreviation ex_empty :: inviter_store where
  "ex_empty \<equiv> InMemoryInviterJoinStore_new ex_tx_policy 0"

lemma ex_validate:
  assumes "n \<noteq> 0" and "expiry \<le> 200"
  shows "validate_commit rfc_cbor ex_tx_policy (ex_commit n expiry) = Inr ()"
  using assms ex_welcome_ok ex_endpoint_ok
  by (auto simp: validate_commit_def ex_commit_def ex_tx_policy_def all_zero_replicate checked_add_def
      ex_envelope_def ex_endpoint_def MAX_LOCAL_WELCOME_ENDPOINT_BYTES_def MAX_WIRE_OBJECT_BYTES_def
      not_le)

lemma ex_seed:
  "store_run rfc_cbor ex_empty [OpSeed (ex_reserved 1) 100] =
     ex_empty\<lparr> st_reservations := [(replicate 16 1, ex_reservation_record 1)] \<rparr>"
  by (simp add: store_run_def seed_reservation_def ex_reserved_def InMemoryInviterJoinStore_new_def
      bt_values_def bt_get_def ex_tx_policy_def ex_reservation_record_def Let_def)

lemma ex_committed:
  "commit_with_fault rfc_cbor (store_run rfc_cbor ex_empty [OpSeed (ex_reserved 1) 100])
      (ex_commit 1 150) 110 AfterCommit =
     (Inl OutcomeUnknown,
      ex_empty\<lparr> st_commits := [(replicate 16 1, staged_record (ex_commit 1 150))] \<rparr>)"
  unfolding ex_seed using ex_validate [of 1 150]
  by (simp add: commit_with_fault_def commit_checks_def check_reservation_def check_replay_def
      fail_at_def InMemoryInviterJoinStore_new_def bt_get_def bt_values_def bt_remove_def
      ex_reservation_record_def) (simp add: ex_commit_def ex_tx_policy_def)

lemma store_run_append: "store_run C s (xs @ ys) = store_run C (store_run C s xs) ys"
  by (simp add: store_run_def)

definition ex_history :: "store_op list" where
  "ex_history = [OpSeed (ex_reserved 1) 100] @ [OpCommit (ex_commit 1 150) 110 AfterCommit]"

lemma ex_history_run:
  "store_run rfc_cbor ex_empty ex_history =
     ex_empty\<lparr> st_commits := [(replicate 16 1, staged_record (ex_commit 1 150))] \<rparr>"
  unfolding ex_history_def store_run_append
  using ex_committed by (simp add: store_run_def)

definition ex_lease :: "u64 \<Rightarrow> delivery_lease" where
  "ex_lease sq = \<lparr> dl_store_scope = 0, dl_transaction_id = replicate 16 1, dl_lease_sequence = sq \<rparr>"

definition ex_leased :: "u64 \<Rightarrow> u64 \<Rightarrow> u32 \<Rightarrow> inviter_store" where
  "ex_leased sq e n = ex_empty\<lparr> st_next_lease_sequence := sq + 1,
     st_commits := [(replicate 16 1, (staged_record (ex_commit 1 150))
       \<lparr> cr_delivery_attempts := n, cr_outbox := StoredLeased sq e \<rparr>)] \<rparr>"

lemmas ex_store_defs = InMemoryInviterJoinStore_new_def ex_tx_policy_def ex_commit_def staged_record_def
  ex_lease_def ex_leased_def bt_get_def bt_update_def bt_map_values_def checked_add_def
  all_zero_replicate

lemma ex_first_lease:
  "lease_delivery (store_run rfc_cbor ex_empty ex_history) (replicate 16 1) 120 10 =
     (Inr (ex_lease 1), ex_leased 1 130 1)"
  unfolding ex_history_run by (simp add: lease_delivery_def ex_store_defs)

lemma ex_second_lease:
  "lease_delivery (store_run rfc_cbor (ex_leased 1 130 1) [OpFail (ex_lease 1)]) (replicate 16 1) 125 10 =
     (Inr (ex_lease 2), ex_leased 2 135 2)"
proof -
  have "\<not> (2 :: u32) \<le> 1" by (simp add: word_le_nat_alt)
  then show ?thesis
    by (simp add: store_run_def fail_delivery_def require_local_lease_def set_outbox_def
        lease_delivery_def ex_store_defs)
qed

lemma ex_lease_next:
  "lease_next (store_run rfc_cbor ex_empty ex_history) 120 10 =
     (Inr (Some \<lparr> lw_lease = ex_lease 1, lw_welcome_envelope = ex_welcome,
                  lw_deposit_endpoint = ex_endpoint_bytes, lw_outbox_expires_at = 150 \<rparr>), ex_leased 1 130 1)"
  unfolding ex_history_run
  by (simp add: lease_next_def exhaust_attempts_def exhaust_record_def pending_transaction_ids_def
      lease_delivery_def delivery_payload_def require_local_lease_def LeasedWelcome_from_owner_def
      ex_store_defs)

lemma reachable_inv: "store_inv C (store_run C (InMemoryInviterJoinStore_new p scope) ops)"
  by (rule store_run_inv [OF store_inv_new])

lemma reachable_policy: "st_policy (store_run C (InMemoryInviterJoinStore_new p scope) ops) = p"
  using store_steps_frame [OF store_run_steps [OF store_inv_new [of C p scope], of ops]]
  by (simp add: InMemoryInviterJoinStore_new_def)

section \<open>Properties\<close>

text \<open>
  C1: a commit under any injected fault either changes nothing and says neither committed nor
  unknown, or installs the whole record at once: the reservation becomes a consumption, the record
  is recoverable with a pending outbox, and only a lost response is reported as unknown.
\<close>

theorem commit_all_or_nothing:
  assumes "s = store_run C (InMemoryInviterJoinStore_new p scope) ops"
    and "commit_with_fault C s c now fault = (r, s')"
  shows "(s' = s \<and> r \<noteq> Ok Committed \<and> r \<noteq> Err OutcomeUnknown) \<or>
    (fault \<in> {FaultNone, AfterCommit} \<and> r = (if fault = AfterCommit then Err OutcomeUnknown else Ok Committed)
     \<and> invitation_state_of s (jc_invitation_id c) = Some InvitationReserved
     \<and> invitation_state_of s' (jc_invitation_id c) = Some InvitationConsumed
     \<and> recover s (jc_transaction_id c) = None
     \<and> recover s' (jc_transaction_id c) = Some \<lparr> tv_epoch_after = jc_epoch_after c,
          tv_outbox_state = Pending, tv_delivery_attempts = 0 \<rparr>
     \<and> s' = s\<lparr> st_reservations := bt_remove (jc_invitation_id c) (st_reservations s),
              st_commits := bt_insert (jc_transaction_id c) (staged_record c) (st_commits s) \<rparr>)"
  using assms(2)
proof (cases rule: commit_cases)
  case installed
  have inv: "store_inv C s" using assms(1) by (simp add: reachable_inv)
  have "store_inv C s'" using commit_step [OF assms(2)] inv store_step_inv by blast
  then have "list_ex (\<lambda>r. cr_invitation_id r = jc_invitation_id c) (bt_values (st_commits s'))"
    unfolding iid_committed_list_ex [OF store_inv_wf [OF \<open>store_inv C s'\<close>]] iid_committed_def
    using installed(6) by (auto simp: bt_get_insert staged_record_def)
  then show ?thesis
    using installed commit_checks_ok(2) [OF installed(3) store_inv_wf [OF inv]]
    by (auto simp: invitation_state_of_def recover_def bt_get_simps staged_record_def)
qed simp

theorem commit_all_or_nothing_witness:
  "invitation_state_of (snd (commit_with_fault rfc_cbor
      (store_run rfc_cbor ex_empty [OpSeed (ex_reserved 1) 100]) (ex_commit 1 150) 110 AfterCommit))
    (replicate 16 1) = Some InvitationConsumed"
proof -
  have "jc_invitation_id (ex_commit 1 150) = replicate 16 1" by (simp add: ex_commit_def)
  with commit_all_or_nothing [OF refl ex_committed] show ?thesis unfolding ex_committed by auto
qed

text \<open>
  C3: after a commit that succeeded or whose response was lost, whatever operations follow, a retry
  of the same commit at any later time reports it as already committed and changes nothing.
\<close>

theorem commit_retry_is_idempotent:
  assumes "s = store_run C (InMemoryInviterJoinStore_new p scope) ops"
    and "commit_with_fault C s c now fault = (r, s1)" and "r \<in> {Ok Committed, Err OutcomeUnknown}"
    and "s2 = store_run C s1 ops'"
  shows "commit_with_fault C s2 c now' fault' = (Ok AlreadyCommitted, s2)"
  using assms(2)
proof (cases rule: commit_cases)
  case installed
  have inv: "store_inv C s1"
    using commit_step [OF assms(2)] reachable_inv store_step_inv assms(1) by blast
  note st = store_run_steps [OF inv, of ops', folded assms(4)]
  have "bt_get (st_commits s1) (jc_transaction_id c) = Some (staged_record c)"
    using installed(6) by (simp add: bt_get_insert)
  from store_steps_record [OF st this] obtain x where
    "bt_get (st_commits s2) (jc_transaction_id c) = Some x" "sealed x = sealed (staged_record c)"
    by blast
  moreover have "sealed (staged_record c) = staged_record c" by (simp add: sealed_def staged_record_def)
  moreover have "st_policy s2 = st_policy s"
    using store_steps_frame [OF st] installed(6) by simp
  ultimately show ?thesis
    using installed(1) by (simp add: commit_with_fault_def matches_iff_sealed)
qed (use assms(3) in auto)

theorem commit_retry_is_idempotent_witness:
  "commit_with_fault rfc_cbor (ex_empty\<lparr> st_commits := [(replicate 16 1, staged_record (ex_commit 1 150))] \<rparr>)
      (ex_commit 1 150) 900 FaultNone =
    (Ok AlreadyCommitted, ex_empty\<lparr> st_commits := [(replicate 16 1, staged_record (ex_commit 1 150))] \<rparr>)"
  using commit_retry_is_idempotent [OF refl ex_committed, of _ "[]"] by (simp add: store_run_def)

text \<open>
  C15: in every reachable store an invitation and a join request are each consumed by at most one
  transaction, and a consumed invitation is never also reserved.
\<close>

theorem consumption_is_unique:
  assumes "s = store_run C (InMemoryInviterJoinStore_new p scope) ops"
    and "bt_get (st_commits s) tid = Some r" and "bt_get (st_commits s) tid' = Some r'"
    and "cr_invitation_id r = cr_invitation_id r' \<or> cr_join_request_id r = cr_join_request_id r'"
  shows "tid = tid' \<and> invitation_state_of s (cr_invitation_id r) = Some InvitationConsumed"
proof -
  have inv: "store_inv C s" using assms(1) by (simp add: reachable_inv)
  have "iid_committed s (cr_invitation_id r)" using assms(2) by (auto simp: iid_committed_def)
  then have "invitation_state_of s (cr_invitation_id r) = Some InvitationConsumed"
    using inv iid_committed_list_ex [OF store_inv_wf [OF inv]]
    by (auto simp: store_inv_def invitation_state_of_def)
  moreover have "tid = tid'"
    using inv assms(2-4) unfolding store_inv_def commits_unique_def by blast
  ultimately show ?thesis by blast
qed

theorem consumption_is_unique_witness:
  "invitation_state_of (store_run rfc_cbor ex_empty ex_history) (replicate 16 1) = Some InvitationConsumed"
  using consumption_is_unique [OF refl, of rfc_cbor ex_tx_policy 0 ex_history "replicate 16 1"
      "staged_record (ex_commit 1 150)" "replicate 16 1" "staged_record (ex_commit 1 150)"]
  by (simp add: ex_history_run bt_get_def) (simp add: staged_record_def ex_commit_def)

text \<open>
  No operation ever alters what a commit recorded about membership (invitation, request, epoch,
  MLS state, Welcome, endpoint and lifetime); delivery only moves the outbox state, never decreases
  the attempt count, and a delivered record never changes again.
\<close>

theorem committed_membership_is_permanent:
  assumes "s = store_run C (InMemoryInviterJoinStore_new p scope) ops"
    and "bt_get (st_commits s) tid = Some r"
  shows "\<exists>r'. bt_get (st_commits (store_run C s ops')) tid = Some r' \<and> sealed r' = sealed r
    \<and> cr_delivery_attempts r \<le> cr_delivery_attempts r'
    \<and> (\<forall>sq. cr_outbox r = StoredDelivered sq \<longrightarrow> r' = r)"
  using store_steps_record [OF store_run_steps assms(2)] assms(1) reachable_inv by metis

theorem committed_membership_is_permanent_witness:
  "\<exists>r'. bt_get (st_commits (store_run rfc_cbor (store_run rfc_cbor ex_empty ex_history)
      [OpLeaseNext 120 10, OpFail (ex_lease 1)])) (replicate 16 1) = Some r'
    \<and> sealed r' = sealed (staged_record (ex_commit 1 150))"
  using committed_membership_is_permanent [OF refl, of rfc_cbor ex_tx_policy 0 ex_history "replicate 16 1"
      "staged_record (ex_commit 1 150)"]
  by (auto simp: ex_history_run bt_get_def)

text \<open>
  C26: a lease that has been superseded by a later lease of the same transaction is fenced for ever:
  whatever happens afterwards it can neither settle the delivery nor read the payload.
\<close>

theorem superseded_lease_is_fenced:
  assumes "s = store_run C (InMemoryInviterJoinStore_new p scope) ops"
    and "lease_delivery s tid t1 n1 = (Ok l1, s1)"
    and "lease_delivery (store_run C s1 ops1) tid t2 n2 = (Ok l2, s2)"
    and "s3 = store_run C s2 ops2"
  shows "complete_delivery s3 l1 now = (Err LeaseMismatch, s3)
    \<and> fail_delivery s3 l1 = (Err LeaseMismatch, s3) \<and> \<not> is_ok (delivery_payload s3 l1 now)"
proof -
  have i1: "store_inv C s1"
    using lease_delivery_step [OF assms(2)] reachable_inv store_step_inv assms(1) by blast
  have i2: "store_inv C s2"
    using lease_delivery_step [OF assms(3)] store_run_inv [OF i1] store_step_inv by blast
  obtain nxt where l1: "dl_transaction_id l1 = tid" "dl_lease_sequence l1 = st_next_lease_sequence s"
      "checked_add (st_next_lease_sequence s) 1 = Some nxt" "st_next_lease_sequence s1 = nxt"
    using assms(2) by (auto elim!: lease_delivery_ok)
  have "dl_lease_sequence l1 < st_next_lease_sequence (store_run C s1 ops1)"
    using checked_add_Some_less [OF l1(3)] l1 store_steps_frame [OF store_run_steps [OF i1, of ops1]] by auto
  then have "fenced s2 tid (dl_lease_sequence l1)"
    using assms(3) by (auto elim!: lease_delivery_ok simp: fenced_def bt_get_update
        dest: checked_add_Some_le intro: less_le_trans)
  then have "fenced s3 (dl_transaction_id l1) (dl_lease_sequence l1)"
    using store_steps_fenced [OF store_run_steps [OF i2]] l1(1) assms(4) by simp
  then show ?thesis using fenced_refuses by blast
qed

theorem superseded_lease_is_fenced_witness:
  "complete_delivery (ex_leased 2 135 2) (ex_lease 1) 126 = (Err LeaseMismatch, ex_leased 2 135 2)"
  using superseded_lease_is_fenced [OF refl ex_first_lease ex_second_lease refl, of "[]"]
  by (simp add: store_run_def)

text \<open>
  Every reachable store respects its policy: the number of reservations, commits and retired
  generations, the attempt count of each delivery, and the invariant that each record's outbox
  lifetime lies inside its envelope's, which lies inside its endpoint's.
\<close>

theorem store_respects_policy:
  "store_inv C (store_run C (InMemoryInviterJoinStore_new p scope) ops)
   \<and> committed_count (store_run C (InMemoryInviterJoinStore_new p scope) ops) \<le> tp_maximum_transactions p
   \<and> list_all (\<lambda>r. cr_delivery_attempts r \<le> tp_maximum_delivery_attempts p)
       (bt_values (st_commits (store_run C (InMemoryInviterJoinStore_new p scope) ops)))"
proof -
  let ?s = "store_run C (InMemoryInviterJoinStore_new p scope) ops"
  have inv: "store_inv C ?s" by (rule reachable_inv)
  have "list_all (\<lambda>r. cr_delivery_attempts r \<le> tp_maximum_delivery_attempts p) (bt_values (st_commits ?s))"
    using inv reachable_policy [of C p scope ops] bt_values_mem [OF store_inv_wf [OF inv]]
    by (auto simp: store_inv_def record_ok_def list_all_iff)
  with inv reachable_policy [of C p scope ops] show ?thesis
    by (simp add: store_inv_def committed_count_def)
qed

text \<open>
  Work leased through the outbox port is always deliverable: its envelope and endpoint are
  canonical, and at the time of the lease outbox, envelope and endpoint are all unexpired with
  nested lifetimes.
\<close>

theorem leased_work_is_deliverable:
  assumes "lease_next (store_run C (InMemoryInviterJoinStore_new p scope) ops) now secs = (Ok (Some w), s')"
  shows "deliverable C now (lw_welcome_envelope w) (lw_deposit_endpoint w) (lw_outbox_expires_at w)
    \<and> store_held s' (lw_lease w)"
  using owner.lease_next_deliverable [OF reachable_inv assms] owner.lease_next_held [OF reachable_inv assms]
  by blast

theorem leased_work_is_deliverable_witness:
  "deliverable rfc_cbor 120 ex_welcome ex_endpoint_bytes 150"
  using leased_work_is_deliverable [OF ex_lease_next] by simp

text \<open>
  Seeding a reservation never displaces one that is still live, whatever it has to evict to
  make room, and a refused seeding changes nothing.
\<close>

theorem seeding_keeps_live_reservations:
  assumes "s = store_run C (InMemoryInviterJoinStore_new p scope) ops"
    and "seed_reservation s ri now = (r, s')"
    and "bt_get (st_reservations s) iid = Some x" and "now < rr_expires_at x"
  shows "bt_get (st_reservations s') iid = Some x \<and> (\<not> is_ok r \<longrightarrow> s' = s)"
proof -
  have wf: "bt_wf (st_reservations s)"
    using reachable_inv assms(1) unfolding store_inv_def by blast
  have "iid \<noteq> old" if "oldest_expired (st_reservations s) now = Some old" for old
    using oldest_expired_Some [OF wf that] assms(3,4) by (metis not_le option.inject)
  moreover have "iid \<noteq> ri_invitation_id ri \<or> s' = s"
    using assms(2-4) by (auto simp: seed_reservation_def Let_def split: if_splits)
  ultimately show ?thesis
    using assms(2,3)
    by (auto simp: seed_reservation_def Let_def retire_reservation_upd(1) bt_get_simps
        split: if_splits option.splits)
qed

theorem seeding_keeps_live_reservations_witness:
  "bt_get (st_reservations (snd (seed_reservation
      (store_run rfc_cbor ex_empty [OpSeed (ex_reserved 1) 100]) (ex_reserved 2) 110))) (replicate 16 1)
    = Some (ex_reservation_record 1)"
  using seeding_keeps_live_reservations [OF refl prod.collapse [symmetric], of rfc_cbor ex_tx_policy 0
      "[OpSeed (ex_reserved 1) 100]" "replicate 16 1" "ex_reservation_record 1" 110 "ex_reserved 2"]
  unfolding ex_seed by (simp add: bt_get_def ex_reservation_record_def)

section \<open>A short-lived head blocks the outbox\<close>

lemma replicate_16_less: "replicate 16 (a :: u8) < replicate 16 b \<longleftrightarrow> a < b"
proof -
  have "replicate 16 x = x # replicate 15 x" for x :: u8 by (simp add: numeral_eq_Suc)
  then show ?thesis by auto
qed

definition ex_two :: inviter_store where
  "ex_two = store_run rfc_cbor ex_empty
     (ex_history @ [OpSeed (ex_reserved 2) 111] @ [OpCommit (ex_commit 2 200) 112 FaultNone])"

lemma ex_two_eq:
  "ex_two = ex_empty\<lparr> st_commits := [(replicate 16 1, staged_record (ex_commit 1 150)),
                                     (replicate 16 2, staged_record (ex_commit 2 200))] \<rparr>"
proof -
  let ?c1 = "(replicate 16 1 :: bytes, staged_record (ex_commit 1 150))"
  have seed: "store_run rfc_cbor (ex_empty\<lparr> st_commits := [?c1] \<rparr>) [OpSeed (ex_reserved 2) 111] =
      ex_empty\<lparr> st_reservations := [(replicate 16 2, ex_reservation_record 2)], st_commits := [?c1] \<rparr>"
    by (simp add: store_run_def seed_reservation_def ex_reserved_def InMemoryInviterJoinStore_new_def
        bt_values_def bt_get_def ex_tx_policy_def ex_reservation_record_def staged_record_def
        ex_commit_def Let_def)
  have ids: "\<not> replicate 16 (2 :: u8) < replicate 16 1" by (simp add: replicate_16_less word_less_nat_alt)
  show ?thesis
    unfolding ex_two_def store_run_append ex_history_run seed
    using ex_validate [of 2 200] ids
    by (simp add: store_run_def commit_with_fault_def commit_checks_def check_reservation_def
        check_replay_def fail_at_def InMemoryInviterJoinStore_new_def bt_get_def bt_values_def
        bt_remove_def ex_reservation_record_def)
      (simp add: ex_commit_def ex_tx_policy_def staged_record_def)
qed

text \<open>
  C40: when the first eligible item's outbox ends before the requested lease would, leasing the
  next item fails with a conflict, whatever other items could be leased: the short-lived item
  blocks the whole outbox until it expires.
\<close>

theorem short_lived_head_blocks_outbox:
  assumes "secs \<noteq> 0" and "secs \<le> tp_maximum_lease_seconds (st_policy s)"
    and "checked_add now secs = Some e"
    and "pending_transaction_ids (exhaust_attempts now s) now = tid # tids"
    and "bt_get (st_commits s) tid = Some r" and "cr_outbox_expires_at r < e" and "\<not> all_zero tid"
  shows "lease_next s now secs = (Err PortConflict, exhaust_attempts now s)"
proof -
  let ?s1 = "exhaust_attempts now s" and ?m = "tp_maximum_delivery_attempts (st_policy s)"
  have "bt_get (st_commits ?s1) tid = Some (exhaust_record ?m now r)"
      "tp_maximum_lease_seconds (st_policy ?s1) = tp_maximum_lease_seconds (st_policy s)"
      "cr_outbox_expires_at (exhaust_record ?m now r) = cr_outbox_expires_at r"
    using assms(5) by (simp_all add: exhaust_attempts_def bt_get_map_values exhaust_record_def)
  then have "lease_delivery ?s1 tid now secs = (Inl Expired, ?s1)"
    using assms(1-3,6,7) by (simp add: lease_delivery_def not_less)
  with assms(1-4) show ?thesis by (simp add: lease_next_def not_less Let_def)
qed

theorem short_lived_head_blocks_outbox_witness:
  "fst (lease_next ex_two 120 60) = Err PortConflict
   \<and> is_ok (fst (lease_delivery ex_two (replicate 16 2) 120 60))"
proof -
  have "bt_get (st_commits ex_two) (replicate 16 1) = Some (staged_record (ex_commit 1 150))"
    by (simp add: ex_two_eq bt_get_def)
  moreover have "pending_transaction_ids (exhaust_attempts 120 ex_two) 120 = [replicate 16 1, replicate 16 2]"
    by (simp add: ex_two_eq pending_transaction_ids_def exhaust_attempts_def exhaust_record_def ex_store_defs)
  moreover have "cr_outbox_expires_at (staged_record (ex_commit 1 150)) = 150"
    "tp_maximum_lease_seconds (st_policy ex_two) = 3600" "checked_add 120 60 = Some (180 :: u64)"
    by (simp_all add: ex_two_eq ex_store_defs)
  moreover have "is_ok (fst (lease_delivery ex_two (replicate 16 2) 120 60))"
    by (simp add: ex_two_eq lease_delivery_def ex_store_defs)
  ultimately show ?thesis
    using short_lived_head_blocks_outbox [of 60 ex_two 120 180 "replicate 16 1" "[replicate 16 2]"
        "staged_record (ex_commit 1 150)"]
    by (simp add: all_zero_replicate)
qed

end
