(* ===== verification/Delivery_Properties.thy ===== *)
theory Delivery_Properties
  imports Coordinator Inviter_Properties
begin

text \<open>
  The properties of the local mailbox, the transport values and the delivery coordinator
  (\<open>crates/session-transport\<close>), and of the whole delivery path from a committed join to the
  recipient's mailbox.
\<close>

section \<open>Concrete values\<close>

text \<open>A counting random provider and an injective digest.\<close>

definition ex_rng :: "u8 rng" where
  "ex_rng g n = (Some (replicate n g), g + 1)"

definition ex_sha :: "bytes \<Rightarrow> bytes" where
  "ex_sha bs = bs"

definition ex_mailbox_policy :: local_mailbox_policy where
  "ex_mailbox_policy = \<lparr> mp_maximum_lifetime = 1000, mp_maximum_live = 4 \<rparr>"

definition ex_transport :: local_transport where
  "ex_transport = \<lparr> lt_policy = ex_mailbox_policy, lt_instance_id = replicate 16 8, lt_mailboxes = [] \<rparr>"

definition ex_mailbox :: "accepted_envelope option \<Rightarrow> local_transport" where
  "ex_mailbox a = \<lparr> lt_policy = ex_mailbox_policy, lt_instance_id = replicate 16 8, lt_mailboxes =
     [(replicate 16 9, \<lparr> mr_expires_at = 300, mr_deposit_digest = capability_digest ex_sha (replicate 32 10),
         mr_receive_digest = capability_digest ex_sha (replicate 32 11),
         mr_acknowledgement_digest = capability_digest ex_sha (replicate 32 12), mr_accepted = a \<rparr>)] \<rparr>"

definition ex_accepted :: "opaque_envelope option \<Rightarrow> accepted_envelope" where
  "ex_accepted e = \<lparr> ae_envelope_id = replicate 16 7,
     ae_envelope_digest = domain_digest ex_sha ENVELOPE_DIGEST_DOMAIN ex_welcome,
     ae_delivery_id = replicate 16 13, ae_envelope = e \<rparr>"

definition ex_receive :: receive_capability where
  "ex_receive = \<lparr> rcap_transport_instance_id = replicate 16 8, rcap_mailbox_id = replicate 16 9,
     rcap_secret = replicate 32 11, rcap_expires_at = 300 \<rparr>"

definition ex_acknowledgement :: acknowledgement_capability where
  "ex_acknowledgement = \<lparr> acap_transport_instance_id = replicate 16 8, acap_mailbox_id = replicate 16 9,
     acap_secret = replicate 32 12, acap_expires_at = 300 \<rparr>"

lemmas ex_mailbox_defs = ex_rng_def ex_mailbox_policy_def ex_transport_def ex_mailbox_def ex_accepted_def
  ex_receive_def ex_acknowledgement_def random_nonzero_def IDENTIFIER_BYTES_def CAPABILITY_BYTES_def
  bt_get_def bt_update_def set_accepted_def secret_matches_def all_zero_replicate

lemma ex_new_transport:
  "LocalMemoryWelcomeTransport_new ex_rng ex_mailbox_policy 8 = (Inr ex_transport, 9)"
  by (simp add: LocalMemoryWelcomeTransport_new_def ex_mailbox_defs)

lemma ex_create:
  "create_welcome_mailbox ex_rng ex_sha ex_transport 9 300 100 =
     (Inr \<lparr> lm_deposit = ex_endpoint, lm_receive = ex_receive, lm_acknowledgement = ex_acknowledgement \<rparr>,
      ex_mailbox None, 13)"
  by (simp add: create_welcome_mailbox_def checked_sub_def install_mailbox_def DepositCapability_new_def
      LocalWelcomeDepositEndpoint_new_def reject_zero_def ex_endpoint_def bt_values_def bt_retain_def
      ex_mailbox_defs)

lemma ex_welcome_encoded: "OpaqueEnvelope_encode_canonical rfc_cbor ex_envelope = Inr ex_welcome"
  by (rule rfc.envelope.encode_decode [OF ex_welcome_ok(1)])

lemma ex_deposit:
  "deposit rfc_cbor ex_rng ex_sha (ex_mailbox None) 13 ex_endpoint ex_envelope 120 =
     (Inr (replicate 16 13), ex_mailbox (Some (ex_accepted (Some ex_envelope))), 14)"
proof -
  have "env_expires_at ex_envelope = 200" "envelope_id ex_envelope = replicate 16 7"
    by (simp_all add: ex_envelope_def)
  then show ?thesis
    by (simp add: deposit_def ex_welcome_encoded ex_endpoint_def ex_mailbox_defs Let_def)
qed

lemma ex_setup:
  "mailbox_run rfc_cbor ex_rng ex_sha (ex_transport, 9) [(MbCreate 300, 100)] = (ex_mailbox None, 13)"
  by (simp add: mailbox_run_def ex_create)

lemma mailbox_run_append:
  "mailbox_run C rng sha256 tg (xs @ ys) = mailbox_run C rng sha256 (mailbox_run C rng sha256 tg xs) ys"
  by (simp add: mailbox_run_def)

lemma reachable_mailbox_inv:
  assumes "LocalMemoryWelcomeTransport_new rng p g0 = (Inr t0, g1)"
    and "(t, g) = mailbox_run C rng sha256 (t0, g1) ops"
  shows "mailbox_inv C sha256 t"
  using mailbox_run_inv [of C sha256 "(t0, g1)" rng ops] mailbox_inv_new [OF assms(1)] assms(2)
  by (metis fst_conv)

section \<open>The local mailbox\<close>

text \<open>
  C24: once a mailbox accepts an envelope then, whatever operations follow before the mailbox
  expires, depositing the same envelope again before the envelope expires returns the same delivery
  identifier and changes nothing. Depositing another one there, of another identifier or with the same
  identifier and another digest of its encoding, is rejected and changes nothing, under any endpoint
  that names the mailbox and at any time.
\<close>

theorem deposit_is_idempotent:
  assumes "LocalMemoryWelcomeTransport_new rng p g0 = (Ok t0, g1)"
    and "(t, g) = mailbox_run C rng sha256 (t0, g1) ops"
    and "deposit C rng sha256 t g ep env now = (Ok did, t1, g2)"
    and "list_all (\<lambda>op. snd op < ep_expires_at ep) ops'"
    and "(t2, g3) = mailbox_run C rng sha256 (t1, g2) ops'" and "now' < env_expires_at env"
  shows "deposit C rng sha256 t2 g3 ep env now' = (Ok did, t2, g3)
    \<and> (\<forall>ep' env' now''. ep_mailbox_id ep' = ep_mailbox_id ep
        \<and> (envelope_id env' \<noteq> envelope_id env \<or> envelope_digest C sha256 env' \<noteq> envelope_digest C sha256 env)
        \<longrightarrow> deposit C rng sha256 t2 g3 ep' env' now'' = (Err Rejected, t2, g3))"
proof -
  have "mailbox_inv C sha256 t1"
    using mailbox_step_inv [OF deposit_step [OF assms(3)] reachable_mailbox_inv [OF assms(1,2)]] .
  then have h: "holds_delivery C sha256 t2 ep env did"
    using holds_delivery_run [of C sha256 "(t1, g2)" ep env did ops' rng] deposit_holds [OF assms(3)] assms(4,5)
    by (metis fst_conv)
  have ok: "\<not> all_zero (envelope_id env)" "env_expires_at env \<le> ep_expires_at ep"
    using assms(3) by (auto elim: deposit_ok_cases)
  show ?thesis
    by (intro conjI allI impI holds_delivery_redeposit [OF h ok(1) assms(6) ok(2)])
      (elim conjE, rule holds_delivery_conflict [OF h])
qed

theorem deposit_is_idempotent_witness:
  "deposit rfc_cbor ex_rng ex_sha (ex_mailbox (Some (ex_accepted (Some ex_envelope)))) 14
      ex_endpoint ex_envelope 150 =
    (Ok (replicate 16 13), ex_mailbox (Some (ex_accepted (Some ex_envelope))), 14)"
proof -
  have "env_expires_at ex_envelope = 200" by (simp add: ex_envelope_def)
  then show ?thesis
    using deposit_is_idempotent [OF ex_new_transport ex_setup [symmetric] ex_deposit, of "[]" _ _ 150, THEN conjunct1]
    by (simp add: mailbox_run_def)
qed

text \<open>
  C25: once a delivery is acknowledged then, whatever operations follow before the mailbox expires,
  the mailbox never hands out an envelope again, not even if its sender deposits it again.
\<close>

theorem acknowledged_is_never_redelivered:
  assumes "LocalMemoryWelcomeTransport_new rng p g0 = (Ok t0, g1)"
    and "(t, g) = mailbox_run C rng sha256 (t0, g1) ops"
    and "acknowledge sha256 t auth did now = (Ok (), t1)"
    and "list_all (\<lambda>op. snd op < acap_expires_at auth) ops'"
    and "(t2, g2) = mailbox_run C rng sha256 (t1, g) ops'"
    and "rcap_mailbox_id rauth = acap_mailbox_id auth"
  shows "fst (receive sha256 t2 rauth now') \<noteq> Ok (Some got)"
proof -
  have "mailbox_inv C sha256 t1"
    using mailbox_step_inv [OF acknowledge_step [OF assms(3)] reachable_mailbox_inv [OF assms(1,2)]] .
  then have "emptied t2 (acap_mailbox_id auth) (acap_expires_at auth)"
    using emptied_run [of C sha256 "(t1, g)" _ _ ops' rng] acknowledge_emptied [OF assms(3)] assms(4,5)
    by (metis fst_conv)
  then have "r = None" if "receive sha256 t2 rauth now' = (Inr r, t3)" for r t3
    using emptied_receive [OF _ that] by (simp add: assms(6))
  then show ?thesis by (metis option.distinct(1) prod.collapse)
qed

lemma ex_acknowledge:
  "acknowledge ex_sha (ex_mailbox (Some (ex_accepted (Some ex_envelope)))) ex_acknowledgement (replicate 16 13) 130
     = (Inr (), ex_mailbox (Some (ex_accepted None)))"
  by (simp add: acknowledge_def ex_mailbox_defs)

lemma ex_deposited:
  "mailbox_run rfc_cbor ex_rng ex_sha (ex_transport, 9) [(MbCreate 300, 100), (MbDeposit ex_endpoint ex_envelope, 120)]
     = (ex_mailbox (Some (ex_accepted (Some ex_envelope))), 14)"
  by (simp add: mailbox_run_def ex_create ex_deposit)

theorem acknowledged_is_never_redelivered_witness:
  "acknowledge ex_sha (ex_mailbox (Some (ex_accepted (Some ex_envelope)))) ex_acknowledgement (replicate 16 13) 130
     = (Ok (), ex_mailbox (Some (ex_accepted None)))
   \<and> fst (receive ex_sha (ex_mailbox (Some (ex_accepted None))) ex_receive 140)
     \<noteq> Ok (Some \<lparr> re_delivery_id = replicate 16 13, re_envelope = ex_envelope \<rparr>)"
proof -
  have "rcap_mailbox_id ex_receive = acap_mailbox_id ex_acknowledgement"
    by (simp add: ex_receive_def ex_acknowledgement_def)
  from acknowledged_is_never_redelivered [OF ex_new_transport ex_deposited [symmetric] ex_acknowledge,
      of "[]", OF _ _ this]
  show ?thesis by (simp add: mailbox_run_def ex_acknowledge)
qed

subsection \<open>Provenance of received envelopes\<close>

definition deposits_cover ::
    "(bytes \<Rightarrow> bytes) \<Rightarrow> (mailbox_op \<times> u64) list \<Rightarrow> local_transport \<Rightarrow> bool" where
  "deposits_cover sha256 ops t \<longleftrightarrow> (\<forall>mid r a env. bt_get (lt_mailboxes t) mid = Some r
     \<and> mr_accepted r = Some a \<and> ae_envelope a = Some env \<longrightarrow>
       (\<exists>ep now. (MbDeposit ep env, now) \<in> set ops \<and> ep_mailbox_id ep = mid
          \<and> mr_deposit_digest r = capability_digest sha256 (ep_deposit_capability ep)))"

lemma deposits_cover_mono:
  "deposits_cover sha256 ops t \<Longrightarrow> set ops \<subseteq> set ops' \<Longrightarrow> deposits_cover sha256 ops' t"
  unfolding deposits_cover_def by blast

lemma deposits_cover_drop:
  assumes "deposits_cover sha256 ops t" and "bt_get (lt_mailboxes t) mid = Some r"
    and "mr_accepted r = Some a" and "b = a \<or> b = a\<lparr> ae_envelope := None \<rparr>"
  shows "deposits_cover sha256 ops (set_accepted t mid (Some b))"
  using assms by (auto simp: deposits_cover_def set_accepted_def bt_get_update split: if_splits)

lemma deposits_cover_create:
  assumes "create_welcome_mailbox rng sha256 t g expires_at now = (r, t', g')"
    and "bt_wf (lt_mailboxes t)" and "deposits_cover sha256 ops t"
  shows "deposits_cover sha256 ops t'"
proof -
  have "deposits_cover sha256 ops (t\<lparr> lt_mailboxes := bt_insert mid new (bt_retain P (lt_mailboxes t)) \<rparr>)"
    if "mr_accepted new = None" for mid new P
    unfolding deposits_cover_def
  proof (intro allI impI)
    fix k x a env
    assume "bt_get (lt_mailboxes (t\<lparr> lt_mailboxes := bt_insert mid new (bt_retain P (lt_mailboxes t)) \<rparr>)) k
        = Some x \<and> mr_accepted x = Some a \<and> ae_envelope a = Some env"
    moreover from this that have "bt_get (lt_mailboxes t) k = Some x"
      using btree.get_prune_putD [OF assms(2), of mid new P k x] by auto
    ultimately show "\<exists>ep now. (MbDeposit ep env, now) \<in> set ops \<and> ep_mailbox_id ep = k
        \<and> mr_deposit_digest x = capability_digest sha256 (ep_deposit_capability ep)"
      using assms(3) unfolding deposits_cover_def by blast
  qed
  with assms(1,3) show ?thesis
    by (auto simp: create_welcome_mailbox_def install_mailbox_def Let_def
        split: option.splits if_splits prod.splits sum.splits)
qed

lemma deposits_cover_deposit:
  assumes "deposit C rng sha256 t g ep env now = (r, t', g')" and "deposits_cover sha256 ops t"
  shows "deposits_cover sha256 ((MbDeposit ep env, now) # ops) t'"
proof (cases r)
  case (Inl e)
  with assms deposit_err deposits_cover_mono show ?thesis by (metis set_subset_Cons)
next
  case (Inr did)
  from assms(1) [unfolded Inr] assms(2) show ?thesis
    by (elim deposit_ok_cases) (fastforce simp: deposits_cover_def set_accepted_def bt_get_update split: if_splits)
qed

lemma deposits_cover_apply:
  assumes "mailbox_inv C sha256 (fst tg)" and "deposits_cover sha256 ops (fst tg)"
  shows "deposits_cover sha256 (x # ops) (fst (mailbox_apply C rng sha256 tg x))"
proof -
  obtain t g op now where tg: "tg = (t, g)" and x: "x = (op, now)" by (cases tg; cases x) auto
  note weaken = deposits_cover_mono [OF _ set_subset_Cons]
  show ?thesis
  proof (cases op)
    case (MbCreate e)
    obtain r t' g' where "create_welcome_mailbox rng sha256 t g e now = (r, t', g')" by (metis prod_cases3)
    then show ?thesis
      using deposits_cover_create assms by (auto simp: MbCreate tg x mailbox_inv_def intro!: weaken)
  next
    case (MbDeposit ep env)
    obtain r t' g' where "deposit C rng sha256 t g ep env now = (r, t', g')" by (metis prod_cases3)
    then show ?thesis
      using deposits_cover_deposit assms(2) by (auto simp: MbDeposit tg x)
  next
    case (MbReceive auth)
    then show ?thesis
      using assms(2) drop_expired_cases
      by (auto simp: tg x receive_def Let_def split: option.splits intro!: weaken deposits_cover_drop)
  next
    case (MbAcknowledge auth did)
    then show ?thesis
      using assms(2)
      by (auto simp: tg x acknowledge_def split: option.splits intro!: weaken deposits_cover_drop)
  qed
qed

lemma deposits_cover_run:
  "mailbox_inv C sha256 (fst tg) \<Longrightarrow> deposits_cover sha256 pre (fst tg) \<Longrightarrow>
     deposits_cover sha256 (rev ops @ pre) (fst (mailbox_run C rng sha256 tg ops))"
  unfolding mailbox_run_def
proof (induction ops arbitrary: tg pre)
  case (Cons x ops)
  obtain op now where x: "x = (op, now)" by fastforce
  have "mailbox_inv C sha256 (fst (mailbox_apply C rng sha256 tg x))"
    using mailbox_step_inv [OF mailbox_apply_step Cons.prems(1)] by (simp add: x)
  from Cons.IH [OF this deposits_cover_apply [OF Cons.prems]] show ?case by simp
qed simp

lemma receive_some_cases:
  assumes "receive sha256 t auth now = (Inr (Some got), t')"
  obtains r a where "bt_get (lt_mailboxes t) (rcap_mailbox_id auth) = Some r"
    and "rcap_transport_instance_id auth = lt_instance_id t"
    and "now < rcap_expires_at auth" and "mr_expires_at r = rcap_expires_at auth"
    and "mr_receive_digest r = capability_digest sha256 (rcap_secret auth)"
    and "mr_accepted r = Some a" and "ae_envelope a = Some (re_envelope got)"
    and "re_delivery_id got = ae_delivery_id a" and "now < env_expires_at (re_envelope got)"
  using assms
  by (auto simp: receive_def Let_def drop_expired_def secret_matches_def not_le not_less
      split: option.splits if_splits)

lemma set_accepted_twice: "set_accepted (set_accepted t mid a) mid b = set_accepted t mid b"
proof -
  have "bt_update mid (\<lambda>r. r\<lparr> mr_accepted := b \<rparr>) (bt_update mid (\<lambda>r. r\<lparr> mr_accepted := a \<rparr>) m)
      = bt_update mid (\<lambda>r. r\<lparr> mr_accepted := b \<rparr>) m" for m :: "(ident, local_mailbox_record) btree_map"
    by (auto simp: bt_update_def)
  then show ?thesis by (simp add: set_accepted_def)
qed

lemma receive_again:
  assumes "receive sha256 t auth now = (Inr (Some got), t')"
  shows "receive sha256 t' auth now = (Inr (Some got), t')"
proof -
  from assms obtain r a where r: "bt_get (lt_mailboxes t) (rcap_mailbox_id auth) = Some r"
      "rcap_transport_instance_id auth = lt_instance_id t"
      "now < rcap_expires_at auth" "mr_expires_at r = rcap_expires_at auth"
      "mr_receive_digest r = capability_digest sha256 (rcap_secret auth)"
      "mr_accepted r = Some a" "ae_envelope a = Some (re_envelope got)"
      "re_delivery_id got = ae_delivery_id a" "now < env_expires_at (re_envelope got)"
    by (rule receive_some_cases)
  have live: "\<not> rcap_expires_at auth \<le> now" using r(3) by simp
  have drop: "drop_expired now a = a" using r(7,9) by (simp add: drop_expired_def)
  then have t': "t' = set_accepted t (rcap_mailbox_id auth) (Some a)"
    using assms r live by (simp add: receive_def secret_matches_def)
  have "bt_get (lt_mailboxes t') (rcap_mailbox_id auth) = Some (r\<lparr> mr_accepted := Some a \<rparr>)"
    and "lt_instance_id t' = lt_instance_id t"
    using r(1) by (simp_all add: t' set_accepted_def bt_get_update)
  with r drop live show ?thesis
    by (simp add: receive_def secret_matches_def t' set_accepted_twice)
qed

text \<open>
  C30: a mailbox hands out only an envelope that was deposited in it earlier with its deposit
  capability, only while that envelope and the mailbox are unexpired, and only to the holder of the
  receive capability; receiving does not use the delivery up.
\<close>

theorem received_was_deposited:
  assumes "LocalMemoryWelcomeTransport_new rng p g0 = (Ok t0, g1)"
    and "(t, g) = mailbox_run C rng sha256 (t0, g1) ops"
    and "receive sha256 t auth now = (Ok (Some got), t')"
  shows "\<exists>r ep at. bt_get (lt_mailboxes t) (rcap_mailbox_id auth) = Some r
      \<and> (MbDeposit ep (re_envelope got), at) \<in> set ops \<and> ep_mailbox_id ep = rcap_mailbox_id auth
      \<and> mr_deposit_digest r = capability_digest sha256 (ep_deposit_capability ep)
      \<and> mr_receive_digest r = capability_digest sha256 (rcap_secret auth)
      \<and> now < env_expires_at (re_envelope got) \<and> env_expires_at (re_envelope got) \<le> rcap_expires_at auth
      \<and> receive sha256 t' auth now = (Ok (Some got), t')"
proof -
  from assms(1) have "lt_mailboxes t0 = []"
    by (auto simp: LocalMemoryWelcomeTransport_new_def split: prod.splits sum.splits)
  then have "deposits_cover sha256 [] t0" by (simp add: deposits_cover_def bt_get_empty)
  then have cover: "deposits_cover sha256 (rev ops) t"
    using deposits_cover_run [of C sha256 "(t0, g1)" "[]" ops rng] mailbox_inv_new [OF assms(1)] assms(2)
    by (metis append_Nil2 fst_conv)
  from assms(3) obtain r a where r: "bt_get (lt_mailboxes t) (rcap_mailbox_id auth) = Some r"
      "mr_expires_at r = rcap_expires_at auth" "now < rcap_expires_at auth"
      "rcap_transport_instance_id auth = lt_instance_id t"
      "mr_receive_digest r = capability_digest sha256 (rcap_secret auth)"
      "mr_accepted r = Some a" "ae_envelope a = Some (re_envelope got)"
      "re_delivery_id got = ae_delivery_id a" "now < env_expires_at (re_envelope got)"
    by (rule receive_some_cases)
  obtain ep at where "(MbDeposit ep (re_envelope got), at) \<in> set ops" "ep_mailbox_id ep = rcap_mailbox_id auth"
      "mr_deposit_digest r = capability_digest sha256 (ep_deposit_capability ep)"
    using cover r(1,6,7) unfolding deposits_cover_def by (metis set_rev)
  moreover have "env_expires_at (re_envelope got) \<le> rcap_expires_at auth"
    using reachable_mailbox_inv [OF assms(1,2)] r(1,2,6,7)
    unfolding mailbox_inv_def accepted_ok_def by (metis (no_types))
  ultimately show ?thesis using r(1,5,9) receive_again [OF assms(3)] by blast
qed

lemma ex_received:
  "receive ex_sha (ex_mailbox (Some (ex_accepted (Some ex_envelope)))) ex_receive 130 =
     (Inr (Some \<lparr> re_delivery_id = replicate 16 13, re_envelope = ex_envelope \<rparr>),
      ex_mailbox (Some (ex_accepted (Some ex_envelope))))"
proof -
  have "env_expires_at ex_envelope = 200" by (simp add: ex_envelope_def)
  then show ?thesis by (simp add: receive_def drop_expired_def ex_mailbox_defs)
qed

theorem received_was_deposited_witness:
  "\<exists>r ep at. bt_get (lt_mailboxes (ex_mailbox (Some (ex_accepted (Some ex_envelope))))) (replicate 16 9) = Some r
     \<and> (MbDeposit ep ex_envelope, at) \<in> set [(MbCreate 300, 100), (MbDeposit ex_endpoint ex_envelope, 120)]
     \<and> mr_deposit_digest r = capability_digest ex_sha (ep_deposit_capability ep)"
  using received_was_deposited [OF ex_new_transport ex_deposited [symmetric] ex_received]
  by (auto simp: ex_receive_def)

subsection \<open>Creation\<close>

text \<open>
  A created mailbox has three pairwise different, non-zero authorities bound to this transport
  and to an identifier no mailbox had, lives no longer than the policy allows, and starts empty; its
  receive capability reads it and its deposit capability can fill it, and a refused creation changes
  nothing.
\<close>

theorem created_mailbox_is_separate:
  "case create_welcome_mailbox rng sha256 t g expires_at now of
     (Inl _, t', _) \<Rightarrow> t' = t
   | (Inr m, t', _) \<Rightarrow>
       bt_get (lt_mailboxes t) (ep_mailbox_id (lm_deposit m)) = None
       \<and> distinct [ep_deposit_capability (lm_deposit m), rcap_secret (lm_receive m), acap_secret (lm_acknowledgement m)]
       \<and> \<not> all_zero (ep_deposit_capability (lm_deposit m)) \<and> \<not> all_zero (rcap_secret (lm_receive m))
       \<and> \<not> all_zero (acap_secret (lm_acknowledgement m))
       \<and> ep_transport_instance_id (lm_deposit m) = lt_instance_id t
       \<and> ep_expires_at (lm_deposit m) = expires_at
       \<and> now < expires_at \<and> expires_at - now \<le> mp_maximum_lifetime (lt_policy t)
       \<and> receive sha256 t' (lm_receive m) now = (Ok None, t')
       \<and> mailbox_live now (the (bt_get (lt_mailboxes t') (ep_mailbox_id (lm_deposit m))))"
proof -
  have sub: "checked_sub expires_at now = Some l \<Longrightarrow> l \<noteq> 0 \<Longrightarrow> now < expires_at \<and> l = expires_at - now" for l
    by (auto simp: checked_sub_def not_le split: if_splits)
  show ?thesis
    by (auto simp: create_welcome_mailbox_def install_mailbox_def receive_def secret_matches_def
        bt_get_insert mailbox_live_def DepositCapability_new_def LocalWelcomeDepositEndpoint_new_def
        reject_zero_def not_less not_le
        split: option.splits if_splits prod.splits sum.splits dest!: sub random_nonzero_ok)
qed

section \<open>The delivery path\<close>

lemma local_deposit_ok:
  assumes "local_deposit C rng sha256 tg ep request ctl = (Inr did, (t', g'), ctl')"
  shows "\<exists>env now. OpaqueEnvelope_decode_canonical C (ce_bytes (dr_envelope request)) = Inr env
    \<and> deposit C rng sha256 (fst tg) (snd tg) ep env now = (Inr did, t', g')"
  using assms by (auto simp: local_deposit_def Let_def split: sum.splits if_splits prod.splits)

lemma lease_next_record:
  assumes "lease_next s now secs = (Inr (Some w), s')"
  shows "\<exists>r. bt_get (st_commits s') (dl_transaction_id (lw_lease w)) = Some r
    \<and> lw_welcome_envelope w = cr_welcome_envelope r \<and> lw_deposit_endpoint w = cr_deposit_endpoint r"
  using assms
  by (cases rule: lease_next_cases) (auto simp: delivery_payload_ok_iff LeasedWelcome_from_owner_def)

text \<open>
  C29: when a delivery pass over the in-memory store and the local mailbox reports acceptance, the
  Welcome it leased, at the time its control reports, is the one a committed transaction stores, and
  the store records that transaction as delivered. Its decoded envelope is in the mailbox the stored endpoint names,
  under that endpoint's capability: the envelope itself if the mailbox had accepted nothing before
  the pass; otherwise the mailbox had already accepted an envelope of that identifier and digest, and is unchanged.
\<close>

theorem accepted_delivery_reaches_mailbox:
  assumes "s = store_run C (InMemoryInviterJoinStore_new p scope) ops"
    and "run_once C policy store_port (LocalV1_resolve C) (local_adapter C rng sha256) s (t, g) ctl
      = (Some (Ok Accepted), s', (t', g'))"
  shows "\<exists>now w s1 r env ep did. rd_wall (ctl (Suc 0)) = Some now
    \<and> lease_next s now (cp_lease_seconds policy) = (Ok (Some w), s1)
    \<and> bt_get (st_commits s') (dl_transaction_id (lw_lease w)) = Some r
    \<and> map_option tv_outbox_state (recover s' (dl_transaction_id (lw_lease w))) = Some Delivered
    \<and> cr_welcome_envelope r = lw_welcome_envelope w \<and> cr_deposit_endpoint r = lw_deposit_endpoint w
    \<and> OpaqueEnvelope_decode_canonical C (cr_welcome_envelope r) = Ok env
    \<and> LocalWelcomeDepositEndpoint_decode_canonical C (cr_deposit_endpoint r) = Ok ep
    \<and> holds_delivery C sha256 t' ep env did
    \<and> (if accepted_in t (ep_mailbox_id ep) = None
       then map_option ae_envelope (accepted_in t' (ep_mailbox_id ep)) = Some (Some env) else t' = t)"
proof -
  have inv: "store_inv C s" unfolding assms(1) by (rule reachable_inv)
  from inv store_port_def assms(2) obtain now w s1 budget request ep ctl2 did ctl3
    where l: "lease_next s now (cp_lease_seconds policy) = (Inr (Some w), s1)"
      and prep: "prepare C (LocalV1_resolve C) w now budget = Some (request, ep)"
      and ad: "local_adapter C rng sha256 (t, g) ep request ctl2 = (Some (Inr did), (t', g'), ctl3)"
      and acc: "store_accepted s' (lw_lease w)"
      and rep: "\<exists>t. report_accepted s1 (lw_lease w) t = (Inr (), s')"
      and wall: "rd_wall (ctl (Suc 0)) = Some now"
    by (rule owner.run_once_accepted)
  obtain r where r: "bt_get (st_commits s1) (dl_transaction_id (lw_lease w)) = Some r"
      "lw_welcome_envelope w = cr_welcome_envelope r" "lw_deposit_endpoint w = cr_deposit_endpoint r"
    using lease_next_record [OF l] by blast
  obtain r' where r': "bt_get (st_commits s') (dl_transaction_id (lw_lease w)) = Some r'" "sealed r' = sealed r"
    using rep report_steps(1) store_step_record r(1) by metis
  have "cr_outbox r' = StoredDelivered (dl_lease_sequence (lw_lease w))"
    using acc r'(1) by (simp add: store_accepted_def)
  with r'(1) have dl: "map_option tv_outbox_state (recover s' (dl_transaction_id (lw_lease w))) = Some Delivered"
    by (simp add: recover_def)
  obtain env now' where env: "OpaqueEnvelope_decode_canonical C (lw_welcome_envelope w) = Inr env"
      "deposit C rng sha256 t g ep env now' = (Inr did, t', g')"
    using ad local_deposit_ok [of C rng sha256 "(t, g)" ep request ctl2 did t' g' ctl3] prepare_ok(1) [OF prep]
    by (auto simp: local_adapter_def split: prod.splits)
  have ep: "LocalWelcomeDepositEndpoint_decode_canonical C (lw_deposit_endpoint w) = Inr ep"
    using prepare_ok(3) [OF prep] by (auto simp: LocalV1_resolve_def ok_iff split: if_splits)
  have same: "cr_welcome_envelope r' = lw_welcome_envelope w" "cr_deposit_endpoint r' = lw_deposit_endpoint w"
    using sealed_fields(6,7) [OF r'(2)] r(2,3) by simp_all
  show ?thesis
    using wall l r'(1) dl same env(1) ep deposit_holds [OF env(2)] deposit_stores [OF env(2)] by metis
qed

definition ex_control :: control where
  "ex_control n = \<lparr> rd_cancelled = False, rd_monotonic = 0, rd_wall = Some 120 \<rparr>"

definition ex_coordinator :: coordinator_policy where
  "ex_coordinator = \<lparr> cp_operation_timeout = 1000, cp_lease_seconds = 10, cp_maximum_network_bytes = 65536 \<rparr>"

definition ex_budget :: operation_budget where
  "ex_budget = \<lparr> ob_deadline = 1000, ob_max_network_bytes = 65536, ob_max_attempts = 1 \<rparr>"

definition ex_request :: deposit_request where
  "ex_request = \<lparr> dr_envelope = \<lparr> ce_bytes = ex_welcome, ce_envelope_id = replicate 16 7, ce_expires_at = 200 \<rparr>,
     dr_budget = ex_budget \<rparr>"

lemma ex_control_rest: "after_reading ex_control = ex_control"
  by (simp add: after_reading_def ex_control_def fun_eq_iff)

lemma ex_checkpoint:
  "checkpoint ex_control ex_budget = Inr \<lparr> do_monotonic_now = 0, do_wall_now = 120 \<rparr>"
  by (simp add: checkpoint_def ex_control_def ex_budget_def)

lemma ex_envelope_fields: "env_expires_at ex_envelope = 200" "envelope_id ex_envelope = replicate 16 7"
  by (simp_all add: ex_envelope_def)

lemma ex_prepare:
  "prepare rfc_cbor (LocalV1_resolve rfc_cbor) \<lparr> lw_lease = ex_lease 1, lw_welcome_envelope = ex_welcome,
      lw_deposit_endpoint = ex_endpoint_bytes, lw_outbox_expires_at = 150 \<rparr> 120 ex_budget
    = Some (ex_request, ex_endpoint)"
proof -
  have "ep_expires_at ex_endpoint = 300" by (simp add: ex_endpoint_def)
  moreover have "length ex_welcome < 2 ^ 64" "length ex_welcome \<le> 65536"
    using ex_welcome_ok(2) by (simp_all add: MAX_WIRE_OBJECT_BYTES_def)
  moreover have "CanonicalEnvelope_from_canonical_bytes rfc_cbor ex_welcome = Inr (dr_envelope ex_request)"
    by (simp add: canonical_from_bytes_ok ex_welcome_ok(1) ex_envelope_fields ex_request_def all_zero_replicate)
  ultimately show ?thesis
    by (simp add: prepare_def LeasedWelcome_into_parts_def LocalV1_resolve_def ex_endpoint_ok(1)
        DepositRequest_new_def ex_request_def ex_budget_def not_le)
qed

lemma ex_endpoint_expiry: "ep_expires_at ex_endpoint = 300"
  by (simp add: ex_endpoint_def)

lemma ex_adapter:
  "local_adapter rfc_cbor ex_rng ex_sha (ex_mailbox None, 13) ex_endpoint ex_request ex_control =
     (Some (Inr (replicate 16 13)), (ex_mailbox (Some (ex_accepted (Some ex_envelope))), 14), ex_control)"
  by (simp add: local_adapter_def local_deposit_def ex_request_def ex_checkpoint ex_welcome_ok(1) ex_deposit
      ex_control_rest ex_endpoint_expiry)

lemma ex_accepted_report:
  "report_accepted (ex_leased 1 130 1) (ex_lease 1) 120 =
     (Inr (), ex_empty\<lparr> st_next_lease_sequence := 2,
       st_commits := [(replicate 16 1, (staged_record (ex_commit 1 150))
         \<lparr> cr_delivery_attempts := 1, cr_outbox := StoredDelivered 1 \<rparr>)] \<rparr>)"
  by (simp add: report_accepted_def complete_delivery_def require_local_lease_def set_outbox_def ex_store_defs)

lemma ex_pass:
  "run_once rfc_cbor ex_coordinator store_port (LocalV1_resolve rfc_cbor) (local_adapter rfc_cbor ex_rng ex_sha)
      (store_run rfc_cbor ex_empty ex_history) (ex_mailbox None, 13) ex_control =
    (Some (Inr Accepted), snd (report_accepted (ex_leased 1 130 1) (ex_lease 1) 120),
     (ex_mailbox (Some (ex_accepted (Some ex_envelope))), 14))"
proof -
  have "instant_checked_add (rd_monotonic (ex_control 0)) (cp_operation_timeout ex_coordinator) = Some 1000"
    and "OperationBudget_new 1000 (cp_maximum_network_bytes ex_coordinator) 1 = Inr ex_budget"
    and "cp_lease_seconds ex_coordinator = 10" and "rd_wall (ex_control 0) = Some 120"
    by (simp_all add: instant_checked_add_def instant_limit_def ex_control_def ex_coordinator_def
        OperationBudget_new_def ex_budget_def)
  then show ?thesis
    by (simp add: run_once_def ex_control_rest ex_checkpoint store_port_def ex_lease_next ex_prepare
        ex_adapter settle_def ex_accepted_report)
qed

lemma ex_mailbox_empty: "accepted_in (ex_mailbox None) mid = None"
  by (simp add: accepted_in_def ex_mailbox_defs bt_get_def)

theorem accepted_delivery_reaches_mailbox_witness:
  "\<exists>env ep did. OpaqueEnvelope_decode_canonical rfc_cbor ex_welcome = Ok env
    \<and> LocalWelcomeDepositEndpoint_decode_canonical rfc_cbor ex_endpoint_bytes = Ok ep
    \<and> holds_delivery rfc_cbor ex_sha (ex_mailbox (Some (ex_accepted (Some ex_envelope)))) ep env did
    \<and> map_option ae_envelope (accepted_in (ex_mailbox (Some (ex_accepted (Some ex_envelope)))) (ep_mailbox_id ep))
        = Some (Some env)"
  using accepted_delivery_reaches_mailbox [OF refl ex_pass] unfolding ex_accepted_report snd_conv
  by (auto simp: ex_store_defs ex_mailbox_empty split: if_splits)

text \<open>
  A delivery pass over the in-memory store calls leased work invalid only when its Welcome is
  larger than the pass may send, and then the lease is given back and nothing is recorded as
  delivered, whatever the adapter does.
\<close>

theorem invalid_work_only_over_budget:
  assumes "s = store_run C (InMemoryInviterJoinStore_new p scope) ops"
    and "run_once C policy store_port (LocalV1_resolve C) adapter s d ctl = (Some (Err InvalidOwnerWork), s', d')"
  shows "\<exists>now w s1. lease_next s now (cp_lease_seconds policy) = (Ok (Some w), s1)
    \<and> unat (cp_maximum_network_bytes policy) < length (lw_welcome_envelope w)
    \<and> \<not> store_held s' (lw_lease w) \<and> \<not> store_accepted s' (lw_lease w)"
proof -
  have "store_inv C s" unfolding assms(1) by (rule reachable_inv)
  from this store_port_def assms(2) obtain now w s1
    where "lease_next s now (cp_lease_seconds policy) = (Inr (Some w), s1)"
      "unat (cp_maximum_network_bytes policy) < length (lw_welcome_envelope w)"
      "\<not> store_held s' (lw_lease w)" "\<not> store_accepted s' (lw_lease w)"
    by (rule owner.run_once_invalid_work)
  then show ?thesis by blast
qed

definition ex_narrow :: coordinator_policy where
  "ex_narrow = \<lparr> cp_operation_timeout = 1000, cp_lease_seconds = 10, cp_maximum_network_bytes = 1 \<rparr>"

lemma ex_prepare_narrow:
  "prepare rfc_cbor (LocalV1_resolve rfc_cbor) \<lparr> lw_lease = ex_lease 1, lw_welcome_envelope = ex_welcome,
      lw_deposit_endpoint = ex_endpoint_bytes, lw_outbox_expires_at = 150 \<rparr> 120 (ex_budget\<lparr> ob_max_network_bytes := 1 \<rparr>)
    = None"
proof -
  have "length ex_welcome > 1" using ex_welcome_ok(2) by auto
  moreover have "CanonicalEnvelope_from_canonical_bytes rfc_cbor ex_welcome = Inr (dr_envelope ex_request)"
    by (simp add: canonical_from_bytes_ok ex_welcome_ok(1) ex_envelope_fields ex_request_def all_zero_replicate)
  ultimately show ?thesis
    by (simp add: prepare_def LeasedWelcome_into_parts_def LocalV1_resolve_def ex_endpoint_ok(1)
        ex_endpoint_expiry DepositRequest_new_def ex_request_def not_le)
qed

lemma ex_narrow_pass:
  "run_once rfc_cbor ex_narrow store_port (LocalV1_resolve rfc_cbor) (local_adapter rfc_cbor ex_rng ex_sha)
      (store_run rfc_cbor ex_empty ex_history) (ex_mailbox None, 13) ex_control =
    (Some (Inl InvalidOwnerWork), snd (report_failed (ex_leased 1 130 1) (ex_lease 1)), (ex_mailbox None, 13))"
proof -
  have "instant_checked_add (rd_monotonic (ex_control 0)) (cp_operation_timeout ex_narrow) = Some 1000"
    and "OperationBudget_new 1000 (cp_maximum_network_bytes ex_narrow) 1 = Inr (ex_budget\<lparr> ob_max_network_bytes := 1 \<rparr>)"
    and "cp_lease_seconds ex_narrow = 10"
    and "checkpoint ex_control (ex_budget\<lparr> ob_max_network_bytes := 1 \<rparr>) = Inr \<lparr> do_monotonic_now = 0, do_wall_now = 120 \<rparr>"
    by (simp_all add: instant_checked_add_def instant_limit_def ex_control_def ex_narrow_def
        OperationBudget_new_def ex_budget_def checkpoint_def)
  moreover obtain s2 where "report_failed (ex_leased 1 130 1) (ex_lease 1) = (Inr (), s2)"
    by (simp add: report_failed_def fail_delivery_def require_local_lease_def ex_store_defs)
  ultimately show ?thesis
    by (simp add: run_once_def ex_control_rest store_port_def ex_lease_next ex_prepare_narrow
        release_invalid_def report_failure_def)
qed

theorem invalid_work_only_over_budget_witness:
  "\<exists>now w s1. lease_next (store_run rfc_cbor ex_empty ex_history) now 10 = (Ok (Some w), s1)
    \<and> 1 < length (lw_welcome_envelope w)"
  using invalid_work_only_over_budget [OF refl ex_narrow_pass] by (auto simp: ex_narrow_def)

section \<open>Received batches\<close>

text \<open>
  A receive batch is accepted exactly when it has no more items than were asked for, no delivery
  twice, no expired envelope and no more bytes than were asked for; it keeps the items, the cursor
  and the binding of its request.
\<close>

theorem receive_batch_exact:
  "ReceiveBatch_new items cursor request now = Ok batch \<longleftrightarrow>
     length items \<le> unat (pr_max_envelopes request)
     \<and> distinct (map rc_delivery_id items)
     \<and> list_all (\<lambda>i. now < ce_expires_at (rc_envelope i)) items
     \<and> sum_list (map (\<lambda>i. length (ce_bytes (rc_envelope i))) items) \<le> unat (pr_max_encoded_bytes request)
     \<and> batch = \<lparr> rb_items = items, rb_next_cursor = cursor, rb_receive_binding = pr_receive_binding request \<rparr>"
proof -
  have "list_ex (\<lambda>i. rc_delivery_id (items ! i) \<in> rc_delivery_id ` set (drop (i + 1) items)) [0..<length items]
      \<longleftrightarrow> list_ex (\<lambda>i. map rc_delivery_id items ! i \<in> set (drop (i + 1) (map rc_delivery_id items)))
            [0..<length (map rc_delivery_id items)]"
    by (auto simp: list_ex_iff drop_map)
  then have twice: "list_ex (\<lambda>i. rc_delivery_id (items ! i) \<in> rc_delivery_id ` set (drop (i + 1) items))
      [0..<length items] \<longleftrightarrow> \<not> distinct (map rc_delivery_id items)"
    unfolding pairwise_distinct_iff .
  have "unat (pr_max_encoded_bytes request) < 2 ^ 64"
    using unsigned_less [of "pr_max_encoded_bytes request", where 'a = nat] by simp
  then have "check_batch_items items n (pr_max_encoded_bytes request) now = Inr u \<longleftrightarrow>
      list_all (\<lambda>i. now < ce_expires_at (rc_envelope i)) items
      \<and> (items = [] \<or> n + sum_list (map (\<lambda>i. length (ce_bytes (rc_envelope i))) items) \<le> unat (pr_max_encoded_bytes request))"
    for n u by (induction items arbitrary: n) (force simp: Let_def not_le)+
  from this [of 0] show ?thesis
    unfolding ReceiveBatch_new_def twice by (auto simp: ok_iff not_less split: if_splits)
qed

end
