(* ===== verification/Lifecycle.thy ===== *)
theory Lifecycle
  imports Transport_Contract
begin

text \<open>
  The reusable-mailbox lifecycle values of \<open>crates/session-transport/src/lifecycle.rs\<close>: cursor
  bindings, the provider's declaration, issuance and rotation requests and the results a provider
  may return for them. A newtype whose constructor only rejects a bad value is its underlying type;
  operation rights are the provider material they tag.
\<close>

section \<open>Identifiers\<close>

datatype mailbox_lifecycle_error =
    InvalidBindingFingerprint
  | InvalidContinuityId
  | InvalidGeneration
  | GenerationExhausted
  | InvalidReceiveScope
  | InvalidCursorSchema
  | InvalidProviderStateEpoch
  | InvalidExpiry
  | InvalidLifecycleDeclaration
  | UnsupportedLifecycleProfile
  | InvalidRotationId
  | InvalidRotation
  | ProviderResultMismatch

definition BindingFingerprint_from_bytes :: "bytes \<Rightarrow> mailbox_lifecycle_error + bytes" where
  "BindingFingerprint_from_bytes bs = (if all_zero bs then Err InvalidBindingFingerprint else Ok bs)"

definition MailboxContinuityId_from_provider_bytes :: "bytes \<Rightarrow> mailbox_lifecycle_error + ident" where
  "MailboxContinuityId_from_provider_bytes bs = (if all_zero bs then Err InvalidContinuityId else Ok bs)"

definition MailboxGeneration_new :: "u64 \<Rightarrow> mailbox_lifecycle_error + u64" where
  "MailboxGeneration_new v = (if v = 0 then Err InvalidGeneration else Ok v)"

definition MailboxGeneration_successor :: "u64 \<Rightarrow> mailbox_lifecycle_error + u64" where
  "MailboxGeneration_successor v =
     (case checked_add v 1 of Some v' \<Rightarrow> Ok v' | None \<Rightarrow> Err GenerationExhausted)"

definition ReceiveScopeFingerprint_from_bytes :: "bytes \<Rightarrow> mailbox_lifecycle_error + bytes" where
  "ReceiveScopeFingerprint_from_bytes bs = (if all_zero bs then Err InvalidReceiveScope else Ok bs)"

definition CursorSchemaVersion_new :: "u16 \<Rightarrow> mailbox_lifecycle_error + u16" where
  "CursorSchemaVersion_new v = (if v = 0 then Err InvalidCursorSchema else Ok v)"

definition ProviderStateEpoch_new :: "u64 \<Rightarrow> mailbox_lifecycle_error + u64" where
  "ProviderStateEpoch_new v = (if v = 0 then Err InvalidProviderStateEpoch else Ok v)"

definition RotationId_from_provider_bytes :: "bytes \<Rightarrow> mailbox_lifecycle_error + ident" where
  "RotationId_from_provider_bytes bs = (if all_zero bs then Err InvalidRotationId else Ok bs)"

section \<open>Cursor bindings\<close>

record cursor_binding =
  cb_profile :: transport_profile_id
  cb_binding_fingerprint :: bytes
  cb_continuity_id :: ident
  cb_generation :: u64
  cb_receive_scope :: bytes
  cb_cursor_schema :: u16
  cb_provider_state_epoch :: u64
  cb_expires_at :: u64

definition CursorBindingV1_new ::
    "transport_profile_id \<Rightarrow> bytes \<Rightarrow> ident \<Rightarrow> u64 \<Rightarrow> bytes \<Rightarrow> u16 \<Rightarrow> u64 \<Rightarrow> u64
      \<Rightarrow> mailbox_lifecycle_error + cursor_binding" where
  "CursorBindingV1_new profile fingerprint continuity generation scope schema epoch expires_at =
     (if profile = LocalV1 then Err UnsupportedLifecycleProfile
      else if expires_at = 0 then Err InvalidExpiry
      else Ok \<lparr> cb_profile = profile, cb_binding_fingerprint = fingerprint, cb_continuity_id = continuity,
                cb_generation = generation, cb_receive_scope = scope, cb_cursor_schema = schema,
                cb_provider_state_epoch = epoch, cb_expires_at = expires_at \<rparr>)"

record bound_cursor =
  bc_cursor :: bytes
  bc_binding :: cursor_binding

definition BoundCursorV1_new :: "bytes \<Rightarrow> cursor_binding \<Rightarrow> bound_cursor" where
  "BoundCursorV1_new cursor binding = \<lparr> bc_cursor = cursor, bc_binding = binding \<rparr>"

section \<open>Authorities and requests\<close>

record ('d, 'r, 'a, 'o) mailbox_authority_set =
  as_binding :: cursor_binding
  as_deposit :: 'd
  as_receive :: 'r
  as_acknowledgement :: 'a
  as_rotation :: 'o

definition MailboxAuthoritySetV1_from_provider ::
    "cursor_binding \<Rightarrow> 'd \<Rightarrow> 'r \<Rightarrow> 'a \<Rightarrow> 'o \<Rightarrow> ('d, 'r, 'a, 'o) mailbox_authority_set" where
  "MailboxAuthoritySetV1_from_provider binding d r a ro =
     \<lparr> as_binding = binding, as_deposit = d, as_receive = r, as_acknowledgement = a, as_rotation = ro \<rparr>"

record mailbox_issue_request =
  ir_profile :: transport_profile_id
  ir_binding_fingerprint :: bytes
  ir_expires_at :: u64
  ir_budget :: operation_budget

definition MailboxIssueRequestV1_new ::
    "transport_profile_id \<Rightarrow> bytes \<Rightarrow> u64 \<Rightarrow> operation_budget
      \<Rightarrow> mailbox_lifecycle_error + mailbox_issue_request" where
  "MailboxIssueRequestV1_new profile fingerprint expires_at budget =
     (if profile = LocalV1 then Err UnsupportedLifecycleProfile
      else if expires_at = 0 then Err InvalidExpiry
      else Ok \<lparr> ir_profile = profile, ir_binding_fingerprint = fingerprint, ir_expires_at = expires_at,
                ir_budget = budget \<rparr>)"

datatype rotation_mode = Routine u64 | Compromise

record rotation_request =
  rq_rotation_id :: ident
  rq_predecessor :: cursor_binding
  rq_successor_generation :: u64
  rq_mode :: rotation_mode
  rq_successor_expires_at :: u64
  rq_budget :: operation_budget

definition RotationRequestV1_new ::
    "ident \<Rightarrow> cursor_binding \<Rightarrow> rotation_mode \<Rightarrow> u64 \<Rightarrow> operation_budget
      \<Rightarrow> mailbox_lifecycle_error + rotation_request" where
  "RotationRequestV1_new rotation_id predecessor mode expires_at budget =
     (if expires_at = 0 then Err InvalidRotation
      else if (case mode of
                 Routine drain \<Rightarrow> drain = 0 \<or> drain > cb_expires_at predecessor \<or> drain \<ge> expires_at
               | Compromise \<Rightarrow> False)
      then Err InvalidRotation
      else and_then (MailboxGeneration_successor (cb_generation predecessor)) (\<lambda>generation.
        Ok \<lparr> rq_rotation_id = rotation_id, rq_predecessor = predecessor,
             rq_successor_generation = generation, rq_mode = mode,
             rq_successor_expires_at = expires_at, rq_budget = budget \<rparr>))"

section \<open>The provider's declaration\<close>

record lifecycle_contract =
  lc_profile :: transport_profile_id
  lc_cursor_schema :: u16
  lc_maximum_routine_drain_seconds :: u64

definition LifecycleProviderContractV1_new ::
    "transport_profile_id \<Rightarrow> u16 \<Rightarrow> u64 \<Rightarrow> mailbox_lifecycle_error + lifecycle_contract" where
  "LifecycleProviderContractV1_new profile schema drain =
     (if profile = LocalV1 then Err UnsupportedLifecycleProfile
      else if drain = 0 then Err InvalidLifecycleDeclaration
      else Ok \<lparr> lc_profile = profile, lc_cursor_schema = schema, lc_maximum_routine_drain_seconds = drain \<rparr>)"

definition validate_rotation_request ::
    "lifecycle_contract \<Rightarrow> rotation_request \<Rightarrow> u64 \<Rightarrow> mailbox_lifecycle_error + unit" where
  "validate_rotation_request lc rq now =
     (if now = 0
         \<or> cb_expires_at (rq_predecessor rq) \<le> now
         \<or> rq_successor_expires_at rq \<le> now
         \<or> cb_profile (rq_predecessor rq) \<noteq> lc_profile lc
         \<or> cb_cursor_schema (rq_predecessor rq) \<noteq> lc_cursor_schema lc
      then Err ProviderResultMismatch
      else (case rq_mode rq of
         Routine drain \<Rightarrow>
           if drain \<le> now \<or> saturating_sub drain now > lc_maximum_routine_drain_seconds lc
           then Err InvalidRotation else Ok ()
       | Compromise \<Rightarrow> Ok ()))"

definition validate_issue_request ::
    "lifecycle_contract \<Rightarrow> mailbox_issue_request \<Rightarrow> u64 \<Rightarrow> mailbox_lifecycle_error + unit" where
  "validate_issue_request lc rq now =
     (if now = 0 \<or> ir_expires_at rq \<le> now \<or> ir_profile rq \<noteq> lc_profile lc
      then Err ProviderResultMismatch else Ok ())"

section \<open>Results\<close>

record ('d, 'r, 'a, 'o) mailbox_issue_result =
  is_lifecycle_contract :: lifecycle_contract
  is_authorities :: "('d, 'r, 'a, 'o) mailbox_authority_set"

definition MailboxIssueResultV1_new ::
    "lifecycle_contract \<Rightarrow> mailbox_issue_request \<Rightarrow> ('d, 'r, 'a, 'o) mailbox_authority_set \<Rightarrow> u64
      \<Rightarrow> mailbox_lifecycle_error + ('d, 'r, 'a, 'o) mailbox_issue_result" where
  "MailboxIssueResultV1_new lc rq auths now =
     and_then (validate_issue_request lc rq now) (\<lambda>_.
       let binding = as_binding auths in
       if cb_profile binding \<noteq> ir_profile rq
          \<or> cb_binding_fingerprint binding \<noteq> ir_binding_fingerprint rq
          \<or> cb_cursor_schema binding \<noteq> lc_cursor_schema lc
          \<or> cb_expires_at binding \<noteq> ir_expires_at rq
       then Err ProviderResultMismatch
       else Ok \<lparr> is_lifecycle_contract = lc, is_authorities = auths \<rparr>)"

record ('d, 'r, 'a, 'o) mailbox_rotation_result =
  rs_lifecycle_contract :: lifecycle_contract
  rs_rotation_id :: ident
  rs_predecessor_generation :: u64
  rs_mode :: rotation_mode
  rs_authorities :: "('d, 'r, 'a, 'o) mailbox_authority_set"

definition MailboxRotationResultV1_new ::
    "lifecycle_contract \<Rightarrow> rotation_request \<Rightarrow> ('d, 'r, 'a, 'o) mailbox_authority_set \<Rightarrow> u64
      \<Rightarrow> mailbox_lifecycle_error + ('d, 'r, 'a, 'o) mailbox_rotation_result" where
  "MailboxRotationResultV1_new lc rq auths now =
     and_then (validate_rotation_request lc rq now) (\<lambda>_.
       let successor = as_binding auths; predecessor = rq_predecessor rq in
       if cb_profile successor \<noteq> lc_profile lc
          \<or> cb_binding_fingerprint successor \<noteq> cb_binding_fingerprint predecessor
          \<or> cb_continuity_id successor \<noteq> cb_continuity_id predecessor
          \<or> cb_generation successor \<noteq> rq_successor_generation rq
          \<or> cb_receive_scope successor = cb_receive_scope predecessor
          \<or> cb_cursor_schema successor \<noteq> cb_cursor_schema predecessor
          \<or> cb_provider_state_epoch successor \<noteq> cb_provider_state_epoch predecessor
          \<or> cb_expires_at successor \<noteq> rq_successor_expires_at rq
       then Err ProviderResultMismatch
       else Ok \<lparr> rs_lifecycle_contract = lc, rs_rotation_id = rq_rotation_id rq,
                 rs_predecessor_generation = cb_generation predecessor, rs_mode = rq_mode rq,
                 rs_authorities = auths \<rparr>)"

section \<open>What the constructors establish\<close>

lemma generation_successor_ok:
  "MailboxGeneration_successor v = Inr v' \<longleftrightarrow> v' = v + 1 \<and> v < v'"
  by (auto simp: MailboxGeneration_successor_def checked_add_1_iff checked_add_1_None split: option.splits)

lemma rotation_request_ok:
  assumes "RotationRequestV1_new rid pre mode e budget = Inr rq"
  shows "rq = \<lparr> rq_rotation_id = rid, rq_predecessor = pre, rq_successor_generation = cb_generation pre + 1,
                rq_mode = mode, rq_successor_expires_at = e, rq_budget = budget \<rparr>"
    and "cb_generation pre < cb_generation pre + 1"
    and "mode = Routine drain \<Longrightarrow> 0 < drain \<and> drain \<le> cb_expires_at pre \<and> drain < e"
  using assms
  by (auto simp: RotationRequestV1_new_def ok_iff generation_successor_ok word_neq_0_conv not_less not_le
      split: if_splits rotation_mode.splits)

end
