(* ===== verification/Receive_State.thy ===== *)
theory Receive_State
  imports Lifecycle
begin

text \<open>
  The receive checkpoints of \<open>crates/session-transport/src/receive_state.rs\<close>: the compare-and-swap
  revision, the binding a poll carries, the four checkpoint positions, the page commit and the
  resynchronization request. The owner port is the locale \<open>receive_state_owner\<close>.
\<close>

section \<open>Revisions and positions\<close>

datatype receive_state_error =
    InvalidCheckpointRevision
  | CheckpointRevisionExhausted
  | CursorBindingMismatch
  | ReceivePageBindingMismatch
  | ExpiredCursorBinding
  | InvalidReceivePage
  | DeduplicationOutcomeCardinalityMismatch

definition ReceiveCheckpointRevision_new :: "u64 \<Rightarrow> receive_state_error + u64" where
  "ReceiveCheckpointRevision_new v = (if v = 0 then Err InvalidCheckpointRevision else Ok v)"

definition ReceiveCheckpointRevision_successor :: "u64 \<Rightarrow> receive_state_error + u64" where
  "ReceiveCheckpointRevision_successor v =
     (case checked_add v 1 of Some v' \<Rightarrow> Ok v' | None \<Rightarrow> Err CheckpointRevisionExhausted)"

datatype resynchronization_reason = ReasonInvalidCursor | ReasonProviderStateReset

datatype checkpoint_position =
    NewGeneration
  | Resume bound_cursor
  | CommittedPageWithoutCursor
  | ExplicitResynchronization resynchronization_reason

record receive_checkpoint =
  cp_binding :: cursor_binding
  cp_revision :: u64
  cp_position :: checkpoint_position

datatype poll_position_binding =
    BoundNewGeneration
  | BoundResume bytes
  | BoundCommittedPageWithoutCursor
  | BoundExplicitResynchronization resynchronization_reason

record receive_poll_binding =
  pb_binding :: cursor_binding
  pb_revision :: u64
  pb_position :: poll_position_binding

fun position_binding :: "checkpoint_position \<Rightarrow> poll_position_binding" where
  "position_binding NewGeneration = BoundNewGeneration"
| "position_binding (Resume cursor) = BoundResume (bc_cursor cursor)"
| "position_binding CommittedPageWithoutCursor = BoundCommittedPageWithoutCursor"
| "position_binding (ExplicitResynchronization reason) = BoundExplicitResynchronization reason"

definition ReceivePollBindingV1_from_checkpoint :: "receive_checkpoint \<Rightarrow> receive_poll_binding" where
  "ReceivePollBindingV1_from_checkpoint cp =
     \<lparr> pb_binding = cp_binding cp, pb_revision = cp_revision cp,
       pb_position = position_binding (cp_position cp) \<rparr>"

section \<open>Checkpoints\<close>

definition checkpoint_at ::
    "cursor_binding \<Rightarrow> u64 \<Rightarrow> checkpoint_position \<Rightarrow> u64 \<Rightarrow> receive_state_error + receive_checkpoint" where
  "checkpoint_at binding revision position now =
     (if cb_expires_at binding \<le> now then Err ExpiredCursorBinding
      else Ok \<lparr> cp_binding = binding, cp_revision = revision, cp_position = position \<rparr>)"

definition ReceiveCheckpointV1_new_generation ::
    "cursor_binding \<Rightarrow> u64 \<Rightarrow> u64 \<Rightarrow> receive_state_error + receive_checkpoint" where
  "ReceiveCheckpointV1_new_generation binding revision now = checkpoint_at binding revision NewGeneration now"

definition ReceiveCheckpointV1_resume ::
    "cursor_binding \<Rightarrow> bound_cursor \<Rightarrow> u64 \<Rightarrow> u64 \<Rightarrow> receive_state_error + receive_checkpoint" where
  "ReceiveCheckpointV1_resume expected cursor revision now =
     (if bc_binding cursor \<noteq> expected then Err CursorBindingMismatch
      else checkpoint_at expected revision (Resume cursor) now)"

definition ReceiveCheckpointV1_from_recorded_resynchronization ::
    "cursor_binding \<Rightarrow> u64 \<Rightarrow> resynchronization_reason \<Rightarrow> u64 \<Rightarrow> receive_state_error + receive_checkpoint" where
  "ReceiveCheckpointV1_from_recorded_resynchronization binding revision reason now =
     checkpoint_at binding revision (ExplicitResynchronization reason) now"

definition ReceiveCheckpointV1_committed_page_without_cursor ::
    "cursor_binding \<Rightarrow> u64 \<Rightarrow> u64 \<Rightarrow> receive_state_error + receive_checkpoint" where
  "ReceiveCheckpointV1_committed_page_without_cursor binding revision now =
     checkpoint_at binding revision CommittedPageWithoutCursor now"

fun position_cursor :: "checkpoint_position \<Rightarrow> bytes option" where
  "position_cursor (Resume cursor) = Some (bc_cursor cursor)"
| "position_cursor _ = None"

definition poll_cursor :: "receive_checkpoint \<Rightarrow> bytes option" where
  "poll_cursor cp = position_cursor (cp_position cp)"

definition is_committed_page_without_cursor :: "receive_checkpoint \<Rightarrow> bool" where
  "is_committed_page_without_cursor cp \<longleftrightarrow> cp_position cp = CommittedPageWithoutCursor"

definition resynchronization_reason_of :: "receive_checkpoint \<Rightarrow> resynchronization_reason option" where
  "resynchronization_reason_of cp =
     (case cp_position cp of ExplicitResynchronization reason \<Rightarrow> Some reason | _ \<Rightarrow> None)"

definition ensure_live :: "receive_checkpoint \<Rightarrow> u64 \<Rightarrow> receive_state_error + unit" where
  "ensure_live cp now = (if cb_expires_at (cp_binding cp) \<le> now then Err ExpiredCursorBinding else Ok ())"

definition checkpoint_poll_request ::
    "receive_checkpoint \<Rightarrow> u16 \<Rightarrow> u32 \<Rightarrow> duration \<Rightarrow> operation_budget \<Rightarrow> u64
      \<Rightarrow> receive_state_error + receive_poll_binding poll_request" where
  "checkpoint_poll_request cp max_envelopes max_bytes wait budget now =
     and_then (ensure_live cp now) (\<lambda>_.
     and_then (case poll_cursor cp of
                 None \<Rightarrow> Ok None
               | Some bs \<Rightarrow> (case Cursor_new bs of Inl _ \<Rightarrow> Err InvalidReceivePage | Inr c \<Rightarrow> Ok (Some c))) (\<lambda>cursor.
       (case PollRequest_new cursor max_envelopes max_bytes wait budget of
          Inl _ \<Rightarrow> Err InvalidReceivePage
        | Inr request \<Rightarrow>
          Ok (PollRequest_bind_receive_checkpoint request (ReceivePollBindingV1_from_checkpoint cp)))))"

section \<open>Transitions\<close>

record resynchronization_request =
  rr_expected_checkpoint :: receive_checkpoint
  rr_reason :: resynchronization_reason
  rr_successor_revision :: u64

definition ResynchronizationRequestV1_new ::
    "receive_checkpoint \<Rightarrow> resynchronization_reason \<Rightarrow> u64 \<Rightarrow> receive_state_error + resynchronization_request" where
  "ResynchronizationRequestV1_new cp reason now =
     and_then (ensure_live cp now) (\<lambda>_.
     and_then (ReceiveCheckpointRevision_successor (cp_revision cp)) (\<lambda>successor.
       Ok \<lparr> rr_expected_checkpoint = cp, rr_reason = reason, rr_successor_revision = successor \<rparr>))"

record receive_page_commit =
  pc_expected_checkpoint :: receive_checkpoint
  pc_items :: "received_canonical_envelope list"
  pc_next_cursor :: "bound_cursor option"
  pc_acknowledgement_intent :: "ident list option"

definition ReceivePageCommitV1_new ::
    "receive_checkpoint \<Rightarrow> receive_poll_binding receive_batch \<Rightarrow> receive_state_error + receive_page_commit" where
  "ReceivePageCommitV1_new cp batch =
     (if rb_receive_binding batch \<noteq> Some (ReceivePollBindingV1_from_checkpoint cp)
      then Err ReceivePageBindingMismatch
      else
        and_then (if rb_items batch = [] then Ok None
                  else (case BoundedDeliveryIds_new (map rc_delivery_id (rb_items batch)) of
                          Inl _ \<Rightarrow> Err InvalidReceivePage
                        | Inr ids \<Rightarrow> Ok (Some ids))) (\<lambda>intent.
          Ok \<lparr> pc_expected_checkpoint = cp, pc_items = rb_items batch,
               pc_next_cursor = map_option (\<lambda>c. BoundCursorV1_new c (cp_binding cp)) (rb_next_cursor batch),
               pc_acknowledgement_intent = intent \<rparr>))"

datatype deduplication_outcome = Stored | Duplicate

section \<open>What the constructors establish\<close>

lemma revision_successor_ok:
  "ReceiveCheckpointRevision_successor v = Inr v' \<longleftrightarrow> v' = v + 1 \<and> v < v'"
  by (auto simp: ReceiveCheckpointRevision_successor_def checked_add_1_iff checked_add_1_None split: option.splits)

lemma bounded_delivery_ids_ok:
  "BoundedDeliveryIds_new ids = Inr ids' \<longleftrightarrow>
     ids' = ids \<and> ids \<noteq> [] \<and> length ids \<le> unat MAX_ACKNOWLEDGEMENT_IDS \<and> distinct ids"
  unfolding BoundedDeliveryIds_new_def pairwise_distinct_iff by auto

lemma bounded_delivery_ids_err:
  "BoundedDeliveryIds_new ids = Inl e \<longleftrightarrow> e = InvalidAcknowledgementBatch
     \<and> \<not> (ids \<noteq> [] \<and> length ids \<le> unat MAX_ACKNOWLEDGEMENT_IDS \<and> distinct ids)"
  unfolding BoundedDeliveryIds_new_def pairwise_distinct_iff by auto

lemma page_commit_ok:
  "ReceivePageCommitV1_new cp batch = Inr pc \<longleftrightarrow>
     rb_receive_binding batch = Some (ReceivePollBindingV1_from_checkpoint cp)
     \<and> (rb_items batch \<noteq> [] \<longrightarrow> length (rb_items batch) \<le> unat MAX_ACKNOWLEDGEMENT_IDS
          \<and> distinct (map rc_delivery_id (rb_items batch)))
     \<and> pc = \<lparr> pc_expected_checkpoint = cp, pc_items = rb_items batch,
              pc_next_cursor = map_option (\<lambda>c. BoundCursorV1_new c (cp_binding cp)) (rb_next_cursor batch),
              pc_acknowledgement_intent = (if rb_items batch = [] then None
                 else Some (map rc_delivery_id (rb_items batch))) \<rparr>"
  by (auto simp: ReceivePageCommitV1_new_def ok_iff bounded_delivery_ids_ok bounded_delivery_ids_err
      split: sum.splits if_splits)

text \<open>A poll binding identifies the checkpoint it was made from.\<close>

definition checkpoint_wf :: "receive_checkpoint \<Rightarrow> bool" where
  "checkpoint_wf cp \<longleftrightarrow> (\<forall>c. cp_position cp = Resume c \<longrightarrow> bc_binding c = cp_binding cp)"

lemma poll_binding_inject:
  assumes "ReceivePollBindingV1_from_checkpoint cp = ReceivePollBindingV1_from_checkpoint cp'"
    and "checkpoint_wf cp" and "checkpoint_wf cp'"
  shows "cp = cp'"
proof -
  have b: "cp_binding cp = cp_binding cp'" and r: "cp_revision cp = cp_revision cp'"
    and p: "position_binding (cp_position cp) = position_binding (cp_position cp')"
    using assms(1) by (simp_all add: ReceivePollBindingV1_from_checkpoint_def)
  have "cp_position cp = cp_position cp'"
  proof (cases "cp_position cp"; cases "cp_position cp'")
    fix c c' assume c: "cp_position cp = Resume c" "cp_position cp' = Resume c'"
    with p have "bc_cursor c = bc_cursor c'" by simp
    moreover have "bc_binding c = bc_binding c'" using c b assms(2,3) by (simp add: checkpoint_wf_def)
    ultimately show ?thesis using c by simp
  qed (use p in simp_all)
  with b r show ?thesis by simp
qed

section \<open>The owner port\<close>

text \<open>
  What the trait \<open>ReceiveStateOwnerPort\<close> promises its callers: a page commit is a compare-and-swap on
  the revision, stores every item exactly, and nothing an owner does forgets an item or goes back to
  an earlier revision. \<open>next\<close> is any one call or restart of the owner.
\<close>

locale receive_state_owner =
  fixes revision :: "'s \<Rightarrow> u64 option"
    and holds :: "'s \<Rightarrow> ident \<Rightarrow> bytes option"
    and commit_page :: "'s \<Rightarrow> receive_page_commit \<Rightarrow> u64 \<Rightarrow> ('e + 'g) \<times> 's"
    and "next" :: "'s \<Rightarrow> 's \<Rightarrow> bool"
  assumes commit_advances: "\<lbrakk> ReceivePageCommitV1_new cp batch = Inr pc; commit_page s pc now = (Inr cg, s') \<rbrakk>
      \<Longrightarrow> cp_revision cp < cp_revision cp + 1 \<and> revision s' = Some (cp_revision cp + 1)"
    and commit_stores: "\<lbrakk> ReceivePageCommitV1_new cp batch = Inr pc; commit_page s pc now = (Inr cg, s');
        i \<in> set (rb_items batch) \<rbrakk> \<Longrightarrow> holds s' (rc_delivery_id i) = Some (ce_bytes (rc_envelope i))"
    and commit_stale: "\<lbrakk> ReceivePageCommitV1_new cp batch = Inr pc; revision s = Some m; m \<noteq> cp_revision cp \<rbrakk>
      \<Longrightarrow> \<exists>e. commit_page s pc now = (Inl e, s)"
    and next_keeps: "\<lbrakk> next s s'; holds s k = Some v \<rbrakk> \<Longrightarrow> holds s' k = Some v"
    and next_revision: "\<lbrakk> next s s'; revision s = Some n \<rbrakk> \<Longrightarrow> \<exists>m. revision s' = Some m \<and> n \<le> m"
begin

lemma later_keeps: "next\<^sup>*\<^sup>* s s' \<Longrightarrow> holds s k = Some v \<Longrightarrow> holds s' k = Some v"
  by (induction rule: rtranclp_induct) (auto intro: next_keeps)

lemma later_revision: "next\<^sup>*\<^sup>* s s' \<Longrightarrow> revision s = Some n \<Longrightarrow> \<exists>m. revision s' = Some m \<and> n \<le> m"
proof (induction rule: rtranclp_induct)
  case (step y z)
  then show ?case using next_revision by (meson order.trans)
qed auto

lemma checkpoint_is_spent:
  assumes "ReceivePageCommitV1_new cp batch = Inr pc" and "commit_page s pc now = (Inr cg, s1)" and "next\<^sup>*\<^sup>* s1 s2"
    and "ReceivePageCommitV1_new cp' batch' = Inr pc'" and "cp_revision cp' \<le> cp_revision cp"
  shows "\<exists>e. commit_page s2 pc' now' = (Inl e, s2)"
proof -
  note a = commit_advances [OF assms(1,2)]
  then obtain m where "revision s2 = Some m" "cp_revision cp + 1 \<le> m" using later_revision [OF assms(3)] by blast
  with a assms(5) have "m \<noteq> cp_revision cp'" by (metis leD less_le_trans order.strict_trans1)
  with commit_stale [OF assms(4) \<open>revision s2 = Some m\<close>] show ?thesis by blast
qed

lemma page_is_held:
  assumes "ReceivePageCommitV1_new cp batch = Inr pc" and "commit_page s pc now = (Inr cg, s1)" and "next\<^sup>*\<^sup>* s1 s2"
  shows "i \<in> set (rb_items batch) \<Longrightarrow> holds s2 (rc_delivery_id i) = Some (ce_bytes (rc_envelope i))"
  using later_keeps [OF assms(3)] commit_stores [OF assms(1,2)] by blast

end

end
