(* ===== verification/Lifecycle_Provider.thy ===== *)
theory Lifecycle_Provider
  imports Receive_State
begin

text \<open>
  The deterministic reusable-mailbox provider,
  \<open>crates/transport-conformance/src/lifecycle_provider.rs\<close>: issuance and rotation of mailbox
  generations, deposit, cursor polling and acknowledgement. The \<open>Arc\<close> scope of the provider is a
  number. Its futures are ready at once, so each operation is one call.
\<close>

section \<open>State\<close>

definition MODEL_CURSOR_SCHEMA_V2 :: u16 where "MODEL_CURSOR_SCHEMA_V2 = 2"
definition PROVIDER_STATE_EPOCH_V1 :: u64 where "PROVIDER_STATE_EPOCH_V1 = 1"
definition MAXIMUM_ROUTINE_DRAIN_SECONDS :: u64 where "MAXIMUM_ROUTINE_DRAIN_SECONDS = 300"
definition MAX_ENVELOPES_PER_GENERATION :: usize where "MAX_ENVELOPES_PER_GENERATION = 64"

text \<open>The four kinds of provider material have the same three fields; the right is in their use.\<close>

record right_material =
  rm_scope :: nat
  rm_binding :: cursor_binding
  rm_token :: bytes

type_synonym provider_authorities =
  "(right_material, right_material, right_material, right_material) mailbox_authority_set"

record generation_material =
  gm_binding :: cursor_binding
  gm_deposit :: bytes
  gm_receive :: bytes
  gm_acknowledgement :: bytes
  gm_rotation :: bytes

record rotation_record =
  ro_rotation_id :: ident
  ro_predecessor :: cursor_binding
  ro_mode :: rotation_mode
  ro_successor_expires_at :: u64
  ro_successor :: generation_material

record stored_delivery =
  sd_sequence :: u64
  sd_delivery_id :: ident
  sd_envelope_id :: ident
  sd_canonical_bytes :: bytes
  sd_expires_at :: u64
  sd_acknowledged :: bool

record mailbox_state =
  ms_material :: generation_material
  ms_retire_at :: "u64 option"
  ms_deliveries :: "stored_delivery list"

record lifecycle_provider =
  lp_scope :: nat
  lp_contract :: lifecycle_contract
  lp_next_material :: u8
  lp_next_delivery_sequence :: u64
  lp_mailboxes :: "mailbox_state list"
  lp_active :: "cursor_binding list"
  lp_rotations :: "rotation_record list"

definition DeterministicLifecycleProviderV1_new :: "nat \<Rightarrow> lifecycle_provider" where
  "DeterministicLifecycleProviderV1_new scope =
     \<lparr> lp_scope = scope,
       lp_contract = \<lparr> lc_profile = FastV1, lc_cursor_schema = MODEL_CURSOR_SCHEMA_V2,
                       lc_maximum_routine_drain_seconds = MAXIMUM_ROUTINE_DRAIN_SECONDS \<rparr>,
       lp_next_material = 1, lp_next_delivery_sequence = 1, lp_mailboxes = [], lp_active = [],
       lp_rotations = [] \<rparr>"

definition failure :: "transport_failure_code \<Rightarrow> transport_failure" where
  "failure code = TransportFailure_new code Never"

text \<open>A fallible step that may change the provider, followed by the rest of the method.\<close>

definition run_then :: "('e + 'a) \<times> 's \<Rightarrow> ('a \<Rightarrow> 's \<Rightarrow> ('e + 'b) \<times> 's) \<Rightarrow> ('e + 'b) \<times> 's" where
  "run_then m f = (case m of (Inl e, s) \<Rightarrow> (Err e, s) | (Inr a, s) \<Rightarrow> f a s)"

section \<open>Material\<close>

definition take_material :: "lifecycle_provider \<Rightarrow> (transport_failure + u8) \<times> lifecycle_provider" where
  "take_material p =
     (case checked_add (lp_next_material p) 1 of
        None \<Rightarrow> (Err (failure QueueFull), p)
      | Some next \<Rightarrow> (Ok (lp_next_material p), p\<lparr> lp_next_material := next \<rparr>))"

definition internal :: "'e + 'a \<Rightarrow> transport_failure + 'a" where
  "internal r = map_err (\<lambda>_. failure Internal) r"

definition fresh_generation ::
    "lifecycle_provider \<Rightarrow> bytes \<Rightarrow> ident \<Rightarrow> u64 \<Rightarrow> u64
      \<Rightarrow> (transport_failure + generation_material) \<times> lifecycle_provider" where
  "fresh_generation p fingerprint continuity generation expires_at =
     run_then (take_material p) (\<lambda>m p1.
     run_then (internal (ReceiveScopeFingerprint_from_bytes (replicate 32 m)), p1) (\<lambda>scope p1.
     run_then (internal (ProviderStateEpoch_new PROVIDER_STATE_EPOCH_V1), p1) (\<lambda>epoch p1.
     run_then (internal (CursorBindingV1_new (lc_profile (lp_contract p1)) fingerprint continuity generation
         scope (lc_cursor_schema (lp_contract p1)) epoch expires_at), p1) (\<lambda>binding p1.
     run_then (take_material p1) (\<lambda>deposit p2.
     run_then (take_material p2) (\<lambda>receive p3.
     run_then (take_material p3) (\<lambda>acknowledgement p4.
     run_then (take_material p4) (\<lambda>rotation p5.
       (Ok \<lparr> gm_binding = binding, gm_deposit = replicate 32 deposit, gm_receive = replicate 32 receive,
             gm_acknowledgement = replicate 32 acknowledgement, gm_rotation = replicate 32 rotation \<rparr>, p5)))))))))"

definition authorities :: "generation_material \<Rightarrow> nat \<Rightarrow> provider_authorities" where
  "authorities m scope =
     MailboxAuthoritySetV1_from_provider (gm_binding m)
       \<lparr> rm_scope = scope, rm_binding = gm_binding m, rm_token = gm_deposit m \<rparr>
       \<lparr> rm_scope = scope, rm_binding = gm_binding m, rm_token = gm_receive m \<rparr>
       \<lparr> rm_scope = scope, rm_binding = gm_binding m, rm_token = gm_acknowledgement m \<rparr>
       \<lparr> rm_scope = scope, rm_binding = gm_binding m, rm_token = gm_rotation m \<rparr>"

definition fresh_mailbox :: "generation_material \<Rightarrow> mailbox_state" where
  "fresh_mailbox m = \<lparr> ms_material = m, ms_retire_at = None, ms_deliveries = [] \<rparr>"

section \<open>Issuance and rotation\<close>

type_synonym issue_outcome =
  "transport_failure + (right_material, right_material, right_material, right_material) mailbox_issue_result"

type_synonym rotation_outcome =
  "transport_failure + (right_material, right_material, right_material, right_material) mailbox_rotation_result"

definition issue_now ::
    "lifecycle_provider \<Rightarrow> lifecycle_contract \<Rightarrow> mailbox_issue_request \<Rightarrow> control
      \<Rightarrow> issue_outcome \<times> lifecycle_provider" where
  "issue_now p expected rq ctl =
     run_then (checkpoint ctl (ir_budget rq), p) (\<lambda>obs p.
       if expected \<noteq> lp_contract p \<or> \<not> is_ok (validate_issue_request (lp_contract p) rq (do_wall_now obs))
       then (Err (failure PolicyViolation), p)
       else
         run_then (take_material p) (\<lambda>m p1.
         run_then (internal (MailboxContinuityId_from_provider_bytes (replicate 16 m)), p1) (\<lambda>continuity p1.
         run_then (internal (MailboxGeneration_new 1), p1) (\<lambda>generation p1.
         run_then (fresh_generation p1 (ir_binding_fingerprint rq) continuity generation (ir_expires_at rq))
           (\<lambda>material p2.
         run_then (internal (MailboxIssueResultV1_new (lp_contract p2) rq (authorities material (lp_scope p2))
             (do_wall_now obs)), p2) (\<lambda>result p2.
           (Ok result, p2\<lparr> lp_mailboxes := lp_mailboxes p2 @ [fresh_mailbox material],
                            lp_active := lp_active p2 @ [gm_binding material] \<rparr>)))))))"

fun request_mode :: "rotation_mode \<Rightarrow> u64 option" where
  "request_mode (Routine drain) = Some drain"
| "request_mode Compromise = None"

definition find_mailbox :: "lifecycle_provider \<Rightarrow> cursor_binding \<Rightarrow> mailbox_state option" where
  "find_mailbox p b = find (\<lambda>m. gm_binding (ms_material m) = b) (lp_mailboxes p)"

fun position_of :: "('a \<Rightarrow> bool) \<Rightarrow> 'a list \<Rightarrow> nat option" where
  "position_of P [] = None"
| "position_of P (x # xs) = (if P x then Some 0 else map_option Suc (position_of P xs))"

definition retire_mailbox :: "cursor_binding \<Rightarrow> u64 \<Rightarrow> mailbox_state list \<Rightarrow> mailbox_state list" where
  "retire_mailbox b at ms =
     (case position_of (\<lambda>m. gm_binding (ms_material m) = b) ms of
        None \<Rightarrow> ms
      | Some i \<Rightarrow> ms[i := (ms ! i)\<lparr> ms_retire_at := Some at \<rparr>])"

text \<open>An identifier already used: an exact retry gets the same successor, anything else conflicts.\<close>

definition retry_rotation ::
    "lifecycle_provider \<Rightarrow> rotation_record \<Rightarrow> rotation_request \<Rightarrow> u64 \<Rightarrow> rotation_outcome" where
  "retry_rotation p r rq now =
     (if ro_predecessor r \<noteq> rq_predecessor rq \<or> ro_mode r \<noteq> rq_mode rq
         \<or> ro_successor_expires_at r \<noteq> rq_successor_expires_at rq
      then Err (failure IdempotencyConflict)
      else internal (MailboxRotationResultV1_new (lp_contract p) rq (authorities (ro_successor r) (lp_scope p)) now))"

definition install_successor ::
    "lifecycle_provider \<Rightarrow> rotation_request \<Rightarrow> nat \<Rightarrow> generation_material \<Rightarrow> u64 \<Rightarrow> lifecycle_provider" where
  "install_successor p rq active_index successor now =
     p\<lparr> lp_mailboxes := retire_mailbox (rq_predecessor rq)
          (case request_mode (rq_mode rq) of Some drain \<Rightarrow> drain | None \<Rightarrow> now) (lp_mailboxes p)
          @ [fresh_mailbox successor],
        lp_active := (lp_active p)[active_index := gm_binding successor],
        lp_rotations := lp_rotations p @ [\<lparr> ro_rotation_id = rq_rotation_id rq, ro_predecessor = rq_predecessor rq,
          ro_mode = rq_mode rq, ro_successor_expires_at = rq_successor_expires_at rq,
          ro_successor = successor \<rparr>] \<rparr>"

definition rotate_now ::
    "lifecycle_provider \<Rightarrow> lifecycle_contract \<Rightarrow> right_material \<Rightarrow> rotation_request \<Rightarrow> control
      \<Rightarrow> rotation_outcome \<times> lifecycle_provider" where
  "rotate_now p expected authority rq ctl =
     run_then (checkpoint ctl (rq_budget rq), p) (\<lambda>obs p.
       let now = do_wall_now obs; predecessor = rq_predecessor rq in
       if expected \<noteq> lp_contract p \<or> \<not> is_ok (validate_rotation_request (lp_contract p) rq now)
       then (Err (failure PolicyViolation), p)
       else if lp_scope p \<noteq> rm_scope authority then (Err (failure PolicyViolation), p)
       else if rm_binding authority \<noteq> predecessor
         \<or> (case find_mailbox p predecessor of None \<Rightarrow> True
            | Some m \<Rightarrow> gm_rotation (ms_material m) \<noteq> rm_token authority)
       then (Err (failure InvalidAuthority), p)
       else case find (\<lambda>r. ro_rotation_id r = rq_rotation_id rq) (lp_rotations p) of
         Some r \<Rightarrow> (retry_rotation p r rq now, p)
       | None \<Rightarrow>
         (case position_of (\<lambda>b. cb_continuity_id b = cb_continuity_id predecessor) (lp_active p) of
            None \<Rightarrow> (Err (failure AuthorityScopeMismatch), p)
          | Some i \<Rightarrow>
            if lp_active p ! i \<noteq> predecessor then (Err (failure AuthorityScopeMismatch), p)
            else
              run_then (fresh_generation p (cb_binding_fingerprint predecessor) (cb_continuity_id predecessor)
                  (rq_successor_generation rq) (rq_successor_expires_at rq)) (\<lambda>successor p1.
              run_then (internal (MailboxRotationResultV1_new (lp_contract p1) rq
                  (authorities successor (lp_scope p1)) now), p1) (\<lambda>result p1.
                if find_mailbox p1 predecessor = None then (Err (failure Internal), p1)
                else (Ok result, install_successor p1 rq i successor now)))))"

section \<open>Delivery\<close>

definition mailbox_index ::
    "lifecycle_provider \<Rightarrow> cursor_binding \<Rightarrow> bytes \<Rightarrow> (generation_material \<Rightarrow> bytes) \<Rightarrow> u64
      \<Rightarrow> transport_failure + nat" where
  "mailbox_index p b token expected now =
     (case position_of (\<lambda>m. gm_binding (ms_material m) = b) (lp_mailboxes p) of
        None \<Rightarrow> Err (failure InvalidAuthority)
      | Some i \<Rightarrow>
        (let m = lp_mailboxes p ! i in
         if expected (ms_material m) \<noteq> token \<or> cb_expires_at b \<le> now
            \<or> (case ms_retire_at m of None \<Rightarrow> False | Some at \<Rightarrow> at \<le> now)
         then Err (failure InvalidAuthority) else Ok i))"

definition delivery_id_bytes :: "u64 \<Rightarrow> ident" where
  "delivery_id_bytes sequence = 0xd1 # replicate 7 0 @ be_bytes 8 (unat sequence)"

definition push_delivery :: "nat \<Rightarrow> stored_delivery \<Rightarrow> mailbox_state list \<Rightarrow> mailbox_state list" where
  "push_delivery i d ms = ms[i := (ms ! i)\<lparr> ms_deliveries := ms_deliveries (ms ! i) @ [d] \<rparr>]"

definition accept_deposit ::
    "lifecycle_provider \<Rightarrow> nat \<Rightarrow> canonical_envelope \<Rightarrow> (transport_failure + ident) \<times> lifecycle_provider" where
  "accept_deposit p i env =
     (if length (ms_deliveries (lp_mailboxes p ! i)) \<ge> MAX_ENVELOPES_PER_GENERATION
      then (Err (failure QueueFull), p)
      else case checked_add (lp_next_delivery_sequence p) 1 of
        None \<Rightarrow> (Err (failure QueueFull), p)
      | Some next_sequence \<Rightarrow>
        (let did = delivery_id_bytes (lp_next_delivery_sequence p) in
         if all_zero did then (Err (failure Internal), p)
         else (Ok did,
           p\<lparr> lp_next_delivery_sequence := next_sequence,
              lp_mailboxes := push_delivery i
                \<lparr> sd_sequence = lp_next_delivery_sequence p, sd_delivery_id = did,
                  sd_envelope_id = ce_envelope_id env, sd_canonical_bytes = ce_bytes env,
                  sd_expires_at = ce_expires_at env, sd_acknowledged = False \<rparr> (lp_mailboxes p) \<rparr>)))"

definition deposit_now ::
    "lifecycle_provider \<Rightarrow> right_material \<Rightarrow> deposit_request \<Rightarrow> control
      \<Rightarrow> (transport_failure + ident) \<times> lifecycle_provider" where
  "deposit_now p endpoint rq ctl =
     run_then (checkpoint ctl (dr_budget rq), p) (\<lambda>first p.
       if lp_scope p \<noteq> rm_scope endpoint then (Err (failure PolicyViolation), p)
       else
         run_then (mailbox_index p (rm_binding endpoint) (rm_token endpoint) gm_deposit (do_wall_now first), p) (\<lambda>i p.
           if ce_expires_at (dr_envelope rq) \<le> do_wall_now first then (Err (failure ExpiredEnvelope), p)
           else case find (\<lambda>d. sd_envelope_id d = ce_envelope_id (dr_envelope rq)) (ms_deliveries (lp_mailboxes p ! i)) of
             Some existing \<Rightarrow>
               (if sd_canonical_bytes existing = ce_bytes (dr_envelope rq) then Ok (sd_delivery_id existing)
                else Err (failure IdempotencyConflict), p)
           | None \<Rightarrow>
             run_then (checkpoint (after_reading ctl) (dr_budget rq), p) (\<lambda>final p.
             run_then (mailbox_index p (rm_binding endpoint) (rm_token endpoint) gm_deposit (do_wall_now final), p)
               (\<lambda>j p. if ce_expires_at (dr_envelope rq) \<le> do_wall_now final then (Err (failure ExpiredEnvelope), p)
                      else accept_deposit p j (dr_envelope rq)))))"

definition cursor_scope :: "cursor_binding \<Rightarrow> bytes" where
  "cursor_scope b = cb_continuity_id b @ be_bytes 8 (unat (cb_generation b))
     @ be_bytes 8 (unat (cb_provider_state_epoch b))"

definition decode_cursor :: "bytes option \<Rightarrow> bytes \<Rightarrow> transport_failure + u64" where
  "decode_cursor cursor token =
     (case cursor of
        None \<Rightarrow> Ok 0
      | Some bs \<Rightarrow>
        if length bs \<noteq> 40 \<or> take 32 bs \<noteq> token then Err (failure FailInvalidCursor)
        else (let sequence = word_of_nat (be_nat (drop 32 bs)) in
          if sequence = 0 then Err (failure FailInvalidCursor) else Ok sequence))"

definition eligible :: "u64 \<Rightarrow> u64 \<Rightarrow> stored_delivery \<Rightarrow> bool" where
  "eligible cursor now d \<longleftrightarrow> sd_sequence d > cursor \<and> \<not> sd_acknowledged d \<and> sd_expires_at d > now"

text \<open>
  The paging loop over the eligible deliveries: it stops at the item or byte limit, and fails when
  the first item alone does not fit. It returns the items and the sequence of the last one.
\<close>

fun collect_page ::
    "cbor \<Rightarrow> receive_poll_binding poll_request \<Rightarrow> stored_delivery list \<Rightarrow> received_canonical_envelope list
      \<Rightarrow> usize \<Rightarrow> u64 \<Rightarrow> transport_failure + (received_canonical_envelope list \<times> u64)" where
  "collect_page C rq [] items encoded last_cursor = Ok (items, last_cursor)"
| "collect_page C rq (d # ds) items encoded last_cursor =
     (if length items \<ge> unat (pr_max_envelopes rq) then Ok (items, last_cursor)
      else let next_bytes = encoded + length (sd_canonical_bytes d) in
        if next_bytes \<ge> 2 ^ 64 then Err (failure EnvelopeTooLarge)
        else if next_bytes > unat (pr_max_encoded_bytes rq)
        then (if items = [] then Err (failure EnvelopeTooLarge) else Ok (items, last_cursor))
        else (case CanonicalEnvelope_from_canonical_bytes C (sd_canonical_bytes d) of
           Inl _ \<Rightarrow> Err (failure CorruptRemoteResponse)
         | Inr env \<Rightarrow>
           collect_page C rq ds (items @ [\<lparr> rc_delivery_id = sd_delivery_id d, rc_envelope = env \<rparr>])
             next_bytes (sd_sequence d)))"

definition encode_cursor :: "cursor_binding \<Rightarrow> u64 \<Rightarrow> bytes" where
  "encode_cursor b sequence = cursor_scope b @ be_bytes 8 (unat sequence)"

definition page_of ::
    "cbor \<Rightarrow> cursor_binding \<Rightarrow> receive_poll_binding poll_request \<Rightarrow> stored_delivery list \<Rightarrow> u64 \<Rightarrow> u64
      \<Rightarrow> transport_failure + receive_poll_binding receive_batch" where
  "page_of C b rq ds requested_cursor now =
     and_then (collect_page C rq (filter (eligible requested_cursor now) ds) [] 0 requested_cursor)
       (\<lambda>(items, last_cursor).
     and_then (if last_cursor = 0 then Ok None
               else and_then (internal (Cursor_new (encode_cursor b last_cursor))) (\<lambda>c. Ok (Some c)))
       (\<lambda>next_cursor.
         map_err (\<lambda>_. failure CorruptRemoteResponse) (ReceiveBatch_new items next_cursor rq now)))"

definition poll_now ::
    "cbor \<Rightarrow> lifecycle_provider \<Rightarrow> right_material \<Rightarrow> receive_poll_binding poll_request \<Rightarrow> control
      \<Rightarrow> transport_failure + receive_poll_binding receive_batch" where
  "poll_now C p authority rq ctl =
     and_then (checkpoint ctl (pr_budget rq)) (\<lambda>first.
       if lp_scope p \<noteq> rm_scope authority then Err (failure PolicyViolation)
       else
         and_then (mailbox_index p (rm_binding authority) (rm_token authority) gm_receive (do_wall_now first)) (\<lambda>i.
           if (case pr_receive_binding rq of None \<Rightarrow> False | Some rb \<Rightarrow> pb_binding rb \<noteq> rm_binding authority)
           then Err (failure FailInvalidCursor)
           else
             and_then (decode_cursor (pr_cursor rq) (cursor_scope (rm_binding authority))) (\<lambda>requested_cursor.
               let ds = ms_deliveries (lp_mailboxes p ! i);
                   maximum_sequence = (if ds = [] then 0 else sd_sequence (last ds)) in
               if requested_cursor > maximum_sequence then Err (failure FailInvalidCursor)
               else
                 and_then (checkpoint (after_reading ctl) (pr_budget rq)) (\<lambda>final.
                 and_then (mailbox_index p (rm_binding authority) (rm_token authority) gm_receive (do_wall_now final))
                   (\<lambda>j. page_of C (rm_binding authority) rq (ms_deliveries (lp_mailboxes p ! j)) requested_cursor
                          (max (do_wall_now first) (do_wall_now final)))))))"

definition acknowledge_deliveries :: "ident list \<Rightarrow> stored_delivery list \<Rightarrow> stored_delivery list" where
  "acknowledge_deliveries ids ds =
     map (\<lambda>d. if sd_delivery_id d \<in> set ids then d\<lparr> sd_acknowledged := True \<rparr> else d) ds"

definition acknowledge_now ::
    "lifecycle_provider \<Rightarrow> right_material \<Rightarrow> ident list \<Rightarrow> operation_budget \<Rightarrow> control
      \<Rightarrow> (transport_failure + unit) \<times> lifecycle_provider" where
  "acknowledge_now p authority ids budget ctl =
     run_then (checkpoint ctl budget, p) (\<lambda>first p.
       if lp_scope p \<noteq> rm_scope authority then (Err (failure PolicyViolation), p)
       else
         run_then (mailbox_index p (rm_binding authority) (rm_token authority) gm_acknowledgement (do_wall_now first), p)
           (\<lambda>_ p.
         run_then (checkpoint (after_reading ctl) budget, p) (\<lambda>final p.
         run_then (mailbox_index p (rm_binding authority) (rm_token authority) gm_acknowledgement (do_wall_now final), p)
           (\<lambda>i p.
             let ms = lp_mailboxes p; ds = ms_deliveries (ms ! i) in
             if list_ex (\<lambda>id. \<not> list_ex (\<lambda>d. sd_delivery_id d = id) ds) ids
             then (Err (failure PolicyViolation), p)
             else (Ok (), p\<lparr> lp_mailboxes := ms[i := (ms ! i)\<lparr> ms_deliveries := acknowledge_deliveries ids ds \<rparr>] \<rparr>)))))"

end
