(* ===== verification/Provider_Invariants.thy ===== *)
theory Provider_Invariants
  imports Lifecycle_Provider
begin

text \<open>
  How the deterministic provider may change: the deliveries of a mailbox generation only grow at
  the end and get acknowledged, their sequence numbers increase, and a poll page is the longest
  prefix of the eligible deliveries that fits.
\<close>

section \<open>Looking mailboxes up\<close>

lemma position_of_Some:
  "position_of P xs = Some i \<longleftrightarrow> i < length xs \<and> P (xs ! i) \<and> (\<forall>j < i. \<not> P (xs ! j))"
proof (induction xs arbitrary: i)
  case (Cons x xs)
  show ?case
    using Cons.IH by (cases i) (auto simp: All_less_Suc2)
qed simp

lemma position_of_None: "position_of P xs = None \<longleftrightarrow> (\<forall>x \<in> set xs. \<not> P x)"
  by (induction xs) auto

lemma find_position: "find P xs = map_option ((!) xs) (position_of P xs)"
  by (induction xs) (auto simp: option.map_comp comp_def)

lemma position_find: "position_of P xs = Some i \<Longrightarrow> find P xs = Some (xs ! i)"
  by (simp add: find_position)

lemma find_update_same:
  "position_of P xs = Some i \<Longrightarrow> P y \<Longrightarrow> find P (xs[i := y]) = Some y"
proof (induction xs arbitrary: i)
  case (Cons x xs)
  then show ?case by (cases i) (auto split: if_splits)
qed simp

lemma find_update_other:
  "i < length xs \<Longrightarrow> \<not> Q (xs ! i) \<Longrightarrow> \<not> Q y \<Longrightarrow> find Q (xs[i := y]) = find Q xs"
proof (induction xs arbitrary: i)
  case (Cons x xs)
  then show ?case by (cases i) auto
qed simp

definition mailbox_deliveries :: "lifecycle_provider \<Rightarrow> cursor_binding \<Rightarrow> stored_delivery list" where
  "mailbox_deliveries p b = (case find_mailbox p b of None \<Rightarrow> [] | Some m \<Rightarrow> ms_deliveries m)"

lemma mailbox_index_ok:
  assumes "mailbox_index p b token expected now = Inr i"
  shows "position_of (\<lambda>m. gm_binding (ms_material m) = b) (lp_mailboxes p) = Some i"
    and "find_mailbox p b = Some (lp_mailboxes p ! i)"
    and "ms_deliveries (lp_mailboxes p ! i) = mailbox_deliveries p b"
    and "expected (ms_material (lp_mailboxes p ! i)) = token"
    and "now < cb_expires_at b" and "\<And>at. ms_retire_at (lp_mailboxes p ! i) = Some at \<Longrightarrow> now < at"
  using assms
  by (auto simp: mailbox_index_def find_mailbox_def find_position mailbox_deliveries_def Let_def not_le
      split: option.splits if_splits)

lemma update_mailbox:
  assumes "position_of (\<lambda>m. gm_binding (ms_material m) = b) ms = Some i"
    and "ms_material m' = ms_material (ms ! i)"
  shows "find (\<lambda>m. gm_binding (ms_material m) = b') (ms[i := m']) =
    (if b' = b then Some m' else find (\<lambda>m. gm_binding (ms_material m) = b') ms)"
proof -
  have i: "i < length ms" "gm_binding (ms_material (ms ! i)) = b"
    using assms(1) by (simp_all add: position_of_Some)
  show ?thesis
    using find_update_same [OF assms(1), of m'] find_update_other [OF i(1)] i(2) assms(2) by auto
qed

lemma find_append: "find P (xs @ ys) = (case find P xs of None \<Rightarrow> find P ys | Some x \<Rightarrow> Some x)"
  by (induction xs) auto

section \<open>Effects of the operations\<close>

lemma run_then_eq:
  "run_then m f = (Inr b, s') \<longleftrightarrow> (\<exists>a s. m = (Inr a, s) \<and> f a s = (Inr b, s'))"
  by (auto simp: run_then_def split: prod.splits sum.splits)

lemma run_then_err:
  "run_then m f = (Inl e, s') \<longleftrightarrow> m = (Inl e, s') \<or> (\<exists>a s. m = (Inr a, s) \<and> f a s = (Inl e, s'))"
  by (auto simp: run_then_def split: prod.splits sum.splits)

lemma take_material_frame:
  "take_material p = (r, p') \<Longrightarrow> \<exists>n. p' = p\<lparr> lp_next_material := n \<rparr>"
  by (cases p) (auto simp: take_material_def split: option.splits)

text \<open>What an accepted deposit adds.\<close>

definition delivery_of :: "u64 \<Rightarrow> canonical_envelope \<Rightarrow> stored_delivery" where
  "delivery_of sequence env =
     \<lparr> sd_sequence = sequence, sd_delivery_id = delivery_id_bytes sequence, sd_envelope_id = ce_envelope_id env,
       sd_canonical_bytes = ce_bytes env, sd_expires_at = ce_expires_at env, sd_acknowledged = False \<rparr>"

lemma deposit_cases:
  assumes "deposit_now p endpoint rq ctl = (r, p')"
  obtains (kept) "p' = p"
    and "\<And>did. r = Inr did \<Longrightarrow> \<exists>d \<in> set (mailbox_deliveries p (rm_binding endpoint)).
      sd_delivery_id d = did \<and> sd_envelope_id d = ce_envelope_id (dr_envelope rq)
      \<and> sd_canonical_bytes d = ce_bytes (dr_envelope rq)"
  | (added) i where
      "position_of (\<lambda>m. gm_binding (ms_material m) = rm_binding endpoint) (lp_mailboxes p) = Some i"
      and "r = Inr (delivery_id_bytes (lp_next_delivery_sequence p))"
      and "lp_next_delivery_sequence p < lp_next_delivery_sequence p + 1"
      and "length (mailbox_deliveries p (rm_binding endpoint)) < MAX_ENVELOPES_PER_GENERATION"
      and "\<forall>d \<in> set (mailbox_deliveries p (rm_binding endpoint)). sd_envelope_id d \<noteq> ce_envelope_id (dr_envelope rq)"
      and "p' = p\<lparr> lp_next_delivery_sequence := lp_next_delivery_sequence p + 1,
        lp_mailboxes := push_delivery i (delivery_of (lp_next_delivery_sequence p) (dr_envelope rq)) (lp_mailboxes p) \<rparr>"
proof -
  let ?b = "rm_binding endpoint" and ?env = "dr_envelope rq"
  let ?ds = "mailbox_deliveries p ?b"
  have "(p' = p \<and> (\<forall>did. r = Inr did \<longrightarrow> (\<exists>d. find (\<lambda>d. sd_envelope_id d = ce_envelope_id ?env) ?ds = Some d
          \<and> sd_delivery_id d = did \<and> sd_canonical_bytes d = ce_bytes ?env)))
    \<or> (\<exists>now j. mailbox_index p ?b (rm_token endpoint) gm_deposit now = Inr j
        \<and> find (\<lambda>d. sd_envelope_id d = ce_envelope_id ?env) ?ds = None
        \<and> accept_deposit p j ?env = (r, p'))"
    using assms
    by (auto simp: deposit_now_def run_then_def mailbox_index_ok(3)
        split: prod.splits sum.splits if_splits option.splits)
  then consider (a) "p' = p" "\<forall>did. r = Inr did \<longrightarrow> (\<exists>d. find (\<lambda>d. sd_envelope_id d = ce_envelope_id ?env) ?ds = Some d
          \<and> sd_delivery_id d = did \<and> sd_canonical_bytes d = ce_bytes ?env)"
    | (b) now j where "mailbox_index p ?b (rm_token endpoint) gm_deposit now = Inr j"
        "find (\<lambda>d. sd_envelope_id d = ce_envelope_id ?env) ?ds = None" "accept_deposit p j ?env = (r, p')"
    by blast
  then show thesis
  proof cases
    case a
    have "\<exists>d \<in> set ?ds. sd_delivery_id d = did \<and> sd_envelope_id d = ce_envelope_id ?env
        \<and> sd_canonical_bytes d = ce_bytes ?env" if "r = Inr did" for did
    proof -
      obtain d where d: "find (\<lambda>d. sd_envelope_id d = ce_envelope_id ?env) ?ds = Some d"
          "sd_delivery_id d = did" "sd_canonical_bytes d = ce_bytes ?env"
        using a(2) \<open>r = Inr did\<close> by blast
      then have "d \<in> set ?ds" "sd_envelope_id d = ce_envelope_id ?env"
        by (auto simp: find_Some_iff)
      with d show ?thesis by blast
    qed
    then show ?thesis by (rule kept [OF a(1)])
  next
    case (b now j)
    note ix = mailbox_index_ok [OF b(1)]
    have "(p' = p \<and> (\<forall>did. r \<noteq> Inr did)) \<or> (r = Inr (delivery_id_bytes (lp_next_delivery_sequence p))
        \<and> lp_next_delivery_sequence p < lp_next_delivery_sequence p + 1
        \<and> length ?ds < MAX_ENVELOPES_PER_GENERATION
        \<and> p' = p\<lparr> lp_next_delivery_sequence := lp_next_delivery_sequence p + 1,
            lp_mailboxes := push_delivery j (delivery_of (lp_next_delivery_sequence p) ?env) (lp_mailboxes p) \<rparr>)"
      using b(3) ix(3)
      by (auto simp: accept_deposit_def Let_def checked_add_1_iff delivery_of_def split: if_splits option.splits)
    moreover have "\<forall>d \<in> set ?ds. sd_envelope_id d \<noteq> ce_envelope_id ?env"
      using b(2) by (simp add: find_None_iff)
    ultimately show ?thesis using kept added [OF ix(1)] by blast
  qed
qed

lemma push_deliveries:
  assumes "position_of (\<lambda>m. gm_binding (ms_material m) = b) (lp_mailboxes p) = Some i"
  shows "mailbox_deliveries (p\<lparr> lp_next_delivery_sequence := n, lp_mailboxes := push_delivery i d (lp_mailboxes p) \<rparr>) b'
    = (if b' = b then mailbox_deliveries p b @ [d] else mailbox_deliveries p b')"
proof -
  have "find (\<lambda>m. gm_binding (ms_material m) = b) (lp_mailboxes p) = Some (lp_mailboxes p ! i)"
    using assms by (simp add: find_position)
  with assms show ?thesis
    by (simp add: mailbox_deliveries_def find_mailbox_def push_delivery_def update_mailbox)
qed

lemma acknowledge_cases:
  assumes "acknowledge_now p authority ids budget ctl = (r, p')"
  obtains (kept) "p' = p" and "r \<noteq> Inr ()"
  | (acked) i where
      "position_of (\<lambda>m. gm_binding (ms_material m) = rm_binding authority) (lp_mailboxes p) = Some i"
      and "\<forall>id \<in> set ids. \<exists>d \<in> set (mailbox_deliveries p (rm_binding authority)). sd_delivery_id d = id"
      and "r = Inr ()"
      and "p' = p\<lparr> lp_mailboxes := (lp_mailboxes p)[i := (lp_mailboxes p ! i)
        \<lparr> ms_deliveries := acknowledge_deliveries ids (mailbox_deliveries p (rm_binding authority)) \<rparr>] \<rparr>"
proof -
  have "(p' = p \<and> r \<noteq> Inr ()) \<or> (\<exists>now i. mailbox_index p (rm_binding authority) (rm_token authority) gm_acknowledgement now = Inr i
      \<and> (\<forall>id \<in> set ids. \<exists>d \<in> set (mailbox_deliveries p (rm_binding authority)). sd_delivery_id d = id)
      \<and> r = Inr () \<and> p' = p\<lparr> lp_mailboxes := (lp_mailboxes p)[i := (lp_mailboxes p ! i)
        \<lparr> ms_deliveries := acknowledge_deliveries ids (mailbox_deliveries p (rm_binding authority)) \<rparr>] \<rparr>)"
    using assms
    by (auto simp: acknowledge_now_def run_then_def Let_def mailbox_index_ok(3) list_ex_iff
        split: prod.splits sum.splits if_splits)
  then show thesis using kept acked mailbox_index_ok(1) by blast
qed

lemma acknowledged_deliveries:
  assumes "position_of (\<lambda>m. gm_binding (ms_material m) = b) (lp_mailboxes p) = Some i"
  shows "mailbox_deliveries (p\<lparr> lp_mailboxes := (lp_mailboxes p)[i := (lp_mailboxes p ! i)
        \<lparr> ms_deliveries := ds \<rparr>] \<rparr>) b' = (if b' = b then ds else mailbox_deliveries p b')"
  using assms by (simp add: mailbox_deliveries_def find_mailbox_def update_mailbox)

text \<open>
  Issuance and rotation add mailboxes at the end and retire one; no delivery is touched, and a new
  mailbox has a continuity identifier of full length or one that was known before.
\<close>

definition extends :: "lifecycle_provider \<Rightarrow> lifecycle_provider \<Rightarrow> bool" where
  "extends p p' \<longleftrightarrow> lp_scope p' = lp_scope p \<and> lp_contract p' = lp_contract p
     \<and> lp_next_delivery_sequence p' = lp_next_delivery_sequence p
     \<and> mailbox_deliveries p' = mailbox_deliveries p
     \<and> (\<forall>b. find_mailbox p' b \<noteq> None \<longrightarrow> find_mailbox p b \<noteq> None \<or> length (cb_continuity_id b) = 16
          \<or> (\<exists>b0. find_mailbox p b0 \<noteq> None \<and> cb_continuity_id b = cb_continuity_id b0))"

lemma material_extends: "extends p (p\<lparr> lp_next_material := n \<rparr>)"
  by (simp add: extends_def mailbox_deliveries_def find_mailbox_def fun_eq_iff)

lemma fresh_generation_frame:
  "fresh_generation p fp c g e = (r, p') \<Longrightarrow> \<exists>n. p' = p\<lparr> lp_next_material := n \<rparr>"
  by (cases p)
    (auto simp: fresh_generation_def run_then_def take_material_def split: prod.splits sum.splits option.splits)

lemma fresh_generation_ok:
  assumes "fresh_generation p fp c g e = (Inr m, p')"
  shows "gm_binding m = \<lparr> cb_profile = lc_profile (lp_contract p), cb_binding_fingerprint = fp,
      cb_continuity_id = c, cb_generation = g, cb_receive_scope = replicate 32 (lp_next_material p),
      cb_cursor_schema = lc_cursor_schema (lp_contract p), cb_provider_state_epoch = PROVIDER_STATE_EPOCH_V1,
      cb_expires_at = e \<rparr>"
    and "p' = p\<lparr> lp_next_material := lp_next_material p' \<rparr>" and "lp_next_material p < lp_next_material p'"
proof -
  have less: "a < b" if "checked_add a 1 = Some b" for a b :: u8
    using checked_add_Some_less [OF that] by simp
  have *: "\<exists>m1 m2 m3 m4 m5. checked_add (lp_next_material p) 1 = Some m1 \<and> checked_add m1 1 = Some m2
      \<and> checked_add m2 1 = Some m3 \<and> checked_add m3 1 = Some m4 \<and> checked_add m4 1 = Some m5
      \<and> p' = p\<lparr> lp_next_material := m5 \<rparr>"
    and "gm_binding m = \<lparr> cb_profile = lc_profile (lp_contract p), cb_binding_fingerprint = fp,
      cb_continuity_id = c, cb_generation = g, cb_receive_scope = replicate 32 (lp_next_material p),
      cb_cursor_schema = lc_cursor_schema (lp_contract p), cb_provider_state_epoch = PROVIDER_STATE_EPOCH_V1,
      cb_expires_at = e \<rparr>"
    using assms
    by (auto simp: fresh_generation_def run_then_eq take_material_def internal_def ok_iff
        ReceiveScopeFingerprint_from_bytes_def ProviderStateEpoch_new_def CursorBindingV1_new_def
        split: option.splits if_splits)
  then show "gm_binding m = \<lparr> cb_profile = lc_profile (lp_contract p), cb_binding_fingerprint = fp,
      cb_continuity_id = c, cb_generation = g, cb_receive_scope = replicate 32 (lp_next_material p),
      cb_cursor_schema = lc_cursor_schema (lp_contract p), cb_provider_state_epoch = PROVIDER_STATE_EPOCH_V1,
      cb_expires_at = e \<rparr>" by blast
  from * obtain m1 m2 m3 m4 m5 where ms: "lp_next_material p < m1" "m1 < m2" "m2 < m3" "m3 < m4" "m4 < m5"
      "p' = p\<lparr> lp_next_material := m5 \<rparr>"
    using less by blast
  then show "p' = p\<lparr> lp_next_material := lp_next_material p' \<rparr>" by simp
  from ms show "lp_next_material p < lp_next_material p'" by simp
qed

lemma add_mailbox_find:
  "find (\<lambda>m. gm_binding (ms_material m) = b) (ms @ [fresh_mailbox m]) =
     (case find (\<lambda>m. gm_binding (ms_material m) = b) ms of
        Some x \<Rightarrow> Some x
      | None \<Rightarrow> if gm_binding m = b then Some (fresh_mailbox m) else None)"
  by (auto simp: find_append fresh_mailbox_def split: option.splits)

lemma add_mailbox_extends:
  assumes "length (cb_continuity_id (gm_binding m)) = 16
    \<or> (\<exists>b0. find_mailbox p b0 \<noteq> None \<and> cb_continuity_id (gm_binding m) = cb_continuity_id b0)"
    and "\<And>b. map_option ms_deliveries (find (\<lambda>m. gm_binding (ms_material m) = b) ms)
      = map_option ms_deliveries (find_mailbox p b)"
  shows "extends p (p\<lparr> lp_next_material := n, lp_mailboxes := ms @ [fresh_mailbox m], lp_active := a,
    lp_rotations := rs \<rparr>)"
proof -
  let ?p = "p\<lparr> lp_next_material := n, lp_mailboxes := ms @ [fresh_mailbox m], lp_active := a, lp_rotations := rs \<rparr>"
  have f: "find_mailbox ?p b = (case find (\<lambda>m. gm_binding (ms_material m) = b) ms of
        Some x \<Rightarrow> Some x
      | None \<Rightarrow> if gm_binding m = b then Some (fresh_mailbox m) else None)" for b
    by (simp add: find_mailbox_def add_mailbox_find)
  have "mailbox_deliveries ?p b = mailbox_deliveries p b" for b
    unfolding mailbox_deliveries_def f using assms(2) [of b]
    by (cases "find_mailbox p b") (auto simp: fresh_mailbox_def split: option.splits)
  moreover have "find_mailbox p b \<noteq> None \<or> b = gm_binding m" if "find_mailbox ?p b \<noteq> None" for b
    using that assms(2) [of b] unfolding f by (cases "find_mailbox p b") (auto split: option.splits if_splits)
  then have "find_mailbox p b \<noteq> None \<or> length (cb_continuity_id b) = 16
      \<or> (\<exists>b0. find_mailbox p b0 \<noteq> None \<and> cb_continuity_id b = cb_continuity_id b0)" if "find_mailbox ?p b \<noteq> None" for b
    using that assms(1) by blast
  ultimately show ?thesis by (simp add: extends_def fun_eq_iff del: not_None_eq)
qed

lemma issue_cases:
  assumes "issue_now p expected rq ctl = (r, p')"
  obtains (refused) n where "p' = p\<lparr> lp_next_material := n \<rparr>" and "\<And>result. r \<noteq> Inr result"
  | (issued) n k p1 material p2 result where "take_material p = (Inr k, p1)"
      and "fresh_generation p1 (ir_binding_fingerprint rq) (replicate 16 k) n (ir_expires_at rq) = (Inr material, p2)"
      and "r = Inr result" and "is_authorities result = authorities material (lp_scope p2)"
      and "p' = p2\<lparr> lp_mailboxes := lp_mailboxes p2 @ [fresh_mailbox material],
                lp_active := lp_active p2 @ [gm_binding material] \<rparr>"
proof (cases r)
  case (Inl e)
  have keep: "\<exists>n. p = p\<lparr> lp_next_material := n \<rparr>"
    by (metis lifecycle_provider.surjective lifecycle_provider.update_convs(3))
  have frame: "\<exists>n. p2 = p\<lparr> lp_next_material := n \<rparr>"
    if "fresh_generation p1 fp c g e' = (r', p2)" "take_material p = (r'', p1)" for p1 p2 fp c g e' r' r''
    using fresh_generation_frame [OF that(1)] take_material_frame [OF that(2)] by auto
  have "\<exists>n. p' = p\<lparr> lp_next_material := n \<rparr>"
    using assms keep frame take_material_frame [of p] unfolding Inl issue_now_def run_then_err
    by (auto split: if_splits simp: run_then_err)
  then show thesis using refused Inl by blast
next
  case (Inr result)
  then show thesis
    using assms issued
    by (auto simp: issue_now_def run_then_eq internal_def MailboxContinuityId_from_provider_bytes_def
        MailboxIssueResultV1_new_def Let_def ok_iff split: if_splits)
qed

lemma issue_extends:
  assumes "issue_now p expected rq ctl = (r, p')"
  shows "extends p p'"
  using assms
proof (cases rule: issue_cases)
  case (issued n k p1 material p2)
  obtain n2 where p2: "p2 = p\<lparr> lp_next_material := n2 \<rparr>"
    using take_material_frame [OF issued(1)] fresh_generation_ok(2) [OF issued(2)]
    by (metis lifecycle_provider.update_convs(3) lifecycle_provider.surjective)
  have "length (cb_continuity_id (gm_binding material)) = 16"
    using fresh_generation_ok(1) [OF issued(2)] by simp
  then show ?thesis
    using add_mailbox_extends [where m = material and p = p and ms = "lp_mailboxes p" and n = n2
        and a = "lp_active p @ [gm_binding material]" and rs = "lp_rotations p"]
    by (simp add: issued(5) p2 find_mailbox_def)
qed (simp add: material_extends)

lemma rotation_result_ok:
  assumes "MailboxRotationResultV1_new lc rq auths now = Inr result"
  shows "rs_authorities result = auths" and "validate_rotation_request lc rq now = Inr ()"
  using assms by (auto simp: MailboxRotationResultV1_new_def Let_def ok_iff split: if_splits)

lemma rotate_cases:
  assumes "rotate_now p expected authority rq ctl = (r, p')"
  obtains (refused) e n where "r = Inl e" and "p' = p\<lparr> lp_next_material := n \<rparr>"
  | (retried) rec result where
      "find (\<lambda>r. ro_rotation_id r = rq_rotation_id rq) (lp_rotations p) = Some rec"
      and "ro_predecessor rec = rq_predecessor rq" and "ro_mode rec = rq_mode rq"
      and "ro_successor_expires_at rec = rq_successor_expires_at rq"
      and "r = Inr result" and "rs_authorities result = authorities (ro_successor rec) (lp_scope p)" and "p' = p"
  | (rotated) i successor p1 result obs where
      "checkpoint ctl (rq_budget rq) = Inr obs"
      and "find (\<lambda>r. ro_rotation_id r = rq_rotation_id rq) (lp_rotations p) = None"
      and "position_of (\<lambda>b. cb_continuity_id b = cb_continuity_id (rq_predecessor rq)) (lp_active p) = Some i"
      and "lp_active p ! i = rq_predecessor rq" and "find_mailbox p (rq_predecessor rq) \<noteq> None"
      and "fresh_generation p (cb_binding_fingerprint (rq_predecessor rq)) (cb_continuity_id (rq_predecessor rq))
        (rq_successor_generation rq) (rq_successor_expires_at rq) = (Inr successor, p1)"
      and "r = Inr result" and "rs_authorities result = authorities successor (lp_scope p)"
      and "p' = install_successor p1 rq i successor (do_wall_now obs)"
proof -
  have keep: "\<exists>n. p = p\<lparr> lp_next_material := n \<rparr>" by (metis lifecycle_provider.surjective lifecycle_provider.update_convs(3))
  have scope: "fresh_generation p fp c g e = (Inr m, p1) \<Longrightarrow> lp_scope p1 = lp_scope p" for fp c g e m p1
    by (metis fresh_generation_frame lifecycle_provider.select_convs(1) lifecycle_provider.surjective
        lifecycle_provider.update_convs(3))
  have "(\<exists>e n. r = Inl e \<and> p' = p\<lparr> lp_next_material := n \<rparr>)
    \<or> (\<exists>rec result. find (\<lambda>r. ro_rotation_id r = rq_rotation_id rq) (lp_rotations p) = Some rec
        \<and> ro_predecessor rec = rq_predecessor rq \<and> ro_mode rec = rq_mode rq
        \<and> ro_successor_expires_at rec = rq_successor_expires_at rq
        \<and> r = Inr result \<and> rs_authorities result = authorities (ro_successor rec) (lp_scope p) \<and> p' = p)
    \<or> (\<exists>i successor p1 result obs. checkpoint ctl (rq_budget rq) = Inr obs
        \<and> find (\<lambda>r. ro_rotation_id r = rq_rotation_id rq) (lp_rotations p) = None
        \<and> position_of (\<lambda>b. cb_continuity_id b = cb_continuity_id (rq_predecessor rq)) (lp_active p) = Some i
        \<and> lp_active p ! i = rq_predecessor rq \<and> find_mailbox p (rq_predecessor rq) \<noteq> None
        \<and> fresh_generation p (cb_binding_fingerprint (rq_predecessor rq)) (cb_continuity_id (rq_predecessor rq))
            (rq_successor_generation rq) (rq_successor_expires_at rq) = (Inr successor, p1)
        \<and> r = Inr result \<and> rs_authorities result = authorities successor (lp_scope p)
        \<and> p' = install_successor p1 rq i successor (do_wall_now obs))"
    using assms keep
    by (auto simp: rotate_now_def run_then_def Let_def retry_rotation_def internal_def map_err_def scope
        split: prod.splits sum.splits if_splits option.splits
        dest: fresh_generation_frame rotation_result_ok(1))
  then show thesis using refused retried rotated by blast
qed

lemma retire_find:
  "find (\<lambda>m. gm_binding (ms_material m) = b') (retire_mailbox b at ms) =
     (if b' = b then map_option (\<lambda>m. m\<lparr> ms_retire_at := Some at \<rparr>) (find (\<lambda>m. gm_binding (ms_material m) = b) ms)
      else find (\<lambda>m. gm_binding (ms_material m) = b') ms)"
proof (cases "position_of (\<lambda>m. gm_binding (ms_material m) = b) ms")
  case None
  then show ?thesis by (simp add: retire_mailbox_def find_position)
next
  case (Some i)
  have "find (\<lambda>m. gm_binding (ms_material m) = b) ms = Some (ms ! i)"
    using Some by (simp add: find_position)
  then show ?thesis by (simp add: retire_mailbox_def Some update_mailbox [OF Some])
qed

lemma rotate_extends:
  assumes "rotate_now p expected authority rq ctl = (r, p')"
  shows "extends p p'"
  using assms
proof (cases rule: rotate_cases)
  case (rotated i successor p1 result obs)
  obtain n where p1: "p1 = p\<lparr> lp_next_material := n \<rparr>" using fresh_generation_frame [OF rotated(6)] by blast
  have "cb_continuity_id (gm_binding successor) = cb_continuity_id (rq_predecessor rq)"
    using fresh_generation_ok(1) [OF rotated(6)] by simp
  then have c: "length (cb_continuity_id (gm_binding successor)) = 16
    \<or> (\<exists>b0. find_mailbox p b0 \<noteq> None \<and> cb_continuity_id (gm_binding successor) = cb_continuity_id b0)"
    using rotated(5) by blast
  have "map_option ms_deliveries (find (\<lambda>m. gm_binding (ms_material m) = b) (retire_mailbox (rq_predecessor rq) at (lp_mailboxes p)))
      = map_option ms_deliveries (find_mailbox p b)" for b at
    by (simp add: retire_find find_mailbox_def option.map_comp comp_def)
  from add_mailbox_extends [OF c this] show ?thesis
    unfolding rotated(9) install_successor_def p1 by simp
qed (auto simp: material_extends intro: extends_def [THEN iffD2])

section \<open>The invariant\<close>

definition delivery_ok :: "cbor \<Rightarrow> u64 \<Rightarrow> stored_delivery \<Rightarrow> bool" where
  "delivery_ok C next d \<longleftrightarrow> 0 < sd_sequence d \<and> sd_sequence d < next
     \<and> sd_delivery_id d = delivery_id_bytes (sd_sequence d)
     \<and> CanonicalEnvelope_from_canonical_bytes C (sd_canonical_bytes d) =
         Inr \<lparr> ce_bytes = sd_canonical_bytes d, ce_envelope_id = sd_envelope_id d, ce_expires_at = sd_expires_at d \<rparr>"

definition provider_inv :: "cbor \<Rightarrow> lifecycle_provider \<Rightarrow> bool" where
  "provider_inv C p \<longleftrightarrow> 0 < lp_next_delivery_sequence p
     \<and> (\<forall>b. sorted_wrt (<) (map sd_sequence (mailbox_deliveries p b))
          \<and> length (mailbox_deliveries p b) \<le> MAX_ENVELOPES_PER_GENERATION
          \<and> list_all (delivery_ok C (lp_next_delivery_sequence p)) (mailbox_deliveries p b))
     \<and> (\<forall>b. find_mailbox p b \<noteq> None \<longrightarrow> length (cb_continuity_id b) = 16)"

lemma extends_inv: "extends p p' \<Longrightarrow> provider_inv C p \<Longrightarrow> provider_inv C p'"
  unfolding extends_def provider_inv_def by (metis (no_types, lifting))

lemma delivery_ok_mono: "delivery_ok C n d \<Longrightarrow> n \<le> n' \<Longrightarrow> delivery_ok C n' d"
  by (auto simp: delivery_ok_def)

lemma deposit_inv:
  assumes "deposit_now p endpoint rq ctl = (r, p')" and inv: "provider_inv C p"
    and "CanonicalEnvelope_from_canonical_bytes C (ce_bytes (dr_envelope rq)) = Inr (dr_envelope rq)"
  shows "provider_inv C p'"
  using assms(1)
proof (cases rule: deposit_cases)
  case (added i)
  let ?n = "lp_next_delivery_sequence p" and ?d = "delivery_of (lp_next_delivery_sequence p) (dr_envelope rq)"
  have del: "mailbox_deliveries p' b = (if b = rm_binding endpoint
      then mailbox_deliveries p (rm_binding endpoint) @ [?d] else mailbox_deliveries p b)" for b
    unfolding added(6) using push_deliveries [OF added(1)] by simp
  have find: "find_mailbox p' b \<noteq> None \<Longrightarrow> find_mailbox p b \<noteq> None" for b
    using position_find [OF added(1)] unfolding added(6)
    by (auto simp: find_mailbox_def push_delivery_def update_mailbox [OF added(1)] split: if_splits)
  have new: "delivery_ok C (?n + 1) ?d"
    using inv assms(3) added(3) by (simp add: delivery_ok_def delivery_of_def provider_inv_def)
  have old: "delivery_ok C (?n + 1) d" if "d \<in> set (mailbox_deliveries p b)" for d b
    using inv that added(3) delivery_ok_mono [of C ?n d "?n + 1"] by (auto simp: provider_inv_def list_all_iff)
  have "sd_sequence d < ?n" if "d \<in> set (mailbox_deliveries p b)" for d b
    using inv that by (auto simp: provider_inv_def list_all_iff delivery_ok_def)
  then have "sorted_wrt (<) (map sd_sequence (mailbox_deliveries p' b))" for b
    using inv by (auto simp: del provider_inv_def sorted_wrt_append delivery_of_def)
  moreover have "list_all (delivery_ok C (?n + 1)) (mailbox_deliveries p' b)" for b
    using new old by (auto simp: del list_all_iff)
  moreover have "length (mailbox_deliveries p' b) \<le> MAX_ENVELOPES_PER_GENERATION" for b
    using inv added(4) by (auto simp: del provider_inv_def)
  moreover have "0 < ?n + 1" using added(3) by (metis word_neq_0_conv word_not_simps(1))
  ultimately show ?thesis
    using inv find by (simp add: provider_inv_def added(6))
qed (simp add: inv)

lemma acknowledge_inv:
  assumes "acknowledge_now p authority ids budget ctl = (r, p')" and inv: "provider_inv C p"
  shows "provider_inv C p'"
  using assms(1)
proof (cases rule: acknowledge_cases)
  case (acked i)
  have del: "mailbox_deliveries p' b = (if b = rm_binding authority
      then acknowledge_deliveries ids (mailbox_deliveries p (rm_binding authority)) else mailbox_deliveries p b)" for b
    unfolding acked(4) by (rule acknowledged_deliveries [OF acked(1)])
  have find: "find_mailbox p' b \<noteq> None \<Longrightarrow> find_mailbox p b \<noteq> None" for b
    using position_find [OF acked(1)] unfolding acked(4)
    by (auto simp: find_mailbox_def update_mailbox [OF acked(1)] split: if_splits)
  have seqs: "map sd_sequence (acknowledge_deliveries ids ds) = map sd_sequence ds" for ds
    by (simp add: acknowledge_deliveries_def)
  have "list_all (delivery_ok C n) (acknowledge_deliveries ids ds)" if "list_all (delivery_ok C n) ds" for n ds
    using that by (auto simp: acknowledge_deliveries_def list_all_iff delivery_ok_def)
  moreover have "lp_next_delivery_sequence p' = lp_next_delivery_sequence p" by (simp add: acked(4))
  moreover have "length (acknowledge_deliveries ids ds) = length ds" for ds
    by (simp add: acknowledge_deliveries_def)
  ultimately show ?thesis
    using inv find by (auto simp: provider_inv_def del seqs)
qed (simp add: inv)

lemma provider_inv_new: "provider_inv C (DeterministicLifecycleProviderV1_new scope)"
  by (simp add: provider_inv_def DeterministicLifecycleProviderV1_new_def mailbox_deliveries_def find_mailbox_def)

section \<open>Pages\<close>

definition received_of :: "stored_delivery \<Rightarrow> received_canonical_envelope" where
  "received_of d = \<lparr> rc_delivery_id = sd_delivery_id d, rc_envelope =
     \<lparr> ce_bytes = sd_canonical_bytes d, ce_envelope_id = sd_envelope_id d, ce_expires_at = sd_expires_at d \<rparr> \<rparr>"

text \<open>The loop takes a prefix, and stops short only with a page that is not empty.\<close>

lemma collect_page_prefix:
  assumes "collect_page C rq ds items enc cur = Inr (items', cur')" and "list_all (delivery_ok C n) ds"
    and "0 < unat (pr_max_envelopes rq)"
  shows "\<exists>k \<le> length ds. items' = items @ map received_of (take k ds)
    \<and> cur' = (if k = 0 then cur else sd_sequence (ds ! (k - 1))) \<and> (k = 0 \<longrightarrow> ds = [] \<or> items \<noteq> [])"
  using assms(1,2)
proof (induction ds arbitrary: items enc cur)
  case (Cons d ds)
  have env: "CanonicalEnvelope_from_canonical_bytes C (sd_canonical_bytes d) = Inr (rc_envelope (received_of d))"
    using Cons.prems(2) by (simp add: delivery_ok_def received_of_def)
  have rec: "\<lparr> rc_delivery_id = sd_delivery_id d, rc_envelope = rc_envelope (received_of d) \<rparr> = received_of d"
    by (simp add: received_of_def)
  have "(items \<noteq> [] \<and> items' = items \<and> cur' = cur)
      \<or> collect_page C rq ds (items @ [received_of d]) (enc + length (sd_canonical_bytes d)) (sd_sequence d) = Inr (items', cur')"
    using Cons.prems(1) assms(3) by (auto simp: Let_def env rec split: if_splits)
  then show ?case
  proof
    assume 2: "collect_page C rq ds (items @ [received_of d]) (enc + length (sd_canonical_bytes d)) (sd_sequence d)
      = Inr (items', cur')"
    obtain k where "k \<le> length ds" "items' = (items @ [received_of d]) @ map received_of (take k ds)"
        "cur' = (if k = 0 then sd_sequence d else sd_sequence (ds ! (k - 1)))"
      using Cons.IH [OF 2] Cons.prems(2) by auto
    then show ?thesis by (intro exI [of _ "Suc k"]) (auto simp: nth_Cons')
  qed (intro exI [of _ 0]; simp)
qed simp

lemma sorted_prefix_filter:
  fixes f :: "'a \<Rightarrow> u64"
  assumes "sorted_wrt (<) (map f xs)" and "0 < k" and "k \<le> length xs"
  shows "filter (\<lambda>x. f x \<le> f (xs ! (k - 1))) xs = take k xs"
proof -
  have less: "i < j \<Longrightarrow> j < length xs \<Longrightarrow> f (xs ! i) < f (xs ! j)" for i j
    using sorted_wrt_nth_less [OF assms(1)] by simp
  have "f x \<le> f (xs ! (k - 1))" if x: "x \<in> set (take k xs)" for x
  proof -
    obtain i where "i < k" "x = xs ! i" using x assms(3) by (auto simp: in_set_conv_nth)
    then show ?thesis
      using less [of i "k - 1"] assms(2,3) by (cases "i = k - 1") (auto intro: order.strict_implies_order)
  qed
  moreover have "\<not> f x \<le> f (xs ! (k - 1))" if x: "x \<in> set (drop k xs)" for x
  proof -
    obtain i where "i < length xs - k" "x = drop k xs ! i" using x by (auto simp: in_set_conv_nth)
    then have "k + i < length xs" "x = xs ! (k + i)" using assms(3) by auto
    then show ?thesis using less [of "k - 1" "k + i"] assms(2) by (simp add: not_le)
  qed
  moreover have "filter P xs = filter P (take k xs) @ filter P (drop k xs)" for P
    by (simp flip: filter_append)
  ultimately show ?thesis by simp
qed

lemma receive_batch_fields:
  "ReceiveBatch_new items cursor rq now = Inr batch \<Longrightarrow>
     batch = \<lparr> rb_items = items, rb_next_cursor = cursor, rb_receive_binding = pr_receive_binding rq \<rparr>"
  by (auto simp: ReceiveBatch_new_def ok_iff split: if_splits)

lemma page_of_exact:
  assumes "page_of C b rq ds cur now = Inr batch" and "sorted_wrt (<) (map sd_sequence ds)"
    and "list_all (delivery_ok C n) ds" and "0 < unat (pr_max_envelopes rq)"
  obtains l where "cur \<le> l"
    and "rb_items batch = map received_of (filter (\<lambda>d. sd_sequence d \<le> l) (filter (eligible cur now) ds))"
    and "rb_next_cursor batch = (if l = 0 then None else Some (encode_cursor b l))"
    and "rb_receive_binding batch = pr_receive_binding rq"
    and "l = cur \<Longrightarrow> filter (eligible cur now) ds = []"
    and "l = cur \<or> (\<exists>d \<in> set ds. sd_sequence d = l)"
    and "rb_items batch = [] \<Longrightarrow> filter (eligible cur now) ds = []"
proof -
  let ?es = "filter (eligible cur now) ds"
  have ok: "list_all (delivery_ok C n) ?es" using assms(3) by (auto simp: list_all_iff)
  have sorted: "sorted_wrt (<) (map sd_sequence ?es)"
    using assms(2) by (simp add: sorted_wrt_map sorted_wrt_filter)
  obtain items l cursor where c: "collect_page C rq ?es [] 0 cur = Inr (items, l)"
      and cur: "cursor = (if l = 0 then None else Some (encode_cursor b l))"
      and batch: "ReceiveBatch_new items cursor rq now = Inr batch"
    using assms(1)
    by (auto simp: page_of_def ok_iff internal_def Cursor_new_def split: if_splits)
  obtain k where k: "k \<le> length ?es" "items = map received_of (take k ?es)"
      "l = (if k = 0 then cur else sd_sequence (?es ! (k - 1)))" "k = 0 \<longrightarrow> ?es = []"
    using collect_page_prefix [OF c ok assms(4)] by auto
  have mem: "?es ! (k - 1) \<in> set ?es" if "0 < k"
    by (rule nth_mem) (use that k(1) in linarith)
  then have above: "cur < sd_sequence (?es ! (k - 1))" if "0 < k" using that by (auto simp: eligible_def)
  show thesis
  proof (rule that [of l])
    show "cur \<le> l" using k(3) above by (auto intro: order.strict_implies_order)
    show "rb_items batch = map received_of (filter (\<lambda>d. sd_sequence d \<le> l) ?es)"
      using receive_batch_fields [OF batch] k sorted_prefix_filter [OF sorted, of k]
      by (cases "k = 0") (simp_all del: filter_filter)
    show "rb_next_cursor batch = (if l = 0 then None else Some (encode_cursor b l))"
      and "rb_receive_binding batch = pr_receive_binding rq"
      using receive_batch_fields [OF batch] cur by simp_all
    show "l = cur \<Longrightarrow> ?es = []" using k above by (auto split: if_splits)
    show "l = cur \<or> (\<exists>d \<in> set ds. sd_sequence d = l)" using k(3) mem by auto
    show "rb_items batch = [] \<Longrightarrow> ?es = []" using receive_batch_fields [OF batch] k(2,4) by auto
  qed
qed

lemma decode_encode_cursor:
  assumes "length (cb_continuity_id b) = 16" and "l \<noteq> 0"
  shows "decode_cursor (Some (encode_cursor b l)) (cursor_scope b) = Inr l"
proof -
  have "length (cursor_scope b) = 32" using assms(1) by (simp add: cursor_scope_def)
  moreover have "be_nat (be_bytes 8 (unat l)) = unat l"
    using unsigned_less [of l, where 'a = nat] by (simp add: be_nat_be_bytes)
  ultimately show ?thesis
    using assms(2) by (simp add: decode_cursor_def encode_cursor_def Let_def)
qed

lemma delivery_id_inject: "delivery_id_bytes a = delivery_id_bytes b \<Longrightarrow> a = b"
proof -
  have "be_nat (be_bytes 8 (unat x)) = unat x" for x :: u64
    using unsigned_less [of x, where 'a = nat] by (simp add: be_nat_be_bytes)
  note inverse = this
  assume "delivery_id_bytes a = delivery_id_bytes b"
  then have "be_nat (be_bytes 8 (unat a)) = be_nat (be_bytes 8 (unat b))" by (simp add: delivery_id_bytes_def)
  then show "a = b" by (simp only: inverse unsigned_word_eqI word_unat_eq_iff)
qed

lemma poll_cases:
  assumes "poll_now C p authority rq ctl = Inr batch"
  obtains cur now where "decode_cursor (pr_cursor rq) (cursor_scope (rm_binding authority)) = Inr cur"
    and "page_of C (rm_binding authority) rq (mailbox_deliveries p (rm_binding authority)) cur now = Inr batch"
    and "find_mailbox p (rm_binding authority) \<noteq> None"
    and "\<And>rb. pr_receive_binding rq = Some rb \<Longrightarrow> pb_binding rb = rm_binding authority"
    and "now < cb_expires_at (rm_binding authority)"
    and "\<exists>k < 2. rd_wall (ctl k) = Some now"
proof -
  have "\<exists>cur first final i j. decode_cursor (pr_cursor rq) (cursor_scope (rm_binding authority)) = Inr cur
    \<and> mailbox_index p (rm_binding authority) (rm_token authority) gm_receive first = Inr i
    \<and> mailbox_index p (rm_binding authority) (rm_token authority) gm_receive final = Inr j
    \<and> page_of C (rm_binding authority) rq (ms_deliveries (lp_mailboxes p ! j)) cur (max first final) = Inr batch
    \<and> (\<forall>rb. pr_receive_binding rq = Some rb \<longrightarrow> pb_binding rb = rm_binding authority)
    \<and> rd_wall (ctl 0) = Some first \<and> rd_wall (ctl 1) = Some final"
    using assms by (auto simp: poll_now_def ok_iff checkpoint_ok after_reading_def Let_def split: if_splits option.splits)
  then obtain cur first final i j where *: "decode_cursor (pr_cursor rq) (cursor_scope (rm_binding authority)) = Inr cur"
    "mailbox_index p (rm_binding authority) (rm_token authority) gm_receive first = Inr i"
    "mailbox_index p (rm_binding authority) (rm_token authority) gm_receive final = Inr j"
    "page_of C (rm_binding authority) rq (ms_deliveries (lp_mailboxes p ! j)) cur (max first final) = Inr batch"
    "\<forall>rb. pr_receive_binding rq = Some rb \<longrightarrow> pb_binding rb = rm_binding authority"
    "rd_wall (ctl 0) = Some first" "rd_wall (ctl 1) = Some final"
    by blast
  have "\<exists>k < 2. rd_wall (ctl k) = Some (max first final)"
    using *(6,7) by (cases "first \<le> final") (auto simp: max_def intro: exI [of _ 0] exI [of _ 1])
  then show thesis
    using that [OF *(1)] *(4,5) mailbox_index_ok [OF *(3)] mailbox_index_ok(5) [OF *(2)] by auto
qed

end
