(* ===== verification/Provider_Runs.thy ===== *)
theory Provider_Runs
  imports Provider_Invariants
begin

text \<open>
  Sequences of calls on the deterministic provider. A fresh generation has a receive scope no earlier
  one has, a continuity has one active generation, and a generation that was rotated away never
  becomes active again.
\<close>

section \<open>Runs\<close>

datatype provider_op =
    PrIssue lifecycle_contract mailbox_issue_request control
  | PrRotate lifecycle_contract right_material rotation_request control
  | PrDeposit right_material bytes operation_budget control
  | PrAcknowledge right_material "ident list" operation_budget control

fun provider_apply :: "cbor \<Rightarrow> lifecycle_provider \<Rightarrow> provider_op \<Rightarrow> lifecycle_provider" where
  "provider_apply C p (PrIssue expected rq ctl) = snd (issue_now p expected rq ctl)"
| "provider_apply C p (PrRotate expected authority rq ctl) = snd (rotate_now p expected authority rq ctl)"
| "provider_apply C p (PrDeposit endpoint bs budget ctl) =
     (case and_then (CanonicalEnvelope_from_canonical_bytes C bs) (\<lambda>env. DepositRequest_new env budget) of
        Inl _ \<Rightarrow> p | Inr rq \<Rightarrow> snd (deposit_now p endpoint rq ctl))"
| "provider_apply C p (PrAcknowledge authority ids budget ctl) = snd (acknowledge_now p authority ids budget ctl)"

definition provider_run :: "cbor \<Rightarrow> lifecycle_provider \<Rightarrow> provider_op list \<Rightarrow> lifecycle_provider" where
  "provider_run C p ops = foldl (provider_apply C) p ops"

lemma deposit_request_ok:
  "DepositRequest_new env budget = Inr rq \<Longrightarrow> rq = \<lparr> dr_envelope = env, dr_budget = budget \<rparr>"
  by (auto simp: DepositRequest_new_def split: if_splits)

text \<open>What one call can do, by the kind of its effect.\<close>

lemma provider_apply_cases:
  obtains (extended) "extends p (provider_apply C p op)"
      and "(\<exists>expected rq ctl. op = PrIssue expected rq ctl) \<or> (\<exists>expected a rq ctl. op = PrRotate expected a rq ctl)"
  | (kept) "provider_apply C p op = p"
  | (deposited) endpoint rq ctl r where "deposit_now p endpoint rq ctl = (r, provider_apply C p op)"
      and "CanonicalEnvelope_from_canonical_bytes C (ce_bytes (dr_envelope rq)) = Inr (dr_envelope rq)"
  | (acknowledged) authority ids budget ctl r where "op = PrAcknowledge authority ids budget ctl"
      and "acknowledge_now p authority ids budget ctl = (r, provider_apply C p op)"
proof (cases op)
  case (PrIssue expected rq ctl)
  then show thesis using extended issue_extends [OF prod.collapse [symmetric]] by simp
next
  case (PrRotate expected a rq ctl)
  then show thesis using extended rotate_extends [OF prod.collapse [symmetric]] by simp
next
  case (PrDeposit endpoint bs budget ctl)
  show thesis
  proof (cases "and_then (CanonicalEnvelope_from_canonical_bytes C bs) (\<lambda>env. DepositRequest_new env budget)")
    case (Inr rq)
    then obtain env where env: "CanonicalEnvelope_from_canonical_bytes C bs = Inr env"
        and rq: "rq = \<lparr> dr_envelope = env, dr_budget = budget \<rparr>"
      by (auto simp: ok_iff dest: deposit_request_ok)
    have "ce_bytes env = bs" using env by (auto simp: canonical_from_bytes_ok)
    with deposited [of endpoint rq ctl "fst (deposit_now p endpoint rq ctl)"] Inr env rq PrDeposit show thesis
      by (simp add: prod_eq_iff)
  qed (use kept PrDeposit in simp)
next
  case (PrAcknowledge authority ids budget ctl)
  then show thesis using acknowledged [OF PrAcknowledge] by (simp add: prod_eq_iff)
qed

lemma provider_apply_inv: "provider_inv C p \<Longrightarrow> provider_inv C (provider_apply C p op)"
  by (cases rule: provider_apply_cases [of p C op])
    (auto intro: extends_inv deposit_inv acknowledge_inv)

section \<open>Material is used once\<close>

definition material_inv :: "lifecycle_provider \<Rightarrow> bool" where
  "material_inv p \<longleftrightarrow> 0 < lp_next_material p
     \<and> (\<forall>b. find_mailbox p b \<noteq> None \<longrightarrow> (\<exists>k < lp_next_material p. cb_receive_scope b = replicate 32 k)
          \<and> (\<exists>k < lp_next_material p. cb_continuity_id b = replicate 16 k))
     \<and> distinct (map cb_continuity_id (lp_active p))
     \<and> (\<forall>b \<in> set (lp_active p). find_mailbox p b \<noteq> None)"

text \<open>A generation the provider knows and will never make active again.\<close>

definition rotated_away :: "lifecycle_provider \<Rightarrow> cursor_binding \<Rightarrow> bool" where
  "rotated_away p b \<longleftrightarrow> find_mailbox p b \<noteq> None \<and> b \<notin> set (lp_active p)"

lemma material_inv_new: "material_inv (DeterministicLifecycleProviderV1_new scope)"
  by (simp add: material_inv_def DeterministicLifecycleProviderV1_new_def find_mailbox_def)

lemma material_grows:
  assumes "material_inv p" and "lp_next_material p \<le> n"
  shows "material_inv (p\<lparr> lp_next_material := n \<rparr>)"
  using assms unfolding material_inv_def find_mailbox_def
  by (auto intro: less_le_trans simp del: not_None_eq)

lemma same_keys_material:
  assumes "\<And>b. find_mailbox p' b \<noteq> None \<longleftrightarrow> find_mailbox p b \<noteq> None"
    and "lp_next_material p' = lp_next_material p" and "lp_active p' = lp_active p"
    and "lp_rotations p' = lp_rotations p"
  shows "material_inv p' = material_inv p" and "rotated_away p' b = rotated_away p b"
  using assms(1) by (simp_all only: material_inv_def rotated_away_def assms(2-))

lemma add_generation:
  assumes inv: "material_inv p"
    and scope: "cb_receive_scope nb = replicate 32 k" "lp_next_material p \<le> k" "k < lp_next_material p'"
    and cont: "cb_continuity_id nb = replicate 16 c" "c < lp_next_material p'"
    and keys: "\<And>b. find_mailbox p' b \<noteq> None \<longleftrightarrow> find_mailbox p b \<noteq> None \<or> b = nb"
    and active: "set (lp_active p') \<subseteq> insert nb (set (lp_active p))" "distinct (map cb_continuity_id (lp_active p'))"
  shows "material_inv p'" and "rotated_away p b \<Longrightarrow> rotated_away p' b"
proof -
  have le: "lp_next_material p \<le> lp_next_material p'" using scope(2,3) by (meson le_less_trans less_imp_le)
  have old: "(\<exists>k < lp_next_material p. cb_receive_scope b = replicate 32 k)
      \<and> (\<exists>k < lp_next_material p. cb_continuity_id b = replicate 16 k)" if "find_mailbox p b \<noteq> None" for b
    using inv that by (simp add: material_inv_def del: not_None_eq)
  have "(\<exists>k < lp_next_material p'. cb_receive_scope b = replicate 32 k)
      \<and> (\<exists>k < lp_next_material p'. cb_continuity_id b = replicate 16 k)" if "find_mailbox p' b \<noteq> None" for b
    using that old [of b] le scope(1,3) cont unfolding keys by (metis less_le_trans)
  moreover have "find_mailbox p' b \<noteq> None" if "b \<in> set (lp_active p')" for b
    using that active(1) inv unfolding keys by (auto simp: material_inv_def simp del: not_None_eq)
  moreover have "0 < lp_next_material p'" using scope(3) by (metis word_gt_0 word_not_simps(1))
  ultimately show "material_inv p'" using active(2) by (simp add: material_inv_def del: not_None_eq)
  assume r: "rotated_away p b"
  then have "b \<noteq> nb" using old [of b] scope(1,2) by (auto simp: rotated_away_def)
  with r active(1) show "rotated_away p' b" by (auto simp: rotated_away_def keys simp del: not_None_eq)
qed

lemma find_added:
  assumes "\<And>b. find (\<lambda>m. gm_binding (ms_material m) = b) ms \<noteq> None \<longleftrightarrow> find_mailbox p b \<noteq> None"
  shows "find_mailbox (p1\<lparr> lp_mailboxes := ms @ [fresh_mailbox m] \<rparr>) b \<noteq> None
    \<longleftrightarrow> find_mailbox p b \<noteq> None \<or> b = gm_binding m"
  using assms [of b] by (auto simp: find_mailbox_def add_mailbox_find split: option.splits)

lemma take_material_ok:
  "take_material p = (Inr k, p') \<Longrightarrow> k = lp_next_material p \<and> (\<exists>n. p' = p\<lparr> lp_next_material := n \<rparr> \<and> k < n)"
  by (auto simp: take_material_def split: option.splits dest!: checked_add_Some_less)

text \<open>The counter never goes back.\<close>

lemma run_then_grows:
  "n \<le> lp_next_material (snd m) \<Longrightarrow> (\<And>a s. n \<le> lp_next_material s \<Longrightarrow> n \<le> lp_next_material (snd (f a s)))
     \<Longrightarrow> n \<le> lp_next_material (snd (run_then m f))"
  by (auto simp: run_then_def split: prod.splits sum.splits)

lemma take_material_grows: "n \<le> lp_next_material p \<Longrightarrow> n \<le> lp_next_material (snd (take_material p))"
  by (auto simp: take_material_def split: option.splits dest!: checked_add_Some_le)

lemma fresh_generation_grows:
  "n \<le> lp_next_material p \<Longrightarrow> n \<le> lp_next_material (snd (fresh_generation p fp c g e))"
  unfolding fresh_generation_def by (intro run_then_grows take_material_grows) simp_all

lemma issue_grows: "n \<le> lp_next_material p \<Longrightarrow> n \<le> lp_next_material (snd (issue_now p expected rq ctl))"
  unfolding issue_now_def
  by (intro run_then_grows; simp; intro impI run_then_grows take_material_grows fresh_generation_grows)
    (simp_all add: fresh_generation_grows)

lemma rotate_grows:
  "n \<le> lp_next_material p \<Longrightarrow> n \<le> lp_next_material (snd (rotate_now p expected authority rq ctl))"
  unfolding rotate_now_def Let_def
  by (intro run_then_grows; simp split: option.split; intro impI conjI allI run_then_grows fresh_generation_grows)
    (simp_all add: install_successor_def)

lemma issue_material:
  assumes issue: "issue_now p expected rq ctl = (r, p')" and inv: "material_inv p"
  shows "material_inv p'" and "rotated_away p b \<Longrightarrow> rotated_away p' b"
proof -
  have le: "lp_next_material p \<le> lp_next_material p'" using issue_grows [OF order_refl, of p expected rq ctl] issue by simp
  have "material_inv p' \<and> (rotated_away p b \<longrightarrow> rotated_away p' b)"
    using issue
  proof (cases rule: issue_cases)
    case (refused n)
    then show ?thesis using material_grows [OF inv] le by (auto simp: rotated_away_def find_mailbox_def)
  next
    case (issued n k p1 material p2 result)
    obtain n1 where k: "k = lp_next_material p" "p1 = p\<lparr> lp_next_material := n1 \<rparr>" "k < n1"
      using take_material_ok [OF issued(1)] by blast
    obtain n2 where p2: "p2 = p\<lparr> lp_next_material := n2 \<rparr>" "n1 < n2"
      using fresh_generation_ok(2,3) [OF issued(2)] unfolding k(2)
      by (metis lifecycle_provider.select_convs(3) lifecycle_provider.surjective lifecycle_provider.update_convs(3))
    have g: "cb_receive_scope (gm_binding material) = replicate 32 n1" "cb_continuity_id (gm_binding material) = replicate 16 k"
      using fresh_generation_ok(1) [OF issued(2)] by (simp_all add: k(2))
    have p': "p' = p2\<lparr> lp_mailboxes := lp_mailboxes p @ [fresh_mailbox material],
        lp_active := lp_active p @ [gm_binding material] \<rparr>" using issued(5) by (simp add: p2)
    have keys: "find_mailbox p' b \<noteq> None \<longleftrightarrow> find_mailbox p b \<noteq> None \<or> b = gm_binding material" for b
      using find_added [where ms = "lp_mailboxes p" and p = p and ?p1.0 = p2 and m = material and b = b] unfolding p' find_mailbox_def by simp
    have "replicate 16 k \<notin> cb_continuity_id ` set (lp_active p)"
      using inv k(1) by (fastforce simp: material_inv_def replicate_eq_replicate simp del: not_None_eq)
    then have "distinct (map cb_continuity_id (lp_active p'))"
      using inv g(2) by (auto simp: p' material_inv_def)
    moreover have "lp_next_material p' = n2" by (simp add: p' p2)
    ultimately show ?thesis
      using add_generation [OF inv g(1) _ _ g(2) _ keys] k p2(2) by (auto simp: p')
  qed
  then show "material_inv p'" and "rotated_away p b \<Longrightarrow> rotated_away p' b" by blast+
qed

lemma rotate_material:
  assumes rotate: "rotate_now p expected authority rq ctl = (r, p')" and inv: "material_inv p"
  shows "material_inv p'" and "rotated_away p b \<Longrightarrow> rotated_away p' b"
    and "r = Inr result \<Longrightarrow> p' \<noteq> p \<Longrightarrow> rotated_away p' (rq_predecessor rq)"
proof -
  have le: "lp_next_material p \<le> lp_next_material p'"
    using rotate_grows [OF order_refl, of p expected authority rq ctl] rotate by simp
  have "material_inv p' \<and> (rotated_away p b \<longrightarrow> rotated_away p' b)
      \<and> ((\<exists>result. r = Inr result) \<and> p' \<noteq> p \<longrightarrow> rotated_away p' (rq_predecessor rq))"
    using rotate
  proof (cases rule: rotate_cases)
    case (refused e n)
    then show ?thesis using material_grows [OF inv] le by (auto simp: rotated_away_def find_mailbox_def)
  next
    case (rotated i successor p1 result obs)
    obtain n where p1: "p1 = p\<lparr> lp_next_material := n \<rparr>" "lp_next_material p < n"
      using fresh_generation_ok(2,3) [OF rotated(6)]
      by (metis lifecycle_provider.select_convs(3) lifecycle_provider.surjective lifecycle_provider.update_convs(3))
    let ?nb = "gm_binding successor" and ?pre = "rq_predecessor rq"
    have g: "cb_receive_scope ?nb = replicate 32 (lp_next_material p)" "cb_continuity_id ?nb = cb_continuity_id ?pre"
      using fresh_generation_ok(1) [OF rotated(6)] by simp_all
    obtain c where c: "cb_continuity_id ?nb = replicate 16 c" "c < lp_next_material p"
      using inv rotated(5) g(2) by (auto simp: material_inv_def)
    have i: "i < length (lp_active p)" using rotated(3) by (simp add: position_of_Some)
    have act: "lp_active p' = (lp_active p)[i := ?nb]" and n: "lp_next_material p' = n"
      by (simp_all add: rotated(9) install_successor_def p1)
    have keys: "find_mailbox p' b \<noteq> None \<longleftrightarrow> find_mailbox p b \<noteq> None \<or> b = ?nb" for b
      using find_added [where ms = "retire_mailbox ?pre at (lp_mailboxes p)" and p = p and ?p1.0 = p and m = successor and b = b for at]
      by (simp add: rotated(9) install_successor_def p1 retire_find find_mailbox_def)
    have dist: "distinct (map cb_continuity_id (lp_active p))" using inv by (simp add: material_inv_def)
    have "map cb_continuity_id (lp_active p') = map cb_continuity_id (lp_active p)"
      unfolding act map_update g(2) rotated(4) [symmetric] using i by (metis list_update_id nth_map)
    then have *: "material_inv p'" "rotated_away p b \<Longrightarrow> rotated_away p' b"
      using add_generation [OF inv g(1) order_refl _ c(1) _ keys] dist p1(2) c(2) n act
      by (auto simp: set_update_subset_insert)
    have "?pre \<notin> set (lp_active p')"
    proof -
      have "?pre \<noteq> ?nb" using inv rotated(5) g(1) by (auto simp: material_inv_def simp del: not_None_eq)
      then show ?thesis
        using set_update_distinct [OF _ i, of ?nb] dist rotated(4) by (auto simp: act distinct_map)
    qed
    with * rotated(5) keys show ?thesis by (simp add: rotated_away_def del: not_None_eq)
  qed (use inv in simp)
  then show "material_inv p'" and "rotated_away p b \<Longrightarrow> rotated_away p' b"
    and "r = Inr result \<Longrightarrow> p' \<noteq> p \<Longrightarrow> rotated_away p' (rq_predecessor rq)" by blast+
qed

lemma delivery_material:
  assumes "deposit_now p endpoint rq ctl = (r, p') \<or> acknowledge_now p authority ids budget ctl' = (r', p')"
  shows "material_inv p' = material_inv p" and "rotated_away p' b = rotated_away p b"
proof -
  have upd: "find_mailbox (p\<lparr> lp_mailboxes := (lp_mailboxes p)[i := m] \<rparr>) b \<noteq> None \<longleftrightarrow> find_mailbox p b \<noteq> None"
    if "position_of (\<lambda>m. gm_binding (ms_material m) = b') (lp_mailboxes p) = Some i"
      and "ms_material m = ms_material (lp_mailboxes p ! i)" for b b' i m
    using position_find [OF that(1)] by (auto simp: find_mailbox_def update_mailbox [OF that])
  have "(\<forall>b. find_mailbox p' b \<noteq> None \<longleftrightarrow> find_mailbox p b \<noteq> None) \<and> lp_next_material p' = lp_next_material p
      \<and> lp_active p' = lp_active p \<and> lp_rotations p' = lp_rotations p"
    using assms
  proof
    assume "deposit_now p endpoint rq ctl = (r, p')"
    then show ?thesis
    proof (cases rule: deposit_cases)
      case (added i)
      then show ?thesis using upd [OF added(1)] by (simp add: push_delivery_def find_mailbox_def)
    qed simp
  next
    assume "acknowledge_now p authority ids budget ctl' = (r', p')"
    then show ?thesis
    proof (cases rule: acknowledge_cases)
      case (acked i)
      then show ?thesis using upd [OF acked(1)] by simp
    qed simp
  qed
  then show "material_inv p' = material_inv p" and "rotated_away p' b = rotated_away p b"
    using same_keys_material [of p' p] by blast+
qed

lemma provider_apply_material:
  assumes inv: "material_inv p"
  shows "material_inv (provider_apply C p op)" and "rotated_away p b \<Longrightarrow> rotated_away (provider_apply C p op) b"
proof -
  have "material_inv (provider_apply C p op) \<and> (rotated_away p b \<longrightarrow> rotated_away (provider_apply C p op) b)"
  proof (cases rule: provider_apply_cases [of p C op])
    case extended
    then show ?thesis
      using issue_material [OF prod.collapse [symmetric] inv] rotate_material(1,2) [OF prod.collapse [symmetric] inv]
      by auto
  next
    case (deposited endpoint rq ctl r)
    then show ?thesis using delivery_material [OF disjI1 [OF deposited(1)]] inv by simp
  next
    case (acknowledged authority ids budget ctl r)
    then show ?thesis using delivery_material [OF disjI2 [OF acknowledged(2)]] inv by simp
  qed (simp add: inv)
  then show "material_inv (provider_apply C p op)"
    and "rotated_away p b \<Longrightarrow> rotated_away (provider_apply C p op) b" by blast+
qed

lemma provider_run_material:
  assumes "material_inv p"
  shows "material_inv (provider_run C p ops)" and "rotated_away p b \<Longrightarrow> rotated_away (provider_run C p ops) b"
  using assms unfolding provider_run_def
  by (induction ops arbitrary: p) (auto intro: provider_apply_material)

section \<open>A generation has one successor\<close>

definition rotation_inv :: "lifecycle_provider \<Rightarrow> bool" where
  "rotation_inv p \<longleftrightarrow> distinct (map ro_predecessor (lp_rotations p))
     \<and> (\<forall>rec \<in> set (lp_rotations p). rotated_away p (ro_predecessor rec))"

lemma rotate_records:
  assumes "rotate_now p expected authority rq ctl = (r, p')"
  obtains (same) "lp_rotations p' = lp_rotations p"
  | (added) successor result where "r = Inr result" and "p' \<noteq> p" and "rq_predecessor rq \<in> set (lp_active p)"
      and "lp_rotations p' = lp_rotations p @ [\<lparr> ro_rotation_id = rq_rotation_id rq,
        ro_predecessor = rq_predecessor rq, ro_mode = rq_mode rq,
        ro_successor_expires_at = rq_successor_expires_at rq, ro_successor = successor \<rparr>]"
  using assms
proof (cases rule: rotate_cases)
  case (refused e n)
  then show thesis using same by simp
next
  case (retried rec result)
  then show thesis using same by simp
next
  case (rotated i successor p1 result obs)
  obtain n where p1: "p1 = p\<lparr> lp_next_material := n \<rparr>" using fresh_generation_frame [OF rotated(6)] by blast
  have "i < length (lp_active p)" using rotated(3) by (simp add: position_of_Some)
  then have act: "rq_predecessor rq \<in> set (lp_active p)" using nth_mem rotated(4) by metis
  have rs: "lp_rotations p' = lp_rotations p @ [\<lparr> ro_rotation_id = rq_rotation_id rq,
        ro_predecessor = rq_predecessor rq, ro_mode = rq_mode rq,
        ro_successor_expires_at = rq_successor_expires_at rq, ro_successor = successor \<rparr>]"
    by (simp add: rotated(9) install_successor_def p1)
  then have "p' \<noteq> p" by auto
  then show thesis using added [OF rotated(7) _ act rs] by simp
qed

lemma same_rotations_inv:
  assumes "rotation_inv p" and "lp_rotations p' = lp_rotations p"
    and "\<And>b. rotated_away p b \<Longrightarrow> rotated_away p' b"
  shows "rotation_inv p'"
  using assms by (simp add: rotation_inv_def)

lemma rotate_rotation_inv:
  assumes rotate: "rotate_now p expected authority rq ctl = (r, p')" and inv: "material_inv p" "rotation_inv p"
  shows "rotation_inv p'" and "set (lp_rotations p) \<subseteq> set (lp_rotations p')"
proof -
  note m = rotate_material [OF rotate inv(1)]
  have "rotation_inv p' \<and> set (lp_rotations p) \<subseteq> set (lp_rotations p')"
    using rotate
  proof (cases rule: rotate_records)
    case same
    then show ?thesis using same_rotations_inv [OF inv(2) _ m(2)] by simp
  next
    case (added successor result)
    have "rq_predecessor rq \<notin> ro_predecessor ` set (lp_rotations p)"
      using inv(2) added(3) by (auto simp: rotation_inv_def rotated_away_def)
    then show ?thesis using inv(2) m(2) m(3) [OF added(1,2)] by (auto simp: rotation_inv_def added(4))
  qed
  then show "rotation_inv p'" and "set (lp_rotations p) \<subseteq> set (lp_rotations p')" by blast+
qed

lemma other_rotations:
  "issue_now p expected rq ctl = (r, p') \<Longrightarrow> lp_rotations p' = lp_rotations p"
  "deposit_now p endpoint drq ctl = (r'', p') \<Longrightarrow> lp_rotations p' = lp_rotations p"
  "acknowledge_now p authority ids budget ctl = (r', p') \<Longrightarrow> lp_rotations p' = lp_rotations p"
proof -
  assume "issue_now p expected rq ctl = (r, p')"
  then show "lp_rotations p' = lp_rotations p"
  proof (cases rule: issue_cases)
    case (issued n k p1 material p2 result)
    then show ?thesis using take_material_frame [OF issued(1)] fresh_generation_frame [OF issued(2)] by auto
  qed simp
next
  assume "deposit_now p endpoint drq ctl = (r'', p')"
  then show "lp_rotations p' = lp_rotations p" by (cases rule: deposit_cases) simp_all
next
  assume "acknowledge_now p authority ids budget ctl = (r', p')"
  then show "lp_rotations p' = lp_rotations p" by (cases rule: acknowledge_cases) simp_all
qed

lemma provider_apply_rotations:
  assumes inv: "material_inv p" "rotation_inv p"
  shows "rotation_inv (provider_apply C p op)"
    and "set (lp_rotations p) \<subseteq> set (lp_rotations (provider_apply C p op))"
    and "lp_scope (provider_apply C p op) = lp_scope p"
proof -
  let ?p = "provider_apply C p op"
  have same: "rotation_inv ?p \<and> set (lp_rotations p) \<subseteq> set (lp_rotations ?p)" if "lp_rotations ?p = lp_rotations p"
    using same_rotations_inv [OF inv(2) that provider_apply_material(2) [OF inv(1)]] that by simp
  have "rotation_inv ?p \<and> set (lp_rotations p) \<subseteq> set (lp_rotations ?p) \<and> lp_scope ?p = lp_scope p"
  proof (cases rule: provider_apply_cases [of p C op])
    case extended
    have "rotation_inv ?p \<and> set (lp_rotations p) \<subseteq> set (lp_rotations ?p)"
      using extended(2) same other_rotations(1) [OF prod.collapse [symmetric]]
        rotate_rotation_inv [OF prod.collapse [symmetric] inv] by (elim disjE exE; simp)
    with extended(1) show ?thesis by (simp add: extends_def)
  next
    case (deposited endpoint rq ctl r)
    have "lp_scope ?p = lp_scope p" using deposited(1) by (cases rule: deposit_cases) simp_all
    with same other_rotations(2) [OF deposited(1)] show ?thesis by blast
  next
    case (acknowledged authority ids budget ctl r)
    have "lp_scope ?p = lp_scope p" using acknowledged(2) by (cases rule: acknowledge_cases) simp_all
    with same other_rotations(3) [OF acknowledged(2)] show ?thesis by blast
  qed (simp add: inv)
  then show "rotation_inv ?p" and "set (lp_rotations p) \<subseteq> set (lp_rotations ?p)" and "lp_scope ?p = lp_scope p"
    by blast+
qed

lemma provider_run_rotations:
  assumes "material_inv p" "rotation_inv p"
  shows "rotation_inv (provider_run C p ops)"
    and "set (lp_rotations p) \<subseteq> set (lp_rotations (provider_run C p ops))"
    and "lp_scope (provider_run C p ops) = lp_scope p"
proof -
  have "rotation_inv (provider_run C p ops) \<and> set (lp_rotations p) \<subseteq> set (lp_rotations (provider_run C p ops))
      \<and> lp_scope (provider_run C p ops) = lp_scope p"
    using assms unfolding provider_run_def
  proof (induction ops arbitrary: p)
    case (Cons op ops)
    then show ?case
      using provider_apply_rotations [of p C op] provider_apply_material(1) [of p C op] by auto
  qed simp
  then show "rotation_inv (provider_run C p ops)"
    and "set (lp_rotations p) \<subseteq> set (lp_rotations (provider_run C p ops))"
    and "lp_scope (provider_run C p ops) = lp_scope p" by blast+
qed

text \<open>A rotation that succeeds leaves the record it answered from.\<close>

lemma rotate_recorded:
  assumes "rotate_now p expected authority rq ctl = (Inr result, p')"
  obtains rec where "rec \<in> set (lp_rotations p')" and "ro_rotation_id rec = rq_rotation_id rq"
    and "ro_predecessor rec = rq_predecessor rq" and "rs_authorities result = authorities (ro_successor rec) (lp_scope p)"
  using assms
proof (cases rule: rotate_cases)
  case (retried rec result')
  then show thesis using that [of rec] by (auto simp: find_Some_iff)
next
  case (rotated i successor p1 result' obs)
  let ?rec = "\<lparr> ro_rotation_id = rq_rotation_id rq, ro_predecessor = rq_predecessor rq, ro_mode = rq_mode rq,
    ro_successor_expires_at = rq_successor_expires_at rq, ro_successor = successor \<rparr>"
  have "?rec \<in> set (lp_rotations p')" by (simp add: rotated(9) install_successor_def)
  then show thesis using that [of ?rec] rotated(7,8) by simp
qed simp

lemma rotated_away_retry:
  assumes "rotate_now p expected authority rq ctl = (Inr result, p')" and "rotated_away p (rq_predecessor rq)"
  shows "p' = p"
  using assms(1)
proof (cases rule: rotate_cases)
  case (rotated i successor p1 result' obs)
  have "i < length (lp_active p)" using rotated(3) by (simp add: position_of_Some)
  then have "rq_predecessor rq \<in> set (lp_active p)" using nth_mem rotated(4) by metis
  then show ?thesis using assms(2) by (simp add: rotated_away_def)
qed simp_all

lemma rotation_inv_new: "rotation_inv (DeterministicLifecycleProviderV1_new scope)"
  by (simp add: rotation_inv_def DeterministicLifecycleProviderV1_new_def)

section \<open>A retired generation stays retired\<close>

definition retired_at :: "lifecycle_provider \<Rightarrow> cursor_binding \<Rightarrow> u64 \<Rightarrow> bool" where
  "retired_at p b at \<longleftrightarrow> map_option ms_retire_at (find_mailbox p b) = Some (Some at)"

lemma mailbox_update_retired:
  assumes "position_of (\<lambda>m. gm_binding (ms_material m) = b') (lp_mailboxes p) = Some i"
    and "ms_material m = ms_material (lp_mailboxes p ! i)" and "ms_retire_at m = ms_retire_at (lp_mailboxes p ! i)"
    and "lp_mailboxes p' = (lp_mailboxes p)[i := m]"
  shows "retired_at p' b at = retired_at p b at"
  using position_find [OF assms(1)] assms(3,4)
  by (simp add: retired_at_def find_mailbox_def update_mailbox [OF assms(1,2)])

lemma rotate_retired:
  assumes "rotate_now p expected authority rq ctl = (r, p')"
  shows "rotated_away p b \<Longrightarrow> retired_at p b at \<Longrightarrow> retired_at p' b at"
    and "r = Inr result \<Longrightarrow> p' \<noteq> p \<Longrightarrow> \<exists>obs. checkpoint ctl (rq_budget rq) = Inr obs
      \<and> retired_at p' (rq_predecessor rq) (case rq_mode rq of Routine drain \<Rightarrow> drain | Compromise \<Rightarrow> do_wall_now obs)"
proof -
  have "(rotated_away p b \<longrightarrow> retired_at p b at \<longrightarrow> retired_at p' b at)
    \<and> ((\<exists>result. r = Inr result) \<longrightarrow> p' \<noteq> p \<longrightarrow> (\<exists>obs. checkpoint ctl (rq_budget rq) = Inr obs
      \<and> retired_at p' (rq_predecessor rq) (case rq_mode rq of Routine drain \<Rightarrow> drain | Compromise \<Rightarrow> do_wall_now obs)))"
    using assms
  proof (cases rule: rotate_cases)
    case (refused e n)
    then show ?thesis by (simp add: retired_at_def find_mailbox_def)
  next
    case (rotated i successor p1 result obs)
    obtain n where p1: "p1 = p\<lparr> lp_next_material := n \<rparr>" using fresh_generation_frame [OF rotated(6)] by blast
    have "i < length (lp_active p)" using rotated(3) by (simp add: position_of_Some)
    then have act: "rq_predecessor rq \<in> set (lp_active p)" using nth_mem rotated(4) by metis
    let ?at = "case request_mode (rq_mode rq) of Some drain \<Rightarrow> drain | None \<Rightarrow> do_wall_now obs"
    have f: "find_mailbox p' c = (case find (\<lambda>m. gm_binding (ms_material m) = c)
          (retire_mailbox (rq_predecessor rq) ?at (lp_mailboxes p)) of Some x \<Rightarrow> Some x
        | None \<Rightarrow> if gm_binding successor = c then Some (fresh_mailbox successor) else None)" for c
      by (simp add: rotated(9) install_successor_def p1 find_mailbox_def add_mailbox_find)
    have "retired_at p' b at" if b: "rotated_away p b" "retired_at p b at"
    proof -
      have "b \<noteq> rq_predecessor rq" using act b(1) by (auto simp: rotated_away_def)
      with b(2) show ?thesis
        unfolding retired_at_def f retire_find by (auto simp: find_mailbox_def split: option.splits)
    qed
    moreover obtain m where m: "find (\<lambda>m. gm_binding (ms_material m) = rq_predecessor rq) (lp_mailboxes p) = Some m"
      using rotated(5) by (auto simp: find_mailbox_def)
    have "?at = (case rq_mode rq of Routine drain \<Rightarrow> drain | Compromise \<Rightarrow> do_wall_now obs)"
      by (cases "rq_mode rq") simp_all
    with m have "retired_at p' (rq_predecessor rq) (case rq_mode rq of Routine drain \<Rightarrow> drain | Compromise \<Rightarrow> do_wall_now obs)"
      by (simp add: retired_at_def f retire_find)
    ultimately show ?thesis using rotated(1) by blast
  qed simp
  then show "rotated_away p b \<Longrightarrow> retired_at p b at \<Longrightarrow> retired_at p' b at"
    and "r = Inr result \<Longrightarrow> p' \<noteq> p \<Longrightarrow> \<exists>obs. checkpoint ctl (rq_budget rq) = Inr obs
      \<and> retired_at p' (rq_predecessor rq) (case rq_mode rq of Routine drain \<Rightarrow> drain | Compromise \<Rightarrow> do_wall_now obs)"
    by blast+
qed

lemma issue_retired:
  assumes "issue_now p expected rq ctl = (r, p')" and "retired_at p b at"
  shows "retired_at p' b at"
  using assms(1)
proof (cases rule: issue_cases)
  case (refused n)
  then show ?thesis using assms(2) by (simp add: retired_at_def find_mailbox_def)
next
  case (issued n k p1 material p2 result)
  have "lp_mailboxes p2 = lp_mailboxes p"
    using take_material_frame [OF issued(1)] fresh_generation_frame [OF issued(2)] by auto
  then show ?thesis
    using assms(2) by (auto simp: issued(5) retired_at_def find_mailbox_def add_mailbox_find split: option.splits)
qed

lemma provider_apply_retired:
  assumes "rotated_away p b" and "retired_at p b at"
  shows "retired_at (provider_apply C p op) b at"
proof (cases rule: provider_apply_cases [of p C op])
  case extended
  then show ?thesis
    using issue_retired [OF prod.collapse [symmetric] assms(2)] rotate_retired(1) [OF prod.collapse [symmetric] assms]
    by (elim disjE exE; simp)
next
  case (deposited endpoint rq ctl r)
  from deposited(1) show ?thesis
  proof (cases rule: deposit_cases)
    case (added i)
    have "lp_mailboxes (provider_apply C p op) = (lp_mailboxes p)[i := (lp_mailboxes p ! i)\<lparr> ms_deliveries :=
        ms_deliveries (lp_mailboxes p ! i) @ [delivery_of (lp_next_delivery_sequence p) (dr_envelope rq)] \<rparr>]"
      unfolding added(6) push_delivery_def by simp
    from mailbox_update_retired [OF added(1) _ _ this] assms(2) show ?thesis by simp
  qed (simp add: assms)
next
  case (acknowledged authority ids budget ctl r)
  from acknowledged(2) show ?thesis
  proof (cases rule: acknowledge_cases)
    case (acked i)
    have "lp_mailboxes (provider_apply C p op) = (lp_mailboxes p)[i := (lp_mailboxes p ! i)\<lparr> ms_deliveries :=
        acknowledge_deliveries ids (mailbox_deliveries p (rm_binding authority)) \<rparr>]"
      unfolding acked(4) by simp
    from mailbox_update_retired [OF acked(1) _ _ this] assms(2) show ?thesis by simp
  qed (simp add: assms)
qed (simp add: assms)

lemma provider_run_retired:
  assumes "material_inv p" and "rotated_away p b" and "retired_at p b at"
  shows "retired_at (provider_run C p ops) b at"
  using assms unfolding provider_run_def
  by (induction ops arbitrary: p) (auto intro: provider_apply_material provider_apply_retired)

lemma retired_refused:
  assumes "retired_at p b at" and "at \<le> now"
  shows "mailbox_index p b token expected now = Inl (failure InvalidAuthority)"
proof -
  obtain i where "position_of (\<lambda>m. gm_binding (ms_material m) = b) (lp_mailboxes p) = Some i"
      "ms_retire_at (lp_mailboxes p ! i) = Some at"
    using assms(1) by (auto simp: retired_at_def find_mailbox_def find_position)
  with assms(2) show ?thesis by (simp add: mailbox_index_def Let_def)
qed

end
