(* ===== verification/Receive_Owner.thy ===== *)
theory Receive_Owner
  imports Receive_State
begin

text \<open>
  The deterministic owner of receive state, \<open>crates/transport-conformance/src/receive_owner.rs\<close>: it
  commits poll pages by compare-and-swap, keeps the canonical bytes of every delivery, and schedules
  acknowledgements. \<open>Arc\<close> identities are numbers taken from a counter in the state, so an identity is
  never handed out twice. Committed pages and leases are the records the source returns; no claim
  assumes that a caller cannot make one up.
\<close>

section \<open>State\<close>

datatype owner_error = DeterministicReceiveStateError

record committed_page =
  cg_owner :: nat
  cg_nonce :: u64
  cg_revision :: u64
  cg_binding :: cursor_binding
  cg_outcomes :: "deduplication_outcome list"
  cg_acknowledgement_intent :: "ident list option"

record acknowledgement_lease =
  al_identity :: nat
  al_binding :: cursor_binding
  al_delivery_ids :: "ident list"

datatype persisted_position =
    PersistedResume bytes
  | PersistedCommittedPageWithoutCursor
  | PersistedExplicitResynchronization resynchronization_reason

record persisted_checkpoint =
  pk_binding :: cursor_binding
  pk_revision :: u64
  pk_position :: persisted_position

record commit_evidence =
  ev_nonce :: u64
  ev_revision :: u64
  ev_binding :: cursor_binding
  ev_delivery_ids :: "ident list"

record receive_owner =
  ow_owner :: nat
  ow_next_commit_nonce :: u64
  ow_stored :: "(ident, bytes) btree_map"
  ow_checkpoint :: "persisted_checkpoint option"
  ow_recoverable :: "(cursor_binding \<times> ident list) option"
  ow_valid_commit :: "commit_evidence option"
  ow_leased :: "acknowledgement_lease option"
  ow_next_identity :: nat

definition DeterministicReceiveStateOwnerV1_new :: "nat \<Rightarrow> receive_owner" where
  "DeterministicReceiveStateOwnerV1_new identity =
     \<lparr> ow_owner = identity, ow_next_commit_nonce = 1, ow_stored = [], ow_checkpoint = None,
       ow_recoverable = None, ow_valid_commit = None, ow_leased = None,
       ow_next_identity = identity + 1 \<rparr>"

definition restart :: "receive_owner \<Rightarrow> receive_owner" where
  "restart s = s\<lparr> ow_owner := ow_next_identity s, ow_next_identity := ow_next_identity s + 1,
     ow_valid_commit := None, ow_leased := None \<rparr>"

section \<open>Checks\<close>

fun position_matches :: "persisted_position \<Rightarrow> receive_checkpoint \<Rightarrow> bool" where
  "position_matches (PersistedResume cursor) cp \<longleftrightarrow> poll_cursor cp = Some cursor"
| "position_matches PersistedCommittedPageWithoutCursor cp \<longleftrightarrow> is_committed_page_without_cursor cp"
| "position_matches (PersistedExplicitResynchronization reason) cp \<longleftrightarrow>
     resynchronization_reason_of cp = Some reason"

definition checkpoint_matches :: "receive_owner \<Rightarrow> receive_checkpoint \<Rightarrow> bool" where
  "checkpoint_matches s cp =
     (case ow_checkpoint s of
        None \<Rightarrow> False
      | Some pk \<Rightarrow> pk_binding pk = cp_binding cp \<and> pk_revision pk = cp_revision cp
          \<and> position_matches (pk_position pk) cp)"

definition validate_lease :: "receive_owner \<Rightarrow> acknowledgement_lease \<Rightarrow> owner_error + unit" where
  "validate_lease s l =
     (case ow_leased s of
        None \<Rightarrow> Err DeterministicReceiveStateError
      | Some expected \<Rightarrow>
        if al_identity expected = al_identity l \<and> al_binding expected = al_binding l
           \<and> al_delivery_ids expected = al_delivery_ids l
        then Ok () else Err DeterministicReceiveStateError)"

definition copy_ids :: "ident list \<Rightarrow> owner_error + ident list" where
  "copy_ids ids = map_err (\<lambda>_. DeterministicReceiveStateError) (BoundedDeliveryIds_new ids)"

section \<open>Checkpoint operations\<close>

definition load_checkpoint ::
    "receive_owner \<Rightarrow> cursor_binding \<Rightarrow> u64 \<Rightarrow> owner_error + receive_checkpoint option" where
  "load_checkpoint s binding now =
     (if cb_expires_at binding \<le> now then Err DeterministicReceiveStateError
      else case ow_checkpoint s of
        None \<Rightarrow> Ok None
      | Some pk \<Rightarrow>
        if pk_binding pk \<noteq> binding then Ok None
        else and_then
          (case pk_position pk of
             PersistedResume cursor \<Rightarrow>
               and_then (map_err (\<lambda>_. DeterministicReceiveStateError) (Cursor_new cursor)) (\<lambda>c.
                 map_err (\<lambda>_. DeterministicReceiveStateError)
                   (ReceiveCheckpointV1_resume (pk_binding pk) (BoundCursorV1_new c (pk_binding pk))
                      (pk_revision pk) now))
           | PersistedCommittedPageWithoutCursor \<Rightarrow>
               map_err (\<lambda>_. DeterministicReceiveStateError)
                 (ReceiveCheckpointV1_committed_page_without_cursor (pk_binding pk) (pk_revision pk) now)
           | PersistedExplicitResynchronization reason \<Rightarrow>
               map_err (\<lambda>_. DeterministicReceiveStateError)
                 (ReceiveCheckpointV1_from_recorded_resynchronization (pk_binding pk) (pk_revision pk) reason now))
          (\<lambda>cp. Ok (Some cp)))"

definition record_resynchronization ::
    "receive_owner \<Rightarrow> resynchronization_request \<Rightarrow> u64 \<Rightarrow> (owner_error + receive_checkpoint) \<times> receive_owner" where
  "record_resynchronization s rq now =
     (let expected = rr_expected_checkpoint rq; binding = cp_binding expected in
      if cb_expires_at binding \<le> now \<or> \<not> checkpoint_matches s expected
         \<or> ow_recoverable s \<noteq> None \<or> ow_leased s \<noteq> None
      then (Err DeterministicReceiveStateError, s)
      else (map_err (\<lambda>_. DeterministicReceiveStateError)
              (ReceiveCheckpointV1_from_recorded_resynchronization binding (rr_successor_revision rq)
                 (rr_reason rq) now),
            s\<lparr> ow_checkpoint := Some \<lparr> pk_binding = binding, pk_revision = rr_successor_revision rq,
                 pk_position = PersistedExplicitResynchronization (rr_reason rq) \<rparr> \<rparr>))"

text \<open>
  The deduplication pass: the outcome of every item against what is stored, and the items to add. A
  delivery stored with other bytes stops it.
\<close>

fun dedup_items ::
    "(ident, bytes) btree_map \<Rightarrow> received_canonical_envelope list
      \<Rightarrow> owner_error + (deduplication_outcome list \<times> (ident \<times> bytes) list)" where
  "dedup_items stored [] = Ok ([], [])"
| "dedup_items stored (item # items) =
     (case bt_get stored (rc_delivery_id item) of
        Some bs \<Rightarrow>
          if bs = ce_bytes (rc_envelope item)
          then and_then (dedup_items stored items) (\<lambda>(os, adds). Ok (Duplicate # os, adds))
          else Err DeterministicReceiveStateError
      | None \<Rightarrow>
          and_then (dedup_items stored items) (\<lambda>(os, adds).
            Ok (Stored # os, (rc_delivery_id item, ce_bytes (rc_envelope item)) # adds)))"

definition MAX_STORED :: usize where "MAX_STORED = 64"
definition MAX_STORED_BYTES :: usize where "MAX_STORED_BYTES = 4 * 1024 * 1024"

definition over_capacity :: "(ident, bytes) btree_map \<Rightarrow> (ident \<times> bytes) list \<Rightarrow> bool" where
  "over_capacity stored adds \<longleftrightarrow>
     usize_saturating_add (length stored) (length adds) > MAX_STORED
     \<or> usize_saturating_add (sum_list (map length (bt_values stored)))
         (sum_list (map (\<lambda>(_, v). length v) adds)) > MAX_STORED_BYTES"

definition insert_all :: "(ident \<times> bytes) list \<Rightarrow> (ident, bytes) btree_map \<Rightarrow> (ident, bytes) btree_map" where
  "insert_all adds stored = fold (\<lambda>(k, v). bt_insert k v) adds stored"

definition page_refused :: "receive_owner \<Rightarrow> receive_page_commit \<Rightarrow> u64 \<Rightarrow> bool" where
  "page_refused s pc now \<longleftrightarrow>
     cb_expires_at (cp_binding (pc_expected_checkpoint pc)) \<le> now
     \<or> ow_recoverable s \<noteq> None
     \<or> ow_leased s \<noteq> None
     \<or> (ow_checkpoint s \<noteq> None \<and> \<not> checkpoint_matches s (pc_expected_checkpoint pc))"

definition store_page ::
    "receive_owner \<Rightarrow> receive_page_commit \<Rightarrow> u64 \<Rightarrow> u64 \<Rightarrow> (ident \<times> bytes) list \<Rightarrow> receive_owner" where
  "store_page s pc next_revision next_nonce additions =
     s\<lparr> ow_stored := insert_all additions (ow_stored s),
        ow_next_commit_nonce := next_nonce,
        ow_checkpoint := Some \<lparr> pk_binding = cp_binding (pc_expected_checkpoint pc),
          pk_revision = next_revision,
          pk_position = (case pc_next_cursor pc of
             None \<Rightarrow> PersistedCommittedPageWithoutCursor
           | Some cursor \<Rightarrow> PersistedResume (bc_cursor cursor)) \<rparr> \<rparr>"

definition page_recoverable ::
    "receive_page_commit \<Rightarrow> owner_error + (cursor_binding \<times> ident list) option" where
  "page_recoverable pc =
     (case pc_acknowledgement_intent pc of
        None \<Rightarrow> Ok None
      | Some ids \<Rightarrow> and_then (copy_ids ids) (\<lambda>copied.
          Ok (Some (cp_binding (pc_expected_checkpoint pc), copied))))"

definition page_evidence :: "receive_page_commit \<Rightarrow> u64 \<Rightarrow> u64 \<Rightarrow> commit_evidence" where
  "page_evidence pc nonce revision =
     \<lparr> ev_nonce = nonce, ev_revision = revision, ev_binding = cp_binding (pc_expected_checkpoint pc),
       ev_delivery_ids = map rc_delivery_id (pc_items pc) \<rparr>"

definition page_receipt ::
    "receive_owner \<Rightarrow> receive_page_commit \<Rightarrow> u64 \<Rightarrow> deduplication_outcome list \<Rightarrow> committed_page" where
  "page_receipt s pc revision outcomes =
     \<lparr> cg_owner = ow_owner s, cg_nonce = ow_next_commit_nonce s, cg_revision = revision,
       cg_binding = cp_binding (pc_expected_checkpoint pc), cg_outcomes = outcomes,
       cg_acknowledgement_intent = pc_acknowledgement_intent pc \<rparr>"

definition commit_receive_page ::
    "receive_owner \<Rightarrow> receive_page_commit \<Rightarrow> u64 \<Rightarrow> (owner_error + committed_page) \<times> receive_owner" where
  "commit_receive_page s pc now =
     (if page_refused s pc now then (Err DeterministicReceiveStateError, s)
      else case ReceiveCheckpointRevision_successor (cp_revision (pc_expected_checkpoint pc)) of
        Inl _ \<Rightarrow> (Err DeterministicReceiveStateError, s)
      | Inr next_revision \<Rightarrow>
        (case dedup_items (ow_stored s) (pc_items pc) of
           Inl e \<Rightarrow> (Err e, s)
         | Inr (outcomes, additions) \<Rightarrow>
           if over_capacity (ow_stored s) additions then (Err DeterministicReceiveStateError, s)
           else (case checked_add (ow_next_commit_nonce s) 1 of
              None \<Rightarrow> (Err DeterministicReceiveStateError, s)
            | Some next_nonce \<Rightarrow>
              (case page_recoverable pc of
                 Inl e \<Rightarrow> (Err e, store_page s pc next_revision next_nonce additions)
               | Inr recoverable \<Rightarrow>
                 (Ok (page_receipt s pc next_revision outcomes),
                  (store_page s pc next_revision next_nonce additions)
                    \<lparr> ow_recoverable := recoverable,
                      ow_valid_commit := Some (page_evidence pc (ow_next_commit_nonce s) next_revision) \<rparr>)))))"

section \<open>Acknowledgement operations\<close>

definition issue_lease ::
    "receive_owner \<Rightarrow> cursor_binding \<Rightarrow> ident list \<Rightarrow> ident list \<Rightarrow> acknowledgement_lease \<times> receive_owner" where
  "issue_lease s binding ids copied =
     (\<lparr> al_identity = ow_next_identity s, al_binding = binding, al_delivery_ids = copied \<rparr>,
      s\<lparr> ow_leased := Some \<lparr> al_identity = ow_next_identity s, al_binding = binding, al_delivery_ids = ids \<rparr>,
         ow_next_identity := ow_next_identity s + 1 \<rparr>)"

definition lease_acknowledgement ::
    "receive_owner \<Rightarrow> committed_page \<Rightarrow> u64 \<Rightarrow> (owner_error + acknowledgement_lease option) \<times> receive_owner" where
  "lease_acknowledgement s cg now =
     (if ow_owner s \<noteq> cg_owner cg \<or> cb_expires_at (cg_binding cg) \<le> now
      then (Err DeterministicReceiveStateError, s)
      else
        (let ids = (case cg_acknowledgement_intent cg of None \<Rightarrow> [] | Some ids \<Rightarrow> ids);
             evidence_matches = (case ow_valid_commit s of
                None \<Rightarrow> False
              | Some ev \<Rightarrow> ev_nonce ev = cg_nonce cg \<and> ev_revision ev = cg_revision cg
                  \<and> ev_binding ev = cg_binding cg \<and> ev_delivery_ids ev = ids) in
         if \<not> evidence_matches \<or> ow_leased s \<noteq> None then (Err DeterministicReceiveStateError, s)
         else
           (let s1 = s\<lparr> ow_valid_commit := None \<rparr> in
            case cg_acknowledgement_intent cg of
              None \<Rightarrow> (Ok None, s1)
            | Some ids \<Rightarrow>
              if ow_recoverable s \<noteq> Some (cg_binding cg, ids) then (Err DeterministicReceiveStateError, s1)
              else (case copy_ids ids of
                 Inl e \<Rightarrow> (Err e, s1)
               | Inr copied \<Rightarrow>
                 (let (l, s2) = issue_lease s1 (cg_binding cg) ids copied in (Ok (Some l), s2))))))"

definition recover_acknowledgement ::
    "receive_owner \<Rightarrow> cursor_binding \<Rightarrow> u64 \<Rightarrow> (owner_error + acknowledgement_lease option) \<times> receive_owner" where
  "recover_acknowledgement s binding now =
     (if cb_expires_at binding \<le> now \<or> ow_leased s \<noteq> None then (Err DeterministicReceiveStateError, s)
      else case ow_recoverable s of
        None \<Rightarrow> (Ok None, s)
      | Some (persisted, ids) \<Rightarrow>
        if persisted \<noteq> binding then (Ok None, s)
        else (case copy_ids ids of
           Inl e \<Rightarrow> (Err e, s)
         | Inr copied \<Rightarrow>
           (let (l, s1) = issue_lease (s\<lparr> ow_valid_commit := None \<rparr>) persisted ids copied in (Ok (Some l), s1))))"

definition accept_acknowledgement ::
    "receive_owner \<Rightarrow> acknowledgement_lease \<Rightarrow> (owner_error + unit) \<times> receive_owner" where
  "accept_acknowledgement s l =
     (case validate_lease s l of
        Inl e \<Rightarrow> (Err e, s)
      | Inr _ \<Rightarrow>
        if ow_recoverable s \<noteq> Some (al_binding l, al_delivery_ids l) then (Err DeterministicReceiveStateError, s)
        else (Ok (), s\<lparr> ow_valid_commit := None, ow_recoverable := None, ow_leased := None \<rparr>))"

definition release_acknowledgement ::
    "receive_owner \<Rightarrow> acknowledgement_lease \<Rightarrow> (owner_error + unit) \<times> receive_owner" where
  "release_acknowledgement s l =
     (case validate_lease s l of
        Inl e \<Rightarrow> (Err e, s)
      | Inr _ \<Rightarrow> (Ok (), s\<lparr> ow_leased := None \<rparr>))"

end
