(* ===== verification/Receive_Invariants.thy ===== *)
theory Receive_Invariants
  imports Receive_Owner
begin

text \<open>
  How the receive owner may change: every operation is a step of \<open>owner_step\<close>, and the invariant,
  the durability of what is stored, the growth of the revision and the fencing of old leases are
  shown once for steps.
\<close>

section \<open>The deduplication pass\<close>

lemma bt_insert_bytes_le:
  "sum_list (map length (bt_values (bt_insert k v m))) \<le> sum_list (map length (bt_values m)) + length v"
  by (induction k v m rule: bt_insert.induct) (auto simp: bt_values_def)

lemma insert_all_simps:
  "insert_all [] m = m" "insert_all ((k, v) # adds) m = insert_all adds (bt_insert k v m)"
  by (simp_all add: insert_all_def)

lemma insert_all_other: "k \<notin> fst ` set adds \<Longrightarrow> bt_get (insert_all adds m) k = bt_get m k"
  by (induction adds arbitrary: m) (auto simp: insert_all_simps bt_get_insert)

lemma insert_all_added:
  "distinct (map fst adds) \<Longrightarrow> (k, v) \<in> set adds \<Longrightarrow> bt_get (insert_all adds m) k = Some v"
proof (induction adds arbitrary: m)
  case (Cons x adds)
  then show ?case
    by (cases x) (auto simp: insert_all_simps insert_all_other bt_get_insert)
qed simp

lemma insert_all_wf: "bt_wf m \<Longrightarrow> bt_wf (insert_all adds m)"
  by (induction adds arbitrary: m) (auto simp: insert_all_simps bt_wf_insert)

lemma insert_all_size:
  "length (insert_all adds m) \<le> length m + length adds"
  "sum_list (map length (bt_values (insert_all adds m)))
     \<le> sum_list (map length (bt_values m)) + sum_list (map (\<lambda>(_, v). length v) adds)"
proof (induction adds arbitrary: m)
  case (Cons x adds)
  obtain k v where x: "x = (k, v)" by fastforce
  case 1
  show ?case using Cons.IH(1) [of "bt_insert k v m"] bt_insert_length [of k v m]
    by (simp add: x insert_all_simps)
  case 2
  show ?case using Cons.IH(2) [of "bt_insert k v m"] bt_insert_bytes_le [of k v m]
    by (simp add: x insert_all_simps)
qed (simp_all add: insert_all_simps)

lemma dedup_cases:
  "dedup_items m items = Inr (os, adds) \<Longrightarrow> length os = length items
     \<and> (\<forall>k v. (k, v) \<in> set adds \<longrightarrow> bt_get m k = None)
     \<and> fst ` set adds \<subseteq> rc_delivery_id ` set items
     \<and> (distinct (map rc_delivery_id items) \<longrightarrow> distinct (map fst adds))
     \<and> (\<forall>i \<in> set items. bt_get m (rc_delivery_id i) = Some (ce_bytes (rc_envelope i))
          \<or> (rc_delivery_id i, ce_bytes (rc_envelope i)) \<in> set adds)"
proof (induction items arbitrary: os adds)
  case (Cons item items)
  show ?case
  proof (cases "bt_get m (rc_delivery_id item)")
    case None
    then obtain os' adds' where d: "dedup_items m items = Inr (os', adds')" and "os = Stored # os'"
      and "adds = (rc_delivery_id item, ce_bytes (rc_envelope item)) # adds'"
      using Cons.prems by (auto simp: ok_iff)
    with Cons.IH [OF d] None show ?thesis by (simp; blast)
  next
    case (Some bs)
    then obtain os' where d: "dedup_items m items = Inr (os', adds)" and "os = Duplicate # os'"
      and "bs = ce_bytes (rc_envelope item)"
      using Cons.prems by (auto simp: ok_iff split: if_splits)
    with Cons.IH [OF d] Some show ?thesis by (simp; blast)
  qed
qed auto

lemma dedup_ok:
  assumes "dedup_items m items = Inr (os, adds)"
  shows "length os = length items"
    and "\<And>k v. (k, v) \<in> set adds \<Longrightarrow> bt_get m k = None"
    and "distinct (map rc_delivery_id items) \<Longrightarrow> distinct (map fst adds)"
    and "fst ` set adds \<subseteq> rc_delivery_id ` set items"
    and "\<And>i. i \<in> set items \<Longrightarrow> bt_get m (rc_delivery_id i) = Some (ce_bytes (rc_envelope i))
           \<or> (rc_delivery_id i, ce_bytes (rc_envelope i)) \<in> set adds"
  using dedup_cases [OF assms] by blast+

lemma dedup_stores:
  assumes "dedup_items m items = Inr (os, adds)" and "distinct (map rc_delivery_id items)"
  shows "i \<in> set items \<Longrightarrow> bt_get (insert_all adds m) (rc_delivery_id i) = Some (ce_bytes (rc_envelope i))"
    and "bt_get m k = Some v \<Longrightarrow> bt_get (insert_all adds m) k = Some v"
proof -
  have keep: "bt_get (insert_all adds m) k = Some v" if "bt_get m k = Some v" for k v
    using that dedup_ok(2) [OF assms(1)] insert_all_other [of k adds m] by force
  then show "bt_get m k = Some v \<Longrightarrow> bt_get (insert_all adds m) k = Some v" .
  show "i \<in> set items \<Longrightarrow> bt_get (insert_all adds m) (rc_delivery_id i) = Some (ce_bytes (rc_envelope i))"
    using dedup_ok(5) [OF assms(1)] keep insert_all_added [OF dedup_ok(3) [OF assms]] by blast
qed

section \<open>Steps\<close>

definition page_wf :: "receive_page_commit \<Rightarrow> bool" where
  "page_wf pc \<longleftrightarrow> (\<exists>cp batch. ReceivePageCommitV1_new cp batch = Inr pc)"

lemma page_wf_iff:
  "page_wf pc \<longleftrightarrow> distinct (map rc_delivery_id (pc_items pc)) \<and> length (pc_items pc) \<le> unat MAX_ACKNOWLEDGEMENT_IDS
     \<and> (\<forall>c. pc_next_cursor pc = Some c \<longrightarrow> bc_binding c = cp_binding (pc_expected_checkpoint pc))
     \<and> pc_acknowledgement_intent pc =
         (if pc_items pc = [] then None else Some (map rc_delivery_id (pc_items pc)))" (is "?l \<longleftrightarrow> ?r")
proof
  assume ?r
  then have "ReceivePageCommitV1_new (pc_expected_checkpoint pc)
      \<lparr> rb_items = pc_items pc, rb_next_cursor = map_option bc_cursor (pc_next_cursor pc),
        rb_receive_binding = Some (ReceivePollBindingV1_from_checkpoint (pc_expected_checkpoint pc)) \<rparr> = Inr pc"
    by (cases "pc_next_cursor pc") (auto simp: page_commit_ok BoundCursorV1_new_def)
  then show ?l unfolding page_wf_def by blast
next
  assume ?l
  then show ?r
    by (auto simp: page_wf_def page_commit_ok BoundCursorV1_new_def)
qed

text \<open>The state after a committed page.\<close>

definition after_page :: "receive_owner \<Rightarrow> receive_page_commit \<Rightarrow> (ident \<times> bytes) list \<Rightarrow> receive_owner" where
  "after_page s pc additions =
     (store_page s pc (cp_revision (pc_expected_checkpoint pc) + 1) (ow_next_commit_nonce s + 1) additions)
       \<lparr> ow_recoverable := map_option (Pair (cp_binding (pc_expected_checkpoint pc))) (pc_acknowledgement_intent pc),
         ow_valid_commit := Some (page_evidence pc (ow_next_commit_nonce s)
           (cp_revision (pc_expected_checkpoint pc) + 1)) \<rparr>"

lemma after_page_simps [simp]:
  "ow_owner (after_page s pc additions) = ow_owner s"
  "ow_stored (after_page s pc additions) = insert_all additions (ow_stored s)"
  "ow_recoverable (after_page s pc additions) =
     map_option (Pair (cp_binding (pc_expected_checkpoint pc))) (pc_acknowledgement_intent pc)"
  "ow_leased (after_page s pc additions) = ow_leased s"
  "ow_next_identity (after_page s pc additions) = ow_next_identity s"
  "ow_checkpoint (after_page s pc additions) = Some \<lparr> pk_binding = cp_binding (pc_expected_checkpoint pc),
     pk_revision = cp_revision (pc_expected_checkpoint pc) + 1,
     pk_position = (case pc_next_cursor pc of None \<Rightarrow> PersistedCommittedPageWithoutCursor
       | Some cursor \<Rightarrow> PersistedResume (bc_cursor cursor)) \<rparr>"
  "ow_valid_commit (after_page s pc additions) = Some (page_evidence pc (ow_next_commit_nonce s)
     (cp_revision (pc_expected_checkpoint pc) + 1))"
  by (simp_all add: after_page_def store_page_def)

inductive owner_step :: "receive_owner \<Rightarrow> receive_owner \<Rightarrow> bool" where
  owner_stay: "owner_step s s"
| owner_resync: "\<lbrakk> checkpoint_matches s cp; ow_recoverable s = None; ow_leased s = None;
      cp_revision cp < cp_revision cp + 1 \<rbrakk>
    \<Longrightarrow> owner_step s (s\<lparr> ow_checkpoint := Some \<lparr> pk_binding = cp_binding cp, pk_revision = cp_revision cp + 1,
          pk_position = PersistedExplicitResynchronization reason \<rparr> \<rparr>)"
| owner_commit: "\<lbrakk> page_wf pc; \<not> page_refused s pc now;
      cp_revision (pc_expected_checkpoint pc) < cp_revision (pc_expected_checkpoint pc) + 1;
      dedup_items (ow_stored s) (pc_items pc) = Inr (outcomes, additions);
      \<not> over_capacity (ow_stored s) additions \<rbrakk>
    \<Longrightarrow> owner_step s (after_page s pc additions)"
| owner_forget: "owner_step s (s\<lparr> ow_valid_commit := None \<rparr>)"
| owner_lease: "\<lbrakk> ow_leased s = None; ow_recoverable s = Some (binding, ids) \<rbrakk>
    \<Longrightarrow> owner_step s (s\<lparr> ow_valid_commit := None,
          ow_leased := Some \<lparr> al_identity = ow_next_identity s, al_binding = binding, al_delivery_ids = ids \<rparr>,
          ow_next_identity := ow_next_identity s + 1 \<rparr>)"
| owner_accept: "ow_leased s = Some l \<Longrightarrow>
    owner_step s (s\<lparr> ow_valid_commit := None, ow_recoverable := None, ow_leased := None \<rparr>)"
| owner_release: "owner_step s (s\<lparr> ow_leased := None \<rparr>)"
| owner_restart: "owner_step s (restart s)"

lemma copy_ids_ok:
  "copy_ids ids = Inr ids' \<longleftrightarrow>
     ids' = ids \<and> ids \<noteq> [] \<and> length ids \<le> unat MAX_ACKNOWLEDGEMENT_IDS \<and> distinct ids"
  by (auto simp: copy_ids_def ok_iff bounded_delivery_ids_ok)

lemma page_recoverable_wf:
  "page_wf pc \<Longrightarrow> page_recoverable pc =
     Inr (map_option (Pair (cp_binding (pc_expected_checkpoint pc))) (pc_acknowledgement_intent pc))"
  by (auto simp: page_recoverable_def page_wf_iff copy_ids_def bounded_delivery_ids_ok [THEN iffD2])

lemma commit_page_cases:
  assumes "page_wf pc" and "commit_receive_page s pc now = (r, s')"
  obtains (err) "r = Inl DeterministicReceiveStateError" and "s' = s"
  | (ok) outcomes additions where "\<not> page_refused s pc now"
      and "cp_revision (pc_expected_checkpoint pc) < cp_revision (pc_expected_checkpoint pc) + 1"
      and "dedup_items (ow_stored s) (pc_items pc) = Inr (outcomes, additions)"
      and "\<not> over_capacity (ow_stored s) additions"
      and "r = Inr (page_receipt s pc (cp_revision (pc_expected_checkpoint pc) + 1) outcomes)"
      and "s' = after_page s pc additions"
proof -
  let ?rev = "cp_revision (pc_expected_checkpoint pc)"
  have "(\<exists>e. r = Inl e \<and> s' = s) \<or> (\<exists>outcomes additions. \<not> page_refused s pc now \<and> ?rev < ?rev + 1
      \<and> dedup_items (ow_stored s) (pc_items pc) = Inr (outcomes, additions)
      \<and> \<not> over_capacity (ow_stored s) additions \<and> r = Inr (page_receipt s pc (?rev + 1) outcomes)
      \<and> s' = after_page s pc additions)"
    using assms(2)
    by (auto simp: commit_receive_page_def page_recoverable_wf [OF assms(1)] revision_successor_ok
        checked_add_1_iff after_page_def split: if_splits sum.splits option.splits prod.splits)
  then show thesis
    using err ok by (metis owner_error.exhaust)
qed

lemma commit_page_step:
  assumes "page_wf pc" and "commit_receive_page s pc now = (r, s')"
  shows "owner_step s s'"
  using assms
proof (cases rule: commit_page_cases)
  case (ok outcomes additions)
  then show ?thesis using assms(1) by (auto intro: owner_commit)
qed (simp add: owner_stay)

lemma resync_step:
  assumes "ResynchronizationRequestV1_new cp reason t = Inr rq"
    and "record_resynchronization s rq now = (r, s')"
  shows "owner_step s s'"
  using assms
  by (auto simp: ResynchronizationRequestV1_new_def record_resynchronization_def Let_def ok_iff
      revision_successor_ok simp del: not_None_eq split: if_splits intro: owner_stay owner_resync)

lemma lease_cases:
  assumes "lease_acknowledgement s cg now = (r, s')"
  obtains (kept) "s' = s" and "\<And>l. r \<noteq> Inr (Some l)"
  | (forgot) "s' = s\<lparr> ow_valid_commit := None \<rparr>" and "\<And>l. r \<noteq> Inr (Some l)"
  | (leased) binding ids where "ow_leased s = None" and "ow_recoverable s = Some (binding, ids)"
      and "now < cb_expires_at binding"
      and "r = Inr (Some \<lparr> al_identity = ow_next_identity s, al_binding = binding, al_delivery_ids = ids \<rparr>)"
      and "s' = s\<lparr> ow_valid_commit := None,
        ow_leased := Some \<lparr> al_identity = ow_next_identity s, al_binding = binding, al_delivery_ids = ids \<rparr>,
        ow_next_identity := ow_next_identity s + 1 \<rparr>"
proof -
  have "(s' = s \<and> (\<forall>l. r \<noteq> Inr (Some l))) \<or> (s' = s\<lparr> ow_valid_commit := None \<rparr> \<and> (\<forall>l. r \<noteq> Inr (Some l)))
    \<or> (\<exists>binding ids. ow_leased s = None \<and> ow_recoverable s = Some (binding, ids) \<and> now < cb_expires_at binding
        \<and> r = Inr (Some \<lparr> al_identity = ow_next_identity s, al_binding = binding, al_delivery_ids = ids \<rparr>)
        \<and> s' = s\<lparr> ow_valid_commit := None,
            ow_leased := Some \<lparr> al_identity = ow_next_identity s, al_binding = binding, al_delivery_ids = ids \<rparr>,
            ow_next_identity := ow_next_identity s + 1 \<rparr>)"
    using assms
    by (auto simp: lease_acknowledgement_def Let_def issue_lease_def copy_ids_ok not_le
        split: if_splits option.splits sum.splits)
  then show thesis using kept forgot leased by blast
qed

lemma recover_cases:
  assumes "recover_acknowledgement s b now = (r, s')"
  obtains (kept) "s' = s" and "\<And>l. r \<noteq> Inr (Some l)"
  | (leased) ids where "ow_leased s = None" and "ow_recoverable s = Some (b, ids)"
      and "now < cb_expires_at b"
      and "r = Inr (Some \<lparr> al_identity = ow_next_identity s, al_binding = b, al_delivery_ids = ids \<rparr>)"
      and "s' = s\<lparr> ow_valid_commit := None,
        ow_leased := Some \<lparr> al_identity = ow_next_identity s, al_binding = b, al_delivery_ids = ids \<rparr>,
        ow_next_identity := ow_next_identity s + 1 \<rparr>"
proof -
  have "(s' = s \<and> (\<forall>l. r \<noteq> Inr (Some l)))
    \<or> (\<exists>ids. ow_leased s = None \<and> ow_recoverable s = Some (b, ids) \<and> now < cb_expires_at b
        \<and> r = Inr (Some \<lparr> al_identity = ow_next_identity s, al_binding = b, al_delivery_ids = ids \<rparr>)
        \<and> s' = s\<lparr> ow_valid_commit := None,
            ow_leased := Some \<lparr> al_identity = ow_next_identity s, al_binding = b, al_delivery_ids = ids \<rparr>,
            ow_next_identity := ow_next_identity s + 1 \<rparr>)"
    using assms
    by (auto simp: recover_acknowledgement_def Let_def issue_lease_def copy_ids_ok not_le
        split: if_splits option.splits sum.splits)
  then show thesis using kept leased by blast
qed

lemma lease_step: "lease_acknowledgement s cg now = (r, s') \<Longrightarrow> owner_step s s'"
  by (erule lease_cases) (auto intro: owner_stay owner_forget owner_lease [simplified])

lemma recover_step: "recover_acknowledgement s b now = (r, s') \<Longrightarrow> owner_step s s'"
  by (erule recover_cases) (auto intro: owner_stay owner_lease [simplified])

lemma validate_lease_ok: "validate_lease s l = Inr u \<longleftrightarrow> ow_leased s = Some l"
  by (cases l) (auto simp: validate_lease_def split: option.splits if_splits)

lemma accept_ok:
  "accept_acknowledgement s l = (Inr u, s') \<longleftrightarrow> ow_leased s = Some l
     \<and> ow_recoverable s = Some (al_binding l, al_delivery_ids l)
     \<and> s' = s\<lparr> ow_valid_commit := None, ow_recoverable := None, ow_leased := None \<rparr>"
proof (cases "ow_leased s = Some l")
  case True
  then show ?thesis using validate_lease_ok [of s l "()"] by (auto simp: accept_acknowledgement_def)
next
  case False
  then obtain e where "validate_lease s l = Inl e"
    using validate_lease_ok by (metis old.sum.exhaust)
  with False show ?thesis by (simp add: accept_acknowledgement_def)
qed

lemma accept_err: "accept_acknowledgement s l = (Inl e, s') \<Longrightarrow> s' = s"
  by (auto simp: accept_acknowledgement_def split: sum.splits if_splits)

lemma accept_step: "accept_acknowledgement s l = (r, s') \<Longrightarrow> owner_step s s'"
  by (cases r) (auto simp: accept_ok dest: accept_err intro: owner_stay owner_accept)

lemma release_acknowledgement_step: "release_acknowledgement s l = (r, s') \<Longrightarrow> owner_step s s'"
  by (auto simp: release_acknowledgement_def split: sum.splits intro: owner_stay owner_release)

section \<open>Runs\<close>

datatype owner_op =
    OwResync receive_checkpoint resynchronization_reason u64
  | OwCommit receive_checkpoint "receive_poll_binding receive_batch"
  | OwLease committed_page
  | OwRecover cursor_binding
  | OwAccept acknowledgement_lease
  | OwRelease acknowledgement_lease
  | OwRestart

fun owner_apply :: "receive_owner \<Rightarrow> owner_op \<times> u64 \<Rightarrow> receive_owner" where
  "owner_apply s (OwResync cp reason t, now) =
     (case ResynchronizationRequestV1_new cp reason t of
        Inl _ \<Rightarrow> s | Inr rq \<Rightarrow> snd (record_resynchronization s rq now))"
| "owner_apply s (OwCommit cp batch, now) =
     (case ReceivePageCommitV1_new cp batch of Inl _ \<Rightarrow> s | Inr pc \<Rightarrow> snd (commit_receive_page s pc now))"
| "owner_apply s (OwLease cg, now) = snd (lease_acknowledgement s cg now)"
| "owner_apply s (OwRecover b, now) = snd (recover_acknowledgement s b now)"
| "owner_apply s (OwAccept l, now) = snd (accept_acknowledgement s l)"
| "owner_apply s (OwRelease l, now) = snd (release_acknowledgement s l)"
| "owner_apply s (OwRestart, now) = restart s"

definition owner_run :: "receive_owner \<Rightarrow> (owner_op \<times> u64) list \<Rightarrow> receive_owner" where
  "owner_run s ops = foldl owner_apply s ops"

lemma owner_apply_step: "owner_step s (owner_apply s (op, now))"
proof (cases op)
  case (OwResync cp reason t)
  then show ?thesis
    using resync_step [OF _ prod.collapse [symmetric]] by (auto split: sum.split intro: owner_stay)
next
  case (OwCommit cp batch)
  have "owner_step s (snd (commit_receive_page s pc now))" if "ReceivePageCommitV1_new cp batch = Inr pc" for pc
    using commit_page_step [of pc s now] that page_wf_def by (metis prod.collapse)
  with OwCommit show ?thesis by (auto split: sum.split intro: owner_stay)
qed (auto intro: lease_step recover_step accept_step release_acknowledgement_step owner_restart
    intro!: prod.collapse [symmetric])

abbreviation owner_steps :: "receive_owner \<Rightarrow> receive_owner \<Rightarrow> bool" where
  "owner_steps \<equiv> owner_step\<^sup>*\<^sup>*"

lemma owner_run_steps: "owner_steps s (owner_run s ops)"
  unfolding owner_run_def
proof (induction ops arbitrary: s)
  case (Cons x ops)
  obtain op now where "x = (op, now)" by fastforce
  then have "owner_step s (owner_apply s x)" using owner_apply_step by simp
  with Cons.IH show ?case by (auto intro: converse_rtranclp_into_rtranclp)
qed simp

section \<open>The invariant\<close>

definition owner_inv :: "receive_owner \<Rightarrow> bool" where
  "owner_inv s \<longleftrightarrow> bt_wf (ow_stored s) \<and> length (ow_stored s) \<le> MAX_STORED
     \<and> sum_list (map length (bt_values (ow_stored s))) \<le> MAX_STORED_BYTES
     \<and> ow_owner s < ow_next_identity s
     \<and> (\<forall>b ids. ow_recoverable s = Some (b, ids) \<longrightarrow>
          ids \<noteq> [] \<and> length ids \<le> unat MAX_ACKNOWLEDGEMENT_IDS \<and> distinct ids
          \<and> (\<forall>i \<in> set ids. bt_get (ow_stored s) i \<noteq> None)
          \<and> map_option pk_binding (ow_checkpoint s) = Some b)
     \<and> (\<forall>l. ow_leased s = Some l \<longrightarrow> al_identity l < ow_next_identity s
          \<and> ow_recoverable s = Some (al_binding l, al_delivery_ids l))"

lemma owner_inv_new: "owner_inv (DeterministicReceiveStateOwnerV1_new n)"
  by (simp add: owner_inv_def DeterministicReceiveStateOwnerV1_new_def bt_wf_Nil bt_values_def)

lemma not_over_capacity:
  assumes "\<not> over_capacity m adds"
  shows "length m + length adds \<le> MAX_STORED"
    and "sum_list (map length (bt_values m)) + sum_list (map (\<lambda>(_, v). length v) adds) \<le> MAX_STORED_BYTES"
  using assms by (auto simp: over_capacity_def usize_saturating_add_def MAX_STORED_def MAX_STORED_BYTES_def min_def
      split: if_splits)

lemma owner_step_inv:
  assumes "owner_step s s'" and "owner_inv s"
  shows "owner_inv s'"
  using assms
proof (induction rule: owner_step.induct)
  case (owner_commit pc s now outcomes additions)
  note d = owner_commit(4) and wf = owner_commit(1)[unfolded page_wf_iff]
  have "length (insert_all additions (ow_stored s)) \<le> MAX_STORED"
    and "sum_list (map length (bt_values (insert_all additions (ow_stored s)))) \<le> MAX_STORED_BYTES"
    using insert_all_size [of additions "ow_stored s"] not_over_capacity [OF owner_commit(5)] by linarith+
  moreover have "\<forall>i \<in> set (pc_items pc). bt_get (insert_all additions (ow_stored s)) (rc_delivery_id i) \<noteq> None"
    using dedup_stores(1) [OF d] wf by auto
  moreover have "ow_leased s = None" using owner_commit(2) by (simp add: page_refused_def)
  ultimately show ?case
    using owner_commit.prems wf by (auto simp: owner_inv_def insert_all_wf)
qed (auto simp: owner_inv_def restart_def checkpoint_matches_def split: option.splits)

lemma owner_steps_inv: "owner_steps s s' \<Longrightarrow> owner_inv s \<Longrightarrow> owner_inv s'"
  by (induction rule: rtranclp_induct) (auto intro: owner_step_inv)

section \<open>What lasts\<close>

definition owner_revision :: "receive_owner \<Rightarrow> u64 option" where
  "owner_revision s = map_option pk_revision (ow_checkpoint s)"

lemma owner_step_lasts:
  assumes "owner_step s s'"
  shows "bt_get (ow_stored s) k = Some v \<Longrightarrow> bt_get (ow_stored s') k = Some v"
    and "owner_revision s = Some n \<Longrightarrow> \<exists>m. owner_revision s' = Some m \<and> n \<le> m"
    and "ow_next_identity s \<le> ow_next_identity s'"
  using assms
proof (induction rule: owner_step.induct)
  case (owner_commit pc s now outcomes additions)
  show "bt_get (ow_stored s) k = Some v \<Longrightarrow> bt_get (ow_stored (after_page s pc additions)) k = Some v"
    using dedup_stores(2) [OF owner_commit(4)] owner_commit(1) by (simp add: page_wf_iff)
  show "owner_revision s = Some n \<Longrightarrow> \<exists>m. owner_revision (after_page s pc additions) = Some m \<and> n \<le> m"
    using owner_commit(2,3)
    by (auto simp: owner_revision_def page_refused_def checkpoint_matches_def split: option.splits)
qed (auto simp: owner_revision_def restart_def checkpoint_matches_def split: option.splits)

lemma page_commit_wf: "ReceivePageCommitV1_new cp batch = Inr pc \<Longrightarrow> page_wf pc"
  unfolding page_wf_def by blast

text \<open>The deterministic owner keeps the promises of the port.\<close>

interpretation receive_owner: receive_state_owner owner_revision "\<lambda>s. bt_get (ow_stored s)" commit_receive_page owner_step
proof
  fix cp batch pc s now cg s'
  assume pc: "ReceivePageCommitV1_new cp batch = Inr pc" and ok: "commit_receive_page s pc now = (Inr cg, s')"
  have cp: "pc_expected_checkpoint pc = cp" "pc_items pc = rb_items batch" using pc by (simp_all add: page_commit_ok)
  note wf = page_commit_wf [OF pc]
  show "cp_revision cp < cp_revision cp + 1 \<and> owner_revision s' = Some (cp_revision cp + 1)"
    using wf ok by (cases rule: commit_page_cases) (simp_all add: owner_revision_def cp)
  show "bt_get (ow_stored s') (rc_delivery_id i) = Some (ce_bytes (rc_envelope i))" if i: "i \<in> set (rb_items batch)" for i
    using wf ok
  proof (cases rule: commit_page_cases)
    case (ok outcomes additions)
    then show ?thesis using dedup_stores(1) [OF ok(3)] wf i by (simp add: page_wf_iff cp)
  qed simp
next
  fix cp batch pc s m now
  assume "ReceivePageCommitV1_new cp batch = Inr pc" and "owner_revision s = Some m" and "m \<noteq> cp_revision cp"
  then have "page_refused s pc now"
    by (auto simp: page_refused_def owner_revision_def checkpoint_matches_def page_commit_ok)
  then show "\<exists>e. commit_receive_page s pc now = (Inl e, s)" by (simp add: commit_receive_page_def)
qed (rule owner_step_lasts, assumption+)+

lemma owner_steps_identity: "owner_steps s s' \<Longrightarrow> ow_next_identity s \<le> ow_next_identity s'"
  by (induction rule: rtranclp_induct) (auto dest: owner_step_lasts(3))

text \<open>A lease that is no longer current never becomes current again.\<close>

definition lease_fenced :: "receive_owner \<Rightarrow> nat \<Rightarrow> bool" where
  "lease_fenced s identity \<longleftrightarrow> identity < ow_next_identity s
     \<and> (\<forall>l. ow_leased s = Some l \<longrightarrow> al_identity l \<noteq> identity)"

lemma owner_step_fenced: "owner_step s s' \<Longrightarrow> lease_fenced s i \<Longrightarrow> lease_fenced s' i"
  by (induction rule: owner_step.induct) (auto simp: lease_fenced_def restart_def)

lemma owner_steps_fenced: "owner_steps s s' \<Longrightarrow> lease_fenced s i \<Longrightarrow> lease_fenced s' i"
  by (induction rule: rtranclp_induct) (auto intro: owner_step_fenced)

lemma fenced_lease_refused:
  assumes "lease_fenced s (al_identity l)"
  shows "accept_acknowledgement s l = (Inl DeterministicReceiveStateError, s)"
    and "release_acknowledgement s l = (Inl DeterministicReceiveStateError, s)"
  using assms
  by (auto simp: lease_fenced_def accept_acknowledgement_def release_acknowledgement_def validate_lease_def
      split: option.splits)

end
