(* ===== verification/Receive_System.thy ===== *)
theory Receive_System
  imports Provider_Runs Receive_Invariants
begin

text \<open>
  The receive path as a whole: the deterministic provider, the deterministic owner, and a client
  that loads the owner's checkpoint, polls with it, commits the page it got, and acknowledges only
  what an owner's lease names.
\<close>

section \<open>Receive passes\<close>

definition starting_checkpoint :: "receive_owner \<Rightarrow> cursor_binding \<Rightarrow> u64 \<Rightarrow> owner_error + receive_checkpoint" where
  "starting_checkpoint s b now =
     and_then (load_checkpoint s b now) (\<lambda>found. case found of
        Some cp \<Rightarrow> Ok cp
      | None \<Rightarrow> map_err (\<lambda>_. DeterministicReceiveStateError) (ReceiveCheckpointV1_new_generation b 1 now))"

definition polled_page ::
    "cbor \<Rightarrow> lifecycle_provider \<Rightarrow> right_material \<Rightarrow> receive_checkpoint \<Rightarrow> u16 \<Rightarrow> u32 \<Rightarrow> operation_budget
      \<Rightarrow> control \<Rightarrow> u64 \<Rightarrow> receive_page_commit option" where
  "polled_page C p authority cp max_envelopes max_bytes budget ctl now =
     (case checkpoint_poll_request cp max_envelopes max_bytes 0 budget now of
        Inl _ \<Rightarrow> None
      | Inr rq \<Rightarrow>
        (case poll_now C p authority rq ctl of
           Inl _ \<Rightarrow> None
         | Inr batch \<Rightarrow>
           (case ReceivePageCommitV1_new cp batch of Inl _ \<Rightarrow> None | Inr pc \<Rightarrow> Some pc)))"

datatype system_op =
    SyProvider provider_op
  | SyPass right_material u16 u32 operation_budget control u64
  | SyAcknowledge right_material operation_budget control
  | SyOwner owner_op u64

fun is_acknowledge :: "provider_op \<Rightarrow> bool" where
  "is_acknowledge (PrAcknowledge authority ids budget ctl) = True"
| "is_acknowledge _ = False"

fun is_commit :: "owner_op \<Rightarrow> bool" where
  "is_commit (OwCommit cp batch) = True"
| "is_commit _ = False"

type_synonym receive_system = "lifecycle_provider \<times> receive_owner"

text \<open>
  Pages reach the owner only from a pass, and the provider is asked to acknowledge only what the
  owner has leased; the other operations of both sides come in any order.
\<close>

fun system_apply :: "cbor \<Rightarrow> receive_system \<Rightarrow> system_op \<Rightarrow> receive_system" where
  "system_apply C (p, s) (SyProvider op) = (if is_acknowledge op then (p, s) else (provider_apply C p op, s))"
| "system_apply C (p, s) (SyPass authority max_envelopes max_bytes budget ctl now) =
     (case starting_checkpoint s (rm_binding authority) now of
        Inl _ \<Rightarrow> (p, s)
      | Inr cp \<Rightarrow>
        (case polled_page C p authority cp max_envelopes max_bytes budget ctl now of
           None \<Rightarrow> (p, s)
         | Some pc \<Rightarrow> (p, snd (commit_receive_page s pc now))))"
| "system_apply C (p, s) (SyAcknowledge authority budget ctl) =
     (case ow_leased s of
        None \<Rightarrow> (p, s)
      | Some l \<Rightarrow> (provider_apply C p (PrAcknowledge authority (al_delivery_ids l) budget ctl), s))"
| "system_apply C (p, s) (SyOwner op now) = (if is_commit op then (p, s) else (p, owner_apply s (op, now)))"

definition system_run :: "cbor \<Rightarrow> nat \<Rightarrow> nat \<Rightarrow> system_op list \<Rightarrow> receive_system" where
  "system_run C scope identity ops =
     foldl (system_apply C) (DeterministicLifecycleProviderV1_new scope, DeterministicReceiveStateOwnerV1_new identity) ops"

text \<open>The latest time at which a pass took a page.\<close>

definition reading_time :: "control \<Rightarrow> nat \<Rightarrow> u64" where
  "reading_time ctl k = (case rd_wall (ctl k) of None \<Rightarrow> 0 | Some now \<Rightarrow> now)"

fun pass_time :: "system_op \<Rightarrow> u64" where
  "pass_time (SyPass authority max_envelopes max_bytes budget ctl now) = max (reading_time ctl 0) (reading_time ctl 1)"
| "pass_time _ = 0"

definition latest_pass :: "system_op list \<Rightarrow> u64" where
  "latest_pass ops = fold max (map pass_time ops) 0"

text \<open>The cursor the owner has persisted, as the provider reads it.\<close>

definition persisted_cursor :: "receive_owner \<Rightarrow> (cursor_binding \<times> u64) option" where
  "persisted_cursor s = (case ow_checkpoint s of
     Some pk \<Rightarrow> (case pk_position pk of
       PersistedResume bs \<Rightarrow> (case decode_cursor (Some bs) (cursor_scope (pk_binding pk)) of
         Inr c \<Rightarrow> Some (pk_binding pk, c) | Inl _ \<Rightarrow> None)
     | _ \<Rightarrow> None)
   | None \<Rightarrow> None)"

section \<open>The invariant\<close>

definition is_stored :: "receive_owner \<Rightarrow> stored_delivery \<Rightarrow> bool" where
  "is_stored s d \<longleftrightarrow> bt_get (ow_stored s) (sd_delivery_id d) = Some (sd_canonical_bytes d)"

definition unique_sequences :: "lifecycle_provider \<Rightarrow> bool" where
  "unique_sequences p \<longleftrightarrow> (\<forall>b b' d d'. d \<in> set (mailbox_deliveries p b) \<longrightarrow> d' \<in> set (mailbox_deliveries p b')
     \<longrightarrow> sd_sequence d = sd_sequence d' \<longrightarrow> b = b' \<and> d = d')"

text \<open>What is stored was delivered, and what is acknowledged is stored.\<close>

definition storage_sound :: "lifecycle_provider \<Rightarrow> receive_owner \<Rightarrow> bool" where
  "storage_sound p s \<longleftrightarrow>
     (\<forall>k v. bt_get (ow_stored s) k = Some v \<longrightarrow>
        (\<exists>b. \<exists>d \<in> set (mailbox_deliveries p b). sd_delivery_id d = k \<and> sd_canonical_bytes d = v))
     \<and> (\<forall>b. \<forall>d \<in> set (mailbox_deliveries p b). sd_acknowledged d \<longrightarrow> is_stored s d)"

text \<open>Nothing at or below a cursor is missing, unless it had expired.\<close>

definition covered :: "u64 \<Rightarrow> lifecycle_provider \<Rightarrow> receive_owner \<Rightarrow> cursor_binding \<Rightarrow> u64 \<Rightarrow> bool" where
  "covered T p s b c \<longleftrightarrow> c < lp_next_delivery_sequence p
     \<and> (\<forall>d \<in> set (mailbox_deliveries p b). sd_sequence d \<le> c \<longrightarrow> is_stored s d \<or> sd_expires_at d \<le> T)"

definition cursor_sound :: "u64 \<Rightarrow> lifecycle_provider \<Rightarrow> receive_owner \<Rightarrow> bool" where
  "cursor_sound T p s \<longleftrightarrow>
     (\<forall>pk bs. ow_checkpoint s = Some pk \<longrightarrow> pk_position pk = PersistedResume bs \<longrightarrow>
        length (cb_continuity_id (pk_binding pk)) = 16
        \<and> (\<exists>c. c \<noteq> 0 \<and> bs = encode_cursor (pk_binding pk) c \<and> covered T p s (pk_binding pk) c))"

definition system_inv :: "cbor \<Rightarrow> u64 \<Rightarrow> lifecycle_provider \<Rightarrow> receive_owner \<Rightarrow> bool" where
  "system_inv C T p s \<longleftrightarrow> provider_inv C p \<and> owner_inv s \<and> unique_sequences p
     \<and> storage_sound p s \<and> cursor_sound T p s"

lemma system_inv_new:
  "system_inv C T (DeterministicLifecycleProviderV1_new scope) (DeterministicReceiveStateOwnerV1_new identity)"
  unfolding system_inv_def using provider_inv_new owner_inv_new
  by (simp add: unique_sequences_def storage_sound_def cursor_sound_def bt_get_empty
      DeterministicLifecycleProviderV1_new_def DeterministicReceiveStateOwnerV1_new_def mailbox_deliveries_def
      find_mailbox_def)

lemma system_delivery_ok:
  "system_inv C T p s \<Longrightarrow> d \<in> set (mailbox_deliveries p b) \<Longrightarrow> delivery_ok C (lp_next_delivery_sequence p) d"
  by (auto simp: system_inv_def provider_inv_def list_all_iff)

lemma system_inv_later: "system_inv C T p s \<Longrightarrow> T \<le> T' \<Longrightarrow> system_inv C T' p s"
  unfolding system_inv_def cursor_sound_def covered_def by (meson order_trans)

subsection \<open>Provider calls\<close>

lemma extends_system:
  assumes "extends p p'" and "system_inv C T p s"
  shows "system_inv C T p' s"
  using assms extends_inv [OF assms(1)]
  by (simp add: system_inv_def unique_sequences_def storage_sound_def cursor_sound_def covered_def extends_def)

lemma deposit_system:
  assumes dep: "deposit_now p endpoint rq ctl = (r, p')" and inv: "system_inv C T p s"
    and env: "CanonicalEnvelope_from_canonical_bytes C (ce_bytes (dr_envelope rq)) = Inr (dr_envelope rq)"
  shows "system_inv C T p' s"
  using dep
proof (cases rule: deposit_cases)
  case (added i)
  let ?n = "lp_next_delivery_sequence p" and ?d = "delivery_of (lp_next_delivery_sequence p) (dr_envelope rq)"
  have del: "mailbox_deliveries p' b = (if b = rm_binding endpoint
      then mailbox_deliveries p (rm_binding endpoint) @ [?d] else mailbox_deliveries p b)" for b
    unfolding added(6) using push_deliveries [OF added(1)] by simp
  have old: "sd_sequence d < ?n" if "d \<in> set (mailbox_deliveries p b)" for d b
    using system_delivery_ok [OF inv that] by (simp add: delivery_ok_def)
  have nx: "lp_next_delivery_sequence p' = ?n + 1" by (simp add: added(6))
  have new: "sd_sequence ?d = ?n" "\<not> sd_acknowledged ?d" by (simp_all add: delivery_of_def)
  have "unique_sequences p'"
    using inv old new(1) by (fastforce simp: system_inv_def unique_sequences_def del split: if_splits)
  moreover have "storage_sound p' s"
    using inv new(2) unfolding system_inv_def storage_sound_def del
    by (auto split: if_splits) (metis Un_iff)+
  moreover have "covered T p' s b c" if "covered T p s b c" for b c
    using that added(3) new(1) nx by (auto simp: covered_def del split: if_splits)
  ultimately show ?thesis
    using inv deposit_inv [OF dep _ env] unfolding system_inv_def cursor_sound_def by blast
qed (simp add: inv)

text \<open>What is stored under the identifier of a delivery is that delivery.\<close>

lemma stored_delivery_exact:
  assumes inv: "system_inv C T p s" and d: "d \<in> set (mailbox_deliveries p b)"
    and "bt_get (ow_stored s) (sd_delivery_id d) \<noteq> None"
  shows "is_stored s d"
proof -
  obtain v where v: "bt_get (ow_stored s) (sd_delivery_id d) = Some v" using assms(3) by blast
  then obtain b' d' where d': "d' \<in> set (mailbox_deliveries p b')" "sd_delivery_id d' = sd_delivery_id d"
      "sd_canonical_bytes d' = v"
    using inv unfolding system_inv_def storage_sound_def by blast
  have "sd_delivery_id e = delivery_id_bytes (sd_sequence e)" if "e \<in> set (mailbox_deliveries p b)" for b e
    using system_delivery_ok [OF inv that] by (simp add: delivery_ok_def)
  then have "sd_sequence d' = sd_sequence d" using d d'(1,2) delivery_id_inject by metis
  then have "d' = d" using inv d d'(1) unfolding system_inv_def unique_sequences_def by blast
  with v d'(3) show ?thesis by (simp add: is_stored_def)
qed

lemma acknowledge_system:
  assumes ack: "acknowledge_now p authority ids budget ctl = (r, p')" and inv: "system_inv C T p s"
    and leased: "\<And>i. i \<in> set ids \<Longrightarrow> bt_get (ow_stored s) i \<noteq> None"
  shows "system_inv C T p' s"
  using ack
proof (cases rule: acknowledge_cases)
  case (acked i)
  define f where "f b d = (if b = rm_binding authority \<and> sd_delivery_id d \<in> set ids
    then d\<lparr> sd_acknowledged := True \<rparr> else d)" for b and d :: stored_delivery
  have f: "sd_sequence (f b d) = sd_sequence d" "sd_expires_at (f b d) = sd_expires_at d"
      "is_stored s (f b d) = is_stored s d" "sd_delivery_id (f b d) = sd_delivery_id d"
      "sd_canonical_bytes (f b d) = sd_canonical_bytes d"
      "sd_acknowledged (f b d) \<Longrightarrow> sd_acknowledged d \<or> sd_delivery_id d \<in> set ids" for b d
    by (auto simp: f_def is_stored_def split: if_splits)
  have "mailbox_deliveries p' b = map (f b) (mailbox_deliveries p b)" for b
    unfolding acked(4) acknowledged_deliveries [OF acked(1)] acknowledge_deliveries_def
    by (cases "b = rm_binding authority") (simp_all add: f_def map_idI [symmetric])
  then have del: "set (mailbox_deliveries p' b) = f b ` set (mailbox_deliveries p b)" for b by simp
  have nx: "lp_next_delivery_sequence p' = lp_next_delivery_sequence p" by (simp add: acked(4))
  have us: "b = b' \<and> d = d'" if "d \<in> set (mailbox_deliveries p b)" "d' \<in> set (mailbox_deliveries p b')"
      "sd_sequence d = sd_sequence d'" for b b' d d'
    using inv that unfolding system_inv_def unique_sequences_def by blast
  then have "unique_sequences p'"
    unfolding unique_sequences_def del by (force simp: f(1))
  moreover have "storage_sound p' s"
  proof -
    have "\<exists>b. \<exists>d \<in> set (mailbox_deliveries p' b). sd_delivery_id d = k \<and> sd_canonical_bytes d = v"
      if kv: "bt_get (ow_stored s) k = Some v" for k v
    proof -
      obtain b d where "d \<in> set (mailbox_deliveries p b)" "sd_delivery_id d = k" "sd_canonical_bytes d = v"
        using inv kv unfolding system_inv_def storage_sound_def by blast
      then have "f b d \<in> set (mailbox_deliveries p' b)" "sd_delivery_id (f b d) = k" "sd_canonical_bytes (f b d) = v"
        by (simp_all add: del f)
      then show ?thesis by blast
    qed
    moreover have "is_stored s (f b e)" if e: "e \<in> set (mailbox_deliveries p b)" "sd_acknowledged (f b e)" for b e
      using f(6) [OF e(2)] inv e(1) leased stored_delivery_exact [OF inv e(1)]
      unfolding f(3) system_inv_def storage_sound_def by blast
    ultimately show ?thesis unfolding storage_sound_def by (auto simp: del)
  qed
  moreover have "covered T p' s b c" if "covered T p s b c" for b c
    using that nx unfolding covered_def del by (simp add: f)
  ultimately show ?thesis
    using inv acknowledge_inv [OF ack] unfolding system_inv_def cursor_sound_def by blast
qed (simp add: inv)

subsection \<open>Owner calls\<close>

lemma other_owner_op:
  assumes "\<not> is_commit op"
  shows "ow_stored (owner_apply s (op, now)) = ow_stored s"
    and "ow_checkpoint (owner_apply s (op, now)) = ow_checkpoint s
      \<or> (\<exists>pk reason. ow_checkpoint (owner_apply s (op, now)) = Some pk
           \<and> pk_position pk = PersistedExplicitResynchronization reason)"
proof -
  let ?s = "owner_apply s (op, now)"
  have "ow_stored ?s = ow_stored s \<and> (ow_checkpoint ?s = ow_checkpoint s
      \<or> (\<exists>pk reason. ow_checkpoint ?s = Some pk \<and> pk_position pk = PersistedExplicitResynchronization reason))"
  proof (cases op)
    case (OwResync cp reason t)
    then show ?thesis by (auto simp: record_resynchronization_def Let_def split: sum.split)
  next
    case (OwLease cg)
    then show ?thesis by (cases rule: lease_cases [OF prod.collapse [symmetric], of s cg now]) simp_all
  next
    case (OwRecover b)
    then show ?thesis by (cases rule: recover_cases [OF prod.collapse [symmetric], of s b now]) simp_all
  next
    case (OwAccept l)
    then show ?thesis by (auto simp: accept_acknowledgement_def split: sum.split)
  next
    case (OwRelease l)
    then show ?thesis by (auto simp: release_acknowledgement_def split: sum.split)
  qed (use assms in \<open>simp_all add: restart_def\<close>)
  then show "ow_stored ?s = ow_stored s" and "ow_checkpoint ?s = ow_checkpoint s
      \<or> (\<exists>pk reason. ow_checkpoint ?s = Some pk \<and> pk_position pk = PersistedExplicitResynchronization reason)" by blast+
qed

lemma owner_system:
  assumes "\<not> is_commit op" and inv: "system_inv C T p s"
  shows "system_inv C T p (owner_apply s (op, now))"
proof -
  note o = other_owner_op [OF assms(1), of s now]
  have "owner_inv (owner_apply s (op, now))" using owner_step_inv [OF owner_apply_step] inv by (simp add: system_inv_def)
  moreover have "is_stored (owner_apply s (op, now)) d = is_stored s d" for d by (simp add: is_stored_def o(1))
  moreover have "cursor_sound T p (owner_apply s (op, now))"
    using inv o(2) by (auto simp: system_inv_def cursor_sound_def covered_def is_stored_def o(1))
  ultimately show ?thesis using inv by (simp add: system_inv_def storage_sound_def o(1))
qed

subsection \<open>Passes\<close>

text \<open>The checkpoint a pass starts from has the cursor the owner persisted.\<close>

lemma checkpoint_at_ok:
  "checkpoint_at b revision position now = Inr cp \<longleftrightarrow> now < cb_expires_at b
     \<and> cp = \<lparr> cp_binding = b, cp_revision = revision, cp_position = position \<rparr>"
  by (auto simp: checkpoint_at_def)

lemma load_checkpoint_ok:
  assumes "load_checkpoint s b now = Inr (Some cp)"
  shows "\<exists>pk. ow_checkpoint s = Some pk \<and> pk_binding pk = b \<and> cp_binding cp = b \<and> cp_revision cp = pk_revision pk
    \<and> position_matches (pk_position pk) cp"
proof -
  obtain pk where pk: "ow_checkpoint s = Some pk" "pk_binding pk = b" "\<not> cb_expires_at b \<le> now"
    using assms by (auto simp: load_checkpoint_def split: if_splits option.splits)
  show ?thesis
    using assms pk
    by (cases "pk_position pk")
      (auto simp: load_checkpoint_def ok_iff Cursor_new_def ReceiveCheckpointV1_resume_def BoundCursorV1_new_def
        checkpoint_at_ok ReceiveCheckpointV1_committed_page_without_cursor_def poll_cursor_def
        ReceiveCheckpointV1_from_recorded_resynchronization_def is_committed_page_without_cursor_def
        resynchronization_reason_of_def split: if_splits)
qed

lemma position_matches_cursor: "position_matches position cp \<Longrightarrow> poll_cursor cp = Some bs \<Longrightarrow> position = PersistedResume bs"
  by (cases position)
    (auto simp: poll_cursor_def is_committed_page_without_cursor_def resynchronization_reason_of_def
      split: checkpoint_position.splits)

lemma starting_checkpoint_cursor:
  assumes "starting_checkpoint s b now = Inr cp"
  shows "cp_binding cp = b"
    and "poll_cursor cp = Some bs \<Longrightarrow> \<exists>pk. ow_checkpoint s = Some pk \<and> pk_binding pk = b
           \<and> pk_position pk = PersistedResume bs"
proof -
  have "load_checkpoint s b now = Inr (Some cp) \<or> (cp_binding cp = b \<and> poll_cursor cp = None)"
    using assms
    by (auto simp: starting_checkpoint_def ok_iff ReceiveCheckpointV1_new_generation_def checkpoint_at_ok poll_cursor_def
        split: option.splits)
  then show "cp_binding cp = b"
    and "poll_cursor cp = Some bs \<Longrightarrow> \<exists>pk. ow_checkpoint s = Some pk \<and> pk_binding pk = b
           \<and> pk_position pk = PersistedResume bs"
    using load_checkpoint_ok [of s b now cp] position_matches_cursor [of _ cp bs] by auto
qed

lemma poll_request_ok:
  assumes "checkpoint_poll_request cp max_envelopes max_bytes wait budget now = Inr rq"
  shows "pr_cursor rq = poll_cursor cp" and "0 < unat (pr_max_envelopes rq)"
    and "pr_receive_binding rq = Some (ReceivePollBindingV1_from_checkpoint cp)"
proof -
  have "pr_cursor rq = poll_cursor cp \<and> 0 < unat (pr_max_envelopes rq)
      \<and> pr_receive_binding rq = Some (ReceivePollBindingV1_from_checkpoint cp)"
    using assms
    by (auto simp: checkpoint_poll_request_def ok_iff Cursor_new_def PollRequest_new_def
        PollRequest_bind_receive_checkpoint_def unat_gt_0 split: if_splits option.splits sum.splits)
  then show "pr_cursor rq = poll_cursor cp" and "0 < unat (pr_max_envelopes rq)"
    and "pr_receive_binding rq = Some (ReceivePollBindingV1_from_checkpoint cp)" by blast+
qed

text \<open>
  A page holds every eligible delivery between the requested cursor and the next one, and the next
  cursor is the sequence of a delivery, or the requested one.
\<close>

lemma polled_page_exact:
  assumes page: "polled_page C p authority cp max_envelopes max_bytes budget ctl now = Some pc"
    and inv: "provider_inv C p"
  obtains cur l t where "decode_cursor (poll_cursor cp) (cursor_scope (rm_binding authority)) = Inr cur"
    and "pc_expected_checkpoint pc = cp" and "cp_binding cp = rm_binding authority" and "page_wf pc"
    and "pc_items pc = map received_of (filter (\<lambda>d. sd_sequence d \<le> l)
           (filter (eligible cur t) (mailbox_deliveries p (rm_binding authority))))"
    and "map_option bc_cursor (pc_next_cursor pc) = (if l = 0 then None else Some (encode_cursor (rm_binding authority) l))"
    and "cur \<le> l" and "l = cur \<or> (\<exists>d \<in> set (mailbox_deliveries p (rm_binding authority)). sd_sequence d = l)"
    and "t \<le> max (reading_time ctl 0) (reading_time ctl 1)"
    and "length (cb_continuity_id (rm_binding authority)) = 16"
proof -
  obtain rq batch where rq: "checkpoint_poll_request cp max_envelopes max_bytes 0 budget now = Inr rq"
      and batch: "poll_now C p authority rq ctl = Inr batch" and pc: "ReceivePageCommitV1_new cp batch = Inr pc"
    using page by (auto simp: polled_page_def split: sum.splits)
  note rq' = poll_request_ok [OF rq] and pc' = pc[unfolded page_commit_ok]
  obtain cur t where cur: "decode_cursor (poll_cursor cp) (cursor_scope (rm_binding authority)) = Inr cur"
      and pg: "page_of C (rm_binding authority) rq (mailbox_deliveries p (rm_binding authority)) cur t = Inr batch"
      and box: "find_mailbox p (rm_binding authority) \<noteq> None"
      and bound: "cp_binding cp = rm_binding authority" and t: "\<exists>k < 2. rd_wall (ctl k) = Some t"
    using poll_cases [OF batch] rq' by (metis ReceivePollBindingV1_from_checkpoint_def receive_poll_binding.select_convs(1))
  have ds: "sorted_wrt (<) (map sd_sequence (mailbox_deliveries p (rm_binding authority)))"
      "list_all (delivery_ok C (lp_next_delivery_sequence p)) (mailbox_deliveries p (rm_binding authority))"
    using inv by (simp_all add: provider_inv_def)
  have len: "length (cb_continuity_id (rm_binding authority)) = 16"
    using inv box by (simp add: provider_inv_def del: not_None_eq)
  have tm: "t \<le> max (reading_time ctl 0) (reading_time ctl 1)"
    using t by (auto simp: reading_time_def less_2_cases_iff le_max_iff_disj)
  obtain l where l: "cur \<le> l" "rb_items batch = map received_of (filter (\<lambda>d. sd_sequence d \<le> l)
           (filter (eligible cur t) (mailbox_deliveries p (rm_binding authority))))"
      "rb_next_cursor batch = (if l = 0 then None else Some (encode_cursor (rm_binding authority) l))"
      "l = cur \<or> (\<exists>d \<in> set (mailbox_deliveries p (rm_binding authority)). sd_sequence d = l)"
    by (rule page_of_exact [OF pg ds rq'(2)]) blast
  have "page_wf pc" using pc unfolding page_wf_def by blast
  with that [OF cur _ bound _ _ _ l(1,4) tm len] pc' l(2,3) show thesis
    by (simp add: option.map_comp comp_def BoundCursorV1_new_def del: filter_filter)
qed

lemma starting_covered:
  assumes start: "starting_checkpoint s b now = Inr cp" and inv: "system_inv C T p s"
    and cur: "decode_cursor (poll_cursor cp) (cursor_scope b) = Inr cur"
  shows "covered T p s b cur"
proof (cases "poll_cursor cp")
  case None
  then have "cur = 0" using cur by (simp add: decode_cursor_def)
  moreover have "sd_sequence d \<noteq> 0" if "d \<in> set (mailbox_deliveries p b)" for d
    using system_delivery_ok [OF inv that] by (auto simp: delivery_ok_def)
  ultimately show ?thesis
    using inv by (auto simp: covered_def system_inv_def provider_inv_def)
next
  case (Some bs)
  then obtain pk where "ow_checkpoint s = Some pk" "pk_binding pk = b" "pk_position pk = PersistedResume bs"
    using starting_checkpoint_cursor(2) [OF start] by blast
  then obtain c where "length (cb_continuity_id b) = 16" "c \<noteq> 0" "bs = encode_cursor b c" "covered T p s b c"
    using inv unfolding system_inv_def cursor_sound_def by blast
  with cur Some decode_encode_cursor show ?thesis by auto
qed

lemma page_stores:
  assumes "page_wf pc" and "dedup_items m (pc_items pc) = Inr (outcomes, additions)"
  shows "bt_get (insert_all additions m) k = Some v \<Longrightarrow> bt_get m k = Some v
    \<or> (\<exists>i \<in> set (pc_items pc). rc_delivery_id i = k \<and> ce_bytes (rc_envelope i) = v)"
proof (cases "k \<in> fst ` set additions")
  case True
  assume kv: "bt_get (insert_all additions m) k = Some v"
  obtain i where i: "i \<in> set (pc_items pc)" "rc_delivery_id i = k"
    using subsetD [OF dedup_ok(4) [OF assms(2)] True] by (elim imageE) simp
  have "distinct (map rc_delivery_id (pc_items pc))" using assms(1) by (simp add: page_wf_iff)
  from dedup_stores(1) [OF assms(2) this i(1)] kv i show ?thesis by auto
qed (simp add: insert_all_other)

lemma page_covered:
  assumes inv: "system_inv C T p s" and cov: "covered T p s b cur"
    and "l = cur \<or> (\<exists>d \<in> set (mailbox_deliveries p b). sd_sequence d = l)" and "t \<le> T"
    and keep: "\<And>d. is_stored s d \<Longrightarrow> is_stored s' d"
    and stored: "\<And>d. d \<in> set (mailbox_deliveries p b) \<Longrightarrow> eligible cur t d \<Longrightarrow> sd_sequence d \<le> l \<Longrightarrow> is_stored s' d"
  shows "covered T p s' b l"
proof -
  have "l < lp_next_delivery_sequence p"
    using assms(3) cov inv by (auto simp: covered_def system_inv_def provider_inv_def list_all_iff delivery_ok_def)
  moreover have "is_stored s' d \<or> sd_expires_at d \<le> T" if d: "d \<in> set (mailbox_deliveries p b)" "sd_sequence d \<le> l" for d
  proof -
    consider "sd_sequence d \<le> cur" | "eligible cur t d" | "sd_acknowledged d" | "sd_expires_at d \<le> t"
      unfolding eligible_def by (metis not_less)
    then show ?thesis
    proof cases
      case 1
      then show ?thesis using cov d(1) keep by (auto simp: covered_def)
    next
      case 3
      then show ?thesis using inv d(1) keep unfolding system_inv_def storage_sound_def by blast
    qed (use stored d assms(4) in auto)
  qed
  ultimately show ?thesis by (simp add: covered_def)
qed

lemma page_storage:
  assumes inv: "system_inv C T p s" and keep: "\<And>d. is_stored s d \<Longrightarrow> is_stored s' d"
    and new: "\<And>k v. bt_get (ow_stored s') k = Some v \<Longrightarrow> bt_get (ow_stored s) k = Some v
      \<or> (\<exists>d \<in> set (mailbox_deliveries p b). sd_delivery_id d = k \<and> sd_canonical_bytes d = v)"
  shows "storage_sound p s'"
  using inv keep new unfolding system_inv_def storage_sound_def by blast

lemma pass_system:
  assumes start: "starting_checkpoint s (rm_binding authority) now = Inr cp"
    and page: "polled_page C p authority cp max_envelopes max_bytes budget ctl now = Some pc"
    and inv: "system_inv C T p s" and T: "max (reading_time ctl 0) (reading_time ctl 1) \<le> T"
    and commit: "commit_receive_page s pc now = (r, s')"
  shows "system_inv C T p s'"
proof -
  let ?b = "rm_binding authority" and ?ds = "mailbox_deliveries p (rm_binding authority)"
  obtain cur l t where cur: "decode_cursor (poll_cursor cp) (cursor_scope ?b) = Inr cur"
      and exp: "pc_expected_checkpoint pc = cp" "cp_binding cp = ?b" and wf: "page_wf pc"
      and items: "pc_items pc = map received_of (filter (\<lambda>d. sd_sequence d \<le> l) (filter (eligible cur t) ?ds))"
      and nc: "map_option bc_cursor (pc_next_cursor pc) = (if l = 0 then None else Some (encode_cursor ?b l))"
      and l: "l = cur \<or> (\<exists>d \<in> set ?ds. sd_sequence d = l)"
      and t: "t \<le> max (reading_time ctl 0) (reading_time ctl 1)" and len: "length (cb_continuity_id ?b) = 16"
    by (rule polled_page_exact [OF page]) (use inv in \<open>simp_all add: system_inv_def\<close>)
  have tT: "t \<le> T" using t T by (rule order_trans)
  from wf commit show ?thesis
  proof (cases rule: commit_page_cases)
    case (ok outcomes additions)
    have step: "owner_step s s'" by (rule commit_page_step [OF wf commit])
    have keep: "is_stored s d \<Longrightarrow> is_stored s' d" for d using owner_step_lasts(1) [OF step] by (simp add: is_stored_def)
    have stored: "is_stored s' d" if "d \<in> set ?ds" "eligible cur t d" "sd_sequence d \<le> l" for d
    proof -
      have "received_of d \<in> set (pc_items pc)" using that items by auto
      then show ?thesis
        using dedup_stores(1) [OF ok(3), of "received_of d"] wf
        by (simp add: ok(6) is_stored_def page_wf_iff received_of_def)
    qed
    have "covered T p s' ?b l"
      using page_covered [OF inv starting_covered [OF start inv cur] l tT keep stored] .
    then have "cursor_sound T p s'"
      using nc len by (auto simp: cursor_sound_def ok(6) exp split: option.splits if_splits)
    moreover have "storage_sound p s'"
      using page_storage [OF inv keep, of ?b] page_stores [OF wf ok(3)] items
      by (fastforce simp: ok(6) received_of_def)
    ultimately show ?thesis using inv owner_step_inv [OF step] by (simp add: system_inv_def)
  qed (simp add: inv)
qed

subsection \<open>Runs\<close>

lemma provider_op_system:
  assumes "\<not> is_acknowledge op" and inv: "system_inv C T p s"
  shows "system_inv C T (provider_apply C p op) s"
proof (cases rule: provider_apply_cases [of p C op])
  case extended
  then show ?thesis using extends_system inv by blast
next
  case (deposited endpoint rq ctl r)
  then show ?thesis using deposit_system inv by blast
qed (use assms in auto)

lemma lease_ids_stored:
  "owner_inv s \<Longrightarrow> ow_leased s = Some l \<Longrightarrow> i \<in> set (al_delivery_ids l) \<Longrightarrow> bt_get (ow_stored s) i \<noteq> None"
  unfolding owner_inv_def by blast

lemma system_apply_inv:
  assumes inv: "system_inv C T p s" and time: "pass_time op \<le> T" and app: "system_apply C (p, s) op = (p', s')"
  shows "system_inv C T p' s'"
proof (cases op)
  case (SyProvider pop)
  then show ?thesis using app inv provider_op_system by (auto split: if_splits)
next
  case (SyPass authority max_envelopes max_bytes budget ctl now)
  have T: "max (reading_time ctl 0) (reading_time ctl 1) \<le> T" using time SyPass by simp
  have pass: "system_inv C T p (snd (commit_receive_page s pc now))"
    if "starting_checkpoint s (rm_binding authority) now = Inr cp"
      "polled_page C p authority cp max_envelopes max_bytes budget ctl now = Some pc" for cp pc
    by (rule pass_system [OF that inv T prod.collapse [symmetric]])
  show ?thesis using app inv pass SyPass by (auto split: sum.splits option.splits)
next
  case (SyAcknowledge authority budget ctl)
  have "system_inv C T (snd (acknowledge_now p authority (al_delivery_ids l) budget ctl)) s" if "ow_leased s = Some l" for l
    using acknowledge_system [OF prod.collapse [symmetric] inv] lease_ids_stored [OF _ that] inv
    by (simp add: system_inv_def)
  then show ?thesis using app inv SyAcknowledge by (auto split: option.splits)
next
  case (SyOwner oop now)
  then show ?thesis using app inv owner_system by (auto split: if_splits)
qed

lemma latest_pass_ge: "op \<in> set ops \<Longrightarrow> pass_time op \<le> latest_pass ops"
proof -
  have "fold max xs (a :: u64) \<ge> a \<and> (\<forall>x \<in> set xs. x \<le> fold max xs a)" for xs a
    by (induction xs arbitrary: a) (auto intro: order_trans [OF max.cobounded1] order_trans [OF max.cobounded2])
  then show "op \<in> set ops \<Longrightarrow> pass_time op \<le> latest_pass ops" by (simp add: latest_pass_def)
qed

lemma system_fold_inv:
  "system_inv C T p s \<Longrightarrow> (\<And>op. op \<in> set ops \<Longrightarrow> pass_time op \<le> T)
     \<Longrightarrow> foldl (system_apply C) (p, s) ops = (p', s') \<Longrightarrow> system_inv C T p' s'"
proof (induction ops arbitrary: p s)
  case (Cons op ops)
  obtain p1 s1 where 1: "system_apply C (p, s) op = (p1, s1)" by fastforce
  have "system_inv C T p1 s1" by (rule system_apply_inv [OF Cons.prems(1) _ 1]) (simp add: Cons.prems(2))
  with Cons 1 show ?case by simp
qed simp

lemma system_run_inv: "system_run C scope identity ops = (p, s) \<Longrightarrow> system_inv C (latest_pass ops) p s"
  unfolding system_run_def using system_fold_inv [OF system_inv_new latest_pass_ge] by blast

lemma persisted_cursor_covered:
  assumes "system_inv C T p s" and "persisted_cursor s = Some (b, c)"
  shows "covered T p s b c"
proof -
  obtain pk bs where pk: "ow_checkpoint s = Some pk" "pk_position pk = PersistedResume bs" "pk_binding pk = b"
      and dec: "decode_cursor (Some bs) (cursor_scope b) = Inr c"
    using assms(2) by (auto simp: persisted_cursor_def split: option.splits persisted_position.splits sum.splits)
  obtain c' where c': "length (cb_continuity_id b) = 16" "c' \<noteq> 0" "bs = encode_cursor b c'" "covered T p s b c'"
    using assms(1) pk unfolding system_inv_def cursor_sound_def by blast
  with dec decode_encode_cursor show ?thesis by auto
qed

end
