(* ===== verification/Receive_Properties.thy ===== *)
theory Receive_Properties
  imports Receive_System Examples
begin

text \<open>
  The properties of the receive path: what the owner's checkpoints, its storage and its leases
  promise over every sequence of calls, what rotation promises at the provider, and that together
  they neither lose nor drop a delivery.
\<close>

section \<open>Concrete values\<close>

definition ex_at :: "u64 \<Rightarrow> control" where
  "ex_at now = (\<lambda>_. \<lparr> rd_cancelled = False, rd_monotonic = 0, rd_wall = Some now \<rparr>)"

definition ex_allowance :: operation_budget where
  "ex_allowance = \<lparr> ob_deadline = 1000, ob_max_network_bytes = 100000, ob_max_attempts = 1 \<rparr>"

definition ex_contract :: lifecycle_contract where
  "ex_contract = \<lparr> lc_profile = FastV1, lc_cursor_schema = 2, lc_maximum_routine_drain_seconds = 300 \<rparr>"

definition ex_issue_request :: mailbox_issue_request where
  "ex_issue_request = \<lparr> ir_profile = FastV1, ir_binding_fingerprint = replicate 32 1, ir_expires_at = 1000,
     ir_budget = ex_allowance \<rparr>"

definition ex_binding :: cursor_binding where
  "ex_binding = \<lparr> cb_profile = FastV1, cb_binding_fingerprint = replicate 32 1, cb_continuity_id = replicate 16 1,
     cb_generation = 1, cb_receive_scope = replicate 32 2, cb_cursor_schema = 2, cb_provider_state_epoch = 1,
     cb_expires_at = 1000 \<rparr>"

definition ex_right :: "u8 \<Rightarrow> right_material" where
  "ex_right n = \<lparr> rm_scope = 0, rm_binding = ex_binding, rm_token = replicate 32 n \<rparr>"

definition ex_generation :: generation_material where
  "ex_generation = \<lparr> gm_binding = ex_binding, gm_deposit = replicate 32 3, gm_receive = replicate 32 4,
     gm_acknowledgement = replicate 32 5, gm_rotation = replicate 32 6 \<rparr>"

definition ex_provider :: "u64 \<Rightarrow> stored_delivery list \<Rightarrow> lifecycle_provider" where
  "ex_provider n ds = \<lparr> lp_scope = 0, lp_contract = ex_contract, lp_next_material = 7, lp_next_delivery_sequence = n,
     lp_mailboxes = [\<lparr> ms_material = ex_generation, ms_retire_at = None, ms_deliveries = ds \<rparr>],
     lp_active = [ex_binding], lp_rotations = [] \<rparr>"

definition ex_delivery :: "bool \<Rightarrow> stored_delivery" where
  "ex_delivery a = \<lparr> sd_sequence = 1, sd_delivery_id = delivery_id_bytes 1, sd_envelope_id = replicate 16 7,
     sd_canonical_bytes = ex_welcome, sd_expires_at = 200, sd_acknowledged = a \<rparr>"

lemmas ex_provider_defs = ex_at_def ex_allowance_def ex_contract_def ex_binding_def ex_right_def ex_generation_def
  ex_provider_def ex_delivery_def after_reading_def

lemma ex_control_checkpoint: "checkpoint (ex_at t) ex_allowance = Inr \<lparr> do_monotonic_now = 0, do_wall_now = t \<rparr>"
  "after_reading (ex_at t) = ex_at t"
  by (simp_all add: checkpoint_def ex_at_def ex_allowance_def ok_or_def after_reading_def)

lemma ex_issued:
  "provider_apply C (DeterministicLifecycleProviderV1_new 0) (PrIssue ex_contract ex_issue_request (ex_at 100))
     = ex_provider 1 []"
  by (simp add: issue_now_def ex_issue_request_def ex_control_checkpoint run_then_def
      DeterministicLifecycleProviderV1_new_def ex_contract_def MODEL_CURSOR_SCHEMA_V2_def
      MAXIMUM_ROUTINE_DRAIN_SECONDS_def validate_issue_request_def take_material_def checked_add_def internal_def
      MailboxContinuityId_from_provider_bytes_def MailboxGeneration_new_def fresh_generation_def
      ReceiveScopeFingerprint_from_bytes_def ProviderStateEpoch_new_def PROVIDER_STATE_EPOCH_V1_def
      CursorBindingV1_new_def MailboxIssueResultV1_new_def authorities_def MailboxAuthoritySetV1_from_provider_def
      fresh_mailbox_def all_zero_replicate map_err_def and_then_def Let_def ex_provider_def ex_generation_def ex_binding_def)

lemma ex_welcome_canonical:
  "CanonicalEnvelope_from_canonical_bytes rfc_cbor ex_welcome =
     Inr \<lparr> ce_bytes = ex_welcome, ce_envelope_id = replicate 16 7, ce_expires_at = 200 \<rparr>"
  by (simp add: canonical_from_bytes_ok ex_welcome_ok(1)) (simp add: ex_envelope_def all_zero_replicate)

lemma ex_welcome_length: "length ex_welcome \<le> 65536"
  using ex_welcome_ok(2) by (simp add: wire_consts)

lemma ex_delivered:
  "provider_apply rfc_cbor (ex_provider 1 []) (PrDeposit (ex_right 3) ex_welcome ex_allowance (ex_at 100))
     = ex_provider 2 [ex_delivery False]"
proof -
  have "\<not> length ex_welcome \<ge> 2 ^ 64" "\<not> length ex_welcome > 100000" using ex_welcome_length by simp_all
  then have "DepositRequest_new \<lparr> ce_bytes = ex_welcome, ce_envelope_id = replicate 16 7, ce_expires_at = 200 \<rparr> ex_allowance
      = Inr \<lparr> dr_envelope = \<lparr> ce_bytes = ex_welcome, ce_envelope_id = replicate 16 7, ce_expires_at = 200 \<rparr>,
              dr_budget = ex_allowance \<rparr>"
    by (simp add: DepositRequest_new_def ex_allowance_def)
  moreover have "delivery_id_bytes n \<noteq> [] \<and> \<not> all_zero (delivery_id_bytes n)" for n
    by (simp add: delivery_id_bytes_def all_zero_def)
  ultimately show ?thesis
    by (simp add: ex_welcome_canonical and_then_def deposit_now_def ex_control_checkpoint run_then_def mailbox_index_def
        accept_deposit_def MAX_ENVELOPES_PER_GENERATION_def checked_add_def Let_def push_delivery_def
        ex_provider_def ex_right_def ex_binding_def ex_generation_def ex_delivery_def)
qed

text \<open>The checkpoints, the page and the owner of a first receive pass.\<close>

definition ex_first :: receive_checkpoint where
  "ex_first = \<lparr> cp_binding = ex_binding, cp_revision = 1, cp_position = NewGeneration \<rparr>"

definition ex_page :: receive_page_commit where
  "ex_page = \<lparr> pc_expected_checkpoint = ex_first, pc_items = [received_of (ex_delivery False)],
     pc_next_cursor = Some \<lparr> bc_cursor = encode_cursor ex_binding 1, bc_binding = ex_binding \<rparr>,
     pc_acknowledgement_intent = Some [delivery_id_bytes 1] \<rparr>"

definition ex_owner :: receive_owner where
  "ex_owner = after_page (DeterministicReceiveStateOwnerV1_new 0) ex_page [(delivery_id_bytes 1, ex_welcome)]"

lemma ex_starting: "starting_checkpoint (DeterministicReceiveStateOwnerV1_new 0) ex_binding 100 = Inr ex_first"
  by (simp add: starting_checkpoint_def load_checkpoint_def DeterministicReceiveStateOwnerV1_new_def ex_binding_def
      ReceiveCheckpointV1_new_generation_def checkpoint_at_def ex_first_def and_then_def map_err_def)

lemma ex_binding_fields: "cb_expires_at ex_binding = 1000" "length (cb_continuity_id ex_binding) = 16"
  by (simp_all add: ex_binding_def)

definition ex_poll :: "receive_poll_binding poll_request" where
  "ex_poll = \<lparr> pr_cursor = None, pr_receive_binding = Some (ReceivePollBindingV1_from_checkpoint ex_first),
     pr_max_envelopes = 4, pr_max_encoded_bytes = 65536, pr_wait = 0, pr_budget = ex_allowance \<rparr>"

lemma ex_poll_request: "checkpoint_poll_request ex_first 4 65536 0 ex_allowance 100 = Inr ex_poll"
  by (simp add: checkpoint_poll_request_def ensure_live_def poll_cursor_def PollRequest_new_def
      PollRequest_bind_receive_checkpoint_def and_then_def ex_binding_fields MAX_POLL_ENVELOPES_def
      MAX_POLL_ENCODED_BYTES_def ex_first_def ex_poll_def ex_allowance_def)

definition ex_batch :: "receive_poll_binding receive_batch" where
  "ex_batch = \<lparr> rb_items = [received_of (ex_delivery False)], rb_next_cursor = Some (encode_cursor ex_binding 1),
     rb_receive_binding = Some (ReceivePollBindingV1_from_checkpoint ex_first) \<rparr>"

lemma ex_page_of:
  "page_of rfc_cbor ex_binding ex_poll [ex_delivery False] 0 100 = Inr ex_batch"
proof -
  have "\<not> length ex_welcome \<ge> 2 ^ 64" "\<not> length ex_welcome > 65536" using ex_welcome_length by simp_all
  moreover have "length (encode_cursor ex_binding 1) = 40"
    by (simp add: encode_cursor_def cursor_scope_def ex_binding_fields)
  then have "Cursor_new (encode_cursor ex_binding 1) = Inr (encode_cursor ex_binding 1)"
    by (auto simp: Cursor_new_def MAX_CURSOR_BYTES_def)
  ultimately show ?thesis
    by (simp add: page_of_def eligible_def ex_delivery_def ex_poll_def ex_welcome_canonical Let_def and_then_def
        map_err_def internal_def ReceiveBatch_new_def ex_batch_def received_of_def)
qed

lemma ex_poll_now: "poll_now rfc_cbor (ex_provider 2 [ex_delivery False]) (ex_right 4) ex_poll (ex_at 100) = Inr ex_batch"
  using ex_page_of
  by (simp add: poll_now_def ex_poll_def ex_control_checkpoint and_then_def mailbox_index_def decode_cursor_def
      ex_provider_def ex_right_def ex_generation_def ex_binding_fields ReceivePollBindingV1_from_checkpoint_def
      ex_first_def Let_def ex_delivery_def)

lemma ex_batch_page: "ReceivePageCommitV1_new ex_first ex_batch = Inr ex_page"
  by (simp add: page_commit_ok ex_batch_def ex_page_def BoundCursorV1_new_def ex_first_def received_of_def
      ex_delivery_def MAX_ACKNOWLEDGEMENT_IDS_def)

lemma ex_polled:
  "polled_page rfc_cbor (ex_provider 2 [ex_delivery False]) (ex_right 4) ex_first 4 65536 ex_allowance (ex_at 100) 100
     = Some ex_page"
  by (simp add: polled_page_def ex_poll_request ex_poll_now ex_batch_page)

lemma ex_committed_page:
  "commit_receive_page (DeterministicReceiveStateOwnerV1_new 0) ex_page 100
     = (Inr (page_receipt (DeterministicReceiveStateOwnerV1_new 0) ex_page 2 [Stored]), ex_owner)"
proof -
  have "\<not> length ex_welcome > 4194304" using ex_welcome_length by simp
  moreover have "copy_ids [delivery_id_bytes 1] = Inr [delivery_id_bytes 1]"
    by (simp add: copy_ids_ok MAX_ACKNOWLEDGEMENT_IDS_def)
  ultimately show ?thesis
    by (simp add: commit_receive_page_def page_refused_def DeterministicReceiveStateOwnerV1_new_def ex_page_def ex_first_def
        ex_binding_fields ReceiveCheckpointRevision_successor_def checked_add_def bt_get_empty received_of_def
        ex_delivery_def over_capacity_def usize_saturating_add_def MAX_STORED_def MAX_STORED_BYTES_def bt_values_def
        page_recoverable_def and_then_def ex_owner_def after_page_def min_def)
qed

definition ex_system_ops :: "system_op list" where
  "ex_system_ops = [SyProvider (PrIssue ex_contract ex_issue_request (ex_at 100)),
     SyProvider (PrDeposit (ex_right 3) ex_welcome ex_allowance (ex_at 100)),
     SyPass (ex_right 4) 4 65536 ex_allowance (ex_at 100) 100]"

lemma ex_system: "system_run rfc_cbor 0 0 ex_system_ops = (ex_provider 2 [ex_delivery False], ex_owner)"
proof -
  have "rm_binding (ex_right 4) = ex_binding" by (simp add: ex_right_def)
  then show ?thesis
    by (simp add: system_run_def ex_system_ops_def ex_issued ex_delivered ex_starting ex_polled ex_committed_page
        del: provider_apply.simps)
qed

section \<open>The receive path\<close>

text \<open>
  C4: No delivery is skipped. Over every sequence of issuances, rotations, deposits, receive passes,
  leases, acknowledgements, resynchronizations and restarts, a delivery at or below the cursor the
  owner has persisted is stored by the owner with its exact bytes, unless it had expired by the
  latest time a pass read.
\<close>

theorem cursor_never_skips:
  assumes "system_run C scope identity ops = (p, s)" and "persisted_cursor s = Some (b, c)"
    and "d \<in> set (mailbox_deliveries p b)" and "sd_sequence d \<le> c" and "latest_pass ops < sd_expires_at d"
  shows "bt_get (ow_stored s) (sd_delivery_id d) = Some (sd_canonical_bytes d)"
  using persisted_cursor_covered [OF system_run_inv [OF assms(1)] assms(2)] assms(3-5)
  by (auto simp: covered_def is_stored_def not_le)

lemma ex_persisted: "persisted_cursor ex_owner = Some (ex_binding, 1)"
  using decode_encode_cursor [OF ex_binding_fields(2), of 1]
  by (simp add: persisted_cursor_def ex_owner_def ex_page_def ex_first_def)

lemma ex_deliveries: "mailbox_deliveries (ex_provider n ds) ex_binding = ds"
  by (simp add: mailbox_deliveries_def find_mailbox_def ex_provider_def ex_generation_def)

lemma ex_latest: "latest_pass ex_system_ops = 100"
  by (simp add: latest_pass_def ex_system_ops_def reading_time_def ex_at_def)

theorem cursor_never_skips_witness:
  "bt_get (ow_stored ex_owner) (delivery_id_bytes 1) = Some ex_welcome"
  using cursor_never_skips [OF ex_system ex_persisted, of "ex_delivery False"]
  by (simp add: ex_deliveries ex_latest ex_delivery_def)

text \<open>
  C5: Persist before acknowledge. Over every such sequence, a delivery the provider has marked
  acknowledged, so that it will not be offered again, is stored by the owner with its exact bytes.
\<close>

theorem acknowledged_is_stored:
  assumes "system_run C scope identity ops = (p, s)" and "d \<in> set (mailbox_deliveries p b)" and "sd_acknowledged d"
  shows "bt_get (ow_stored s) (sd_delivery_id d) = Some (sd_canonical_bytes d)"
  using system_run_inv [OF assms(1)] assms(2,3)
  unfolding system_inv_def storage_sound_def is_stored_def by blast

definition ex_lease_1 :: acknowledgement_lease where
  "ex_lease_1 = \<lparr> al_identity = 1, al_binding = ex_binding, al_delivery_ids = [delivery_id_bytes 1] \<rparr>"

definition ex_leased_owner :: receive_owner where
  "ex_leased_owner = ex_owner\<lparr> ow_valid_commit := None, ow_leased := Some ex_lease_1, ow_next_identity := 2 \<rparr>"

lemma ex_recovered: "recover_acknowledgement ex_owner ex_binding 100 = (Inr (Some ex_lease_1), ex_leased_owner)"
proof -
  have "copy_ids [delivery_id_bytes 1] = Inr [delivery_id_bytes 1]"
    by (simp add: copy_ids_ok MAX_ACKNOWLEDGEMENT_IDS_def)
  moreover have "ow_leased ex_owner = None" "ow_recoverable ex_owner = Some (ex_binding, [delivery_id_bytes 1])"
      "ow_next_identity ex_owner = 1"
    by (simp_all add: ex_owner_def ex_page_def ex_first_def DeterministicReceiveStateOwnerV1_new_def)
  ultimately show ?thesis
    by (simp add: recover_acknowledgement_def ex_binding_fields issue_lease_def ex_lease_1_def ex_leased_owner_def)
qed

lemma ex_acknowledged_provider:
  "provider_apply C (ex_provider 2 [ex_delivery False]) (PrAcknowledge (ex_right 5) [delivery_id_bytes 1] ex_allowance (ex_at 100))
     = ex_provider 2 [ex_delivery True]"
  by (simp add: acknowledge_now_def ex_control_checkpoint run_then_def mailbox_index_def Let_def
      ex_provider_def ex_right_def ex_generation_def ex_binding_fields acknowledge_deliveries_def ex_delivery_def)

lemma ex_acknowledged_system:
  "system_run rfc_cbor 0 0 (ex_system_ops @ [SyOwner (OwRecover ex_binding) 100, SyAcknowledge (ex_right 5) ex_allowance (ex_at 100)])
     = (ex_provider 2 [ex_delivery True], ex_leased_owner)"
proof -
  have "ow_leased ex_leased_owner = Some ex_lease_1" "al_delivery_ids ex_lease_1 = [delivery_id_bytes 1]"
    by (simp_all add: ex_leased_owner_def ex_lease_1_def)
  with ex_system show ?thesis
    by (simp add: system_run_def ex_recovered ex_acknowledged_provider del: provider_apply.simps)
qed

theorem acknowledged_is_stored_witness:
  "bt_get (ow_stored ex_leased_owner) (delivery_id_bytes 1) = Some ex_welcome"
  using acknowledged_is_stored [OF ex_acknowledged_system, of "ex_delivery True" ex_binding]
  by (simp add: ex_deliveries ex_delivery_def)

section \<open>The owner\<close>

text \<open>
  C16: A checkpoint is used once. After a page commit succeeds, and whatever calls and restarts follow,
  a page that expects the same revision or an older one is refused and changes nothing.
\<close>

theorem checkpoint_used_once:
  assumes "ReceivePageCommitV1_new cp batch = Inr pc" and "commit_receive_page s pc now = (Inr cg, s1)"
    and "ReceivePageCommitV1_new cp' batch' = Inr pc'" and "cp_revision cp' \<le> cp_revision cp"
  shows "commit_receive_page (owner_run s1 ops) pc' now' = (Inl DeterministicReceiveStateError, owner_run s1 ops)"
  using receive_owner.checkpoint_is_spent [OF assms(1,2) owner_run_steps assms(3,4)]
  by (metis owner_error.exhaust)

theorem checkpoint_used_once_witness:
  "commit_receive_page (owner_run ex_owner [(OwRestart, 100)]) ex_page 100
     = (Inl DeterministicReceiveStateError, owner_run ex_owner [(OwRestart, 100)])"
  by (rule checkpoint_used_once [OF ex_batch_page ex_committed_page ex_batch_page order_refl])

text \<open>
  A committed page is durable. After a page commit succeeds, the bytes of every item stay stored,
  whatever calls and restarts follow, and the owner reloads the successor checkpoint with the page's
  cursor for as long as no other page or resynchronization replaces it.
\<close>

theorem committed_page_is_durable:
  assumes "ReceivePageCommitV1_new cp batch = Inr pc" and "commit_receive_page s pc now = (Inr cg, s1)"
    and "rb_next_cursor batch = Some cursor" and "Cursor_new cursor = Inr cursor" and "t < cb_expires_at (cp_binding cp)"
    and "ow_checkpoint (owner_run s1 ops) = ow_checkpoint s1"
  shows "load_checkpoint (owner_run s1 ops) (cp_binding cp) t =
           Inr (Some \<lparr> cp_binding = cp_binding cp, cp_revision = cp_revision cp + 1,
             cp_position = Resume (BoundCursorV1_new cursor (cp_binding cp)) \<rparr>)
     \<and> list_all (\<lambda>i. bt_get (ow_stored (owner_run s1 ops)) (rc_delivery_id i) = Some (ce_bytes (rc_envelope i)))
         (rb_items batch)"
proof -
  note wf = page_commit_wf [OF assms(1)]
  have pc: "pc_expected_checkpoint pc = cp" "pc_items pc = rb_items batch"
      "pc_next_cursor pc = Some (BoundCursorV1_new cursor (cp_binding cp))"
    using assms(1,3) by (simp_all add: page_commit_ok)
  from wf assms(2) show ?thesis
  proof (cases rule: commit_page_cases)
    case (ok outcomes additions)
    have "bt_get (ow_stored (owner_run s1 ops)) (rc_delivery_id i) = Some (ce_bytes (rc_envelope i))"
      if "i \<in> set (rb_items batch)" for i
      by (rule receive_owner.page_is_held [OF assms(1,2) owner_run_steps that])
    moreover have "ow_checkpoint (owner_run s1 ops) = Some \<lparr> pk_binding = cp_binding cp, pk_revision = cp_revision cp + 1,
        pk_position = PersistedResume cursor \<rparr>"
      using assms(6) by (simp add: ok(6) pc BoundCursorV1_new_def)
    ultimately show ?thesis
      using assms(4,5)
      by (simp add: pc load_checkpoint_def and_then_def map_err_def ReceiveCheckpointV1_resume_def checkpoint_at_def
          BoundCursorV1_new_def list_all_iff)
  qed simp
qed

theorem committed_page_is_durable_witness:
  "load_checkpoint (owner_run ex_owner [(OwRestart, 100)]) ex_binding 150 =
     Inr (Some \<lparr> cp_binding = ex_binding, cp_revision = 2,
       cp_position = Resume (BoundCursorV1_new (encode_cursor ex_binding 1) ex_binding) \<rparr>)"
proof -
  have len: "length (encode_cursor ex_binding 1) = 40"
    by (simp add: encode_cursor_def cursor_scope_def ex_binding_fields)
  then have cur: "Cursor_new (encode_cursor ex_binding 1) = Inr (encode_cursor ex_binding 1)"
    by (auto simp: Cursor_new_def MAX_CURSOR_BYTES_def)
  show ?thesis
    using committed_page_is_durable [OF ex_batch_page ex_committed_page, of "encode_cursor ex_binding 1" 150 "[(OwRestart, 100)]"]
    by (simp add: ex_batch_def cur ex_first_def ex_binding_fields owner_run_def restart_def)
qed

lemma granted_lease:
  assumes "recover_acknowledgement s b now = (Inr (Some l), s')
      \<or> lease_acknowledgement s cg now = (Inr (Some l), s')"
  shows "al_identity l = ow_next_identity s \<and> ow_next_identity s' = ow_next_identity s + 1 \<and> ow_leased s' = Some l"
  using assms
proof
  assume "recover_acknowledgement s b now = (Inr (Some l), s')"
  then show ?thesis by (cases rule: recover_cases) auto
next
  assume "lease_acknowledgement s cg now = (Inr (Some l), s')"
  then show ?thesis by (cases rule: lease_cases) auto
qed

text \<open>
  C27: Superseded leases are fenced. Once a later acknowledgement lease has been granted, by leasing a
  committed page or by recovery, an earlier lease, granted either way, is refused by acceptance and by
  release, now and after any further calls and restarts, and the refusal changes nothing.
\<close>

theorem superseded_acknowledgement_is_fenced:
  assumes "recover_acknowledgement s b now = (Inr (Some l), s1)
      \<or> lease_acknowledgement s cg now = (Inr (Some l), s1)"
    and "recover_acknowledgement (owner_run s1 ops) b' now' = (Inr (Some l'), s2)
      \<or> lease_acknowledgement (owner_run s1 ops) cg' now' = (Inr (Some l'), s2)"
  shows "accept_acknowledgement (owner_run s2 ops') l = (Inl DeterministicReceiveStateError, owner_run s2 ops')
    \<and> release_acknowledgement (owner_run s2 ops') l = (Inl DeterministicReceiveStateError, owner_run s2 ops')"
proof -
  note l = granted_lease [OF assms(1)] and l' = granted_lease [OF assms(2)]
  have "ow_next_identity s1 \<le> ow_next_identity (owner_run s1 ops)"
    by (rule owner_steps_identity [OF owner_run_steps])
  then have "lease_fenced s2 (al_identity l)" using l l' by (simp add: lease_fenced_def)
  then have "lease_fenced (owner_run s2 ops') (al_identity l)" by (rule owner_steps_fenced [OF owner_run_steps])
  then show ?thesis by (simp add: fenced_lease_refused)
qed

lemma ex_restarted_owner:
  "recover_acknowledgement (owner_run ex_leased_owner [(OwRestart, 100)]) ex_binding 100
     = (Inr (Some (ex_lease_1\<lparr> al_identity := 3 \<rparr>)),
        ex_owner\<lparr> ow_owner := 2, ow_valid_commit := None, ow_leased := Some (ex_lease_1\<lparr> al_identity := 3 \<rparr>),
          ow_next_identity := 4 \<rparr>)"
proof -
  have "copy_ids [delivery_id_bytes 1] = Inr [delivery_id_bytes 1]"
    by (simp add: copy_ids_ok MAX_ACKNOWLEDGEMENT_IDS_def)
  then show ?thesis
    by (simp add: recover_acknowledgement_def owner_run_def restart_def ex_binding_fields issue_lease_def ex_lease_1_def
        ex_leased_owner_def ex_owner_def ex_page_def ex_first_def)
qed

theorem superseded_acknowledgement_is_fenced_witness:
  "fst (accept_acknowledgement (snd (recover_acknowledgement (owner_run ex_leased_owner [(OwRestart, 100)]) ex_binding 100))
     ex_lease_1) = Inl DeterministicReceiveStateError"
  using superseded_acknowledgement_is_fenced [OF disjI1 [OF ex_recovered] disjI1 [OF ex_restarted_owner], of "[]"]
  by (simp add: ex_restarted_owner) (simp add: owner_run_def)

section \<open>The provider\<close>

text \<open>
  C17: A mailbox generation has one successor. In every provider reached from its constructor, once a
  rotation of a generation has succeeded, every later rotation of that generation that succeeds, after
  whatever other calls, is a retry with the same rotation identifier: it returns the same successor's
  authorities and changes nothing.
\<close>

theorem one_successor:
  assumes "p = provider_run C (DeterministicLifecycleProviderV1_new scope) ops"
    and "rotate_now p expected authority rq ctl = (Inr result, p1)"
    and "p2 = provider_run C p1 ops'"
    and "rotate_now p2 expected' authority' rq' ctl' = (Inr result', p3)"
    and "rq_predecessor rq' = rq_predecessor rq"
  shows "rq_rotation_id rq' = rq_rotation_id rq \<and> rs_authorities result' = rs_authorities result \<and> p3 = p2"
proof -
  let ?new = "DeterministicLifecycleProviderV1_new scope"
  have inv: "material_inv p" "rotation_inv p"
    using provider_run_material(1) [OF material_inv_new] provider_run_rotations(1) [OF material_inv_new rotation_inv_new]
    by (simp_all add: assms(1))
  have inv1: "material_inv p1" "rotation_inv p1"
    using rotate_material(1) [OF assms(2) inv(1)] rotate_rotation_inv(1) [OF assms(2) inv] by blast+
  obtain rec where rec: "rec \<in> set (lp_rotations p1)" "ro_rotation_id rec = rq_rotation_id rq"
      "ro_predecessor rec = rq_predecessor rq" "rs_authorities result = authorities (ro_successor rec) (lp_scope p)"
    by (rule rotate_recorded [OF assms(2)]) blast
  note run = provider_run_rotations [OF inv1, of C ops', folded assms(3)]
  have inv2: "material_inv p2" "rotation_inv p2" "rec \<in> set (lp_rotations p2)"
    using provider_run_material(1) [OF inv1(1)] run(1,2) rec(1) by (auto simp: assms(3))
  have "rotated_away p2 (rq_predecessor rq)" using inv2(2,3) rec(3) by (metis rotation_inv_def)
  then have p3: "p3 = p2" using rotated_away_retry [OF assms(4)] assms(5) by simp
  obtain rec' where rec': "rec' \<in> set (lp_rotations p3)" "ro_rotation_id rec' = rq_rotation_id rq'"
      "ro_predecessor rec' = rq_predecessor rq'" "rs_authorities result' = authorities (ro_successor rec') (lp_scope p2)"
    by (rule rotate_recorded [OF assms(4)]) blast
  have "rec' = rec"
    using inv2(2,3) rec'(1,3) rec(3) assms(5) p3 by (auto simp: rotation_inv_def distinct_map inj_on_def)
  moreover have "lp_scope p2 = lp_scope p" using run(3) rotate_extends [OF assms(2)] by (simp add: extends_def)
  ultimately show ?thesis using rec rec' p3 by simp
qed

definition ex_rotation :: rotation_request where
  "ex_rotation = \<lparr> rq_rotation_id = replicate 16 9, rq_predecessor = ex_binding, rq_successor_generation = 2,
     rq_mode = Compromise, rq_successor_expires_at = 2000, rq_budget = ex_allowance \<rparr>"

definition ex_successor :: generation_material where
  "ex_successor = \<lparr> gm_binding = ex_binding\<lparr> cb_generation := 2, cb_receive_scope := replicate 32 7, cb_expires_at := 2000 \<rparr>,
     gm_deposit = replicate 32 8, gm_receive = replicate 32 9, gm_acknowledgement = replicate 32 10,
     gm_rotation = replicate 32 11 \<rparr>"

definition ex_rotated :: lifecycle_provider where
  "ex_rotated = \<lparr> lp_scope = 0, lp_contract = ex_contract, lp_next_material = 12, lp_next_delivery_sequence = 2,
     lp_mailboxes = [\<lparr> ms_material = ex_generation, ms_retire_at = Some 100, ms_deliveries = [ex_delivery False] \<rparr>,
       fresh_mailbox ex_successor],
     lp_active = [gm_binding ex_successor],
     lp_rotations = [\<lparr> ro_rotation_id = replicate 16 9, ro_predecessor = ex_binding, ro_mode = Compromise,
       ro_successor_expires_at = 2000, ro_successor = ex_successor \<rparr>] \<rparr>"

definition ex_rotation_result ::
    "(right_material, right_material, right_material, right_material) mailbox_rotation_result" where
  "ex_rotation_result = \<lparr> rs_lifecycle_contract = ex_contract, rs_rotation_id = replicate 16 9,
     rs_predecessor_generation = 1, rs_mode = Compromise, rs_authorities = authorities ex_successor 0 \<rparr>"

lemma ex_validated: "validate_rotation_request ex_contract ex_rotation 100 = Inr ()"
  by (simp add: validate_rotation_request_def ex_rotation_def ex_contract_def ex_binding_def)

lemma ex_rotation_valid: "MailboxRotationResultV1_new ex_contract ex_rotation (authorities ex_successor 0) 100 = Inr ex_rotation_result"
  by (simp add: MailboxRotationResultV1_new_def validate_rotation_request_def and_then_def Let_def authorities_def
      MailboxAuthoritySetV1_from_provider_def ex_successor_def ex_rotation_def ex_contract_def ex_binding_def
      ex_rotation_result_def)

lemma ex_rotate:
  "rotate_now (ex_provider 2 [ex_delivery False]) ex_contract (ex_right 6) ex_rotation (ex_at 100)
     = (Inr ex_rotation_result, ex_rotated)"
  "rotate_now ex_rotated ex_contract (ex_right 6) ex_rotation (ex_at 100) = (Inr ex_rotation_result, ex_rotated)"
proof -
  let ?p = "ex_provider 2 [ex_delivery False]"
  have fresh: "fresh_generation ?p (replicate 32 1) (replicate 16 1) 2 2000
      = (Inr ex_successor, ?p\<lparr> lp_next_material := 12 \<rparr>)"
    by (simp add: fresh_generation_def run_then_def take_material_def checked_add_def internal_def map_err_def
        ReceiveScopeFingerprint_from_bytes_def ProviderStateEpoch_new_def PROVIDER_STATE_EPOCH_V1_def
        CursorBindingV1_new_def all_zero_replicate ex_provider_def ex_contract_def ex_successor_def ex_binding_def)
  show "rotate_now ?p ex_contract (ex_right 6) ex_rotation (ex_at 100) = (Inr ex_rotation_result, ex_rotated)"
    using fresh ex_rotation_valid ex_validated
    by (simp add: rotate_now_def ex_control_checkpoint run_then_def Let_def find_mailbox_def install_successor_def
        retire_mailbox_def internal_def map_err_def ex_rotation_def ex_provider_def ex_right_def ex_generation_def
        ex_binding_def ex_rotated_def)
  show "rotate_now ex_rotated ex_contract (ex_right 6) ex_rotation (ex_at 100) = (Inr ex_rotation_result, ex_rotated)"
    using ex_rotation_valid ex_validated
    by (simp add: rotate_now_def ex_control_checkpoint run_then_def Let_def find_mailbox_def retry_rotation_def
        internal_def map_err_def ex_rotation_def ex_rotated_def ex_right_def ex_generation_def)
qed

lemma ex_provider_run:
  "ex_provider 2 [ex_delivery False] = provider_run rfc_cbor (DeterministicLifecycleProviderV1_new 0)
     [PrIssue ex_contract ex_issue_request (ex_at 100), PrDeposit (ex_right 3) ex_welcome ex_allowance (ex_at 100)]"
  by (simp add: provider_run_def ex_issued ex_delivered del: provider_apply.simps)

theorem one_successor_witness:
  "\<exists>result' p3. rotate_now ex_rotated ex_contract (ex_right 6) ex_rotation (ex_at 100) = (Inr result', p3)
     \<and> rs_authorities result' = authorities ex_successor 0 \<and> p3 = ex_rotated"
  using one_successor [OF ex_provider_run ex_rotate(1) _ ex_rotate(2), of "[]"] ex_rotate(2)
  by (simp add: provider_run_def ex_rotation_result_def)

text \<open>
  C28: A rotated generation is cut off. Once a rotation has installed a successor, and after whatever
  other calls, a deposit, a poll or an acknowledgement with any right of the predecessor fails from
  the end of the drain on, which for a compromise is the time of the rotation.
\<close>

theorem rotated_generation_is_cut_off:
  assumes "p = provider_run C (DeterministicLifecycleProviderV1_new scope) ops"
    and "rotate_now p expected authority rq ctl = (Inr result, p1)" and "p1 \<noteq> p"
    and "checkpoint ctl (rq_budget rq) = Inr obs"
    and "rd_wall (ctl' 0) = Some now"
    and "(case rq_mode rq of Routine drain \<Rightarrow> drain | Compromise \<Rightarrow> do_wall_now obs) \<le> now"
    and "rm_binding right = rq_predecessor rq"
  shows "\<not> is_ok (fst (deposit_now (provider_run C p1 ops') right drq ctl'))
    \<and> \<not> is_ok (poll_now C (provider_run C p1 ops') right prq ctl')
    \<and> \<not> is_ok (fst (acknowledge_now (provider_run C p1 ops') right ids budget ctl'))"
proof -
  let ?p = "provider_run C p1 ops'"
  have inv: "material_inv p" using provider_run_material(1) [OF material_inv_new] by (simp add: assms(1))
  have inv1: "material_inv p1" "rotated_away p1 (rq_predecessor rq)"
    using rotate_material(1) [OF assms(2) inv] rotate_material(3) [OF assms(2) inv refl assms(3)] by blast+
  obtain at where at: "retired_at p1 (rq_predecessor rq) at" "at \<le> now"
    using rotate_retired(2) [OF assms(2) refl assms(3)] assms(4,6) by auto
  have "retired_at ?p (rm_binding right) at"
    using provider_run_retired [OF inv1 at(1)] assms(7) by simp
  then have no: "mailbox_index ?p (rm_binding right) token expected now = Inl (failure InvalidAuthority)" for token expected
    using retired_refused at(2) by blast
  have obs: "do_wall_now o' = now" if "checkpoint ctl' bud = Inr o'" for o' bud
    using that assms(5) by (simp add: checkpoint_ok)
  show ?thesis
    using no obs
    by (auto simp: deposit_now_def poll_now_def acknowledge_now_def run_then_def and_then_def is_ok_def
        split: sum.splits)
qed

lemma ex_rotated_changed: "ex_rotated \<noteq> ex_provider 2 [ex_delivery False]"
  by (simp add: ex_rotated_def ex_provider_def)

theorem rotated_generation_is_cut_off_witness:
  "\<not> is_ok (fst (deposit_now ex_rotated (ex_right 3)
     \<lparr> dr_envelope = \<lparr> ce_bytes = ex_welcome, ce_envelope_id = replicate 16 8, ce_expires_at = 200 \<rparr>,
       dr_budget = ex_allowance \<rparr> (ex_at 101)))"
  using rotated_generation_is_cut_off [OF ex_provider_run ex_rotate(1) ex_rotated_changed,
      where ctl' = "ex_at 101" and ops' = "[]" and right = "ex_right 3" and now = 101]
    ex_control_checkpoint(1) [of 100]
  by (simp add: ex_rotation_def provider_run_def ex_at_def [of 101] ex_right_def)

text \<open>
  A poll page is exact. In every reachable provider, a successful poll returns, in order, every
  delivery that is unacknowledged, unexpired and after the requested cursor, up to the cursor it
  returns; the page is empty only when nothing is eligible, and polling from the returned cursor
  starts right after the page.
\<close>

theorem poll_page_is_exact:
  assumes "p = provider_run C (DeterministicLifecycleProviderV1_new scope) ops"
    and "poll_now C p authority rq ctl = Inr batch" and "pr_max_envelopes rq \<noteq> 0"
  shows "\<exists>cur now l. decode_cursor (pr_cursor rq) (cursor_scope (rm_binding authority)) = Inr cur
    \<and> rb_items batch = map received_of (filter (\<lambda>d. sd_sequence d \<le> l)
        (filter (eligible cur now) (mailbox_deliveries p (rm_binding authority))))
    \<and> (rb_items batch = [] \<longrightarrow> filter (eligible cur now) (mailbox_deliveries p (rm_binding authority)) = [])
    \<and> decode_cursor (rb_next_cursor batch) (cursor_scope (rm_binding authority)) = Inr l"
proof -
  let ?b = "rm_binding authority" and ?ds = "mailbox_deliveries p (rm_binding authority)"
  have inv: "provider_inv C p"
    unfolding assms(1) provider_run_def
    by (induction ops rule: rev_induct) (simp_all add: provider_inv_new provider_apply_inv)
  obtain cur now where cur: "decode_cursor (pr_cursor rq) (cursor_scope ?b) = Inr cur"
      and pg: "page_of C ?b rq ?ds cur now = Inr batch" and box: "find_mailbox p ?b \<noteq> None"
    by (rule poll_cases [OF assms(2)]) blast
  have ds: "sorted_wrt (<) (map sd_sequence ?ds)" "list_all (delivery_ok C (lp_next_delivery_sequence p)) ?ds"
      "0 < unat (pr_max_envelopes rq)"
    using inv assms(3) by (simp_all add: provider_inv_def unat_gt_0)
  have len: "length (cb_continuity_id ?b) = 16" using inv box by (simp add: provider_inv_def del: not_None_eq)
  obtain l where l: "rb_items batch = map received_of (filter (\<lambda>d. sd_sequence d \<le> l) (filter (eligible cur now) ?ds))"
      "rb_next_cursor batch = (if l = 0 then None else Some (encode_cursor ?b l))"
      "rb_items batch = [] \<Longrightarrow> filter (eligible cur now) ?ds = []"
    by (rule page_of_exact [OF pg ds]) blast
  have "decode_cursor (rb_next_cursor batch) (cursor_scope ?b) = Inr l"
    using decode_encode_cursor [OF len, of l] by (cases "l = 0") (simp_all add: l(2) decode_cursor_def)
  with cur l show ?thesis by blast
qed

theorem poll_page_is_exact_witness:
  "\<exists>cur now l. decode_cursor None (cursor_scope ex_binding) = Inr cur
     \<and> rb_items ex_batch = map received_of (filter (\<lambda>d. sd_sequence d \<le> l) (filter (eligible cur now) [ex_delivery False]))
     \<and> decode_cursor (rb_next_cursor ex_batch) (cursor_scope ex_binding) = Inr l"
proof -
  have "pr_max_envelopes ex_poll \<noteq> 0" "pr_cursor ex_poll = None" "rm_binding (ex_right 4) = ex_binding"
    by (simp_all add: ex_poll_def ex_right_def)
  with poll_page_is_exact [OF ex_provider_run ex_poll_now] show ?thesis by (metis ex_deliveries)
qed

end
