(* ===== verification/Vault.thy ===== *)
theory Vault
  imports Wire
begin

text \<open>
  The sealed-vault lifecycle and the always-sealed opaque inbox of
  \<open>crates/session-storage/src/lib.rs\<close>. Every operation that reads the injected \<open>VaultClock\<close> takes
  the readings it makes as a sequence, in the order the code makes them, so nothing is assumed of
  the clock between two readings. An \<open>Arc<VaultInstance>\<close> is a number compared by equality, and the
  atomic generation the attempts observe is a field of the vault. The credential source and the key
  protector of an unlock attempt are the code's traits: parameters of \<open>prepare_with\<close>, with the two
  implementations of the crate given as definitions. The shared work limiter is a step relation over
  the atomic operations of its threads.
\<close>

section \<open>Errors, identifiers and protection facts\<close>

datatype vault_error = VaultInvalidPolicy | VaultRejected | VaultReservationMismatch
  | VaultCapacityExceeded | VaultProviderFailure

definition SESSION_ID_BYTES :: usize where "SESSION_ID_BYTES = 32"
definition SESSION_KEY_BYTES :: usize where "SESSION_KEY_BYTES = 32"
definition MAX_ENCODED_OPAQUE_ENVELOPE_BYTES :: usize where
  "MAX_ENCODED_OPAQUE_ENVELOPE_BYTES = MAX_ENVELOPE_CIPHERTEXT_BYTES + 64"

definition SessionId_new :: "bytes \<Rightarrow> vault_error + ident" where
  "SessionId_new bs = (if all_zero bs then Err VaultRejected else Ok bs)"

datatype protection_level = LevelTestOnly | LevelEncryptedAtRest | LevelDeviceBound
  | LevelFreshUserPresence

datatype key_storage_protection = KeyTestOnly | KeyApplicationWrapped | KeyOperatingSystem
  | KeySecureHardware

datatype device_binding = BindingUnknown | BindingUserProfile | BindingThisDeviceOnly

datatype user_presence = PresenceNone | PresenceDeviceUnlock | PresenceFreshPrompt

datatype backup_exposure = BackupUnknown | BackupMayBackup | BackupExcluded

record protector_capabilities =
  pc_key_storage :: key_storage_protection
  pc_device_binding :: device_binding
  pc_user_presence :: user_presence
  pc_backup_exposure :: backup_exposure

definition device_bound :: "protector_capabilities \<Rightarrow> bool" where
  "device_bound c \<longleftrightarrow>
     pc_key_storage c \<in> {KeyOperatingSystem, KeySecureHardware}
     \<and> pc_device_binding c = BindingThisDeviceOnly
     \<and> pc_backup_exposure c = BackupExcluded"

fun supports :: "protector_capabilities \<Rightarrow> protection_level \<Rightarrow> bool" where
  "supports c LevelTestOnly = True"
| "supports c LevelEncryptedAtRest =
     (pc_key_storage c \<in> {KeyApplicationWrapped, KeyOperatingSystem, KeySecureHardware})"
| "supports c LevelDeviceBound = device_bound c"
| "supports c LevelFreshUserPresence =
     (device_bound c \<and> pc_user_presence c = PresenceFreshPrompt)"

section \<open>Policies\<close>

record vault_policy =
  vp_unlock_timeout :: u64
  vp_idle_timeout :: u64
  vp_minimum_protection :: protection_level

definition VaultPolicy_new :: "u64 \<Rightarrow> u64 \<Rightarrow> vault_error + vault_policy" where
  "VaultPolicy_new unlock idle =
     (if unlock = 0 \<or> idle = 0 then Err VaultInvalidPolicy
      else Ok \<lparr> vp_unlock_timeout = unlock, vp_idle_timeout = idle,
                vp_minimum_protection = LevelTestOnly \<rparr>)"

definition VaultPolicy_new_with_protection ::
    "u64 \<Rightarrow> u64 \<Rightarrow> protection_level \<Rightarrow> vault_error + vault_policy" where
  "VaultPolicy_new_with_protection unlock idle level =
     and_then (VaultPolicy_new unlock idle) (\<lambda>policy.
       Ok (policy \<lparr> vp_minimum_protection := level \<rparr>))"

record opaque_inbox_policy =
  ip_maximum_lifetime :: u64
  ip_maximum_envelopes :: usize
  ip_maximum_total_encoded_bytes :: usize

definition OpaqueInboxPolicy_new ::
    "u64 \<Rightarrow> usize \<Rightarrow> usize \<Rightarrow> vault_error + opaque_inbox_policy" where
  "OpaqueInboxPolicy_new lifetime envelopes max_bytes =
     (if lifetime = 0 \<or> envelopes = 0 \<or> max_bytes = 0 then Err VaultInvalidPolicy
      else Ok \<lparr> ip_maximum_lifetime = lifetime, ip_maximum_envelopes = envelopes,
                ip_maximum_total_encoded_bytes = max_bytes \<rparr>)"

section \<open>Clock, keys and credentials\<close>

definition DeterministicClock_advance :: "u64 \<Rightarrow> u64 \<Rightarrow> vault_error + u64" where
  "DeterministicClock_advance now seconds = ok_or VaultRejected (checked_add now seconds)"

definition UnsealedSessionKey_from_provider_bytes :: "bytes \<Rightarrow> vault_error + bytes" where
  "UnsealedSessionKey_from_provider_bytes bs =
     (if all_zero bs then Err VaultProviderFailure else Ok bs)"

record 'c one_shot_unlock_credential =
  os_session_id :: ident
  os_credential :: "'c option"

definition OneShotUnlockCredential_new :: "ident \<Rightarrow> 'c \<Rightarrow> 'c one_shot_unlock_credential" where
  "OneShotUnlockCredential_new sid c = \<lparr> os_session_id = sid, os_credential = Some c \<rparr>"

definition OneShotUnlockCredential_acquire ::
    "'c one_shot_unlock_credential \<Rightarrow> ident \<Rightarrow> (unit + 'c) \<times> 'c one_shot_unlock_credential" where
  "OneShotUnlockCredential_acquire s sid =
     (if sid \<noteq> os_session_id s then (Err (), s)
      else (ok_or () (os_credential s), s \<lparr> os_credential := None \<rparr>))"

text \<open>The \<open>SessionKeyProtector\<close> trait, and the deterministic implementation of it.\<close>

record ('p, 'c) session_key_protector =
  prt_capabilities :: "'p \<Rightarrow> protector_capabilities"
  prt_unseal_session_key :: "'p \<Rightarrow> ident \<Rightarrow> 'c \<Rightarrow> (unit + bytes) \<times> 'p"

record deterministic_key_protector =
  dk_session_id :: ident
  dk_session_key :: bytes
  dk_reject :: bool

definition DeterministicKeyProtector_new ::
    "ident \<Rightarrow> bytes \<Rightarrow> vault_error + deterministic_key_protector" where
  "DeterministicKeyProtector_new sid key =
     (if all_zero key then Err VaultProviderFailure
      else Ok \<lparr> dk_session_id = sid, dk_session_key = key, dk_reject = False \<rparr>)"

definition DeterministicKeyProtector_rejecting :: "ident \<Rightarrow> deterministic_key_protector" where
  "DeterministicKeyProtector_rejecting sid =
     \<lparr> dk_session_id = sid, dk_session_key = replicate SESSION_KEY_BYTES 1, dk_reject = True \<rparr>"

definition DeterministicKeyProtector_capabilities ::
    "deterministic_key_protector \<Rightarrow> protector_capabilities" where
  "DeterministicKeyProtector_capabilities p =
     \<lparr> pc_key_storage = KeyTestOnly, pc_device_binding = BindingUnknown,
       pc_user_presence = PresenceNone, pc_backup_exposure = BackupUnknown \<rparr>"

definition DeterministicKeyProtector_unseal_session_key ::
    "deterministic_key_protector \<Rightarrow> ident \<Rightarrow> unit \<Rightarrow> (unit + bytes) \<times> deterministic_key_protector"
  where
  "DeterministicKeyProtector_unseal_session_key p sid c =
     (if dk_reject p \<or> sid \<noteq> dk_session_id p then (Err (), p)
      else (map_err (\<lambda>_. ()) (UnsealedSessionKey_from_provider_bytes (dk_session_key p)), p))"

definition deterministic_protector ::
    "(deterministic_key_protector, unit) session_key_protector" where
  "deterministic_protector =
     \<lparr> prt_capabilities = DeterministicKeyProtector_capabilities,
       prt_unseal_session_key = DeterministicKeyProtector_unseal_session_key \<rparr>"

section \<open>The shared work limiter\<close>

text \<open>
  \<open>try_reserve\<close> loads the counter and repeats a weak compare-exchange until it succeeds or the value
  observed is at the bound. \<open>observed\<close> lists the values returned by the exchanges that fail before
  one succeeds; the result is the value the successful exchange replaces.
\<close>

record unlock_work_limiter =
  wl_maximum_concurrent :: usize
  wl_in_flight :: usize

definition UnlockWorkLimiter_new :: "usize \<Rightarrow> vault_error + unlock_work_limiter" where
  "UnlockWorkLimiter_new maximum =
     (if maximum = 0 then Err VaultInvalidPolicy
      else Ok \<lparr> wl_maximum_concurrent = maximum, wl_in_flight = 0 \<rparr>)"

fun try_reserve :: "usize \<Rightarrow> usize \<Rightarrow> usize list \<Rightarrow> vault_error + usize" where
  "try_reserve maximum current observed =
     (if current \<ge> maximum then Err VaultCapacityExceeded
      else case observed of [] \<Rightarrow> Ok current
           | o1 # rest \<Rightarrow> try_reserve maximum o1 rest)"

text \<open>
  The same loop as the atomic steps of any number of threads on one counter: a load, a failing or a
  successful exchange, giving up at the bound, and the release of a permit when it is dropped.
\<close>

datatype limiter_thread = Outside | Reserving usize | Holding

inductive limiter_step ::
    "unlock_work_limiter \<times> limiter_thread list \<Rightarrow> unlock_work_limiter \<times> limiter_thread list \<Rightarrow> bool"
  where
  load: "i < length ts \<Longrightarrow> ts ! i = Outside \<Longrightarrow>
    limiter_step (l, ts) (l, ts[i := Reserving (wl_in_flight l)])"
| full: "i < length ts \<Longrightarrow> ts ! i = Reserving current \<Longrightarrow> current \<ge> wl_maximum_concurrent l \<Longrightarrow>
    limiter_step (l, ts) (l, ts[i := Outside])"
| exchange_fails: "i < length ts \<Longrightarrow> ts ! i = Reserving current \<Longrightarrow>
    current < wl_maximum_concurrent l \<Longrightarrow>
    limiter_step (l, ts) (l, ts[i := Reserving (wl_in_flight l)])"
| exchange: "i < length ts \<Longrightarrow> ts ! i = Reserving current \<Longrightarrow>
    current < wl_maximum_concurrent l \<Longrightarrow> wl_in_flight l = current \<Longrightarrow>
    limiter_step (l, ts) (l \<lparr> wl_in_flight := current + 1 \<rparr>, ts[i := Holding])"
| permit_drop: "i < length ts \<Longrightarrow> ts ! i = Holding \<Longrightarrow>
    limiter_step (l, ts) (l \<lparr> wl_in_flight := wl_in_flight l - 1 \<rparr>, ts[i := Outside])"

section \<open>Attempts and completions\<close>

record unlock_attempt =
  ua_vault_instance :: nat
  ua_session_id :: ident
  ua_generation :: u64
  ua_minimum_protection :: protection_level

datatype unlock_outcome =
    Ready (ready_capabilities: protector_capabilities) (ready_key: bytes)
  | Failed vault_error

record unlock_completion =
  uc_vault_instance :: nat
  uc_session_id :: ident
  uc_generation :: u64
  uc_outcome :: unlock_outcome

definition is_current :: "unlock_attempt \<Rightarrow> u64 \<Rightarrow> bool" where
  "is_current a active \<longleftrightarrow> active = ua_generation a"

text \<open>
  \<open>active\<close> gives the three loads of the vault's active generation, which other threads may change
  between them; \<open>in_flight\<close> and \<open>observed\<close> are what the limiter's loop reads. The permit is dropped at
  the end of the arm that holds it. The credential source and the protector are returned as the
  calls leave them.
\<close>

definition prepare_with ::
    "('p, 'c) session_key_protector \<Rightarrow> ('s \<Rightarrow> ident \<Rightarrow> (unit + 'c) \<times> 's) \<Rightarrow> unlock_attempt \<Rightarrow>
     unlock_work_limiter \<Rightarrow> usize list \<Rightarrow> (nat \<Rightarrow> u64) \<Rightarrow> 's \<Rightarrow> 'p \<Rightarrow> unlock_completion \<times> 's \<times> 'p" where
  "prepare_with P acquire a limiter observed active source protector =
     (let caps = prt_capabilities P protector;
          (outcome, source', protector') =
            (if \<not> is_current a (active 0) then (Failed VaultReservationMismatch, source, protector)
             else if \<not> supports caps (ua_minimum_protection a)
             then (Failed VaultProviderFailure, source, protector)
             else case try_reserve (wl_maximum_concurrent limiter) (wl_in_flight limiter) observed of
               Inl error \<Rightarrow> (Failed error, source, protector)
             | Inr permit \<Rightarrow>
                 if \<not> is_current a (active 1)
                 then (Failed VaultReservationMismatch, source, protector)
                 else case acquire source (ua_session_id a) of
                   (Inl _, source') \<Rightarrow> (Failed VaultProviderFailure, source', protector)
                 | (Inr credential, source') \<Rightarrow>
                     if \<not> is_current a (active 2)
                     then (Failed VaultReservationMismatch, source', protector)
                     else case prt_unseal_session_key P protector (ua_session_id a) credential of
                       (Inr key, protector') \<Rightarrow> (Ready caps key, source', protector')
                     | (Inl _, protector') \<Rightarrow> (Failed VaultProviderFailure, source', protector'))
      in (\<lparr> uc_vault_instance = ua_vault_instance a, uc_session_id = ua_session_id a,
            uc_generation = ua_generation a, uc_outcome = outcome \<rparr>, source', protector'))"

record relock_attempt =
  ra_session_id :: ident
  ra_generation :: u64

section \<open>The vault\<close>

datatype lifecycle_state =
    VSealed
  | VUnlocking ident u64 u64
  | VOpen ident u64 u64 bytes
  | VRelocking ident u64

datatype vault_state = StateSealed | StateUnlocking | StateOpen | StateRelocking

datatype vault_operation = Decrypt | Sign | Admit | ReadReceiveCapability | AcknowledgeDelivery
  | RotateMailbox | MutateMls

datatype lock_event = ExplicitLock | IdleTimeout | ScreenLocked | Sleep | Logout | ProcessExit

datatype inbox_append_outcome = InboxStored | InboxAlreadyStored

record opaque_inbox_record =
  ir_encoded :: bytes
  ir_expires_at :: u64
  ir_insertion_generation :: u64

record pending_opaque_import =
  po_vault_instance :: nat
  po_session_id :: ident
  po_open_generation :: u64
  po_envelope_id :: ident
  po_insertion_generation :: u64
  po_envelope :: opaque_envelope

record session_vault =
  sv_instance :: nat
  sv_active_unlock_generation :: u64
  sv_policy :: vault_policy
  sv_inbox_policy :: opaque_inbox_policy
  sv_next_generation :: u64
  sv_next_inbox_generation :: u64
  sv_state :: lifecycle_state
  sv_inbox :: "(ident, opaque_inbox_record) btree_map"
  sv_inbox_total :: usize

definition SessionVaultModel_new ::
    "nat \<Rightarrow> vault_policy \<Rightarrow> opaque_inbox_policy \<Rightarrow> session_vault" where
  "SessionVaultModel_new inst policy inbox_policy =
     \<lparr> sv_instance = inst, sv_active_unlock_generation = 0, sv_policy = policy,
       sv_inbox_policy = inbox_policy, sv_next_generation = 0, sv_next_inbox_generation = 0,
       sv_state = VSealed, sv_inbox = [], sv_inbox_total = 0 \<rparr>"

definition vault_state_of :: "session_vault \<Rightarrow> vault_state" where
  "vault_state_of v = (case sv_state v of VSealed \<Rightarrow> StateSealed | VUnlocking _ _ _ \<Rightarrow> StateUnlocking
     | VOpen _ _ _ _ \<Rightarrow> StateOpen | VRelocking _ _ \<Rightarrow> StateRelocking)"

definition inbox_count :: "session_vault \<Rightarrow> usize" where
  "inbox_count v = length (sv_inbox v)"

definition next_transition_generation :: "session_vault \<Rightarrow> vault_error + u64 \<times> session_vault" where
  "next_transition_generation v =
     and_then (ok_or VaultRejected (checked_add (sv_next_generation v) 1)) (\<lambda>g.
       Ok (g, v \<lparr> sv_next_generation := g \<rparr>))"

definition seal :: "session_vault \<Rightarrow> session_vault" where
  "seal v = v \<lparr> sv_state := VSealed, sv_active_unlock_generation := 0 \<rparr>"

definition remove_inbox :: "ident \<Rightarrow> session_vault \<Rightarrow> session_vault" where
  "remove_inbox key v =
     (case bt_get (sv_inbox v) key of None \<Rightarrow> v
      | Some r \<Rightarrow> v \<lparr> sv_inbox := bt_remove key (sv_inbox v),
                     sv_inbox_total := sv_inbox_total v - length (ir_encoded r) \<rparr>)"

definition prune_expired_inbox :: "session_vault \<Rightarrow> u64 \<Rightarrow> session_vault" where
  "prune_expired_inbox v now =
     fold remove_inbox (map fst (filter (\<lambda>(_, r). ir_expires_at r \<le> now) (sv_inbox v))) v"

definition lifecycle_expired :: "lifecycle_state \<Rightarrow> u64 \<Rightarrow> bool" where
  "lifecycle_expired s now = (case s of VUnlocking _ _ expires \<Rightarrow> expires \<le> now
     | VOpen _ _ idle_expires _ \<Rightarrow> idle_expires \<le> now
     | VSealed \<Rightarrow> False | VRelocking _ _ \<Rightarrow> False)"

definition poll_vault :: "session_vault \<Rightarrow> u64 \<Rightarrow> session_vault" where
  "poll_vault v now =
     prune_expired_inbox (if lifecycle_expired (sv_state v) now then seal v else v) now"

definition begin_unlock ::
    "session_vault \<Rightarrow> ident \<Rightarrow> (nat \<Rightarrow> u64) \<Rightarrow> (vault_error + unlock_attempt) \<times> session_vault" where
  "begin_unlock v0 sid clk =
     (let v = poll_vault v0 (clk 0) in
      if sv_state v \<noteq> VSealed then (Err VaultRejected, v)
      else case next_transition_generation v of Inl e \<Rightarrow> (Err e, v)
      | Inr (generation, v) \<Rightarrow>
        (case checked_add (clk 1) (vp_unlock_timeout (sv_policy v)) of
           None \<Rightarrow> (Err VaultRejected, v)
         | Some expires \<Rightarrow>
             (Ok \<lparr> ua_vault_instance = sv_instance v, ua_session_id = sid,
                   ua_generation = generation,
                   ua_minimum_protection = vp_minimum_protection (sv_policy v) \<rparr>,
              v \<lparr> sv_state := VUnlocking sid generation expires,
                  sv_active_unlock_generation := generation \<rparr>)))"

definition complete_unlock ::
    "session_vault \<Rightarrow> unlock_completion \<Rightarrow> (nat \<Rightarrow> u64) \<Rightarrow> (vault_error + unit) \<times> session_vault" where
  "complete_unlock v c clk =
     (case sv_state v of
        VUnlocking sid generation expires \<Rightarrow>
          if sv_instance v \<noteq> uc_vault_instance c \<or> sid \<noteq> uc_session_id c
             \<or> generation \<noteq> uc_generation c
          then (Err VaultReservationMismatch, v)
          else let v = seal v in
          if expires \<le> clk 0 then (Err VaultRejected, v)
          else (case uc_outcome c of Failed error \<Rightarrow> (Err error, v)
          | Ready capabilities key \<Rightarrow>
            if \<not> supports capabilities (vp_minimum_protection (sv_policy v))
            then (Err VaultProviderFailure, v)
            else if expires \<le> clk 1 then (Err VaultRejected, v)
            else (case checked_add (clk 1) (vp_idle_timeout (sv_policy v)) of
                None \<Rightarrow> (Err VaultRejected, v)
              | Some idle \<Rightarrow> (Ok (), v \<lparr> sv_state := VOpen sid generation idle key \<rparr>)))
      | _ \<Rightarrow> (Err VaultReservationMismatch, v))"

text \<open>The callback of \<open>perform_privileged\<close> runs exactly when the result is \<open>Ok\<close>.\<close>

definition perform_privileged ::
    "session_vault \<Rightarrow> ident \<Rightarrow> vault_operation \<Rightarrow> (nat \<Rightarrow> u64) \<Rightarrow> (vault_error + unit) \<times> session_vault"
  where
  "perform_privileged v0 sid operation clk =
     (let v = poll_vault v0 (clk 0) in
      case sv_state v of
        VOpen selected generation idle key \<Rightarrow>
          if selected \<noteq> sid then (Err VaultRejected, v)
          else (case checked_add (clk 1) (vp_idle_timeout (sv_policy v)) of
              None \<Rightarrow> (Err VaultRejected, v)
            | Some refreshed \<Rightarrow> (Ok (), v \<lparr> sv_state := VOpen selected generation refreshed key \<rparr>))
      | _ \<Rightarrow> (Err VaultRejected, v))"

definition begin_relock ::
    "session_vault \<Rightarrow> ident \<Rightarrow> (nat \<Rightarrow> u64) \<Rightarrow> (vault_error + relock_attempt) \<times> session_vault" where
  "begin_relock v0 sid clk =
     (let v = poll_vault v0 (clk 0) in
      case sv_state v of
        VOpen selected _ _ _ \<Rightarrow>
          if selected \<noteq> sid then (Err VaultRejected, v)
          else (case next_transition_generation v of Inl e \<Rightarrow> (Err e, v)
            | Inr (generation, v) \<Rightarrow>
                (Ok \<lparr> ra_session_id = sid, ra_generation = generation \<rparr>,
                 v \<lparr> sv_state := VRelocking sid generation \<rparr>))
      | _ \<Rightarrow> (Err VaultRejected, v))"

definition complete_relock ::
    "session_vault \<Rightarrow> relock_attempt \<Rightarrow> (vault_error + unit) \<times> session_vault" where
  "complete_relock v a =
     (case sv_state v of
        VRelocking sid generation \<Rightarrow>
          if sid \<noteq> ra_session_id a \<or> generation \<noteq> ra_generation a
          then (Err VaultReservationMismatch, v)
          else (Ok (), v \<lparr> sv_state := VSealed \<rparr>)
      | _ \<Rightarrow> (Err VaultReservationMismatch, v))"

definition force_lock :: "session_vault \<Rightarrow> lock_event \<Rightarrow> session_vault" where
  "force_lock v event = seal v"

section \<open>The opaque inbox\<close>

definition store_opaque ::
    "session_vault \<Rightarrow> bytes \<Rightarrow> opaque_envelope \<Rightarrow> (vault_error + inbox_append_outcome) \<times> session_vault"
  where
  "store_opaque v encoded envelope =
     (if length (sv_inbox v) \<ge> ip_maximum_envelopes (sv_inbox_policy v)
      then (Err VaultCapacityExceeded, v)
      else let next_total = sv_inbox_total v + length encoded in
      if next_total \<ge> 2 ^ 64 \<or> next_total > ip_maximum_total_encoded_bytes (sv_inbox_policy v)
      then (Err VaultCapacityExceeded, v)
      else case checked_add (sv_next_inbox_generation v) 1 of None \<Rightarrow> (Err VaultCapacityExceeded, v)
      | Some g \<Rightarrow>
          (Ok InboxStored,
           v \<lparr> sv_next_inbox_generation := g,
               sv_inbox := bt_insert (envelope_id envelope)
                 \<lparr> ir_encoded = encoded, ir_expires_at = env_expires_at envelope,
                   ir_insertion_generation = g \<rparr> (sv_inbox v),
               sv_inbox_total := next_total \<rparr>))"

definition append_opaque ::
    "cbor \<Rightarrow> session_vault \<Rightarrow> bytes \<Rightarrow> (nat \<Rightarrow> u64) \<Rightarrow>
     (vault_error + inbox_append_outcome) \<times> session_vault" where
  "append_opaque C v0 encoded clk =
     (let v = poll_vault v0 (clk 0) in
      if encoded = [] \<or> length encoded > MAX_ENCODED_OPAQUE_ENVELOPE_BYTES then (Err VaultRejected, v)
      else case OpaqueEnvelope_decode_canonical C encoded of Inl _ \<Rightarrow> (Err VaultRejected, v)
      | Inr envelope \<Rightarrow>
        if all_zero (envelope_id envelope) then (Err VaultRejected, v)
        else case checked_sub (env_expires_at envelope) (clk 1) of None \<Rightarrow> (Err VaultRejected, v)
        | Some lifetime \<Rightarrow>
          if lifetime = 0 \<or> lifetime > ip_maximum_lifetime (sv_inbox_policy v)
          then (Err VaultRejected, v)
          else case bt_get (sv_inbox v) (envelope_id envelope) of
            Some existing \<Rightarrow>
              (if ir_encoded existing = encoded then Ok InboxAlreadyStored else Err VaultRejected, v)
          | None \<Rightarrow> store_opaque v encoded envelope)"

definition begin_opaque_import ::
    "cbor \<Rightarrow> session_vault \<Rightarrow> ident \<Rightarrow> (nat \<Rightarrow> u64) \<Rightarrow>
     (vault_error + pending_opaque_import option) \<times> session_vault" where
  "begin_opaque_import C v0 sid clk =
     (let v = poll_vault v0 (clk 0) in
      case sv_state v of
        VOpen selected generation _ _ \<Rightarrow>
          if selected \<noteq> sid then (Err VaultRejected, v)
          else (case sv_inbox v of [] \<Rightarrow> (Ok None, v)
            | (first_id, r) # _ \<Rightarrow>
              (case OpaqueEnvelope_decode_canonical C (ir_encoded r) of
                 Inl _ \<Rightarrow> (Err VaultRejected, v)
               | Inr envelope \<Rightarrow>
                   (Ok (Some \<lparr> po_vault_instance = sv_instance v, po_session_id = sid,
                               po_open_generation = generation, po_envelope_id = first_id,
                               po_insertion_generation = ir_insertion_generation r,
                               po_envelope = envelope \<rparr>), v)))
      | _ \<Rightarrow> (Err VaultRejected, v))"

definition complete_opaque_import ::
    "session_vault \<Rightarrow> pending_opaque_import \<Rightarrow> (nat \<Rightarrow> u64) \<Rightarrow> (vault_error + unit) \<times> session_vault"
  where
  "complete_opaque_import v0 p clk =
     (let v = poll_vault v0 (clk 0) in
      case sv_state v of
        VOpen sid generation _ _ \<Rightarrow>
          if sv_instance v \<noteq> po_vault_instance p \<or> sid \<noteq> po_session_id p
             \<or> generation \<noteq> po_open_generation p
          then (Err VaultReservationMismatch, v)
          else (case bt_get (sv_inbox v) (po_envelope_id p) of
              None \<Rightarrow> (Err VaultReservationMismatch, v)
            | Some r \<Rightarrow>
              if ir_insertion_generation r \<noteq> po_insertion_generation p
                 \<or> ir_expires_at r \<le> clk 1 \<or> sv_inbox_total v < length (ir_encoded r)
              then (Err VaultReservationMismatch, v)
              else (Ok (), v \<lparr> sv_inbox := bt_remove (po_envelope_id p) (sv_inbox v),
                              sv_inbox_total := sv_inbox_total v - length (ir_encoded r) \<rparr>))
      | _ \<Rightarrow> (Err VaultReservationMismatch, v))"

section \<open>Runs\<close>

datatype vault_op =
    VBeginUnlock ident
  | VCompleteUnlock unlock_completion
  | VPrivileged ident vault_operation
  | VBeginRelock ident
  | VCompleteRelock relock_attempt
  | VForceLock lock_event
  | VPoll
  | VAppend bytes
  | VBeginImport ident
  | VCompleteImport pending_opaque_import

fun vault_apply :: "cbor \<Rightarrow> vault_op \<times> (nat \<Rightarrow> u64) \<Rightarrow> session_vault \<Rightarrow> session_vault" where
  "vault_apply C (VBeginUnlock sid, clk) v = snd (begin_unlock v sid clk)"
| "vault_apply C (VCompleteUnlock c, clk) v = snd (complete_unlock v c clk)"
| "vault_apply C (VPrivileged sid op, clk) v = snd (perform_privileged v sid op clk)"
| "vault_apply C (VBeginRelock sid, clk) v = snd (begin_relock v sid clk)"
| "vault_apply C (VCompleteRelock a, clk) v = snd (complete_relock v a)"
| "vault_apply C (VForceLock e, clk) v = force_lock v e"
| "vault_apply C (VPoll, clk) v = poll_vault v (clk 0)"
| "vault_apply C (VAppend bs, clk) v = snd (append_opaque C v bs clk)"
| "vault_apply C (VBeginImport sid, clk) v = snd (begin_opaque_import C v sid clk)"
| "vault_apply C (VCompleteImport p, clk) v = snd (complete_opaque_import v p clk)"

definition vault_run ::
    "cbor \<Rightarrow> (vault_op \<times> (nat \<Rightarrow> u64)) list \<Rightarrow> session_vault \<Rightarrow> session_vault" where
  "vault_run C = fold (vault_apply C)"

end
