(* ===== verification/Vault_Invariants.thy ===== *)
theory Vault_Invariants
  imports Vault
begin

text \<open>
  What every operation of the vault keeps: the transitions an operation can make, as one step
  relation, the invariant of lifecycle and inbox, and what of an inbox record survives a run.
\<close>

section \<open>Pruning and accounting\<close>

definition inbox_bytes :: "(ident, opaque_inbox_record) btree_map \<Rightarrow> usize" where
  "inbox_bytes m = sum_list (map (\<lambda>(_, r). length (ir_encoded r)) m)"

lemma inbox_bytes_remove:
  "bt_wf m \<Longrightarrow> bt_get m k = Some r \<Longrightarrow>
     inbox_bytes m = length (ir_encoded r) + inbox_bytes (bt_remove k m)"
proof (induction m)
  case (Cons x m)
  obtain k' r' where x: "x = (k', r')" by force
  show ?case
  proof (cases "k' = k")
    case True
    have "\<forall>y \<in> set m. fst y \<noteq> k" using Cons.prems(1) True by (auto simp: x bt_wf_Cons)
    then have "bt_remove k m = m" by (auto simp: bt_remove_def filter_id_conv)
    then show ?thesis using Cons.prems(2) True by (simp add: x inbox_bytes_def bt_remove_def bt_get_def)
  next
    case False
    then show ?thesis
      using Cons by (simp add: x inbox_bytes_def bt_remove_def bt_get_def bt_wf_Cons)
  qed
qed (simp add: bt_get_def)

lemma inbox_bytes_insert:
  "bt_get m k = None \<Longrightarrow> inbox_bytes (bt_insert k r m) = inbox_bytes m + length (ir_encoded r)"
  by (induction k r m rule: bt_insert.induct)
    (auto simp: inbox_bytes_def bt_get_def split: if_splits)

definition inbox_accounted :: "session_vault \<Rightarrow> bool" where
  "inbox_accounted v \<longleftrightarrow> bt_wf (sv_inbox v) \<and> sv_inbox_total v = inbox_bytes (sv_inbox v)"

definition same_but_inbox :: "session_vault \<Rightarrow> session_vault \<Rightarrow> bool" where
  "same_but_inbox v v' \<longleftrightarrow>
     v' = v \<lparr> sv_inbox := sv_inbox v', sv_inbox_total := sv_inbox_total v' \<rparr>"

lemma same_but_inbox_refl [simp]: "same_but_inbox v v"
  by (simp add: same_but_inbox_def)

lemma same_but_inbox_trans:
  "same_but_inbox a b \<Longrightarrow> same_but_inbox b c \<Longrightarrow> same_but_inbox a c"
  by (cases a; cases b; cases c) (simp add: same_but_inbox_def)

lemma same_but_inboxD:
  assumes "same_but_inbox v v'"
  shows "sv_instance v' = sv_instance v" "sv_policy v' = sv_policy v"
    "sv_inbox_policy v' = sv_inbox_policy v" "sv_next_generation v' = sv_next_generation v"
    "sv_next_inbox_generation v' = sv_next_inbox_generation v" "sv_state v' = sv_state v"
    "sv_active_unlock_generation v' = sv_active_unlock_generation v"
  using assms by (cases v; cases v'; simp add: same_but_inbox_def)+

lemma remove_inbox_same: "same_but_inbox v (remove_inbox k v)"
  by (cases v) (auto simp: same_but_inbox_def remove_inbox_def split: option.splits)

lemma remove_inbox_get:
  "bt_get (sv_inbox (remove_inbox k v)) k' = (if k' = k then None else bt_get (sv_inbox v) k')"
  by (auto simp: remove_inbox_def bt_get_remove split: option.splits)

lemma remove_inbox_accounted: "inbox_accounted v \<Longrightarrow> inbox_accounted (remove_inbox k v)"
  by (auto simp: inbox_accounted_def remove_inbox_def bt_wf_remove split: option.splits
      dest: inbox_bytes_remove)

lemma remove_inbox_smaller:
  "length (sv_inbox (remove_inbox k v)) \<le> length (sv_inbox v)"
  "sv_inbox_total (remove_inbox k v) \<le> sv_inbox_total v"
  by (auto simp: remove_inbox_def bt_remove_length split: option.splits)

lemma fold_remove_inbox:
  "same_but_inbox v (fold remove_inbox ks v)"
  "inbox_accounted v \<Longrightarrow> inbox_accounted (fold remove_inbox ks v)"
  "bt_get (sv_inbox (fold remove_inbox ks v)) k =
     (if k \<in> set ks then None else bt_get (sv_inbox v) k)"
  "length (sv_inbox (fold remove_inbox ks v)) \<le> length (sv_inbox v)"
  "sv_inbox_total (fold remove_inbox ks v) \<le> sv_inbox_total v"
proof (induction ks arbitrary: v)
  case (Cons x ks)
  { case 1 show ?case
      using Cons.IH(1) [of "remove_inbox x v"] remove_inbox_same same_but_inbox_trans by fastforce }
  { case 2 then show ?case using Cons.IH(2) remove_inbox_accounted by simp }
  { case 3 show ?case using Cons.IH(3) by (auto simp: remove_inbox_get) }
  { case 4 show ?case
      using Cons.IH(4) [of "remove_inbox x v"] remove_inbox_smaller(1) [of x v] by simp }
  { case 5 show ?case
      using Cons.IH(5) [of "remove_inbox x v"] remove_inbox_smaller(2) [of x v] by simp }
qed simp_all

lemma prune_same: "same_but_inbox v (prune_expired_inbox v now)"
  by (simp add: prune_expired_inbox_def fold_remove_inbox(1))

lemma prune_accounted: "inbox_accounted v \<Longrightarrow> inbox_accounted (prune_expired_inbox v now)"
  by (simp add: prune_expired_inbox_def fold_remove_inbox(2))

lemma prune_smaller:
  "length (sv_inbox (prune_expired_inbox v now)) \<le> length (sv_inbox v)"
  "sv_inbox_total (prune_expired_inbox v now) \<le> sv_inbox_total v"
  by (simp_all add: prune_expired_inbox_def fold_remove_inbox(4,5))

lemma prune_get:
  assumes "bt_wf (sv_inbox v)"
  shows "bt_get (sv_inbox (prune_expired_inbox v now)) k =
    (case bt_get (sv_inbox v) k of None \<Rightarrow> None
     | Some r \<Rightarrow> if ir_expires_at r \<le> now then None else Some r)"
  using bt_get_mem [OF assms]
  by (force simp: prune_expired_inbox_def fold_remove_inbox(3) split: option.splits)

text \<open>A poll prunes, and seals an unlock or an open session whose deadline has passed.\<close>

definition deadline :: "session_vault \<Rightarrow> u64 \<Rightarrow> session_vault" where
  "deadline v now = (if lifecycle_expired (sv_state v) now then seal v else v)"

lemma deadline_simps [simp]:
  "sv_inbox (deadline v now) = sv_inbox v"
  "sv_inbox_total (deadline v now) = sv_inbox_total v"
  "sv_instance (deadline v now) = sv_instance v"
  "sv_policy (deadline v now) = sv_policy v"
  "sv_inbox_policy (deadline v now) = sv_inbox_policy v"
  "sv_next_generation (deadline v now) = sv_next_generation v"
  "sv_next_inbox_generation (deadline v now) = sv_next_inbox_generation v"
  by (simp_all add: deadline_def seal_def)

lemma poll_same: "same_but_inbox (deadline v now) (poll_vault v now)"
  using prune_same by (simp add: poll_vault_def deadline_def)

lemmas poll_fields [simp] = same_but_inboxD [OF poll_same, unfolded deadline_simps]

lemma poll_state: "sv_state (poll_vault v now) = VSealed \<or>
    sv_state (poll_vault v now) = sv_state v \<and> \<not> lifecycle_expired (sv_state v) now"
  by (simp add: deadline_def seal_def)

lemma poll_open:
  assumes "sv_state (poll_vault v now) = VOpen sid g idle key"
  shows "sv_state v = VOpen sid g idle key" "now < idle"
proof -
  have *: "sv_state v = VOpen sid g idle key \<and> \<not> lifecycle_expired (sv_state v) now"
    using poll_state [of v now] assms by auto
  then show "sv_state v = VOpen sid g idle key" by simp
  show "now < idle" using * by (auto simp: lifecycle_expired_def not_le)
qed

lemma poll_accounted: "inbox_accounted v \<Longrightarrow> inbox_accounted (poll_vault v now)"
  using prune_accounted [of "deadline v now" now]
  by (simp add: poll_vault_def inbox_accounted_def deadline_def [symmetric])

lemma poll_smaller:
  "length (sv_inbox (poll_vault v now)) \<le> length (sv_inbox v)"
  "sv_inbox_total (poll_vault v now) \<le> sv_inbox_total v"
  using prune_smaller [of "deadline v now" now] by (simp_all add: poll_vault_def deadline_def [symmetric])

lemma poll_get:
  "bt_wf (sv_inbox v) \<Longrightarrow> bt_get (sv_inbox (poll_vault v now)) k =
    (case bt_get (sv_inbox v) k of None \<Rightarrow> None
     | Some r \<Rightarrow> if ir_expires_at r \<le> now then None else Some r)"
  using prune_get [of "deadline v now" now k] by (simp add: poll_vault_def deadline_def [symmetric])

section \<open>The transitions of an operation\<close>

text \<open>
  Every way an operation can change the vault, with the operation, the readings and the checks that
  led to it.
\<close>

inductive vault_step ::
    "cbor \<Rightarrow> vault_op \<times> (nat \<Rightarrow> u64) \<Rightarrow> session_vault \<Rightarrow> session_vault \<Rightarrow> bool" for C where
  unchanged: "vault_step C (op, clk) v v"
| polled: "vault_step C (op, clk) v (poll_vault v (clk 0))"
| generation_spent: "sv_state (poll_vault v (clk 0)) = VSealed \<Longrightarrow>
    checked_add (sv_next_generation v) 1 = Some g \<Longrightarrow>
    vault_step C (VBeginUnlock sid, clk) v (poll_vault v (clk 0) \<lparr> sv_next_generation := g \<rparr>)"
| unlocking: "sv_state (poll_vault v (clk 0)) = VSealed \<Longrightarrow>
    checked_add (sv_next_generation v) 1 = Some g \<Longrightarrow>
    vault_step C (VBeginUnlock sid, clk) v (poll_vault v (clk 0) \<lparr> sv_next_generation := g,
      sv_state := VUnlocking sid g expires, sv_active_unlock_generation := g \<rparr>)"
| unlock_failed: "sv_state v = VUnlocking sid g expires \<Longrightarrow> uc_generation c = g \<Longrightarrow>
    vault_step C (VCompleteUnlock c, clk) v (seal v)"
| opened: "sv_state v = VUnlocking sid g expires \<Longrightarrow>
    fst (complete_unlock v c clk) = Ok () \<Longrightarrow>
    uc_vault_instance c = sv_instance v \<Longrightarrow> uc_session_id c = sid \<Longrightarrow> uc_generation c = g \<Longrightarrow>
    uc_outcome c = Ready caps key \<Longrightarrow> supports caps (vp_minimum_protection (sv_policy v)) \<Longrightarrow>
    clk 0 < expires \<Longrightarrow> clk 1 < expires \<Longrightarrow>
    checked_add (clk 1) (vp_idle_timeout (sv_policy v)) = Some idle \<Longrightarrow>
    vault_step C (VCompleteUnlock c, clk) v (seal v \<lparr> sv_state := VOpen sid g idle key \<rparr>)"
| refreshed: "sv_state (poll_vault v (clk 0)) = VOpen sid g idle key \<Longrightarrow>
    checked_add (clk 1) (vp_idle_timeout (sv_policy v)) = Some idle' \<Longrightarrow>
    vault_step C (VPrivileged sid operation, clk) v
      (poll_vault v (clk 0) \<lparr> sv_state := VOpen sid g idle' key \<rparr>)"
| relocking: "sv_state (poll_vault v (clk 0)) = VOpen sid g idle key \<Longrightarrow>
    checked_add (sv_next_generation v) 1 = Some g' \<Longrightarrow>
    vault_step C (VBeginRelock sid, clk) v
      (poll_vault v (clk 0) \<lparr> sv_next_generation := g', sv_state := VRelocking sid g' \<rparr>)"
| relocked: "sv_state v = VRelocking sid g \<Longrightarrow>
    vault_step C (VCompleteRelock a, clk) v (v \<lparr> sv_state := VSealed \<rparr>)"
| locked: "vault_step C (VForceLock e, clk) v (seal v)"
| appended: "w = poll_vault v (clk 0) \<Longrightarrow>
    OpaqueEnvelope_decode_canonical C bs = Ok envelope \<Longrightarrow> \<not> all_zero (envelope_id envelope) \<Longrightarrow>
    bt_get (sv_inbox w) (envelope_id envelope) = None \<Longrightarrow>
    length (sv_inbox w) < ip_maximum_envelopes (sv_inbox_policy v) \<Longrightarrow>
    sv_inbox_total w + length bs \<le> ip_maximum_total_encoded_bytes (sv_inbox_policy v) \<Longrightarrow>
    checked_add (sv_next_inbox_generation v) 1 = Some g \<Longrightarrow>
    vault_step C (VAppend bs, clk) v (w \<lparr> sv_next_inbox_generation := g,
      sv_inbox := bt_insert (envelope_id envelope) \<lparr> ir_encoded = bs,
        ir_expires_at = env_expires_at envelope, ir_insertion_generation = g \<rparr> (sv_inbox w),
      sv_inbox_total := sv_inbox_total w + length bs \<rparr>)"
| imported: "w = poll_vault v (clk 0) \<Longrightarrow>
    fst (complete_opaque_import v p clk) = Ok () \<Longrightarrow>
    sv_state w = VOpen (po_session_id p) (po_open_generation p) idle key \<Longrightarrow>
    bt_get (sv_inbox w) (po_envelope_id p) = Some r \<Longrightarrow>
    ir_insertion_generation r = po_insertion_generation p \<Longrightarrow>
    vault_step C (VCompleteImport p, clk) v (remove_inbox (po_envelope_id p) w)"

inductive_cases vault_stepE: "vault_step C x v v'"

lemma begin_unlock_step: "vault_step C (VBeginUnlock sid, clk) v (snd (begin_unlock v sid clk))"
  using polled [of C "VBeginUnlock sid" clk v] generation_spent [of v clk _ C sid]
    unlocking [of v clk _ C sid]
  by (auto simp: begin_unlock_def next_transition_generation_def ok_or_def Let_def
      simp del: poll_fields(6,7) split: option.split)

lemma complete_unlock_step: "vault_step C (VCompleteUnlock c, clk) v (snd (complete_unlock v c clk))"
proof (cases "sv_state v")
  case (VUnlocking sid g expires)
  show ?thesis
  proof (cases "fst (complete_unlock v c clk) = Ok ()")
    case True
    then obtain caps key idle where "uc_outcome c = Ready caps key"
      "sv_instance v = uc_vault_instance c" "sid = uc_session_id c" "g = uc_generation c"
      "\<not> expires \<le> clk 0" "\<not> expires \<le> clk 1" "supports caps (vp_minimum_protection (sv_policy v))"
      "checked_add (clk 1) (vp_idle_timeout (sv_policy v)) = Some idle"
      by (auto simp: complete_unlock_def VUnlocking Let_def seal_def
          split: if_splits option.splits unlock_outcome.splits)
    then show ?thesis
      using opened [OF VUnlocking True, of caps key idle C]
      by (simp add: complete_unlock_def VUnlocking Let_def) (simp add: seal_def not_le)
  next
    case False
    then show ?thesis
      using unlock_failed [OF VUnlocking, of c C clk] unchanged [of C "VCompleteUnlock c" clk v]
      by (auto simp: complete_unlock_def VUnlocking Let_def
          split: if_splits option.splits unlock_outcome.splits)
  qed
qed (simp_all add: complete_unlock_def unchanged)

lemma perform_privileged_step:
  "vault_step C (VPrivileged sid operation, clk) v (snd (perform_privileged v sid operation clk))"
  using polled [of C "VPrivileged sid operation" clk v] refreshed [of v clk sid _ _ _ _ C operation]
  by (auto simp: perform_privileged_def Let_def simp del: poll_fields(6,7)
      split: option.split lifecycle_state.split)

lemma begin_relock_step: "vault_step C (VBeginRelock sid, clk) v (snd (begin_relock v sid clk))"
  using polled [of C "VBeginRelock sid" clk v] relocking [of v clk sid _ _ _ _ C]
  by (auto simp: begin_relock_def next_transition_generation_def ok_or_def Let_def
      simp del: poll_fields(6,7) split: option.split lifecycle_state.split)

lemma complete_relock_step: "vault_step C (VCompleteRelock a, clk) v (snd (complete_relock v a))"
  using unchanged [of C "VCompleteRelock a" clk v] relocked [of v _ _ C a clk]
  by (auto simp: complete_relock_def split: lifecycle_state.split)

lemma begin_opaque_import_step:
  "vault_step C (VBeginImport sid, clk) v (snd (begin_opaque_import C v sid clk))"
  using polled [of C "VBeginImport sid" clk v]
  by (auto simp: begin_opaque_import_def Let_def simp del: poll_fields(6,7)
      split: list.split lifecycle_state.split sum.split)

lemma complete_opaque_import_step:
  "vault_step C (VCompleteImport p, clk) v (snd (complete_opaque_import v p clk))"
proof -
  define w where "w = poll_vault v (clk 0)"
  note w = w_def [symmetric]
  have polled_w: "vault_step C (VCompleteImport p, clk) v w" by (simp add: w_def polled)
  show ?thesis
  proof (cases "sv_state w")
    case (VOpen sid g idle key)
    show ?thesis
    proof (cases "bt_get (sv_inbox w) (po_envelope_id p)")
      case None
      then show ?thesis using polled_w by (simp add: complete_opaque_import_def w Let_def VOpen)
    next
      case (Some r)
      show ?thesis
      proof (cases "fst (complete_opaque_import v p clk) = Ok ()")
        case True
        then have "sid = po_session_id p" "g = po_open_generation p"
          "ir_insertion_generation r = po_insertion_generation p"
          "snd (complete_opaque_import v p clk) = remove_inbox (po_envelope_id p) w"
          by (simp_all add: complete_opaque_import_def w Let_def VOpen Some remove_inbox_def
              split: if_splits)
        then show ?thesis using imported [of w v clk p idle key r C, OF w_def True _ Some] VOpen by simp
      next
        case False
        then show ?thesis
          using polled_w by (auto simp: complete_opaque_import_def w Let_def VOpen Some)
      qed
    qed
  qed (use polled_w in \<open>simp_all add: complete_opaque_import_def w Let_def\<close>)
qed

lemma store_opaque_cases:
  "store_opaque w bs e = (Err VaultCapacityExceeded, w) \<or>
   (\<exists>g. length (sv_inbox w) < ip_maximum_envelopes (sv_inbox_policy w)
     \<and> sv_inbox_total w + length bs \<le> ip_maximum_total_encoded_bytes (sv_inbox_policy w)
     \<and> checked_add (sv_next_inbox_generation w) 1 = Some g
     \<and> store_opaque w bs e = (Ok InboxStored, w \<lparr> sv_next_inbox_generation := g,
         sv_inbox := bt_insert (envelope_id e) \<lparr> ir_encoded = bs,
           ir_expires_at = env_expires_at e, ir_insertion_generation = g \<rparr> (sv_inbox w),
         sv_inbox_total := sv_inbox_total w + length bs \<rparr>))"
  by (cases "checked_add (sv_next_inbox_generation w) 1") (simp_all add: store_opaque_def Let_def)

lemma append_opaque_cases:
  assumes "w = poll_vault v (clk 0)"
  shows "fst (append_opaque C v bs clk) = Err VaultRejected \<and> snd (append_opaque C v bs clk) = w
    \<or> (\<exists>e. OpaqueEnvelope_decode_canonical C bs = Ok e \<and> \<not> all_zero (envelope_id e)
         \<and> clk 1 < env_expires_at e
         \<and> (bt_get (sv_inbox w) (envelope_id e) = None \<and> append_opaque C v bs clk = store_opaque w bs e
          \<or> (\<exists>r. bt_get (sv_inbox w) (envelope_id e) = Some r \<and> ir_encoded r = bs
              \<and> append_opaque C v bs clk = (Ok InboxAlreadyStored, w))))"
proof (cases "OpaqueEnvelope_decode_canonical C bs")
  case (Inr e)
  have sub: "checked_sub (env_expires_at e) (clk 1) = Some l \<Longrightarrow> l \<noteq> 0 \<Longrightarrow> clk 1 < env_expires_at e" for l
    by (auto simp: checked_sub_def split: if_splits)
  show ?thesis
  proof (cases "checked_sub (env_expires_at e) (clk 1)")
    case (Some l)
    with sub [OF Some] show ?thesis
      by (cases "bt_get (sv_inbox w) (envelope_id e)")
        (simp_all add: append_opaque_def assms [symmetric] Let_def Inr)
  qed (simp add: append_opaque_def assms [symmetric] Let_def Inr)
qed (simp add: append_opaque_def assms [symmetric] Let_def)

lemma append_opaque_step: "vault_step C (VAppend bs, clk) v (snd (append_opaque C v bs clk))"
proof -
  define w where "w = poll_vault v (clk 0)"
  have polled_w: "vault_step C (VAppend bs, clk) v w" by (simp add: w_def polled)
  have fields: "sv_inbox_policy w = sv_inbox_policy v"
    "sv_next_inbox_generation w = sv_next_inbox_generation v" by (simp_all add: w_def)
  from append_opaque_cases [of w v clk C bs, OF w_def] show ?thesis
  proof (elim disjE exE conjE)
    fix e assume "OpaqueEnvelope_decode_canonical C bs = Ok e" "\<not> all_zero (envelope_id e)"
      "bt_get (sv_inbox w) (envelope_id e) = None" "append_opaque C v bs clk = store_opaque w bs e"
    then show ?thesis
      using store_opaque_cases [of w bs e] appended [of w v clk C bs e, OF w_def] polled_w fields
      by (elim disjE exE conjE) simp_all
  qed (use polled_w in simp_all)
qed

lemma vault_apply_step: "vault_step C x v (vault_apply C x v)"
proof (cases x)
  case (Pair op clk)
  show ?thesis
    unfolding Pair
    by (cases op) (simp_all add: begin_unlock_step complete_unlock_step perform_privileged_step
        begin_relock_step complete_relock_step locked polled append_opaque_step
        begin_opaque_import_step complete_opaque_import_step force_lock_def)
qed

section \<open>The invariant\<close>

definition lifecycle_wf :: "session_vault \<Rightarrow> bool" where
  "lifecycle_wf v \<longleftrightarrow> (case sv_state v of
      VSealed \<Rightarrow> sv_active_unlock_generation v = 0
    | VUnlocking _ g _ \<Rightarrow> g \<noteq> 0 \<and> g \<le> sv_next_generation v \<and> sv_active_unlock_generation v = g
    | VOpen _ g _ _ \<Rightarrow> g \<noteq> 0 \<and> g \<le> sv_next_generation v \<and> sv_active_unlock_generation v = 0
    | VRelocking _ g \<Rightarrow> g \<noteq> 0 \<and> g \<le> sv_next_generation v \<and> sv_active_unlock_generation v = 0)"

definition record_wf :: "cbor \<Rightarrow> u64 \<Rightarrow> ident \<Rightarrow> opaque_inbox_record \<Rightarrow> bool" where
  "record_wf C limit k r \<longleftrightarrow> \<not> all_zero k \<and> ir_insertion_generation r \<le> limit \<and>
     (\<exists>e. OpaqueEnvelope_decode_canonical C (ir_encoded r) = Ok e
        \<and> envelope_id e = k \<and> env_expires_at e = ir_expires_at r)"

definition inbox_wf :: "cbor \<Rightarrow> session_vault \<Rightarrow> bool" where
  "inbox_wf C v \<longleftrightarrow> inbox_accounted v
     \<and> length (sv_inbox v) \<le> ip_maximum_envelopes (sv_inbox_policy v)
     \<and> sv_inbox_total v \<le> ip_maximum_total_encoded_bytes (sv_inbox_policy v)
     \<and> (\<forall>k r. bt_get (sv_inbox v) k = Some r \<longrightarrow> record_wf C (sv_next_inbox_generation v) k r)"

definition vault_inv :: "cbor \<Rightarrow> session_vault \<Rightarrow> bool" where
  "vault_inv C v \<longleftrightarrow> lifecycle_wf v \<and> inbox_wf C v"

lemma new_vault_inv: "vault_inv C (SessionVaultModel_new inst policy inbox_policy)"
  by (simp add: SessionVaultModel_new_def vault_inv_def lifecycle_wf_def inbox_wf_def
      inbox_accounted_def inbox_bytes_def bt_wf_Nil bt_get_empty)

lemma lifecycle_wf_cong:
  "sv_state w = sv_state v \<Longrightarrow> sv_next_generation w = sv_next_generation v \<Longrightarrow>
   sv_active_unlock_generation w = sv_active_unlock_generation v \<Longrightarrow> lifecycle_wf w = lifecycle_wf v"
  by (cases "sv_state v") (simp_all add: lifecycle_wf_def)

lemma lifecycle_wf_seal: "lifecycle_wf (seal v)"
  by (simp add: lifecycle_wf_def seal_def)

lemma lifecycle_wf_poll:
  assumes "lifecycle_wf v"
  shows "lifecycle_wf (poll_vault v now)"
proof -
  have "lifecycle_wf (deadline v now)"
    using assms lifecycle_wf_seal by (simp add: deadline_def)
  moreover have "lifecycle_wf (poll_vault v now) = lifecycle_wf (deadline v now)"
    by (rule lifecycle_wf_cong) simp_all
  ultimately show ?thesis by simp
qed

lemma inbox_wf_poll: "inbox_wf C v \<Longrightarrow> inbox_wf C (poll_vault v now)"
  using poll_smaller [of v now]
  by (auto simp: inbox_wf_def poll_accounted poll_get inbox_accounted_def [of v]
      split: option.splits if_splits)

lemma record_wf_mono: "record_wf C limit k r \<Longrightarrow> limit \<le> limit' \<Longrightarrow> record_wf C limit' k r"
  by (auto simp: record_wf_def)

lemma inbox_wf_append:
  assumes wf: "inbox_wf C w" and e: "OpaqueEnvelope_decode_canonical C bs = Ok e"
    "\<not> all_zero (envelope_id e)" "bt_get (sv_inbox w) (envelope_id e) = None"
    and room: "length (sv_inbox w) < ip_maximum_envelopes (sv_inbox_policy w)"
      "sv_inbox_total w + length bs \<le> ip_maximum_total_encoded_bytes (sv_inbox_policy w)"
    and g: "checked_add (sv_next_inbox_generation w) 1 = Some g"
  shows "inbox_wf C (w \<lparr> sv_next_inbox_generation := g,
      sv_inbox := bt_insert (envelope_id e) \<lparr> ir_encoded = bs,
        ir_expires_at = env_expires_at e, ir_insertion_generation = g \<rparr> (sv_inbox w),
      sv_inbox_total := sv_inbox_total w + length bs \<rparr>)"
  using wf e room record_wf_mono [OF _ checked_add_Some_le [OF g]]
  by (auto simp: inbox_wf_def inbox_accounted_def bt_wf_insert inbox_bytes_insert
      bt_insert_length_new bt_get_insert record_wf_def [of _ g "envelope_id e"])

lemma inbox_wf_remove: "inbox_wf C v \<Longrightarrow> inbox_wf C (remove_inbox k v)"
  using remove_inbox_smaller [of k v]
  by (auto simp: inbox_wf_def remove_inbox_accounted remove_inbox_get
      same_but_inboxD [OF remove_inbox_same])

lemma inbox_wf_state [simp]:
  "inbox_wf C (v \<lparr> sv_state := s \<rparr>) = inbox_wf C v"
  "inbox_wf C (v \<lparr> sv_next_generation := g \<rparr>) = inbox_wf C v"
  "inbox_wf C (v \<lparr> sv_active_unlock_generation := g \<rparr>) = inbox_wf C v"
  by (simp_all add: inbox_wf_def inbox_accounted_def)

lemma next_generation_pos: "checked_add n 1 = Some g \<Longrightarrow> g \<noteq> 0 \<and> n \<le> g" for n :: u64
  by (auto simp: checked_add_1_iff)

lemma vault_step_lifecycle: "vault_step C x v v' \<Longrightarrow> lifecycle_wf v \<Longrightarrow> lifecycle_wf v'"
proof (induction rule: vault_step.induct)
  case (generation_spent v clk g sid)
  then show ?case
    using lifecycle_wf_poll [of v "clk 0"] by (simp add: lifecycle_wf_def)
next
  case (unlocking v clk g sid expires)
  then show ?case using next_generation_pos by (simp add: lifecycle_wf_def)
next
  case (opened v sid g expires c clk caps key idle)
  then show ?case by (simp add: lifecycle_wf_def seal_def)
next
  case (refreshed v clk sid g idle key idle' operation)
  then show ?case using lifecycle_wf_poll [of v "clk 0"] by (simp add: lifecycle_wf_def)
next
  case (relocking v clk sid g idle key g')
  then show ?case
    using next_generation_pos lifecycle_wf_poll [of v "clk 0"] by (simp add: lifecycle_wf_def)
next
  case (relocked v sid g a clk)
  then show ?case by (simp add: lifecycle_wf_def)
next
  case (appended w v clk bs envelope g)
  then have "lifecycle_wf w" by (simp add: lifecycle_wf_poll)
  then show ?case by (subst lifecycle_wf_cong [of _ w]) simp_all
next
  case (imported w v clk p idle key r)
  then show ?case
    using lifecycle_wf_poll [of v "clk 0"]
      lifecycle_wf_cong [OF same_but_inboxD(6,4,7) [OF remove_inbox_same]] by simp
qed (simp_all add: lifecycle_wf_poll lifecycle_wf_seal)

lemma vault_step_inbox: "vault_step C x v v' \<Longrightarrow> inbox_wf C v \<Longrightarrow> inbox_wf C v'"
proof (induction rule: vault_step.induct)
  case (appended w v clk bs envelope g)
  then show ?case
    using inbox_wf_append [of C w bs envelope g] inbox_wf_poll [of C v "clk 0"] by simp
next
  case (imported w v clk p idle key r)
  then show ?case by (simp add: inbox_wf_remove inbox_wf_poll)
qed (simp_all add: inbox_wf_poll seal_def)

lemma vault_apply_inv: "vault_inv C v \<Longrightarrow> vault_inv C (vault_apply C x v)"
  using vault_apply_step [of C x v] vault_step_lifecycle vault_step_inbox
  by (auto simp: vault_inv_def)

lemma vault_run_Nil [simp]: "vault_run C [] v = v"
  by (simp add: vault_run_def)

lemma vault_run_Cons [simp]: "vault_run C (x # ops) v = vault_run C ops (vault_apply C x v)"
  by (simp add: vault_run_def)

lemma vault_run_append [simp]: "vault_run C (xs @ ys) v = vault_run C ys (vault_run C xs v)"
  by (simp add: vault_run_def)

lemma vault_run_inv: "vault_inv C v \<Longrightarrow> vault_inv C (vault_run C ops v)"
  by (induction ops arbitrary: v) (simp_all add: vault_apply_inv)

section \<open>What a run keeps\<close>

lemma vault_apply_fixed:
  "sv_instance (vault_apply C x v) = sv_instance v"
  "sv_policy (vault_apply C x v) = sv_policy v"
  "sv_inbox_policy (vault_apply C x v) = sv_inbox_policy v"
proof -
  have "sv_instance v' = sv_instance v \<and> sv_policy v' = sv_policy v
      \<and> sv_inbox_policy v' = sv_inbox_policy v" if "vault_step C x v v'" for v'
    using that
    by (induction rule: vault_step.induct) (simp_all add: seal_def same_but_inboxD [OF remove_inbox_same])
  from this [OF vault_apply_step] show
    "sv_instance (vault_apply C x v) = sv_instance v"
    "sv_policy (vault_apply C x v) = sv_policy v"
    "sv_inbox_policy (vault_apply C x v) = sv_inbox_policy v" by simp_all
qed

lemma vault_run_fixed:
  "sv_instance (vault_run C ops v) = sv_instance v"
  "sv_policy (vault_run C ops v) = sv_policy v"
  "sv_inbox_policy (vault_run C ops v) = sv_inbox_policy v"
  by (induction ops arbitrary: v) (simp_all add: vault_apply_fixed)

text \<open>A generation that is no longer being unlocked never is again.\<close>

definition generation_dead :: "u64 \<Rightarrow> session_vault \<Rightarrow> bool" where
  "generation_dead g v \<longleftrightarrow> g \<noteq> 0 \<and> g \<le> sv_next_generation v
     \<and> (\<forall>sid expires. sv_state v \<noteq> VUnlocking sid g expires)"

lemma generation_dead_poll: "generation_dead g v \<Longrightarrow> generation_dead g (poll_vault v now)"
  by (auto simp: generation_dead_def deadline_def seal_def)

lemma generation_dead_seal: "g \<noteq> 0 \<Longrightarrow> g \<le> sv_next_generation v \<Longrightarrow> generation_dead g (seal v)"
  by (simp add: generation_dead_def seal_def)

lemma vault_step_dead: "vault_step C x v v' \<Longrightarrow> generation_dead g v \<Longrightarrow> generation_dead g v'"
proof (induction rule: vault_step.induct)
  case (unlocking v clk g' sid expires)
  then show ?case by (auto simp: generation_dead_def checked_add_1_iff)
next
  case (generation_spent v clk g' sid)
  then show ?case by (auto simp: generation_dead_def checked_add_1_iff)
next
  case (relocking v clk sid g idle key g')
  then show ?case by (auto simp: generation_dead_def checked_add_1_iff)
next
  case (appended w v clk bs envelope g')
  then show ?case using generation_dead_poll [of g v "clk 0"] by (simp add: generation_dead_def)
next
  case (imported w v clk p idle key r)
  then show ?case
    using generation_dead_poll [of g v "clk 0"]
    by (simp add: generation_dead_def same_but_inboxD [OF remove_inbox_same])
qed (simp_all add: generation_dead_poll, simp_all add: generation_dead_def seal_def)

lemma vault_run_dead: "generation_dead g v \<Longrightarrow> generation_dead g (vault_run C ops v)"
  by (induction ops arbitrary: v) (simp_all add: vault_step_dead [OF vault_apply_step])

lemma vault_step_next_generation:
  "vault_step C x v v' \<Longrightarrow> sv_next_generation v \<le> sv_next_generation v'"
  by (induction rule: vault_step.induct)
    (auto simp: seal_def checked_add_1_iff same_but_inboxD [OF remove_inbox_same])

lemma vault_run_next_generation: "sv_next_generation v \<le> sv_next_generation (vault_run C ops v)"
  by (induction ops arbitrary: v)
    (auto intro: order_trans [OF vault_step_next_generation [OF vault_apply_step]])

lemma dead_completion_refused:
  "generation_dead (uc_generation c) v \<Longrightarrow> complete_unlock v c clk = (Err VaultReservationMismatch, v)"
  by (auto simp: complete_unlock_def generation_dead_def split: lifecycle_state.split)

lemma dead_not_current:
  "generation_dead (ua_generation a) v \<Longrightarrow> lifecycle_wf v \<Longrightarrow>
     \<not> is_current a (sv_active_unlock_generation v)"
  by (auto simp: is_current_def generation_dead_def lifecycle_wf_def split: lifecycle_state.splits)

lemma complete_unlock_kills:
  assumes "uc_generation c \<noteq> 0" "uc_generation c \<le> sv_next_generation v"
    and "\<And>sid expires. sv_state v = VUnlocking sid (uc_generation c) expires \<Longrightarrow>
           sid = uc_session_id c \<and> sv_instance v = uc_vault_instance c"
  shows "generation_dead (uc_generation c) (snd (complete_unlock v c clk))"
proof (cases "\<exists>sid expires. sv_state v = VUnlocking sid (uc_generation c) expires")
  case True
  then obtain sid expires where s: "sv_state v = VUnlocking sid (uc_generation c) expires" by blast
  with assms(3) have "sid = uc_session_id c" "sv_instance v = uc_vault_instance c" by simp_all
  then show ?thesis
    using assms(1,2) s
    by (auto simp: complete_unlock_def Let_def generation_dead_def seal_def
        split: unlock_outcome.split option.split)
next
  case False
  with assms(1,2) have "generation_dead (uc_generation c) v" by (auto simp: generation_dead_def)
  then show ?thesis by (simp add: dead_completion_refused)
qed

text \<open>While a generation is being unlocked, it is unlocked for the session that began it.\<close>

definition unlocks_for :: "u64 \<Rightarrow> ident \<Rightarrow> session_vault \<Rightarrow> bool" where
  "unlocks_for g sid v \<longleftrightarrow> g \<le> sv_next_generation v
     \<and> (\<forall>sid' expires. sv_state v = VUnlocking sid' g expires \<longrightarrow> sid' = sid)"

lemma unlocks_for_poll: "unlocks_for g sid v \<Longrightarrow> unlocks_for g sid (poll_vault v now)"
  by (auto simp: unlocks_for_def deadline_def seal_def)

lemma vault_step_unlocks_for: "vault_step C x v v' \<Longrightarrow> unlocks_for g sid v \<Longrightarrow> unlocks_for g sid v'"
proof (induction rule: vault_step.induct)
  case (unlocking v clk g' sid' expires)
  then show ?case by (auto simp: unlocks_for_def checked_add_1_iff)
next
  case (generation_spent v clk g' sid')
  then show ?case by (auto simp: unlocks_for_def checked_add_1_iff)
next
  case (relocking v clk sid' g idle key g')
  then show ?case by (auto simp: unlocks_for_def checked_add_1_iff)
next
  case (appended w v clk bs envelope g')
  then show ?case using unlocks_for_poll [of g sid v "clk 0"] by (simp add: unlocks_for_def)
next
  case (imported w v clk p idle key r)
  then show ?case
    using unlocks_for_poll [of g sid v "clk 0"]
    by (simp add: unlocks_for_def same_but_inboxD [OF remove_inbox_same])
qed (simp_all add: unlocks_for_poll, simp_all add: unlocks_for_def seal_def)

lemma vault_run_unlocks_for: "unlocks_for g sid v \<Longrightarrow> unlocks_for g sid (vault_run C ops v)"
  by (induction ops arbitrary: v) (simp_all add: vault_step_unlocks_for [OF vault_apply_step])

lemma begin_unlock_ok:
  assumes "begin_unlock v sid clk = (Ok a, v')"
  shows "ua_generation a \<noteq> 0" "ua_generation a \<le> sv_next_generation v'"
    "ua_session_id a = sid" "ua_vault_instance a = sv_instance v'"
    "ua_minimum_protection a = vp_minimum_protection (sv_policy v')"
    "unlocks_for (ua_generation a) sid v'"
  using assms
  by (auto simp: begin_unlock_def next_transition_generation_def ok_or_def Let_def unlocks_for_def
      checked_add_1_iff simp del: poll_fields(6,7) split: option.splits if_splits)

section \<open>What the inbox keeps\<close>

lemma vault_step_keeps_record:
  assumes "vault_step C x v v'" "bt_wf (sv_inbox v)" "bt_get (sv_inbox v) k = Some r"
    "snd x 0 < ir_expires_at r"
    "\<forall>p. fst x = VCompleteImport p \<and> po_envelope_id p = k \<longrightarrow> fst (complete_opaque_import v p (snd x)) \<noteq> Ok ()"
  shows "bt_get (sv_inbox v') k = Some r"
  using assms
proof (induction rule: vault_step.induct)
  case (appended w v clk bs envelope g)
  then have "bt_get (sv_inbox w) k = Some r" by (simp add: poll_get not_le)
  with appended.hyps(4) show ?case by (auto simp: bt_get_insert)
next
  case (imported w v clk p idle key r')
  then show ?case by (auto simp: poll_get remove_inbox_get not_le)
qed (simp_all add: poll_get not_le seal_def)

text \<open>
  In a run from \<open>v\<close>, no import of the envelope \<open>k\<close> is completed: every \<open>complete_opaque_import\<close> that names
  it is refused, in the state the run has reached when it is made.
\<close>

fun never_imported :: "cbor \<Rightarrow> ident \<Rightarrow> (vault_op \<times> (nat \<Rightarrow> u64)) list \<Rightarrow> session_vault \<Rightarrow> bool" where
  "never_imported C k [] v \<longleftrightarrow> True"
| "never_imported C k ((op, clk) # ops) v \<longleftrightarrow>
     (case op of
        VCompleteImport p \<Rightarrow> po_envelope_id p = k \<longrightarrow> fst (complete_opaque_import v p clk) \<noteq> Ok ()
      | _ \<Rightarrow> True)
     \<and> never_imported C k ops (vault_apply C (op, clk) v)"

lemma vault_run_keeps_record:
  assumes "vault_inv C v" "bt_get (sv_inbox v) k = Some r"
    "\<forall>x \<in> set ops. snd x 0 < ir_expires_at r" "never_imported C k ops v"
  shows "bt_get (sv_inbox (vault_run C ops v)) k = Some r"
  using assms
proof (induction ops arbitrary: v)
  case (Cons x ops)
  have rest: "never_imported C k ops (vault_apply C x v)"
    and no: "\<forall>p. fst x = VCompleteImport p \<and> po_envelope_id p = k \<longrightarrow> fst (complete_opaque_import v p (snd x)) \<noteq> Ok ()"
    using Cons.prems(4) by (cases x; auto)+
  have "bt_get (sv_inbox (vault_apply C x v)) k = Some r"
    using vault_step_keeps_record [OF vault_apply_step _ Cons.prems(2) _ no] Cons.prems(1,3)
    by (simp add: vault_inv_def inbox_wf_def inbox_accounted_def)
  then show ?case using Cons.IH [OF vault_apply_inv [OF Cons.prems(1)] _ _ rest] Cons.prems(3) by simp
qed simp

text \<open>The insertion generation of a record names it for the rest of the run.\<close>

definition record_named :: "ident \<Rightarrow> opaque_inbox_record \<Rightarrow> session_vault \<Rightarrow> bool" where
  "record_named k r v \<longleftrightarrow> ir_insertion_generation r \<le> sv_next_inbox_generation v
     \<and> (\<forall>r'. bt_get (sv_inbox v) k = Some r'
          \<and> ir_insertion_generation r' = ir_insertion_generation r \<longrightarrow> r' = r)"

lemma record_named_poll:
  "bt_wf (sv_inbox v) \<Longrightarrow> record_named k r v \<Longrightarrow> record_named k r (poll_vault v now)"
  by (auto simp: record_named_def poll_get split: option.splits if_splits)

lemma vault_step_record_named:
  "vault_step C x v v' \<Longrightarrow> bt_wf (sv_inbox v) \<Longrightarrow> record_named k r v \<Longrightarrow> record_named k r v'"
proof (induction rule: vault_step.induct)
  case (appended w v clk bs envelope g)
  then have "record_named k r w" by (simp add: record_named_poll)
  moreover have "sv_next_inbox_generation w = sv_next_inbox_generation v" using appended by simp
  ultimately show ?case
    using appended.hyps(7) by (auto simp: record_named_def bt_get_insert checked_add_1_iff)
next
  case (imported w v clk p idle key r')
  then have "record_named k r w" by (simp add: record_named_poll)
  then show ?case
    by (auto simp: record_named_def remove_inbox_get same_but_inboxD [OF remove_inbox_same])
qed (simp_all add: record_named_poll, simp_all add: record_named_def seal_def poll_get split: option.splits if_splits)

lemma vault_run_record_named:
  assumes "vault_inv C v" "record_named k r v"
  shows "record_named k r (vault_run C ops v)"
  using assms
proof (induction ops arbitrary: v)
  case (Cons x ops)
  have "bt_wf (sv_inbox v)" using Cons.prems(1) by (simp add: vault_inv_def inbox_wf_def inbox_accounted_def)
  then show ?case
    using Cons.IH [OF vault_apply_inv [OF Cons.prems(1)]]
      vault_step_record_named [OF vault_apply_step _ Cons.prems(2)] by simp
qed simp

text \<open>Every record of a run was appended in it, or was there before.\<close>

lemma vault_step_appended:
  assumes "vault_step C x v v'" "bt_wf (sv_inbox v)" "bt_get (sv_inbox v') k = Some r"
  shows "bt_get (sv_inbox v) k = Some r \<or> fst x = VAppend (ir_encoded r)"
  using assms
proof (induction rule: vault_step.induct)
  case (appended w v clk bs envelope g)
  then show ?case by (auto simp: bt_get_insert poll_get split: if_splits option.splits)
next
  case (imported w v clk p idle key r')
  then show ?case by (auto simp: poll_get remove_inbox_get split: if_splits option.splits)
qed (auto simp: poll_get seal_def split: if_splits option.splits)

lemma vault_run_appended:
  assumes "vault_inv C v" "bt_get (sv_inbox (vault_run C ops v)) k = Some r"
  shows "bt_get (sv_inbox v) k = Some r \<or> VAppend (ir_encoded r) \<in> fst ` set ops"
  using assms
proof (induction ops arbitrary: v)
  case (Cons x ops)
  have "bt_wf (sv_inbox v)" using Cons.prems(1) by (simp add: vault_inv_def inbox_wf_def inbox_accounted_def)
  from Cons.IH [OF vault_apply_inv [OF Cons.prems(1)]] Cons.prems(2)
    vault_step_appended [OF vault_apply_step this]
  show ?case by fastforce
qed simp

end
