(* ===== verification/Vault_Properties.thy ===== *)
theory Vault_Properties
  imports Vault_Invariants Examples
begin

text \<open>
  The properties of the session vault: privileged work follows an unlock that met the policy, an
  ended unlock attempt cannot come back, the inbox is bounded, keeps what it accepted and hands out
  exactly that, and the shared work limiter holds its bound under any interleaving.
\<close>

section \<open>How the vault came to be open\<close>

definition opened_by ::
    "cbor \<Rightarrow> session_vault \<Rightarrow> (vault_op \<times> (nat \<Rightarrow> u64)) list \<Rightarrow> ident \<Rightarrow> u64 \<Rightarrow> u64 \<Rightarrow> bytes \<Rightarrow> bool" where
  "opened_by C v0 ops sid g idle key \<longleftrightarrow> (\<exists>pre c clk post caps t.
     ops = pre @ (VCompleteUnlock c, clk) # post
     \<and> fst (complete_unlock (vault_run C pre v0) c clk) = Ok ()
     \<and> uc_vault_instance c = sv_instance v0 \<and> uc_session_id c = sid \<and> uc_generation c = g
     \<and> uc_outcome c = Ready caps key \<and> supports caps (vp_minimum_protection (sv_policy v0))
     \<and> (\<forall>n \<le> length post. \<exists>i.
          sv_state (vault_run C (pre @ (VCompleteUnlock c, clk) # take n post) v0) = VOpen sid g i key)
     \<and> (t = clk 1 \<or> (\<exists>operation clk'. (VPrivileged sid operation, clk') \<in> set post \<and> t = clk' 1))
     \<and> checked_add t (vp_idle_timeout (sv_policy v0)) = Some idle)"

lemma opened_by_step:
  assumes o: "opened_by C v0 ops sid g idle key"
    and s: "sv_state (vault_run C (ops @ [x]) v0) = VOpen sid g idle' key"
    and i: "idle' = idle \<or> (\<exists>operation clk. x = (VPrivileged sid operation, clk)
             \<and> checked_add (clk 1) (vp_idle_timeout (sv_policy v0)) = Some idle')"
  shows "opened_by C v0 (ops @ [x]) sid g idle' key"
proof -
  obtain pre c clk post caps t where ops: "ops = pre @ (VCompleteUnlock c, clk) # post"
    and c: "fst (complete_unlock (vault_run C pre v0) c clk) = Ok ()"
      "uc_vault_instance c = sv_instance v0" "uc_session_id c = sid" "uc_generation c = g"
      "uc_outcome c = Ready caps key" "supports caps (vp_minimum_protection (sv_policy v0))"
    and op: "\<forall>n \<le> length post. \<exists>i.
          sv_state (vault_run C (pre @ (VCompleteUnlock c, clk) # take n post) v0) = VOpen sid g i key"
    and t: "t = clk 1 \<or> (\<exists>operation clk'. (VPrivileged sid operation, clk') \<in> set post \<and> t = clk' 1)"
      "checked_add t (vp_idle_timeout (sv_policy v0)) = Some idle"
    using o unfolding opened_by_def by (elim exE conjE) (rule that)
  have op': "\<exists>i. sv_state (vault_run C (pre @ (VCompleteUnlock c, clk) # take n (post @ [x])) v0)
      = VOpen sid g i key" if "n \<le> length (post @ [x])" for n
    using op that s ops by (cases "n \<le> length post") (auto simp: le_Suc_eq)
  obtain t' where "t' = clk 1 \<or>
      (\<exists>operation clk'. (VPrivileged sid operation, clk') \<in> set (post @ [x]) \<and> t' = clk' 1)"
    "checked_add t' (vp_idle_timeout (sv_policy v0)) = Some idle'"
    using i t by auto
  moreover have "ops @ [x] = pre @ (VCompleteUnlock c, clk) # (post @ [x])" by (simp add: ops)
  ultimately show ?thesis unfolding opened_by_def using c op' by blast
qed

lemma opened_by_completion:
  assumes "fst (complete_unlock (vault_run C ops v0) c clk) = Ok ()"
    "uc_vault_instance c = sv_instance v0" "uc_outcome c = Ready caps key"
    "supports caps (vp_minimum_protection (sv_policy v0))"
    "sv_state (vault_run C (ops @ [(VCompleteUnlock c, clk)]) v0)
       = VOpen (uc_session_id c) (uc_generation c) idle key"
    "checked_add (clk 1) (vp_idle_timeout (sv_policy v0)) = Some idle"
  shows "opened_by C v0 (ops @ [(VCompleteUnlock c, clk)]) (uc_session_id c) (uc_generation c) idle key"
  unfolding opened_by_def
  using assms
  by (intro exI [of _ ops] exI [of _ c] exI [of _ clk] exI [of _ "[]"] exI [of _ caps] exI [of _ "clk 1"])
    auto

lemma open_was_opened:
  assumes "sv_state v0 = VSealed"
  shows "sv_state (vault_run C ops v0) = VOpen sid g idle key \<Longrightarrow> opened_by C v0 ops sid g idle key"
proof (induction ops arbitrary: sid g idle key rule: rev_induct)
  case Nil
  then show ?case using assms by simp
next
  case (snoc x ops)
  let ?v = "vault_run C ops v0"
  note fixed = vault_run_fixed [of C ops v0]
  note keep = opened_by_step [OF snoc.IH snoc.prems]
  have same: ?case if "sv_state ?v = VOpen sid g idle key" using keep [OF that] by simp
  from vault_apply_step [of C x ?v] snoc.prems show ?case
  proof (cases rule: vault_step.cases)
    case unchanged
    then show ?thesis using same snoc.prems by simp
  next
    case (polled op clk)
    then show ?thesis using same snoc.prems poll_open(1) [of ?v "clk 0"] by simp
  next
    case (generation_spent clk g' sid')
    then show ?thesis using snoc.prems by (simp del: poll_fields)
  next
    case (opened sid' g' expires c clk caps key' idle')
    then have "sid' = sid \<and> g' = g \<and> key' = key \<and> idle' = idle" using snoc.prems by simp
    then show ?thesis
      using opened opened_by_completion [of C ops v0 c clk caps key idle] snoc.prems fixed by simp
  next
    case (refreshed clk sid' g' idle0 key' idle' operation)
    then have eq: "sid' = sid \<and> g' = g \<and> key' = key \<and> idle' = idle" using snoc.prems by simp
    have "sv_state (poll_vault ?v (clk 0)) = VOpen sid g idle0 key" using refreshed(3) eq by simp
    then have open_before: "sv_state ?v = VOpen sid g idle0 key" by (rule poll_open(1))
    have "x = (VPrivileged sid operation, clk)"
      "checked_add (clk 1) (vp_idle_timeout (sv_policy v0)) = Some idle"
      using refreshed eq fixed by simp_all
    then show ?thesis by (intro keep [OF open_before] disjI2 exI conjI)
  next
    case (appended w clk bs envelope g')
    then show ?thesis using same snoc.prems poll_open(1) [of ?v "clk 0"] by simp
  next
    case (imported w clk p idle' key' r)
    then show ?thesis
      using same snoc.prems poll_open(1) [of ?v "clk 0"]
      by (simp add: same_but_inboxD [OF remove_inbox_same])
  qed (use snoc.prems in \<open>simp_all add: seal_def\<close>)
qed

lemma perform_privileged_ok:
  assumes "perform_privileged v sid operation clk = (Ok (), v')"
  obtains g idle key where "sv_state v = VOpen sid g idle key" "clk 0 < idle"
proof -
  have "\<exists>g idle key. sv_state (poll_vault v (clk 0)) = VOpen sid g idle key"
    using assms
    by (cases "sv_state (poll_vault v (clk 0))")
      (auto simp: perform_privileged_def Let_def simp del: poll_fields split: if_splits)
  then obtain g idle key where "sv_state (poll_vault v (clk 0)) = VOpen sid g idle key" by blast
  from poll_open [OF this] show thesis by (rule that)
qed

lemma vault_inv_record:
  "vault_inv C v \<Longrightarrow> bt_get (sv_inbox v) k = Some r \<Longrightarrow> record_wf C (sv_next_inbox_generation v) k r"
  by (simp add: vault_inv_def inbox_wf_def)

lemma vault_inv_sorted: "vault_inv C v \<Longrightarrow> bt_wf (sv_inbox v)"
  by (simp add: vault_inv_def inbox_wf_def inbox_accounted_def)

lemma begin_opaque_import_ok:
  assumes "begin_opaque_import C v sid clk = (Ok (Some p), v1)"
  shows "v1 = poll_vault v (clk 0)
    \<and> (\<exists>g idle key. sv_state v = VOpen sid g idle key \<and> clk 0 < idle)
    \<and> (\<exists>r rest. sv_inbox v1 = (po_envelope_id p, r) # rest
         \<and> ir_insertion_generation r = po_insertion_generation p
         \<and> OpaqueEnvelope_decode_canonical C (ir_encoded r) = Ok (po_envelope p))"
proof -
  define w where "w = poll_vault v (clk 0)"
  have "\<exists>g idle key. sv_state w = VOpen sid g idle key"
    using assms
    by (cases "sv_state w") (auto simp: begin_opaque_import_def w_def [symmetric] split: if_splits)
  then obtain g idle key where s: "sv_state w = VOpen sid g idle key" by blast
  have "sv_state v = VOpen sid g idle key" "clk 0 < idle"
    using poll_open [of v "clk 0" sid g idle key] s unfolding w_def by blast+
  moreover have "v1 = w \<and> (\<exists>r rest. sv_inbox v1 = (po_envelope_id p, r) # rest
         \<and> ir_insertion_generation r = po_insertion_generation p
         \<and> OpaqueEnvelope_decode_canonical C (ir_encoded r) = Ok (po_envelope p))"
    using assms
    by (auto simp: begin_opaque_import_def w_def [symmetric] s split: if_splits list.splits sum.splits)
  ultimately show ?thesis unfolding w_def by blast
qed

lemma complete_opaque_import_ok:
  assumes "complete_opaque_import v p clk = (Ok (), v')" "bt_wf (sv_inbox v)"
  shows "(\<exists>r. bt_get (sv_inbox v) (po_envelope_id p) = Some r
      \<and> ir_insertion_generation r = po_insertion_generation p)
    \<and> bt_get (sv_inbox v') (po_envelope_id p) = None"
proof -
  define w where "w = poll_vault v (clk 0)"
  have "\<exists>sid g idle key. sv_state w = VOpen sid g idle key"
    using assms(1)
    by (cases "sv_state w") (auto simp: complete_opaque_import_def w_def [symmetric])
  then obtain sid g idle key where s: "sv_state w = VOpen sid g idle key" by blast
  have "(\<exists>r. bt_get (sv_inbox w) (po_envelope_id p) = Some r
      \<and> ir_insertion_generation r = po_insertion_generation p)
    \<and> bt_get (sv_inbox v') (po_envelope_id p) = None"
    using assms(1)
    by (auto simp: complete_opaque_import_def w_def [symmetric] s bt_get_remove
        split: if_splits option.splits)
  then show ?thesis
    using poll_get [OF assms(2)] by (auto simp: w_def split: option.splits if_splits)
qed

section \<open>The work limiter\<close>

definition holders :: "limiter_thread list \<Rightarrow> nat" where
  "holders ts = length (filter (\<lambda>t. t = Holding) ts)"

lemma holders_update:
  "i < length ts \<Longrightarrow> holders (ts[i := t]) =
     (if t = Holding then 1 else 0) + holders ts - (if ts ! i = Holding then 1 else 0)"
proof (induction ts arbitrary: i)
  case (Cons x ts)
  have pos: "ts ! j = Holding \<Longrightarrow> j < length ts \<Longrightarrow> 0 < holders ts" for j
    using nth_mem [of j ts] by (auto simp: holders_def filter_empty_conv)
  show ?case
    using Cons pos by (cases i) (fastforce simp: holders_def)+
qed simp

lemma limiter_step_inv:
  "limiter_step s s' \<Longrightarrow> wl_in_flight (fst s) = holders (snd s) \<Longrightarrow>
     wl_in_flight (fst s) \<le> wl_maximum_concurrent (fst s) \<Longrightarrow>
     wl_in_flight (fst s') = holders (snd s')
     \<and> wl_in_flight (fst s') \<le> wl_maximum_concurrent (fst s')
     \<and> wl_maximum_concurrent (fst s') = wl_maximum_concurrent (fst s)"
  by (induction rule: limiter_step.induct) (auto simp: holders_update)

lemma limiter_steps_inv:
  "limiter_step\<^sup>*\<^sup>* s s' \<Longrightarrow> wl_in_flight (fst s) = holders (snd s) \<Longrightarrow>
     wl_in_flight (fst s) \<le> wl_maximum_concurrent (fst s) \<Longrightarrow>
     wl_in_flight (fst s') = holders (snd s')
     \<and> wl_in_flight (fst s') \<le> wl_maximum_concurrent (fst s')
     \<and> wl_maximum_concurrent (fst s') = wl_maximum_concurrent (fst s)"
  by (induction rule: rtranclp_induct) (auto dest: limiter_step_inv)

section \<open>A concrete vault\<close>

definition ex_session :: ident where "ex_session = replicate 32 21"

definition ex_vault_policy :: vault_policy where
  "ex_vault_policy = \<lparr> vp_unlock_timeout = 60, vp_idle_timeout = 300,
     vp_minimum_protection = LevelDeviceBound \<rparr>"

definition ex_inbox_policy :: opaque_inbox_policy where
  "ex_inbox_policy = \<lparr> ip_maximum_lifetime = 1000, ip_maximum_envelopes = 4,
     ip_maximum_total_encoded_bytes = 200000 \<rparr>"

definition ex_caps :: protector_capabilities where
  "ex_caps = \<lparr> pc_key_storage = KeySecureHardware, pc_device_binding = BindingThisDeviceOnly,
     pc_user_presence = PresenceFreshPrompt, pc_backup_exposure = BackupExcluded \<rparr>"

definition ex_completion :: "unlock_outcome \<Rightarrow> unlock_completion" where
  "ex_completion outcome = \<lparr> uc_vault_instance = 7, uc_session_id = ex_session, uc_generation = 1,
     uc_outcome = outcome \<rparr>"

definition ex_vault_at :: "u64 \<Rightarrow> lifecycle_state \<Rightarrow> bool \<Rightarrow> session_vault" where
  "ex_vault_at active s held = \<lparr> sv_instance = 7, sv_active_unlock_generation = active,
     sv_policy = ex_vault_policy, sv_inbox_policy = ex_inbox_policy, sv_next_generation = 1,
     sv_next_inbox_generation = (if held then 1 else 0), sv_state = s,
     sv_inbox = (if held then [(replicate 16 7, \<lparr> ir_encoded = ex_welcome, ir_expires_at = 200,
       ir_insertion_generation = 1 \<rparr>)] else []),
     sv_inbox_total = (if held then length ex_welcome else 0) \<rparr>"

definition ex_attempt :: unlock_attempt where
  "ex_attempt = \<lparr> ua_vault_instance = 7, ua_session_id = ex_session, ua_generation = 1,
     ua_minimum_protection = LevelDeviceBound \<rparr>"

definition ex_key :: bytes where "ex_key = replicate 32 5"

lemmas ex_vault_defs = ex_vault_at_def ex_vault_policy_def ex_inbox_policy_def

lemmas vault_eval = poll_vault_def prune_expired_inbox_def lifecycle_expired_def seal_def
  checked_add_def Let_def

lemma ex_begin:
  "begin_unlock (SessionVaultModel_new 7 ex_vault_policy ex_inbox_policy) ex_session (\<lambda>_. 100)
     = (Ok ex_attempt, ex_vault_at 1 (VUnlocking ex_session 1 160) False)"
  by (simp add: begin_unlock_def SessionVaultModel_new_def next_transition_generation_def
      ex_attempt_def ex_vault_defs vault_eval)

lemma ex_complete:
  "complete_unlock (ex_vault_at 1 (VUnlocking ex_session 1 160) False)
     (ex_completion (Ready ex_caps ex_key)) (\<lambda>_. 110)
     = (Ok (), ex_vault_at 0 (VOpen ex_session 1 410 ex_key) False)"
  by (simp add: complete_unlock_def ex_completion_def ex_caps_def device_bound_def ex_vault_defs
      vault_eval)

lemma ex_privileged:
  "perform_privileged (ex_vault_at 0 (VOpen ex_session 1 410 ex_key) False) ex_session Decrypt (\<lambda>_. 130)
     = (Ok (), ex_vault_at 0 (VOpen ex_session 1 430 ex_key) False)"
  by (simp add: perform_privileged_def ex_vault_defs vault_eval)

lemma ex_append:
  "append_opaque rfc_cbor (ex_vault_at 0 (VOpen ex_session 1 410 ex_key) False) ex_welcome (\<lambda>_. 120)
     = (Ok InboxStored, ex_vault_at 0 (VOpen ex_session 1 410 ex_key) True)"
proof -
  have "ex_welcome \<noteq> []" "length ex_welcome < 2 ^ 64" "length ex_welcome \<le> 200000"
    "length ex_welcome \<le> MAX_ENCODED_OPAQUE_ENVELOPE_BYTES"
    using ex_welcome_ok(2,3)
    by (auto simp: MAX_ENCODED_OPAQUE_ENVELOPE_BYTES_def MAX_ENVELOPE_CIPHERTEXT_BYTES_def)
  then show ?thesis
    by (simp add: append_opaque_def store_opaque_def ex_welcome_ok(1) ex_vault_defs vault_eval
        ex_envelope_def all_zero_replicate checked_sub_def bt_get_def not_le)
qed

lemma ex_begin_import:
  "begin_opaque_import rfc_cbor (ex_vault_at 0 (VOpen ex_session 1 410 ex_key) True) ex_session (\<lambda>_. 130)
     = (Ok (Some \<lparr> po_vault_instance = 7, po_session_id = ex_session, po_open_generation = 1,
          po_envelope_id = replicate 16 7, po_insertion_generation = 1, po_envelope = ex_envelope \<rparr>),
        ex_vault_at 0 (VOpen ex_session 1 410 ex_key) True)"
  by (simp add: begin_opaque_import_def ex_vault_defs vault_eval ex_welcome_ok(1))

definition ex_vault_ops :: "(vault_op \<times> (nat \<Rightarrow> u64)) list" where
  "ex_vault_ops = [(VBeginUnlock ex_session, \<lambda>_. 100),
     (VCompleteUnlock (ex_completion (Ready ex_caps ex_key)), \<lambda>_. 110)]"

lemma ex_vault_opened:
  "vault_run C ex_vault_ops (SessionVaultModel_new 7 ex_vault_policy ex_inbox_policy)
     = ex_vault_at 0 (VOpen ex_session 1 410 ex_key) False"
  by (simp add: ex_vault_ops_def ex_begin ex_complete)

section \<open>Properties\<close>

text \<open>
  C6: privileged work runs only under an unlock that met the policy. If \<open>perform_privileged\<close> invokes
  its callback for a session after any sequence of operations on a new vault, then an unlock of
  exactly that session, on this vault, completed earlier with a key from a protector that satisfies
  the policy's minimum protection; the vault has been open under that unlock and that key ever since,
  through every operation in between; and the call comes less than the idle timeout after the
  unlock or after some privileged call for the same session.
\<close>

theorem privileged_work_is_authorised:
  assumes "v0 = SessionVaultModel_new inst policy inbox_policy"
    and "perform_privileged (vault_run C ops v0) sid operation clk = (Ok (), v')"
  shows "\<exists>pre c clk' post caps key t.
    ops = pre @ (VCompleteUnlock c, clk') # post
    \<and> fst (complete_unlock (vault_run C pre v0) c clk') = Ok ()
    \<and> uc_vault_instance c = inst \<and> uc_session_id c = sid
    \<and> uc_outcome c = Ready caps key \<and> supports caps (vp_minimum_protection policy)
    \<and> (\<forall>n \<le> length post. \<exists>idle.
         sv_state (vault_run C (pre @ (VCompleteUnlock c, clk') # take n post) v0)
           = VOpen sid (uc_generation c) idle key)
    \<and> (t = clk' 1 \<or> (\<exists>operation' clk''. (VPrivileged sid operation', clk'') \<in> set post \<and> t = clk'' 1))
    \<and> unat (clk 0) < unat t + unat (vp_idle_timeout policy)"
proof -
  obtain g idle key where s: "sv_state (vault_run C ops v0) = VOpen sid g idle key" "clk 0 < idle"
    by (rule perform_privileged_ok [OF assms(2)])
  have sealed: "sv_state v0 = VSealed" by (simp add: assms(1) SessionVaultModel_new_def)
  have v0: "sv_instance v0 = inst" "sv_policy v0 = policy"
    by (simp_all add: assms(1) SessionVaultModel_new_def)
  have bound: "unat (clk 0) < unat t + unat (vp_idle_timeout policy)"
    if "checked_add t (vp_idle_timeout policy) = Some idle" for t
    using checked_add_SomeD [OF that] s(2) by (simp add: word_less_nat_alt)
  from open_was_opened [OF sealed s(1)] show ?thesis
    unfolding opened_by_def v0 by (elim exE conjE) (use bound in blast)
qed

theorem privileged_work_is_authorised_witness:
  "\<exists>pre c clk' post caps key t.
    ex_vault_ops = pre @ (VCompleteUnlock c, clk') # post \<and> uc_outcome c = Ready caps key
    \<and> supports caps LevelDeviceBound
    \<and> (t = clk' 1 \<or> (\<exists>operation' clk''. (VPrivileged ex_session operation', clk'') \<in> set post \<and> t = clk'' 1))
    \<and> unat (130 :: u64) < unat t + 300"
proof -
  have "perform_privileged (vault_run rfc_cbor ex_vault_ops
      (SessionVaultModel_new 7 ex_vault_policy ex_inbox_policy)) ex_session Decrypt (\<lambda>_. 130)
    = (Ok (), ex_vault_at 0 (VOpen ex_session 1 430 ex_key) False)"
    by (simp add: ex_vault_opened ex_privileged)
  moreover have "vp_minimum_protection ex_vault_policy = LevelDeviceBound"
    "unat (vp_idle_timeout ex_vault_policy) = 300" by (simp_all add: ex_vault_policy_def)
  ultimately show ?thesis using privileged_work_is_authorised [OF refl] by metis
qed

text \<open>
  C7: an unlock attempt that has ended stays ended. Once the attempt returned by \<open>begin_unlock\<close> has been
  overtaken by a lock event, or has been completed once with whatever result, no later operation
  makes its generation current again: every further completion carrying it is refused with a
  reservation mismatch and changes nothing, and the attempt's own check before it asks the
  protector for the key sees that it is stale.
\<close>

theorem ended_unlock_is_fenced:
  assumes "v = vault_run C ops (SessionVaultModel_new inst policy inbox_policy)"
    and "begin_unlock v sid clk = (Ok a, v1)"
    and "v2 = vault_run C ops1 v1"
    and "v3 = force_lock v2 event \<or> (\<exists>outcome clk'. v3 = snd (complete_unlock v2
           \<lparr> uc_vault_instance = ua_vault_instance a, uc_session_id = ua_session_id a,
             uc_generation = ua_generation a, uc_outcome = outcome \<rparr> clk'))"
    and "v4 = vault_run C ops2 v3" and "uc_generation c = ua_generation a"
  shows "complete_unlock v4 c clk4 = (Err VaultReservationMismatch, v4)
    \<and> \<not> is_current a (sv_active_unlock_generation v4)"
proof -
  note b = begin_unlock_ok [OF assms(2)]
  have "vault_inv C v" unfolding assms(1) by (rule vault_run_inv [OF new_vault_inv])
  then have "vault_inv C v1" using vault_apply_inv [of C v "(VBeginUnlock sid, clk)"] assms(2) by simp
  then have inv2: "vault_inv C v2" unfolding assms(3) by (rule vault_run_inv)
  have next2: "ua_generation a \<le> sv_next_generation v2"
    unfolding assms(3) using b(2) vault_run_next_generation order_trans by blast
  have for2: "unlocks_for (ua_generation a) sid v2"
    unfolding assms(3) by (rule vault_run_unlocks_for [OF b(6)])
  have inst2: "sv_instance v2 = ua_vault_instance a" using b(4) by (simp add: assms(3) vault_run_fixed)
  have v3: "generation_dead (ua_generation a) v3 \<and> vault_inv C v3"
    using assms(4)
  proof (elim disjE exE)
    assume "v3 = force_lock v2 event"
    then show ?thesis
      using generation_dead_seal [OF b(1) next2] vault_apply_inv [OF inv2, of "(VForceLock event, clk)"]
      by (simp add: force_lock_def)
  next
    fix outcome clk'
    let ?c = "\<lparr> uc_vault_instance = ua_vault_instance a, uc_session_id = ua_session_id a,
             uc_generation = ua_generation a, uc_outcome = outcome \<rparr>"
    assume "v3 = snd (complete_unlock v2 ?c clk')"
    then show ?thesis
      using complete_unlock_kills [of ?c v2 clk'] b(1,3) next2 for2 inst2
        vault_apply_inv [OF inv2, of "(VCompleteUnlock ?c, clk')"] by (simp add: unlocks_for_def)
  qed
  then have "generation_dead (ua_generation a) v4" "lifecycle_wf v4"
    using vault_run_dead vault_run_inv [of C v3 ops2] by (auto simp: assms(5) vault_inv_def)
  then show ?thesis using dead_completion_refused [of c v4] dead_not_current assms(6) by simp
qed

theorem ended_unlock_is_fenced_witness:
  "complete_unlock (force_lock (ex_vault_at 1 (VUnlocking ex_session 1 160) False) ScreenLocked)
     (ex_completion (Ready ex_caps ex_key)) (\<lambda>_. 110)
   = (Err VaultReservationMismatch,
      force_lock (ex_vault_at 1 (VUnlocking ex_session 1 160) False) ScreenLocked)"
  using ended_unlock_is_fenced [of _ rfc_cbor "[]" 7 ex_vault_policy ex_inbox_policy ex_session "\<lambda>_. 100"
      ex_attempt "ex_vault_at 1 (VUnlocking ex_session 1 160) False"
      "ex_vault_at 1 (VUnlocking ex_session 1 160) False" "[]"
      "force_lock (ex_vault_at 1 (VUnlocking ex_session 1 160) False) ScreenLocked" ScreenLocked
      "force_lock (ex_vault_at 1 (VUnlocking ex_session 1 160) False) ScreenLocked" "[]"
      "ex_completion (Ready ex_caps ex_key)" "\<lambda>_. 110"]
  by (simp add: ex_begin ex_completion_def ex_attempt_def)

text \<open>
  C31: the opaque inbox keeps what it accepts. After \<open>append_opaque\<close> answers \<open>Stored\<close> or
  \<open>AlreadyStored\<close>, the exact bytes stay retained under the envelope's identifier through every
  operation and every lifecycle state, until a clock reading reaches the envelope's expiry or an
  import of that envelope is completed; a \<open>complete_opaque_import\<close> that names it and is refused does not
  remove it.
\<close>

theorem accepted_envelope_is_kept:
  assumes "v = vault_run C ops0 (SessionVaultModel_new inst policy inbox_policy)"
    and "append_opaque C v bs clk = (Ok outcome, v')"
    and "OpaqueEnvelope_decode_canonical C bs = Ok e"
    and "\<forall>(op, clk') \<in> set ops. clk' 0 < env_expires_at e" and "never_imported C (envelope_id e) ops v'"
  shows "\<exists>r. bt_get (sv_inbox (vault_run C ops v')) (envelope_id e) = Some r \<and> ir_encoded r = bs
    \<and> ir_expires_at r = env_expires_at e"
proof -
  have inv: "vault_inv C v" unfolding assms(1) by (rule vault_run_inv [OF new_vault_inv])
  then have inv': "vault_inv C v'" using vault_apply_inv [of C v "(VAppend bs, clk)"] assms(2) by simp
  have "\<exists>r. bt_get (sv_inbox v') (envelope_id e) = Some r \<and> ir_encoded r = bs"
    using append_opaque_cases [of "poll_vault v (clk 0)" v clk C bs]
      store_opaque_cases [of "poll_vault v (clk 0)" bs e] assms(2,3)
    by (elim disjE exE conjE) (auto simp: bt_get_insert)
  then obtain r where r: "bt_get (sv_inbox v') (envelope_id e) = Some r" "ir_encoded r = bs" by blast
  with inv' assms(3) have expires: "ir_expires_at r = env_expires_at e"
    using vault_inv_record [OF inv' r(1)] by (auto simp: record_wf_def)
  have "bt_get (sv_inbox (vault_run C ops v')) (envelope_id e) = Some r"
    using assms(4,5) expires by (intro vault_run_keeps_record [OF inv' r(1)]) auto
  then show ?thesis using r(2) expires by blast
qed

definition ex_import :: pending_opaque_import where
  "ex_import = \<lparr> po_vault_instance = 7, po_session_id = ex_session, po_open_generation = 1,
     po_envelope_id = replicate 16 7, po_insertion_generation = 1, po_envelope = ex_envelope \<rparr>"

lemma ex_refused_import:
  "fst (complete_opaque_import (force_lock (ex_vault_at 0 (VOpen ex_session 1 410 ex_key) True) Sleep) ex_import clk)
     = Inl VaultReservationMismatch"
proof -
  have "sv_state (poll_vault (force_lock v e) now) = VSealed" for v e now
    using poll_state [of "force_lock v e" now] by (auto simp: force_lock_def seal_def)
  then show ?thesis by (simp add: complete_opaque_import_def Let_def)
qed

theorem accepted_envelope_is_kept_witness:
  "\<exists>r. bt_get (sv_inbox (vault_run rfc_cbor [(VForceLock Sleep, \<lambda>_. 130), (VCompleteImport ex_import, \<lambda>_. 140), (VPoll, \<lambda>_. 199)]
      (ex_vault_at 0 (VOpen ex_session 1 410 ex_key) True))) (replicate 16 7) = Some r
    \<and> ir_encoded r = ex_welcome"
proof -
  have "append_opaque rfc_cbor (vault_run rfc_cbor ex_vault_ops
      (SessionVaultModel_new 7 ex_vault_policy ex_inbox_policy)) ex_welcome (\<lambda>_. 120)
    = (Ok InboxStored, ex_vault_at 0 (VOpen ex_session 1 410 ex_key) True)"
    by (simp add: ex_vault_opened ex_append)
  from accepted_envelope_is_kept [OF refl this ex_welcome_ok(1),
      of "[(VForceLock Sleep, \<lambda>_. 130), (VCompleteImport ex_import, \<lambda>_. 140), (VPoll, \<lambda>_. 199)]"]
  show ?thesis by (auto simp: ex_envelope_def ex_refused_import)
qed

text \<open>
  An import hands out, and its completion removes, exactly what was appended. The envelope
  released by \<open>begin_opaque_import\<close> decodes bytes that an earlier \<open>append_opaque\<close> carried, is released only
  while the vault is open for the named session, and has not expired; if the import is completed
  after any further operations, the record it removes still holds those bytes.
\<close>

theorem import_is_exact:
  assumes "v = vault_run C ops (SessionVaultModel_new inst policy inbox_policy)"
    and "begin_opaque_import C v sid clk = (Ok (Some p), v1)"
  shows "\<exists>bs. VAppend bs \<in> fst ` set ops
    \<and> OpaqueEnvelope_decode_canonical C bs = Ok (po_envelope p)
    \<and> envelope_id (po_envelope p) = po_envelope_id p \<and> clk 0 < env_expires_at (po_envelope p)
    \<and> (\<exists>g idle key. sv_state v = VOpen sid g idle key \<and> clk 0 < idle)
    \<and> (\<forall>ops1 clk' v3. complete_opaque_import (vault_run C ops1 v1) p clk' = (Ok (), v3) \<longrightarrow>
         (\<exists>r. bt_get (sv_inbox (vault_run C ops1 v1)) (po_envelope_id p) = Some r \<and> ir_encoded r = bs)
         \<and> bt_get (sv_inbox v3) (po_envelope_id p) = None)"
proof -
  have inv: "vault_inv C v" unfolding assms(1) by (rule vault_run_inv [OF new_vault_inv])
  then have inv1: "vault_inv C v1"
    using vault_apply_inv [of C v "(VBeginImport sid, clk)"] assms(2) by simp
  from begin_opaque_import_ok [OF assms(2)] obtain r rest where v1: "v1 = poll_vault v (clk 0)"
    and open_v: "\<exists>g idle key. sv_state v = VOpen sid g idle key \<and> clk 0 < idle"
    and r: "sv_inbox v1 = (po_envelope_id p, r) # rest"
      "ir_insertion_generation r = po_insertion_generation p"
      "OpaqueEnvelope_decode_canonical C (ir_encoded r) = Ok (po_envelope p)"
    by blast
  from r(1) have get1: "bt_get (sv_inbox v1) (po_envelope_id p) = Some r" by (simp add: bt_get_def)
  then have get: "bt_get (sv_inbox v) (po_envelope_id p) = Some r" "clk 0 < ir_expires_at r"
    using poll_get [OF vault_inv_sorted [OF inv]]
    by (auto simp: v1 not_le split: option.splits if_splits)
  from vault_inv_record [OF inv get(1)] r(3)
  have fields: "envelope_id (po_envelope p) = po_envelope_id p"
    "env_expires_at (po_envelope p) = ir_expires_at r" by (auto simp: record_wf_def)
  have "VAppend (ir_encoded r) \<in> fst ` set ops"
    using vault_run_appended [OF new_vault_inv, of C ops inst policy inbox_policy] get(1)
    by (auto simp: assms(1) SessionVaultModel_new_def bt_get_empty)
  have named: "record_named (po_envelope_id p) r v1"
    using get1 vault_inv_record [OF inv1 get1] by (simp add: record_named_def record_wf_def)
  have removed: "(\<exists>r'. bt_get (sv_inbox (vault_run C ops1 v1)) (po_envelope_id p) = Some r'
        \<and> ir_encoded r' = ir_encoded r) \<and> bt_get (sv_inbox v3) (po_envelope_id p) = None"
    if done3: "complete_opaque_import (vault_run C ops1 v1) p clk' = (Ok (), v3)" for ops1 clk' v3
    using complete_opaque_import_ok [OF done3 vault_inv_sorted [OF vault_run_inv [OF inv1]]]
      vault_run_record_named [OF inv1 named, of ops1] r(2) by (auto simp: record_named_def)
  show ?thesis
    using \<open>VAppend (ir_encoded r) \<in> fst ` set ops\<close> r(3) fields get(2) open_v removed
    by (intro exI [of _ "ir_encoded r"]) auto
qed

theorem import_is_exact_witness:
  "\<exists>bs. VAppend bs \<in> fst ` set (ex_vault_ops @ [(VAppend ex_welcome, \<lambda>_. 120)])
    \<and> OpaqueEnvelope_decode_canonical rfc_cbor bs = Ok ex_envelope"
proof -
  have "begin_opaque_import rfc_cbor (vault_run rfc_cbor (ex_vault_ops @ [(VAppend ex_welcome, \<lambda>_. 120)])
      (SessionVaultModel_new 7 ex_vault_policy ex_inbox_policy)) ex_session (\<lambda>_. 130)
    = (Ok (Some \<lparr> po_vault_instance = 7, po_session_id = ex_session, po_open_generation = 1,
          po_envelope_id = replicate 16 7, po_insertion_generation = 1, po_envelope = ex_envelope \<rparr>),
        ex_vault_at 0 (VOpen ex_session 1 410 ex_key) True)"
    by (simp add: ex_vault_opened ex_append ex_begin_import)
  from import_is_exact [OF refl this] show ?thesis by (elim exE conjE) (metis pending_opaque_import.select_convs(6))
qed

text \<open>
  C32: the inbox stays within its configured bounds and its byte counter is exact. After any sequence
  of operations on a new vault, the number of retained envelopes and their total encoded size are
  within the policy, and the counter the checks use is the sum of the retained encodings, so that
  no sequence of appends, expiries and imports makes it drift or underflow.
\<close>

theorem inbox_is_bounded:
  "let v = vault_run C ops (SessionVaultModel_new inst policy inbox_policy) in
    inbox_count v \<le> ip_maximum_envelopes inbox_policy
    \<and> sv_inbox_total v = sum_list (map (\<lambda>(_, r). length (ir_encoded r)) (sv_inbox v))
    \<and> sv_inbox_total v \<le> ip_maximum_total_encoded_bytes inbox_policy
    \<and> distinct (map fst (sv_inbox v))"
proof -
  define v where "v = vault_run C ops (SessionVaultModel_new inst policy inbox_policy)"
  have "vault_inv C v" unfolding v_def by (rule vault_run_inv [OF new_vault_inv])
  moreover have "sv_inbox_policy v = inbox_policy"
    by (simp add: v_def vault_run_fixed SessionVaultModel_new_def)
  ultimately show ?thesis
    unfolding v_def [symmetric] Let_def
    by (simp add: vault_inv_def inbox_wf_def inbox_accounted_def inbox_bytes_def inbox_count_def
        bt_wf_distinct)
qed

text \<open>
  C36: concurrent unlock work never exceeds its bound. However the loads, compare-exchanges and permit
  drops of any number of threads interleave on one limiter, the counter equals the number of
  permits held and is at most \<open>maximum_concurrent\<close>, so a drop never underflows it.
\<close>

theorem unlock_work_is_bounded:
  assumes "UnlockWorkLimiter_new maximum = Ok l"
    and "limiter_step\<^sup>*\<^sup>* (l, replicate n Outside) (l', ts)"
  shows "wl_in_flight l' = length (filter (\<lambda>t. t = Holding) ts) \<and> wl_in_flight l' \<le> maximum"
proof -
  have l: "wl_maximum_concurrent l = maximum" "wl_in_flight l = 0"
    using assms(1) by (auto simp: UnlockWorkLimiter_new_def split: if_splits)
  moreover have "holders (replicate n Outside) = 0" by (simp add: holders_def)
  ultimately show ?thesis using limiter_steps_inv [OF assms(2)] by (simp add: holders_def)
qed

theorem unlock_work_is_bounded_witness:
  "limiter_step\<^sup>*\<^sup>* (\<lparr> wl_maximum_concurrent = 1, wl_in_flight = 0 \<rparr>, replicate 2 Outside)
      (\<lparr> wl_maximum_concurrent = 1, wl_in_flight = 1 \<rparr>, [Holding, Reserving 0])
    \<and> wl_in_flight \<lparr> wl_maximum_concurrent = 1, wl_in_flight = 1 \<rparr> \<le> 1"
proof -
  let ?l = "\<lparr> wl_maximum_concurrent = 1, wl_in_flight = 0 \<rparr>"
  have s1: "limiter_step (?l, [Outside, Outside]) (?l, [Reserving 0, Outside])"
    using load [of 0 "[Outside, Outside]" ?l] by simp
  have s2: "limiter_step (?l, [Reserving 0, Outside]) (?l, [Reserving 0, Reserving 0])"
    using load [of 1 "[Reserving 0, Outside]" ?l] by simp
  have s3: "limiter_step (?l, [Reserving 0, Reserving 0])
      (\<lparr> wl_maximum_concurrent = 1, wl_in_flight = 1 \<rparr>, [Holding, Reserving 0])"
    using exchange [of 0 "[Reserving 0, Reserving 0]" 0 ?l] by simp
  have run: "limiter_step\<^sup>*\<^sup>* (?l, replicate 2 Outside)
      (\<lparr> wl_maximum_concurrent = 1, wl_in_flight = 1 \<rparr>, [Holding, Reserving 0])"
    using converse_rtranclp_into_rtranclp [of limiter_step, OF s1
        converse_rtranclp_into_rtranclp [of limiter_step, OF s2 r_into_rtranclp [of limiter_step, OF s3]]]
    by (simp add: numeral_2_eq_2)
  then show ?thesis
    using unlock_work_is_bounded [of 1 ?l 2] by (simp add: UnlockWorkLimiter_new_def)
qed
end
