(* ===== verification/Hpke_Join.thy ===== *)
theory Hpke_Join
  imports Registry
begin

text \<open>
  Protection of join requests with the invitation capability as an HPKE pre-shared key, from
  \<open>crates/session-crypto-hpke/src/lib.rs\<close>: generating and restoring an invitation context, and sealing
  and opening a request. RFC 9180 HPKE, X25519 and the random source are the parameter record \<open>hpke\<close>;
  what is relied on is stated as \<open>hpke_opens\<close> (the receiver context set up with the matching key and
  the same inputs opens what the sender context sealed).
\<close>

section \<open>The HPKE provider\<close>

text \<open>
  \<open>'s\<close> and \<open>'r\<close> are the sender and receiver contexts, \<open>'g\<close> the state of the random source and \<open>'sk\<close> an
  Ed25519 signing key. \<open>hp_available\<close> says whether the provider has the cipher suite.
\<close>

record ('s, 'r, 'g, 'sk) hpke =
  hp_available :: bool
  hp_random_bytes :: "usize \<Rightarrow> 'g \<Rightarrow> bytes option \<times> 'g"
  hp_generate :: "'g \<Rightarrow> (bytes \<times> bytes) option \<times> 'g"
  hp_public_key_validate :: "bytes \<Rightarrow> bool"
  hp_setup_sender :: "bytes \<Rightarrow> bytes \<Rightarrow> bytes \<Rightarrow> bytes \<Rightarrow> 'g \<Rightarrow> (bytes \<times> 's) option \<times> 'g"
  hp_seal :: "'s \<Rightarrow> bytes \<Rightarrow> bytes \<Rightarrow> bytes option"
  hp_setup_receiver :: "bytes \<Rightarrow> bytes \<Rightarrow> bytes \<Rightarrow> bytes \<Rightarrow> bytes \<Rightarrow> bytes \<Rightarrow> 'r option"
  hp_open :: "'r \<Rightarrow> bytes \<Rightarrow> bytes \<Rightarrow> bytes option"
  hp_x25519_public :: "bytes \<Rightarrow> bytes option"
  hp_signing_key :: "bytes \<Rightarrow> 'sk"

definition hpke_opens :: "('s, 'r, 'g, 'sk) hpke \<Rightarrow> bytes \<Rightarrow> bytes \<Rightarrow> bool" where
  "hpke_opens H secret public \<longleftrightarrow>
     (\<forall>info psk_id psk g g' enc sender aad plaintext ciphertext.
        hp_setup_sender H public info psk_id psk g = (Some (enc, sender), g')
        \<and> hp_seal H sender aad plaintext = Some ciphertext \<longrightarrow>
        (\<exists>receiver. hp_setup_receiver H enc secret public info psk_id psk = Some receiver
          \<and> hp_open H receiver aad ciphertext = Some plaintext))"

section \<open>Errors and keys\<close>

datatype join_protection_error = JoinInputTooLarge | JoinRejected

fun protocol_error :: "wire_error \<Rightarrow> join_protection_error" where
  "protocol_error (WireObjectTooLarge _ _) = JoinInputTooLarge"
| "protocol_error (KeyPackageTooLarge _ _) = JoinInputTooLarge"
| "protocol_error (ProtectedJoinCiphertextTooLarge _ _) = JoinInputTooLarge"
| "protocol_error _ = JoinRejected"

definition HPKE_KEY_BYTES :: usize where "HPKE_KEY_BYTES = 32"

definition PSK_ID_DOMAIN :: bytes where
  "PSK_ID_DOMAIN = ascii_bytes ''session-chat/invitation-capability-psk/v1'' @ [0]"

definition INFO_DOMAIN :: bytes where
  "INFO_DOMAIN = ascii_bytes ''session-chat/join-request-hpke/v1'' @ [0]"

definition InvitationHpkePrivateKey_from_bytes :: "bytes \<Rightarrow> join_protection_error + bytes" where
  "InvitationHpkePrivateKey_from_bytes bs = (if all_zero bs then Err JoinRejected else Ok bs)"

text \<open>A key loaded from protected storage is the checked key.\<close>

definition StoredInvitationHpkePrivateKey_from_bytes :: "bytes \<Rightarrow> join_protection_error + bytes" where
  "StoredInvitationHpkePrivateKey_from_bytes bs = InvitationHpkePrivateKey_from_bytes bs"

definition fixed_key :: "bytes \<Rightarrow> join_protection_error + bytes" where
  "fixed_key bs = (if length bs = HPKE_KEY_BYTES then Ok bs else Err JoinRejected)"

definition x25519_public_key ::
    "('s, 'r, 'g, 'sk) hpke \<Rightarrow> bytes \<Rightarrow> join_protection_error + bytes" where
  "x25519_public_key H secret =
     and_then (ok_or JoinRejected (hp_x25519_public H secret)) fixed_key"

record generated_hpke_key =
  gk_private_key :: bytes
  gk_public_key :: bytes

record opened_capability_join_request =
  op_request :: capability_join_request
  op_invitation_signature :: bytes

section \<open>What both ends bind\<close>

definition validate_inner_context ::
    "signed_capability_invitation_v2 \<Rightarrow> capability_join_request \<Rightarrow> join_protection_error + unit" where
  "validate_inner_context i r =
     (let base = cl2_base (inv2_claims i) in
      if ib_invitation_id (jr_invitation r) \<noteq> cl_invitation_id base
         \<or> ib_join_challenge (jr_invitation r) \<noteq> cl_join_challenge base
         \<or> ib_invitation_key_id (jr_invitation r) \<noteq> cl2_invitation_key_id (inv2_claims i)
         \<or> ib_intended_verifier (jr_invitation r) \<noteq> inv2_verifying_key i
         \<or> rb_issued_at (jr_request r) < cl_issued_at base
         \<or> rb_expires_at (jr_request r) > cl_expires_at base
      then Err JoinRejected else Ok ())"

definition psk_id :: "signed_capability_invitation_v2 \<Rightarrow> bytes" where
  "psk_id i = PSK_ID_DOMAIN @ cl_invitation_id (cl2_base (inv2_claims i))
     @ cl_join_challenge (cl2_base (inv2_claims i)) @ cl2_invitation_key_id (inv2_claims i)"

text \<open>
  The version and profile accessors of a version 2 invitation return constants: the decoder accepts
  no other value.
\<close>

definition hpke_info :: "signed_capability_invitation_v2 \<Rightarrow> bytes" where
  "hpke_info i = INFO_DOMAIN
     @ concat (map (\<lambda>v. be_bytes 2 (unat v)) [INVITATION_V2_VERSION, InvitationEncryptionSuite_X25519Psk,
         JoinRequestSchemaVersion_V1, ApplicationProtocolVersion_V1, TransportProfile_LocalMemory])
     @ cl_invitation_id (cl2_base (inv2_claims i)) @ cl_join_challenge (cl2_base (inv2_claims i))
     @ cl2_invitation_key_id (inv2_claims i) @ cl2_hpke_public_key (inv2_claims i)
     @ inv2_verifying_key i"

section \<open>Invitation contexts\<close>

definition generate_invitation_key ::
    "('s, 'r, 'g, 'sk) hpke \<Rightarrow> 'g \<Rightarrow> (join_protection_error + generated_hpke_key) \<times> 'g" where
  "generate_invitation_key H g =
     (if \<not> hp_available H then (Err JoinRejected, g)
      else case hp_generate H g of (None, g) \<Rightarrow> (Err JoinRejected, g)
      | (Some (private_key, public_key), g) \<Rightarrow>
        (and_then (fixed_key private_key) (\<lambda>private_key.
         and_then (fixed_key public_key) (\<lambda>public_key.
         if all_zero public_key then Err JoinRejected
         else and_then (InvitationHpkePrivateKey_from_bytes private_key) (\<lambda>private_key.
           Ok \<lparr> gk_private_key = private_key, gk_public_key = public_key \<rparr>))), g))"

text \<open>Fills buffers of the given sizes in order; the first failure ends the loop.\<close>

fun random_fields ::
    "('s, 'r, 'g, 'sk) hpke \<Rightarrow> usize list \<Rightarrow> 'g \<Rightarrow> (join_protection_error + bytes list) \<times> 'g" where
  "random_fields H [] g = (Ok [], g)"
| "random_fields H (n # ns) g =
     (case hp_random_bytes H n g of (None, g) \<Rightarrow> (Err JoinRejected, g)
      | (Some bs, g) \<Rightarrow> (case random_fields H ns g of (Inl e, g) \<Rightarrow> (Err e, g)
          | (Inr rest, g) \<Rightarrow> (Ok (bs # rest), g)))"

definition signed_context ::
    "cbor \<Rightarrow> ('sk, 'vk) ed25519 \<Rightarrow> ('s, 'r, 'g, 'sk) hpke \<Rightarrow> u64 \<Rightarrow> u64 \<Rightarrow> bytes list \<Rightarrow>
     generated_hpke_key \<Rightarrow> join_protection_error + bytes generated_invitation_v2" where
  "signed_context C E H issued_at expires_at drawn key =
     and_then (map_err protocol_error (SecretCapability_new (drawn ! 3))) (\<lambda>capability.
     and_then (map_err protocol_error (CapabilityInvitationClaims_new (drawn ! 0) issued_at expires_at
        (drawn ! 1) capability)) (\<lambda>base.
     and_then (map_err protocol_error (CapabilityInvitationV2Claims_new base (drawn ! 2)
        (gk_public_key key))) (\<lambda>claims.
     and_then (map_err protocol_error
        (SignedCapabilityInvitationV2_sign C E claims (hp_signing_key H (drawn ! 4)))) (\<lambda>invitation.
       Ok \<lparr> gen_invitation = invitation, gen_private_key = gk_private_key key \<rparr>))))"

definition generate_capability_invitation ::
    "cbor \<Rightarrow> ('sk, 'vk) ed25519 \<Rightarrow> ('s, 'r, 'g, 'sk) hpke \<Rightarrow> u64 \<Rightarrow> u64 \<Rightarrow> 'g \<Rightarrow>
     (join_protection_error + bytes generated_invitation_v2) \<times> 'g" where
  "generate_capability_invitation C E H issued_at expires_at g =
     (if \<not> hp_available H then (Err JoinRejected, g)
      else case random_fields H [16, 32, 16, 32, 32] g of (Inl e, g) \<Rightarrow> (Err e, g)
      | (Inr drawn, g) \<Rightarrow>
        (case generate_invitation_key H g of (Inl e, g) \<Rightarrow> (Err e, g)
         | (Inr key, g) \<Rightarrow> (signed_context C E H issued_at expires_at drawn key, g)))"

text \<open>
  \<open>sink\<close> is the protected storage the context is handed to; the code passes it the invitation, its
  canonical bytes and the private key in one call.
\<close>

datatype 'e opening_context_error = ContextProtection join_protection_error | ContextStorage 'e

definition persist_opening_context ::
    "cbor \<Rightarrow> (signed_capability_invitation_v2 \<Rightarrow> bytes \<Rightarrow> bytes \<Rightarrow> 'st \<Rightarrow> ('e + unit) \<times> 'st) \<Rightarrow>
     bytes generated_invitation_v2 \<Rightarrow> 'st \<Rightarrow> ('e opening_context_error + unit) \<times> 'st" where
  "persist_opening_context C sink generated st =
     (case SignedCapabilityInvitationV2_encode_canonical C (gen_invitation generated) of
        Inl e \<Rightarrow> (Err (ContextProtection (protocol_error e)), st)
      | Inr encoded \<Rightarrow>
        if length encoded > MAX_SIGNED_INVITATION_BYTES
        then (Err (ContextProtection JoinInputTooLarge), st)
        else (case sink (gen_invitation generated) encoded (gen_private_key generated) st of
            (Inl e, st) \<Rightarrow> (Err (ContextStorage e), st)
          | (Inr _, st) \<Rightarrow> (Ok (), st)))"

definition restore_capability_invitation ::
    "cbor \<Rightarrow> ('sk, 'vk) ed25519 \<Rightarrow> ('s, 'r, 'g, 'sk) hpke \<Rightarrow> bytes \<Rightarrow> bytes \<Rightarrow>
     join_protection_error + bytes generated_invitation_v2" where
  "restore_capability_invitation C E H canonical private_key =
     (if length canonical > MAX_SIGNED_INVITATION_BYTES then Err JoinInputTooLarge
      else and_then (map_err protocol_error (SignedCapabilityInvitationV2_decode_and_verify C E canonical)) (\<lambda>i.
      and_then (map_err protocol_error (SignedCapabilityInvitationV2_encode_canonical C i)) (\<lambda>reencoded.
      if reencoded \<noteq> canonical then Err JoinRejected
      else and_then (x25519_public_key H private_key) (\<lambda>public_key.
      if public_key \<noteq> cl2_hpke_public_key (inv2_claims i) then Err JoinRejected
      else Ok \<lparr> gen_invitation = i, gen_private_key = private_key \<rparr>))))"

section \<open>Sealing and opening\<close>

definition seal_with ::
    "cbor \<Rightarrow> ('s, 'r, 'g, 'sk) hpke \<Rightarrow> signed_capability_invitation_v2 \<Rightarrow> capability_join_request \<Rightarrow>
     bytes \<Rightarrow> 's \<Rightarrow> join_protection_error + protected_join_request" where
  "seal_with C H i r enc sender =
     (let iid = cl_invitation_id (cl2_base (inv2_claims i)); kid = cl2_invitation_key_id (inv2_claims i) in
      and_then (fixed_key enc) (\<lambda>enc.
      and_then (map_err protocol_error (ProtectedJoinRequest_new iid kid enc [0])) (\<lambda>aad_source.
      and_then (map_err protocol_error (ProtectedJoinRequest_aad_canonical C aad_source)) (\<lambda>aad.
      and_then (map_err protocol_error (CapabilityJoinRequest_encode_canonical C r)) (\<lambda>plaintext.
      and_then (ok_or JoinRejected (hp_seal H sender aad plaintext)) (\<lambda>ciphertext.
        map_err protocol_error (ProtectedJoinRequest_new iid kid enc ciphertext)))))))"

definition seal_capability_request ::
    "cbor \<Rightarrow> ('s, 'r, 'g, 'sk) hpke \<Rightarrow> signed_capability_invitation_v2 \<Rightarrow> capability_join_request \<Rightarrow> 'g \<Rightarrow>
     (join_protection_error + protected_join_request) \<times> 'g" where
  "seal_capability_request C H i r g =
     (case validate_inner_context i r of Inl e \<Rightarrow> (Err e, g)
      | Inr _ \<Rightarrow>
        if \<not> hp_available H \<or> \<not> hp_public_key_validate H (cl2_hpke_public_key (inv2_claims i))
        then (Err JoinRejected, g)
        else (case hp_setup_sender H (cl2_hpke_public_key (inv2_claims i)) (hpke_info i) (psk_id i)
              (cl_capability (cl2_base (inv2_claims i))) g of
            (None, g) \<Rightarrow> (Err JoinRejected, g)
          | (Some (enc, sender), g) \<Rightarrow> (seal_with C H i r enc sender, g)))"

definition open_capability_request ::
    "cbor \<Rightarrow> ('sk, 'vk) ed25519 \<Rightarrow> ('s, 'r, 'g, 'sk) hpke \<Rightarrow> bytes \<Rightarrow> signed_capability_invitation_v2 \<Rightarrow>
     protected_join_request \<Rightarrow> join_protection_error + opened_capability_join_request" where
  "open_capability_request C E H private_key i p =
     (if pj_invitation_id p \<noteq> cl_invitation_id (cl2_base (inv2_claims i))
         \<or> pj_invitation_key_id p \<noteq> cl2_invitation_key_id (inv2_claims i) then Err JoinRejected
      else if \<not> hp_available H \<or> \<not> hp_public_key_validate H (cl2_hpke_public_key (inv2_claims i))
      then Err JoinRejected
      else and_then (ok_or JoinRejected (hp_setup_receiver H (pj_encapsulated_key p) private_key
          (cl2_hpke_public_key (inv2_claims i)) (hpke_info i) (psk_id i)
          (cl_capability (cl2_base (inv2_claims i))))) (\<lambda>receiver.
      and_then (map_err protocol_error (ProtectedJoinRequest_aad_canonical C p)) (\<lambda>aad.
      and_then (ok_or JoinRejected (hp_open H receiver aad (pj_ciphertext p))) (\<lambda>plaintext.
      and_then (map_err (\<lambda>_. JoinRejected) (CapabilityJoinRequest_decode_canonical C E plaintext)) (\<lambda>request.
      and_then (validate_inner_context i request) (\<lambda>_.
        Ok \<lparr> op_request = request, op_invitation_signature = inv2_signature i \<rparr>))))))"

end
