(* ===== verification/Hpke_Properties.thy ===== *)
theory Hpke_Properties
  imports Hpke_Join Protocol_Properties
begin

text \<open>
  What the protection of join requests shows: a sealed request opens to itself under the matching
  key, an opened request is bound to the invitation it was opened with, the HPKE inputs determine
  the invitation, and a generated context survives storage.
\<close>

section \<open>What the provider promises\<close>

text \<open>
  Random buffers have the requested size, a generated public key is the X25519 public key of the
  private one, and a signing key made from a seed verifies under its public key.
\<close>

definition hpke_sound :: "('s, 'r, 'g, 'sk) hpke \<Rightarrow> ('sk, 'vk) ed25519 \<Rightarrow> bool" where
  "hpke_sound H E \<longleftrightarrow>
     (\<forall>n g bs g'. hp_random_bytes H n g = (Some bs, g') \<longrightarrow> length bs = n)
     \<and> (\<forall>g sk pk g'. hp_generate H g = (Some (sk, pk), g') \<longrightarrow> hp_x25519_public H sk = Some pk)
     \<and> (\<forall>seed. ed_honest E (hp_signing_key H seed))"

section \<open>A concrete provider\<close>

text \<open>
  Contexts remember their inputs, sealing marks the plaintext with one byte, private and public keys
  coincide, and the random source repeats its counter.
\<close>

definition ex_hpke :: "(bytes, bytes, u8, u8) hpke" where
  "ex_hpke = \<lparr> hp_available = True,
     hp_random_bytes = (\<lambda>n g. (Some (replicate n g), g + 1)),
     hp_generate = (\<lambda>g. (Some (replicate 32 g, replicate 32 g), g + 1)),
     hp_public_key_validate = (\<lambda>_. True),
     hp_setup_sender = (\<lambda>pk info pid psk g. (Some (replicate 32 g, pk @ info @ pid @ psk), g + 1)),
     hp_seal = (\<lambda>s aad plaintext. Some (1 # plaintext)),
     hp_setup_receiver = (\<lambda>enc sk pk info pid psk. if sk = pk then Some (pk @ info @ pid @ psk) else None),
     hp_open = (\<lambda>r aad ciphertext. case ciphertext of [] \<Rightarrow> None | t # plaintext \<Rightarrow> if t = 1 then Some plaintext else None),
     hp_x25519_public = (\<lambda>sk. Some sk),
     hp_signing_key = (\<lambda>seed. hd seed) \<rparr>"

lemma ex_hpke_opens: "hpke_opens ex_hpke key key"
  by (auto simp: hpke_opens_def ex_hpke_def)

lemma ex_hpke_sound: "hpke_sound ex_hpke ex_ed"
  by (auto simp: hpke_sound_def ex_hpke_def ex_ed_honest)

definition ex_invitation_v2 :: signed_capability_invitation_v2 where
  "ex_invitation_v2 = \<lparr> inv2_claims = ex_claims_v2, inv2_verifying_key = replicate 32 5,
     inv2_signature = replicate 64 1 \<rparr>"

lemma ex_invitation_v2_wf: "invitation_v2_wf ex_invitation_v2"
  using ex_values_wf(3) by (simp add: invitation_v2_wf_def ex_invitation_v2_def wire_consts)

definition ex_sealed :: protected_join_request where
  "ex_sealed = \<lparr> pj_invitation_id = replicate 16 1, pj_invitation_key_id = replicate 16 4,
     pj_encapsulated_key = replicate 32 6,
     pj_ciphertext = 1 # (case CapabilityJoinRequest_encode_canonical rfc_cbor ex_join_request of
        Inr b \<Rightarrow> b | Inl _ \<Rightarrow> []) \<rparr>"

lemma ex_seal: "seal_capability_request rfc_cbor ex_hpke ex_invitation_v2 ex_join_request 6 = (Ok ex_sealed, 7)"
proof -
  obtain b where b: "CapabilityJoinRequest_encode_canonical rfc_cbor ex_join_request = Ok b"
    using rfc.join_request_encode_ok [OF ex_values_wf(6)] by blast
  then have "length b \<le> MAX_CAPABILITY_JOIN_REQUEST_BYTES" by (simp add: join_request_encode_eq_Inr)
  then have len: "Suc (length b) \<le> MAX_PROTECTED_JOIN_CIPHERTEXT_BYTES" by (simp add: wire_consts)
  let ?p = "\<lparr> pj_invitation_id = replicate 16 1, pj_invitation_key_id = replicate 16 4,
    pj_encapsulated_key = replicate 32 6, pj_ciphertext = [0] \<rparr>"
  have "list_all item_ok (protected_join_prefix ?p PROTECTED_JOIN_AAD_FIELDS)"
    by (simp add: protected_join_prefix_def)
  from rfc.encode_items_total [OF this] obtain aad where
    aad: "ProtectedJoinRequest_aad_canonical rfc_cbor ?p = Ok aad"
    by (auto simp: ProtectedJoinRequest_aad_canonical_def ProtectedJoinRequest_encode_prefix_def)
  have "validate_inner_context ex_invitation_v2 ex_join_request = Ok ()"
    by (simp add: validate_inner_context_def ex_invitation_v2_def ex_join_request_def ex_claims_v2_def ex_claims_def)
  moreover have "cl_invitation_id (cl2_base (inv2_claims ex_invitation_v2)) = replicate 16 1"
    "cl2_invitation_key_id (inv2_claims ex_invitation_v2) = replicate 16 4"
    by (simp_all add: ex_invitation_v2_def ex_claims_v2_def ex_claims_def)
  ultimately show ?thesis
    using aad len
    by (simp add: seal_capability_request_def seal_with_def ex_hpke_def fixed_key_def HPKE_KEY_BYTES_def
        ProtectedJoinRequest_new_def reject_zero_def all_zero_replicate b ex_sealed_def Let_def
        MAX_PROTECTED_JOIN_CIPHERTEXT_BYTES_def)
qed

section \<open>Sealing and opening\<close>

lemma validate_inner_context_ok [ok_iff]:
  "validate_inner_context i r = Inr u \<longleftrightarrow>
     ib_invitation_id (jr_invitation r) = cl_invitation_id (cl2_base (inv2_claims i))
     \<and> ib_join_challenge (jr_invitation r) = cl_join_challenge (cl2_base (inv2_claims i))
     \<and> ib_invitation_key_id (jr_invitation r) = cl2_invitation_key_id (inv2_claims i)
     \<and> ib_intended_verifier (jr_invitation r) = inv2_verifying_key i
     \<and> cl_issued_at (cl2_base (inv2_claims i)) \<le> rb_issued_at (jr_request r)
     \<and> rb_expires_at (jr_request r) \<le> cl_expires_at (cl2_base (inv2_claims i))"
  by (auto simp: validate_inner_context_def Let_def not_less)

lemma aad_ignores_ciphertext:
  "pj_invitation_id p = pj_invitation_id q \<Longrightarrow> pj_invitation_key_id p = pj_invitation_key_id q \<Longrightarrow>
   pj_encapsulated_key p = pj_encapsulated_key q \<Longrightarrow>
   ProtectedJoinRequest_aad_canonical C p = ProtectedJoinRequest_aad_canonical C q"
  by (simp add: ProtectedJoinRequest_aad_canonical_def ProtectedJoinRequest_encode_prefix_def
      protected_join_prefix_def)

lemma seal_ok:
  assumes "seal_capability_request C H i r g = (Ok p, g')"
  shows "\<exists>enc sender aad plaintext.
    validate_inner_context i r = Ok () \<and> hp_available H
    \<and> hp_public_key_validate H (cl2_hpke_public_key (inv2_claims i))
    \<and> hp_setup_sender H (cl2_hpke_public_key (inv2_claims i)) (hpke_info i) (psk_id i)
        (cl_capability (cl2_base (inv2_claims i))) g = (Some (enc, sender), g')
    \<and> length enc = HPKE_KEY_BYTES
    \<and> ProtectedJoinRequest_aad_canonical C p = Ok aad
    \<and> CapabilityJoinRequest_encode_canonical C r = Ok plaintext
    \<and> hp_seal H sender aad plaintext = Some (pj_ciphertext p)
    \<and> pj_invitation_id p = cl_invitation_id (cl2_base (inv2_claims i))
    \<and> pj_invitation_key_id p = cl2_invitation_key_id (inv2_claims i) \<and> pj_encapsulated_key p = enc"
proof -
  have v: "validate_inner_context i r = Ok ()"
    using assms by (auto simp: seal_capability_request_def split: sum.splits)
  have a: "hp_available H" "hp_public_key_validate H (cl2_hpke_public_key (inv2_claims i))"
    using assms by (auto simp: seal_capability_request_def v split: if_splits)
  obtain enc sender where s: "hp_setup_sender H (cl2_hpke_public_key (inv2_claims i)) (hpke_info i)
      (psk_id i) (cl_capability (cl2_base (inv2_claims i))) g = (Some (enc, sender), g')"
    "seal_with C H i r enc sender = Ok p"
    using assms by (auto simp: seal_capability_request_def v a split: prod.splits option.splits)
  then obtain source aad plaintext ciphertext where w: "length enc = HPKE_KEY_BYTES"
    "ProtectedJoinRequest_new (cl_invitation_id (cl2_base (inv2_claims i)))
        (cl2_invitation_key_id (inv2_claims i)) enc [0] = Ok source"
    "ProtectedJoinRequest_aad_canonical C source = Ok aad"
    "CapabilityJoinRequest_encode_canonical C r = Ok plaintext"
    "hp_seal H sender aad plaintext = Some ciphertext"
    "ProtectedJoinRequest_new (cl_invitation_id (cl2_base (inv2_claims i)))
        (cl2_invitation_key_id (inv2_claims i)) enc ciphertext = Ok p"
    unfolding seal_with_def Let_def and_then_eq_Inr map_err_eq_Inr ok_or_eq_Inr fixed_key_def
    by (auto split: if_splits)
  then have "pj_ciphertext p = ciphertext" "ProtectedJoinRequest_aad_canonical C p = Ok aad"
    "pj_invitation_id p = cl_invitation_id (cl2_base (inv2_claims i))"
    "pj_invitation_key_id p = cl2_invitation_key_id (inv2_claims i)" "pj_encapsulated_key p = enc"
    using aad_ignores_ciphertext [of p source C] by (auto simp: ok_iff)
  with v a s(1) w show ?thesis by blast
qed

text \<open>
  C21: a sealed join request opens to itself. Whenever sealing a well-formed request for an invitation
  succeeds, opening the result with the private key that matches the invitation's HPKE key returns
  exactly that request, tagged with the signature of the invitation it was opened under.
\<close>

theorem sealed_request_opens:
  assumes "cbor_library C" and "ed_keeps_bytes E"
    and "hpke_opens H secret (cl2_hpke_public_key (inv2_claims i))"
    and "join_request_wf E r" and "seal_capability_request C H i r g = (Ok p, g')"
  shows "open_capability_request C E H secret i p
    = Ok \<lparr> op_request = r, op_invitation_signature = inv2_signature i \<rparr>"
proof -
  obtain enc sender aad plaintext where s: "validate_inner_context i r = Ok ()" "hp_available H"
    "hp_public_key_validate H (cl2_hpke_public_key (inv2_claims i))"
    "hp_setup_sender H (cl2_hpke_public_key (inv2_claims i)) (hpke_info i) (psk_id i)
        (cl_capability (cl2_base (inv2_claims i))) g = (Some (enc, sender), g')"
    "ProtectedJoinRequest_aad_canonical C p = Ok aad"
    "CapabilityJoinRequest_encode_canonical C r = Ok plaintext"
    "hp_seal H sender aad plaintext = Some (pj_ciphertext p)"
    "pj_invitation_id p = cl_invitation_id (cl2_base (inv2_claims i))"
    "pj_invitation_key_id p = cl2_invitation_key_id (inv2_claims i)" "pj_encapsulated_key p = enc"
    using seal_ok [OF assms(5)] by blast
  obtain receiver where "hp_setup_receiver H enc secret (cl2_hpke_public_key (inv2_claims i))
      (hpke_info i) (psk_id i) (cl_capability (cl2_base (inv2_claims i))) = Some receiver"
    "hp_open H receiver aad (pj_ciphertext p) = Some plaintext"
    using assms(3) s(4,7) unfolding hpke_opens_def by blast
  moreover have "CapabilityJoinRequest_decode_canonical C E plaintext = Ok r"
    using canonical_codec.decode_encode [OF cbor_library.join_request_codec [OF assms(1,2)] assms(4) s(6)] .
  ultimately show ?thesis using s(1-3,5,8-10) by (simp add: open_capability_request_def)
qed

theorem sealed_request_opens_witness:
  "open_capability_request rfc_cbor ex_ed ex_hpke (replicate 32 5) ex_invitation_v2 ex_sealed
    = Ok \<lparr> op_request = ex_join_request, op_invitation_signature = replicate 64 1 \<rparr>"
proof -
  have "cl2_hpke_public_key (inv2_claims ex_invitation_v2) = replicate 32 5"
    by (simp add: ex_invitation_v2_def ex_claims_v2_def)
  then show ?thesis
    using sealed_request_opens [OF rfc.cbor_library_axioms ex_ed_keeps_bytes _ ex_values_wf(6) ex_seal,
        of "replicate 32 5"] ex_hpke_opens [of "replicate 32 5"]
    by (simp add: ex_invitation_v2_def)
qed

text \<open>
  C8: an opened request belongs to the invitation it was opened with. Every request that
  \<open>open_capability_request\<close> returns is well formed, names the invitation's identifier, challenge, key
  identifier and inviter key, lives within the invitation's validity period together with its
  response endpoint, and carries the signature of exactly that invitation.
\<close>

theorem opened_request_is_bound:
  assumes "ed_keeps_bytes E" and "open_capability_request C E H secret i p = Ok opened"
  shows "join_request_wf E (op_request opened)
    \<and> op_invitation_signature opened = inv2_signature i
    \<and> pj_invitation_id p = ib_invitation_id (jr_invitation (op_request opened))
    \<and> pj_invitation_key_id p = ib_invitation_key_id (jr_invitation (op_request opened))
    \<and> ib_invitation_id (jr_invitation (op_request opened)) = cl_invitation_id (cl2_base (inv2_claims i))
    \<and> ib_join_challenge (jr_invitation (op_request opened)) = cl_join_challenge (cl2_base (inv2_claims i))
    \<and> ib_invitation_key_id (jr_invitation (op_request opened)) = cl2_invitation_key_id (inv2_claims i)
    \<and> ib_intended_verifier (jr_invitation (op_request opened)) = inv2_verifying_key i
    \<and> cl_issued_at (cl2_base (inv2_claims i)) \<le> rb_issued_at (jr_request (op_request opened))
    \<and> ep_expires_at (jr_response_endpoint (op_request opened)) \<le> rb_expires_at (jr_request (op_request opened))
    \<and> rb_expires_at (jr_request (op_request opened)) \<le> cl_expires_at (cl2_base (inv2_claims i))"
proof -
  obtain plaintext request where "CapabilityJoinRequest_decode_canonical C E plaintext = Ok request"
    "validate_inner_context i request = Ok ()"
    "opened = \<lparr> op_request = request, op_invitation_signature = inv2_signature i \<rparr>"
    "pj_invitation_id p = cl_invitation_id (cl2_base (inv2_claims i))"
    "pj_invitation_key_id p = cl2_invitation_key_id (inv2_claims i)"
    using assms(2) unfolding open_capability_request_def and_then_eq_Inr map_err_eq_Inr guard_eq_Inr
    by auto
  moreover from this(1) have "join_request_wf E request"
    by (rule join_request_decode_wf [OF assms(1)])
  moreover from this have "ep_expires_at (jr_response_endpoint request) \<le> rb_expires_at (jr_request request)"
    by (simp add: join_request_wf_def Let_def)
  ultimately show ?thesis by (simp add: ok_iff)
qed

theorem opened_request_is_bound_witness:
  "join_request_wf ex_ed ex_join_request
    \<and> ep_expires_at (jr_response_endpoint ex_join_request) \<le> rb_expires_at (jr_request ex_join_request)"
proof -
  have "cl2_hpke_public_key (inv2_claims ex_invitation_v2) = replicate 32 5"
    by (simp add: ex_invitation_v2_def ex_claims_v2_def)
  moreover obtain b where b: "CapabilityJoinRequest_encode_canonical rfc_cbor ex_join_request = Ok b"
    using rfc.join_request_encode_ok [OF ex_values_wf(6)] by blast
  moreover have "CapabilityJoinRequest_decode_canonical rfc_cbor ex_ed b = Ok ex_join_request"
    using canonical_codec.decode_encode [OF rfc.join_request_codec [OF ex_ed_keeps_bytes] ex_values_wf(6) b] .
  moreover obtain aad where "ProtectedJoinRequest_aad_canonical rfc_cbor ex_sealed = Ok aad"
    using seal_ok [OF ex_seal] by blast
  moreover have "validate_inner_context ex_invitation_v2 ex_join_request = Ok ()"
    "pj_invitation_id ex_sealed = cl_invitation_id (cl2_base (inv2_claims ex_invitation_v2))"
    "pj_invitation_key_id ex_sealed = cl2_invitation_key_id (inv2_claims ex_invitation_v2)"
    using seal_ok [OF ex_seal] by auto
  ultimately have "open_capability_request rfc_cbor ex_ed ex_hpke (replicate 32 5) ex_invitation_v2 ex_sealed
    = Ok \<lparr> op_request = ex_join_request, op_invitation_signature = replicate 64 1 \<rparr>"
    by (simp add: open_capability_request_def ex_hpke_def ex_sealed_def)
      (simp add: ex_invitation_v2_def)
  from opened_request_is_bound [OF ex_ed_keeps_bytes this] show ?thesis by simp
qed

section \<open>What the HPKE inputs determine\<close>

text \<open>
  The HPKE inputs name the invitation. For well-formed invitations the pre-shared-key identifier
  and the info string agree exactly when the invitations agree in identifier, join challenge, key
  identifier, HPKE key and inviter key, so no two different invitations share a key schedule.
\<close>

theorem hpke_inputs_name_invitation:
  assumes "invitation_v2_wf i" and "invitation_v2_wf j"
  shows "psk_id i = psk_id j \<and> hpke_info i = hpke_info j \<longleftrightarrow>
    cl_invitation_id (cl2_base (inv2_claims i)) = cl_invitation_id (cl2_base (inv2_claims j))
    \<and> cl_join_challenge (cl2_base (inv2_claims i)) = cl_join_challenge (cl2_base (inv2_claims j))
    \<and> cl2_invitation_key_id (inv2_claims i) = cl2_invitation_key_id (inv2_claims j)
    \<and> cl2_hpke_public_key (inv2_claims i) = cl2_hpke_public_key (inv2_claims j)
    \<and> inv2_verifying_key i = inv2_verifying_key j"
  using assms
  by (auto simp: psk_id_def hpke_info_def invitation_v2_wf_def claims_v2_wf_def claims_wf_def wire_consts)

theorem hpke_inputs_name_invitation_witness:
  "hpke_info ex_invitation_v2 \<noteq> hpke_info (ex_invitation_v2 \<lparr> inv2_verifying_key := replicate 32 6 \<rparr>)"
proof -
  have "invitation_v2_wf (ex_invitation_v2 \<lparr> inv2_verifying_key := replicate 32 6 \<rparr>)"
    using ex_invitation_v2_wf by (simp add: invitation_v2_wf_def wire_consts)
  from hpke_inputs_name_invitation [OF ex_invitation_v2_wf this] show ?thesis
    by (auto simp: psk_id_def ex_invitation_v2_def)
qed

section \<open>Invitation contexts\<close>

lemma random_fields_ok:
  assumes "\<And>n g bs g'. hp_random_bytes H n g = (Some bs, g') \<Longrightarrow> length bs = n"
  shows "random_fields H ns g = (Ok bss, g') \<Longrightarrow> map length bss = ns"
  using assms
  by (induction H ns g arbitrary: bss g' rule: random_fields.induct)
    (auto split: prod.splits option.splits sum.splits)

lemma generated_context:
  assumes lib: "cbor_library C" and sound: "hpke_sound H E"
    and gen: "generate_capability_invitation C E H issued_at expires_at g = (Ok generated, g')"
  shows "invitation_v2_wf (gen_invitation generated)
    \<and> invitation_v2_authentic C E (gen_invitation generated)
    \<and> hp_x25519_public H (gen_private_key generated) = Some (cl2_hpke_public_key (inv2_claims (gen_invitation generated)))
    \<and> cl_issued_at (cl2_base (inv2_claims (gen_invitation generated))) = issued_at
    \<and> cl_expires_at (cl2_base (inv2_claims (gen_invitation generated))) = expires_at"
proof -
  obtain drawn g1 key g2 where d: "random_fields H [16, 32, 16, 32, 32] g = (Ok drawn, g1)"
    and k: "generate_invitation_key H g1 = (Ok key, g2)"
    and c: "signed_context C E H issued_at expires_at drawn key = Ok generated"
    using gen by (auto simp: generate_capability_invitation_def split: if_splits prod.splits sum.splits)
  have lens: "map length drawn = [16, 32, 16, 32, 32]"
    by (rule random_fields_ok [OF _ d]) (use sound in \<open>auto simp: hpke_sound_def\<close>)
  then obtain a b c' d' e where "drawn = [a, b, c', d', e]"
    by (auto simp: map_eq_Cons_conv)
  note drawn = this
  have "length (gk_public_key key) = 32 \<and> \<not> all_zero (gk_public_key key)
    \<and> hp_generate H g1 = (Some (gk_private_key key, gk_public_key key), g2)"
    using k
    by (auto simp: generate_invitation_key_def fixed_key_def HPKE_KEY_BYTES_def ok_iff
        InvitationHpkePrivateKey_from_bytes_def split: if_splits prod.splits option.splits)
  with sound have key: "length (gk_public_key key) = 32" "\<not> all_zero (gk_public_key key)"
    "hp_x25519_public H (gk_private_key key) = Some (gk_public_key key)"
    unfolding hpke_sound_def by blast+
  define claims where "claims = \<lparr> cl2_base = \<lparr> cl_invitation_id = a, cl_issued_at = issued_at,
     cl_expires_at = expires_at, cl_join_challenge = b, cl_capability = d' \<rparr>,
     cl2_invitation_key_id = c', cl2_hpke_public_key = gk_public_key key \<rparr>"
  have claims: "claims_v2_wf claims"
    "SignedCapabilityInvitationV2_sign C E claims (hp_signing_key H e) = Ok (gen_invitation generated)"
    "gen_private_key generated = gk_private_key key" "cl2_hpke_public_key claims = gk_public_key key"
    "cl_issued_at (cl2_base claims) = issued_at" "cl_expires_at (cl2_base claims) = expires_at"
    using c lens key
    by (auto simp: signed_context_def drawn ok_iff claims_v2_wf_def claims_wf_def wire_consts claims_def)
  obtain i where "SignedCapabilityInvitationV2_sign C E claims (hp_signing_key H e) = Ok i"
    "invitation_v2_wf i" "invitation_v2_authentic C E i" "inv2_claims i = claims"
    using sign_v2_ok [OF lib _ claims(1), of E "hp_signing_key H e"] sound by (auto simp: hpke_sound_def)
  with claims key show ?thesis by simp
qed

lemma ex_generated:
  "\<exists>generated g'. generate_capability_invitation rfc_cbor ex_ed ex_hpke 100 400 1 = (Ok generated, g')"
proof -
  define claims where "claims = \<lparr> cl2_base = \<lparr> cl_invitation_id = replicate 16 1, cl_issued_at = 100,
     cl_expires_at = 400, cl_join_challenge = replicate 32 2, cl_capability = replicate 32 4 \<rparr>,
     cl2_invitation_key_id = replicate 16 3, cl2_hpke_public_key = replicate 32 (6 :: u8) \<rparr>"
  have "claims_v2_wf claims"
    by (simp add: claims_def claims_v2_wf_def claims_wf_def wire_consts all_zero_replicate)
  from sign_v2_ok [OF rfc.cbor_library_axioms ex_ed_honest [of 5] this] obtain i where
    "SignedCapabilityInvitationV2_sign rfc_cbor ex_ed claims 5 = Ok i" by blast
  then show ?thesis
    by (simp add: generate_capability_invitation_def generate_invitation_key_def ex_hpke_def signed_context_def
        fixed_key_def HPKE_KEY_BYTES_def all_zero_replicate InvitationHpkePrivateKey_from_bytes_def
        SecretCapability_new_def CapabilityInvitationClaims_new_def CapabilityInvitationV2Claims_new_def
        reject_zero_def claims_def)
qed

text \<open>
  A generated invitation context survives storage. A context that \<open>generate_capability_invitation\<close>
  returns has a well-formed, authentic invitation with the requested validity period; the canonical
  bytes it hands to the storage sink, restored with the same private key, give back exactly the
  generated context.
\<close>

theorem generated_context_restores:
  assumes "cbor_library C" and "hpke_sound H E"
    and "generate_capability_invitation C E H issued_at expires_at g = (Ok generated, g')"
  shows "\<exists>canonical. length canonical \<le> MAX_SIGNED_INVITATION_BYTES
    \<and> persist_opening_context C (\<lambda>i bs key _. (Ok (), (i, bs, key))) generated st
        = (Ok (), (gen_invitation generated, canonical, gen_private_key generated))
    \<and> restore_capability_invitation C E H canonical (gen_private_key generated) = Ok generated
    \<and> cl_issued_at (cl2_base (inv2_claims (gen_invitation generated))) = issued_at
    \<and> cl_expires_at (cl2_base (inv2_claims (gen_invitation generated))) = expires_at"
proof -
  note gc = generated_context [OF assms]
  obtain bs where bs: "SignedCapabilityInvitationV2_encode_canonical C (gen_invitation generated) = Ok bs"
      "SignedCapabilityInvitationV2_decode_and_verify C E bs = Ok (gen_invitation generated)"
    using canonical_codec.round_trip [OF cbor_library.invitation_v2_codec [OF assms(1), of E]] gc by blast
  moreover from bs(1) have "length bs \<le> MAX_SIGNED_INVITATION_BYTES"
    by (auto simp: invitation_v2_encode_eq_Inr)
  moreover have "length (cl2_hpke_public_key (inv2_claims (gen_invitation generated))) = HPKE_KEY_BYTES"
    using gc by (simp add: invitation_v2_wf_def claims_v2_wf_def wire_consts HPKE_KEY_BYTES_def)
  ultimately show ?thesis
    using gc
    by (intro exI [of _ bs])
      (simp add: persist_opening_context_def restore_capability_invitation_def x25519_public_key_def
        fixed_key_def)
qed

theorem generated_context_restores_witness:
  "\<exists>generated canonical. restore_capability_invitation rfc_cbor ex_ed ex_hpke canonical
      (gen_private_key generated) = Ok generated"
proof -
  obtain generated g' where
    "generate_capability_invitation rfc_cbor ex_ed ex_hpke 100 400 1 = (Ok generated, g')"
    using ex_generated by blast
  from generated_context_restores [OF rfc.cbor_library_axioms ex_hpke_sound this] show ?thesis by blast
qed

end
