(* ===== verification/Mls_Provider.thy ===== *)
theory Mls_Provider
  imports Wire
begin

text \<open>
  The provider-neutral message contract of \<open>crates/session-crypto/src/lib.rs\<close>, and the boundary to the
  MLS library of \<open>crates/session-crypto-mls/src/lib.rs\<close>: bounded messages and validation of key packages.
  mls-rs and its cryptographic provider are the parameter record \<open>mls_rs\<close>: the functions the adapter
  calls, with the values of the library it inspects.
\<close>

section \<open>Message contract\<close>

definition MAX_APPLICATION_MESSAGE_BYTES :: usize where
  "MAX_APPLICATION_MESSAGE_BYTES = 16 * 1024"
definition MAX_PROTECTED_MESSAGE_BYTES :: usize where
  "MAX_PROTECTED_MESSAGE_BYTES = 64 * 1024"

datatype message_session_error = MessageInputTooLarge | MessageRejected

definition validate_application_message :: "bytes \<Rightarrow> message_session_error + unit" where
  "validate_application_message plaintext =
     (if length plaintext > MAX_APPLICATION_MESSAGE_BYTES then Err MessageInputTooLarge else Ok ())"

definition validate_length :: "usize \<Rightarrow> usize \<Rightarrow> message_session_error + unit" where
  "validate_length len maximum = (if len > maximum then Err MessageInputTooLarge else Ok ())"

text \<open>\<open>from_bytes\<close> and \<open>from_vec\<close> differ only in who owns the bytes.\<close>

definition ProtectedMessage_from_vec :: "bytes \<Rightarrow> message_session_error + bytes" where
  "ProtectedMessage_from_vec bs =
     and_then (validate_length (length bs) MAX_PROTECTED_MESSAGE_BYTES) (\<lambda>_. Ok bs)"

definition ApplicationMessage_from_vec :: "bytes \<Rightarrow> message_session_error + bytes" where
  "ApplicationMessage_from_vec bs =
     and_then (validate_length (length bs) MAX_APPLICATION_MESSAGE_BYTES) (\<lambda>_. Ok bs)"

datatype message_event = EventApplication bytes | EventEpochAdvanced | EventRemoved

section \<open>Constants and errors of the adapter\<close>

definition SESSION_CREDENTIAL_ID_BYTES :: usize where "SESSION_CREDENTIAL_ID_BYTES = 32"
definition SESSION_GROUP_ID_BYTES :: usize where "SESSION_GROUP_ID_BYTES = 32"
definition MAX_KEY_PACKAGE_BYTES :: usize where "MAX_KEY_PACKAGE_BYTES = 16 * 1024"
definition KEY_PACKAGE_REFERENCE_BYTES :: usize where "KEY_PACKAGE_REFERENCE_BYTES = 32"

text \<open>
  The library's numbers: \<open>CipherSuite::CURVE25519_AES128\<close>, \<open>ProtocolVersion::MLS_10\<close>, the type code of a
  basic credential and of the ratchet-tree extension.
\<close>

definition CIPHERSUITE :: u16 where "CIPHERSUITE = 1"
definition MLS_10 :: u16 where "MLS_10 = 1"
definition BASIC_CREDENTIAL_TYPE :: u16 where "BASIC_CREDENTIAL_TYPE = 1"
definition RATCHET_TREE :: u16 where "RATCHET_TREE = 2"

datatype mls_adapter_error = InvalidIdentifier | InputTooLarge | MalformedKeyPackage
  | RejectedKeyPackage | ProtocolRejected | UnexpectedProviderOutput | GroupFull

definition nonzero :: "bytes \<Rightarrow> mls_adapter_error + bytes" where
  "nonzero bs = (if \<not> all_zero bs then Ok bs else Err InvalidIdentifier)"

definition SessionGroupId_new :: "bytes \<Rightarrow> mls_adapter_error + bytes" where
  "SessionGroupId_new bs = nonzero bs"

fun message_session_error_of :: "mls_adapter_error \<Rightarrow> message_session_error" where
  "message_session_error_of InputTooLarge = MessageInputTooLarge"
| "message_session_error_of _ = MessageRejected"

section \<open>The library's values\<close>

datatype mls_credential = MlsBasic bytes | MlsOtherCredential

record mls_signing_identity =
  si_credential :: mls_credential
  si_signature_key :: bytes

record mls_capabilities =
  ca_protocol_versions :: "u16 list"
  ca_cipher_suites :: "u16 list"
  ca_extensions :: "u16 list"
  ca_proposals :: "u16 list"
  ca_credentials :: "u16 list"

record mls_member =
  mm_index :: u32
  mm_signing_identity :: mls_signing_identity
  mm_capabilities :: mls_capabilities
  mm_extensions :: "bytes list"

record mls_leaf_node =
  ln_signing_identity :: mls_signing_identity
  ln_capabilities :: mls_capabilities
  ln_extensions :: "bytes list"

record key_package_policy_view =
  pv_version :: u16
  pv_cipher_suite :: u16
  pv_leaf_node :: mls_leaf_node
  pv_extensions :: "bytes list"

datatype mls_wire_format = WelcomeFormat | KeyPackageFormat | OtherFormat

datatype commit_effect = NewEpoch | RemovedEffect | ReInit

datatype received_message =
    ReceivedApplication bytes bytes
  | ReceivedCommit commit_effect
  | ReceivedOther

record 'm commit_output =
  co_commit_message :: 'm
  co_welcome_messages :: "'m list"
  co_contains_update_path :: bool

text \<open>
  One call of the library's group-state storage: the state and the epoch records it inserts and
  updates.
\<close>

record provider_state_write =
  ps_group_id :: bytes
  ps_data :: bytes
  ps_epoch_inserts :: "(u64 \<times> bytes) list"
  ps_epoch_updates :: "(u64 \<times> bytes) list"

text \<open>
  \<open>'m\<close> is a message, \<open>'k\<close> a key package, \<open>'g\<close> a group, \<open>'c\<close> a client and \<open>'r\<close> the random source. An
  operation that may fail returns \<open>None\<close>; one that changes a group or a client returns it changed,
  also when it fails. \<open>lib_snapshot\<close> is the storage call \<open>write_to_storage\<close> makes, and \<open>lib_written\<close>
  the group after that call succeeded.
\<close>

record ('m, 'k, 'g, 'c, 'r) mls_rs =
  lib_decode :: "bytes \<Rightarrow> ('m \<times> bytes) option"
  lib_to_bytes :: "'m \<Rightarrow> bytes option"
  lib_wire_format :: "'m \<Rightarrow> mls_wire_format"
  lib_message_suite :: "'m \<Rightarrow> u16 option"
  lib_as_key_package :: "'m \<Rightarrow> 'k option"
  lib_welcome_references :: "'m \<Rightarrow> bytes list"
  lib_validate_key_package :: "'m \<Rightarrow> u64 \<Rightarrow> 'k option"
  lib_kp_version :: "'k \<Rightarrow> u16"
  lib_kp_cipher_suite :: "'k \<Rightarrow> u16"
  lib_kp_extensions :: "'k \<Rightarrow> bytes list"
  lib_kp_encode :: "'k \<Rightarrow> bytes option"
  lib_kp_view :: "bytes \<Rightarrow> (key_package_policy_view \<times> bytes) option"
  lib_kp_signing_identity :: "'k \<Rightarrow> mls_signing_identity"
  lib_kp_reference :: "'k \<Rightarrow> bytes option"
  lib_suite_available :: bool
  lib_protocol_version :: "'g \<Rightarrow> u16"
  lib_cipher_suite :: "'g \<Rightarrow> u16"
  lib_group_id :: "'g \<Rightarrow> bytes"
  lib_epoch :: "'g \<Rightarrow> u64"
  lib_members :: "'g \<Rightarrow> mls_member list"
  lib_own_index :: "'g \<Rightarrow> u32"
  lib_own_identity :: "'g \<Rightarrow> mls_signing_identity option"
  lib_commit_add :: "'g \<Rightarrow> 'm \<Rightarrow> u64 \<Rightarrow> 'm commit_output option \<times> 'g"
  lib_commit_remove :: "'g \<Rightarrow> u32 \<Rightarrow> u64 \<Rightarrow> 'm commit_output option \<times> 'g"
  lib_commit_update :: "'g \<Rightarrow> u64 \<Rightarrow> 'm commit_output option \<times> 'g"
  lib_clear_pending :: "'g \<Rightarrow> 'g"
  lib_apply_pending :: "'g \<Rightarrow> bool \<times> 'g"
  lib_encrypt :: "'g \<Rightarrow> bytes \<Rightarrow> 'm option \<times> 'g"
  lib_process :: "'g \<Rightarrow> 'm \<Rightarrow> received_message option \<times> 'g"
  lib_snapshot :: "'g \<Rightarrow> provider_state_write option"
  lib_written :: "'g \<Rightarrow> 'g"
  lib_random_bytes :: "usize \<Rightarrow> 'r \<Rightarrow> bytes option \<times> 'r"
  lib_signature_generate :: "'r \<Rightarrow> (bytes \<times> bytes) option \<times> 'r"
  lib_signature_derive_public :: "bytes \<Rightarrow> bytes option"
  lib_sign :: "bytes \<Rightarrow> bytes \<Rightarrow> bytes option"
  lib_verify :: "bytes \<Rightarrow> bytes \<Rightarrow> bytes \<Rightarrow> bool"
  lib_build_client :: "mls_signing_identity \<Rightarrow> bytes \<Rightarrow> 'c"
  lib_generate_key_package :: "'c \<Rightarrow> u64 \<Rightarrow> 'm option \<times> 'c"
  lib_create_group :: "'c \<Rightarrow> bytes \<Rightarrow> u64 \<Rightarrow> 'g option \<times> 'c"
  lib_join_group :: "'c \<Rightarrow> 'm \<Rightarrow> u64 \<Rightarrow> ('g \<times> u16 list) option \<times> 'c"
  lib_load_group :: "'c \<Rightarrow> bytes \<Rightarrow> 'g option"

section \<open>Bounded messages\<close>

definition decode_exact :: "('m, 'k, 'g, 'c, 'r) mls_rs \<Rightarrow> bytes \<Rightarrow> unit + 'm" where
  "decode_exact L encoded =
     and_then (ok_or () (lib_decode L encoded)) (\<lambda>(message, remaining).
       if remaining = [] then Ok message else Err ())"

definition MlsWireMessage_from_bytes :: "bytes \<Rightarrow> mls_adapter_error + bytes" where
  "MlsWireMessage_from_bytes bs =
     (if length bs > MAX_PROTECTED_MESSAGE_BYTES then Err InputTooLarge else Ok bs)"

definition MlsWireMessage_from_provider ::
    "('m, 'k, 'g, 'c, 'r) mls_rs \<Rightarrow> 'm \<Rightarrow> mls_adapter_error + bytes" where
  "MlsWireMessage_from_provider L message =
     and_then (ok_or UnexpectedProviderOutput (lib_to_bytes L message)) (\<lambda>bs.
       if length bs > MAX_PROTECTED_MESSAGE_BYTES then Err UnexpectedProviderOutput else Ok bs)"

definition WelcomeMessage_from_bytes :: "bytes \<Rightarrow> mls_adapter_error + bytes" where
  "WelcomeMessage_from_bytes bs =
     (if length bs > MAX_PROTECTED_MESSAGE_BYTES then Err InputTooLarge else Ok bs)"

definition WelcomeMessage_from_provider ::
    "('m, 'k, 'g, 'c, 'r) mls_rs \<Rightarrow> 'm \<Rightarrow> mls_adapter_error + bytes" where
  "WelcomeMessage_from_provider L message =
     and_then (ok_or UnexpectedProviderOutput (lib_to_bytes L message)) (\<lambda>bs.
       if length bs > MAX_PROTECTED_MESSAGE_BYTES then Err UnexpectedProviderOutput else Ok bs)"

section \<open>Key packages\<close>

record 'm validated_key_package =
  vk_message :: 'm
  vk_reference :: bytes
  vk_credential_identity :: bytes
  vk_leaf_signature_key :: bytes

text \<open>The closed leaf policy, shared with the roster check of a group.\<close>

definition phase_one_capabilities :: "mls_capabilities \<Rightarrow> bool" where
  "phase_one_capabilities c \<longleftrightarrow>
     ca_extensions c = [] \<and> ca_proposals c = [] \<and> ca_protocol_versions c = [MLS_10]
     \<and> ca_cipher_suites c = [CIPHERSUITE] \<and> ca_credentials c = [BASIC_CREDENTIAL_TYPE]"

definition policy_view_accepts ::
    "('m, 'k, 'g, 'c, 'r) mls_rs \<Rightarrow> 'k \<Rightarrow> key_package_policy_view \<Rightarrow> bytes \<Rightarrow> bool" where
  "policy_view_accepts L kp view remaining \<longleftrightarrow>
     remaining = [] \<and> pv_version view = lib_kp_version L kp
     \<and> pv_cipher_suite view = lib_kp_cipher_suite L kp
     \<and> ln_signing_identity (pv_leaf_node view) = lib_kp_signing_identity L kp
     \<and> pv_extensions view = [] \<and> ln_extensions (pv_leaf_node view) = []
     \<and> phase_one_capabilities (ln_capabilities (pv_leaf_node view))"

definition basic_identity :: "mls_credential \<Rightarrow> bytes option" where
  "basic_identity c = (case c of MlsBasic identifier \<Rightarrow> Some identifier | MlsOtherCredential \<Rightarrow> None)"

definition fixed_bytes :: "mls_adapter_error \<Rightarrow> usize \<Rightarrow> bytes \<Rightarrow> mls_adapter_error + bytes" where
  "fixed_bytes error n bs = (if length bs = n then Ok bs else Err error)"

definition bind_key_package ::
    "('m, 'k, 'g, 'c, 'r) mls_rs \<Rightarrow> 'm \<Rightarrow> 'k \<Rightarrow> mls_adapter_error + 'm validated_key_package" where
  "bind_key_package L message kp =
     (let identity = lib_kp_signing_identity L kp in
      and_then (ok_or RejectedKeyPackage (basic_identity (si_credential identity))) (\<lambda>identifier.
      and_then (fixed_bytes RejectedKeyPackage SESSION_CREDENTIAL_ID_BYTES identifier) (\<lambda>credential.
      and_then (map_err (\<lambda>_. RejectedKeyPackage) (nonzero credential)) (\<lambda>_.
      and_then (fixed_bytes RejectedKeyPackage 32 (si_signature_key identity)) (\<lambda>leaf_key.
      if \<not> lib_suite_available L then Err UnexpectedProviderOutput
      else and_then (ok_or RejectedKeyPackage (lib_kp_reference L kp)) (\<lambda>reference.
      and_then (fixed_bytes UnexpectedProviderOutput KEY_PACKAGE_REFERENCE_BYTES reference) (\<lambda>reference.
        Ok \<lparr> vk_message = message, vk_reference = reference, vk_credential_identity = credential,
             vk_leaf_signature_key = leaf_key \<rparr>)))))))"

definition validate_key_package ::
    "('m, 'k, 'g, 'c, 'r) mls_rs \<Rightarrow> bytes \<Rightarrow> u64 \<Rightarrow> mls_adapter_error + 'm validated_key_package" where
  "validate_key_package L encoded now =
     (if encoded = [] \<or> length encoded > MAX_KEY_PACKAGE_BYTES
      then Err (if length encoded > MAX_KEY_PACKAGE_BYTES then InputTooLarge else MalformedKeyPackage)
      else and_then (map_err (\<lambda>_. MalformedKeyPackage) (decode_exact L encoded)) (\<lambda>message.
      if lib_wire_format L message \<noteq> KeyPackageFormat \<or> lib_message_suite L message \<noteq> Some CIPHERSUITE
      then Err RejectedKeyPackage
      else and_then (ok_or RejectedKeyPackage (lib_validate_key_package L message now)) (\<lambda>kp.
      if lib_as_key_package L message \<noteq> Some kp \<or> lib_kp_version L kp \<noteq> MLS_10
         \<or> lib_kp_cipher_suite L kp \<noteq> CIPHERSUITE \<or> lib_kp_extensions L kp \<noteq> []
      then Err RejectedKeyPackage
      else and_then (ok_or RejectedKeyPackage (lib_kp_encode L kp)) (\<lambda>encoded_kp.
      and_then (ok_or RejectedKeyPackage (lib_kp_view L encoded_kp)) (\<lambda>(view, remaining).
      if \<not> policy_view_accepts L kp view remaining then Err RejectedKeyPackage
      else bind_key_package L message kp)))))"

end
