(* ===== verification/Mls_Group.thy ===== *)
theory Mls_Group
  imports Mls_Provider
begin

text \<open>
  The two-member MLS group of \<open>crates/session-crypto-mls/src/lib.rs\<close>: its roster invariant, prepared
  and applied membership changes, application messages, and the authority under which a durable
  addition is written to storage. A prepared change borrows its group exclusively, so the group is
  passed beside it; dropping it unapplied clears the library's pending commit.
\<close>

section \<open>The group\<close>

text \<open>
  \<open>state_binding\<close> is an \<open>Arc<AtomicU64>\<close>: its identity and its value. \<open>sg_durable\<close> is the storage mode the
  type parameter carries.
\<close>

record 'g session_mls_group =
  sg_inner :: 'g
  sg_group_id :: bytes
  sg_binding :: nat
  sg_revision :: u64
  sg_pending_addition_revision :: "u64 option"
  sg_inactive :: bool
  sg_durable :: bool

definition epoch :: "('m, 'k, 'g, 'c, 'r) mls_rs \<Rightarrow> 'g session_mls_group \<Rightarrow> u64" where
  "epoch L s = lib_epoch L (sg_inner s)"

definition member_count :: "('m, 'k, 'g, 'c, 'r) mls_rs \<Rightarrow> 'g session_mls_group \<Rightarrow> usize" where
  "member_count L s = length (lib_members L (sg_inner s))"

definition phase_one_member :: "mls_member \<Rightarrow> bool" where
  "phase_one_member m \<longleftrightarrow>
     (case basic_identity (si_credential (mm_signing_identity m)) of None \<Rightarrow> False
      | Some identifier \<Rightarrow>
          length identifier = SESSION_CREDENTIAL_ID_BYTES \<and> \<not> all_zero identifier
          \<and> length (si_signature_key (mm_signing_identity m)) = 32 \<and> mm_extensions m = []
          \<and> phase_one_capabilities (mm_capabilities m))"

text \<open>The loop over the roster: \<open>seen\<close> holds the identities of the members already checked.\<close>

fun phase_one_members :: "bytes option list \<Rightarrow> mls_member list \<Rightarrow> bool" where
  "phase_one_members seen [] = True"
| "phase_one_members seen (m # ms) =
     (phase_one_member m
      \<and> basic_identity (si_credential (mm_signing_identity m)) \<notin> set seen
      \<and> phase_one_members (seen @ [basic_identity (si_credential (mm_signing_identity m))]) ms)"

definition phase_one_invariants_hold ::
    "('m, 'k, 'g, 'c, 'r) mls_rs \<Rightarrow> 'g session_mls_group \<Rightarrow> bool" where
  "phase_one_invariants_hold L s \<longleftrightarrow>
     lib_protocol_version L (sg_inner s) = MLS_10 \<and> lib_cipher_suite L (sg_inner s) = CIPHERSUITE
     \<and> lib_group_id L (sg_inner s) = sg_group_id s
     \<and> length (lib_members L (sg_inner s)) \<in> {1..2}
     \<and> phase_one_members [] (lib_members L (sg_inner s))"

text \<open>\<open>binding\<close> is the identity of the new \<open>Arc\<close>.\<close>

definition SessionMlsGroup_from_provider ::
    "('m, 'k, 'g, 'c, 'r) mls_rs \<Rightarrow> nat \<Rightarrow> bool \<Rightarrow> 'g \<Rightarrow> mls_adapter_error + 'g session_mls_group" where
  "SessionMlsGroup_from_provider L binding durable inner =
     and_then (fixed_bytes UnexpectedProviderOutput SESSION_GROUP_ID_BYTES (lib_group_id L inner)) (\<lambda>gid.
     and_then (map_err (\<lambda>_. UnexpectedProviderOutput) (SessionGroupId_new gid)) (\<lambda>gid.
       let s = \<lparr> sg_inner = inner, sg_group_id = gid, sg_binding = binding, sg_revision = 0,
                 sg_pending_addition_revision = None, sg_inactive = False, sg_durable = durable \<rparr> in
       if \<not> phase_one_invariants_hold L s then Err UnexpectedProviderOutput else Ok s))"

text \<open>\<open>fetch_add\<close> on an atomic integer wraps.\<close>

definition invalidate_state_binding :: "'g session_mls_group \<Rightarrow> 'g session_mls_group" where
  "invalidate_state_binding s = s \<lparr> sg_revision := sg_revision s + 1 \<rparr>"

definition clear_pending ::
    "('m, 'k, 'g, 'c, 'r) mls_rs \<Rightarrow> 'g session_mls_group \<Rightarrow> 'g session_mls_group" where
  "clear_pending L s = s \<lparr> sg_inner := lib_clear_pending L (sg_inner s) \<rparr>"

section \<open>Preparing membership changes\<close>

record prepared_addition =
  pa_epoch_before :: u64
  pa_reference :: bytes
  pa_credential_identity :: bytes
  pa_leaf_signature_key :: bytes
  pa_welcome :: bytes
  pa_commit :: bytes

text \<open>The checks of the commit output; a failure clears the pending commit.\<close>

definition check_addition ::
    "('m, 'k, 'g, 'c, 'r) mls_rs \<Rightarrow> bytes \<Rightarrow> 'm commit_output \<Rightarrow> mls_adapter_error + (bytes \<times> bytes)" where
  "check_addition L reference output =
     (case co_welcome_messages output of
        [welcome] \<Rightarrow>
          if reference \<notin> set (lib_welcome_references L welcome) then Err UnexpectedProviderOutput
          else and_then (WelcomeMessage_from_provider L welcome) (\<lambda>welcome.
            and_then (MlsWireMessage_from_provider L (co_commit_message output)) (\<lambda>commit.
              Ok (welcome, commit)))
      | _ \<Rightarrow> Err UnexpectedProviderOutput)"

definition prepare_add ::
    "('m, 'k, 'g, 'c, 'r) mls_rs \<Rightarrow> 'g session_mls_group \<Rightarrow> 'm validated_key_package \<Rightarrow> u64 \<Rightarrow>
     (mls_adapter_error + prepared_addition) \<times> 'g session_mls_group" where
  "prepare_add L s0 v now =
     (let s = invalidate_state_binding s0 in
      if member_count L s \<noteq> 1 then (Err GroupFull, s)
      else if list_ex (\<lambda>m. basic_identity (si_credential (mm_signing_identity m))
                = Some (vk_credential_identity v)) (lib_members L (sg_inner s))
      then (Err RejectedKeyPackage, s)
      else case lib_commit_add L (sg_inner s) (vk_message v) now of
        (None, inner) \<Rightarrow> (Err ProtocolRejected, s \<lparr> sg_inner := inner \<rparr>)
      | (Some output, inner) \<Rightarrow>
          let s' = s \<lparr> sg_inner := inner \<rparr> in
          (case check_addition L (vk_reference v) output of
             Inl e \<Rightarrow> (Err e, clear_pending L s')
           | Inr (welcome, commit) \<Rightarrow>
               (Ok \<lparr> pa_epoch_before = epoch L s, pa_reference = vk_reference v,
                     pa_credential_identity = vk_credential_identity v,
                     pa_leaf_signature_key = vk_leaf_signature_key v,
                     pa_welcome = welcome, pa_commit = commit \<rparr>, s')))"

record prepared_removal =
  pr_epoch_before :: u64
  pr_commit :: bytes

definition prepare_remove_peer ::
    "('m, 'k, 'g, 'c, 'r) mls_rs \<Rightarrow> 'g session_mls_group \<Rightarrow> u64 \<Rightarrow>
     (mls_adapter_error + prepared_removal) \<times> 'g session_mls_group" where
  "prepare_remove_peer L s0 now =
     (let s = invalidate_state_binding s0 in
      if member_count L s \<noteq> 2 then (Err ProtocolRejected, s)
      else case find (\<lambda>m. mm_index m \<noteq> lib_own_index L (sg_inner s)) (lib_members L (sg_inner s)) of
        None \<Rightarrow> (Err UnexpectedProviderOutput, s)
      | Some peer \<Rightarrow>
        (case lib_commit_remove L (sg_inner s) (mm_index peer) now of
           (None, inner) \<Rightarrow> (Err ProtocolRejected, s \<lparr> sg_inner := inner \<rparr>)
         | (Some output, inner) \<Rightarrow>
             let s' = s \<lparr> sg_inner := inner \<rparr> in
             if co_welcome_messages output \<noteq> [] then (Err UnexpectedProviderOutput, clear_pending L s')
             else (case MlsWireMessage_from_provider L (co_commit_message output) of
                 Inl e \<Rightarrow> (Err e, clear_pending L s')
               | Inr commit \<Rightarrow> (Ok \<lparr> pr_epoch_before = epoch L s, pr_commit = commit \<rparr>, s'))))"

record prepared_epoch_update =
  pu_epoch_before :: u64
  pu_member_count_before :: usize
  pu_commit :: bytes

definition prepare_epoch_update ::
    "('m, 'k, 'g, 'c, 'r) mls_rs \<Rightarrow> 'g session_mls_group \<Rightarrow> u64 \<Rightarrow>
     (mls_adapter_error + prepared_epoch_update) \<times> 'g session_mls_group" where
  "prepare_epoch_update L s0 now =
     (let s = invalidate_state_binding s0 in
      if sg_inactive s \<or> member_count L s \<notin> {1..2} then (Err ProtocolRejected, s)
      else case lib_commit_update L (sg_inner s) now of
        (None, inner) \<Rightarrow> (Err ProtocolRejected, s \<lparr> sg_inner := inner \<rparr>)
      | (Some output, inner) \<Rightarrow>
          let s' = s \<lparr> sg_inner := inner \<rparr> in
          if \<not> co_contains_update_path output \<or> co_welcome_messages output \<noteq> []
          then (Err UnexpectedProviderOutput, clear_pending L s')
          else (case MlsWireMessage_from_provider L (co_commit_message output) of
              Inl e \<Rightarrow> (Err e, clear_pending L s')
            | Inr commit \<Rightarrow> (Ok \<lparr> pu_epoch_before = epoch L s, pu_member_count_before = member_count L s,
                                  pu_commit = commit \<rparr>, s')))"

section \<open>Applying them\<close>

text \<open>
  The three kinds of change are applied alike: the library applies its pending commit, then the epoch
  must have advanced by one, the roster must have the expected size and the invariant must hold.
  Otherwise the group becomes inactive, and the dropped change clears the pending commit.
\<close>

definition apply_pending ::
    "('m, 'k, 'g, 'c, 'r) mls_rs \<Rightarrow> u64 \<Rightarrow> usize \<Rightarrow> 'g session_mls_group \<Rightarrow>
     (mls_adapter_error + unit) \<times> 'g session_mls_group" where
  "apply_pending L epoch_before expected s =
     (case lib_apply_pending L (sg_inner s) of
        (False, inner) \<Rightarrow> (Err ProtocolRejected, clear_pending L (s \<lparr> sg_inner := inner \<rparr>))
      | (True, inner) \<Rightarrow>
          let s' = s \<lparr> sg_inner := inner \<rparr> in
          if epoch L s' \<noteq> epoch_before + 1 \<or> member_count L s' \<noteq> expected
             \<or> \<not> phase_one_invariants_hold L s'
          then (Err UnexpectedProviderOutput, clear_pending L (s' \<lparr> sg_inactive := True \<rparr>))
          else (Ok (), s'))"

record applied_addition =
  aa_group_id :: bytes
  aa_epoch_before :: u64
  aa_epoch_after :: u64
  aa_binding :: nat
  aa_revision :: u64
  aa_authority :: nat
  aa_reference :: bytes
  aa_credential_identity :: bytes
  aa_leaf_signature_key :: bytes
  aa_welcome :: bytes
  aa_commit :: bytes

text \<open>\<open>authority\<close> is the identity of the fresh write authority.\<close>

definition apply_provider ::
    "('m, 'k, 'g, 'c, 'r) mls_rs \<Rightarrow> nat \<Rightarrow> prepared_addition \<Rightarrow> 'g session_mls_group \<Rightarrow>
     (mls_adapter_error + applied_addition) \<times> 'g session_mls_group" where
  "apply_provider L authority p s =
     (case apply_pending L (pa_epoch_before p) 2 s of
        (Inl e, s) \<Rightarrow> (Err e, s)
      | (Inr _, s) \<Rightarrow>
          let s' = invalidate_state_binding s in
          (Ok \<lparr> aa_group_id = sg_group_id s', aa_epoch_before = pa_epoch_before p,
                aa_epoch_after = epoch L s', aa_binding = sg_binding s', aa_revision = sg_revision s',
                aa_authority = authority, aa_reference = pa_reference p,
                aa_credential_identity = pa_credential_identity p,
                aa_leaf_signature_key = pa_leaf_signature_key p,
                aa_welcome = pa_welcome p, aa_commit = pa_commit p \<rparr>, s'))"

definition apply_transient_addition ::
    "('m, 'k, 'g, 'c, 'r) mls_rs \<Rightarrow> nat \<Rightarrow> prepared_addition \<Rightarrow> 'g session_mls_group \<Rightarrow>
     (mls_adapter_error + applied_addition) \<times> 'g session_mls_group" where
  "apply_transient_addition L authority p s = apply_provider L authority p s"

definition apply_durable_addition ::
    "('m, 'k, 'g, 'c, 'r) mls_rs \<Rightarrow> nat \<Rightarrow> prepared_addition \<Rightarrow> 'g session_mls_group \<Rightarrow>
     (mls_adapter_error + applied_addition) \<times> 'g session_mls_group" where
  "apply_durable_addition L authority p s =
     (case apply_provider L authority p s of (Inl e, s) \<Rightarrow> (Err e, s)
      | (Inr a, s) \<Rightarrow> (Ok a, s \<lparr> sg_pending_addition_revision := Some (aa_revision a) \<rparr>))"

definition drop_prepared ::
    "('m, 'k, 'g, 'c, 'r) mls_rs \<Rightarrow> 'g session_mls_group \<Rightarrow> 'g session_mls_group" where
  "drop_prepared L s = clear_pending L s"

definition apply_removal ::
    "('m, 'k, 'g, 'c, 'r) mls_rs \<Rightarrow> prepared_removal \<Rightarrow> 'g session_mls_group \<Rightarrow>
     (mls_adapter_error + bytes) \<times> 'g session_mls_group" where
  "apply_removal L p s =
     (case apply_pending L (pr_epoch_before p) 1 s of (Inl e, s) \<Rightarrow> (Err e, s)
      | (Inr _, s) \<Rightarrow> (Ok (pr_commit p), s))"

definition apply_epoch_update ::
    "('m, 'k, 'g, 'c, 'r) mls_rs \<Rightarrow> prepared_epoch_update \<Rightarrow> 'g session_mls_group \<Rightarrow>
     (mls_adapter_error + bytes) \<times> 'g session_mls_group" where
  "apply_epoch_update L p s =
     (case apply_pending L (pu_epoch_before p) (pu_member_count_before p) s of (Inl e, s) \<Rightarrow> (Err e, s)
      | (Inr _, s) \<Rightarrow> (Ok (pu_commit p), s))"

section \<open>Application messages\<close>

datatype incoming_message = IncomingApplication bytes | IncomingEpochAdvanced | IncomingRemoved

definition encrypt_application_message ::
    "('m, 'k, 'g, 'c, 'r) mls_rs \<Rightarrow> 'g session_mls_group \<Rightarrow> bytes \<Rightarrow>
     (mls_adapter_error + bytes) \<times> 'g session_mls_group" where
  "encrypt_application_message L s0 plaintext =
     (let s = invalidate_state_binding s0 in
      if sg_inactive s then (Err ProtocolRejected, s)
      else if length plaintext > MAX_APPLICATION_MESSAGE_BYTES then (Err InputTooLarge, s)
      else case lib_encrypt L (sg_inner s) plaintext of
        (None, inner) \<Rightarrow> (Err ProtocolRejected, s \<lparr> sg_inner := inner \<rparr>)
      | (Some message, inner) \<Rightarrow> (MlsWireMessage_from_provider L message, s \<lparr> sg_inner := inner \<rparr>))"

definition process_message ::
    "('m, 'k, 'g, 'c, 'r) mls_rs \<Rightarrow> 'g session_mls_group \<Rightarrow> bytes \<Rightarrow>
     (mls_adapter_error + incoming_message) \<times> 'g session_mls_group" where
  "process_message L s0 encoded =
     (let s = invalidate_state_binding s0 in
      if sg_inactive s then (Err ProtocolRejected, s)
      else case decode_exact L encoded of Inl _ \<Rightarrow> (Err ProtocolRejected, s)
      | Inr message \<Rightarrow>
        (case lib_process L (sg_inner s) message of
           (None, inner) \<Rightarrow> (Err ProtocolRejected, s \<lparr> sg_inner := inner \<rparr>)
         | (Some received, inner) \<Rightarrow>
             let s' = s \<lparr> sg_inner := inner \<rparr> in
             (case received of
                ReceivedApplication plain authenticated \<Rightarrow>
                  (if length plain > MAX_APPLICATION_MESSAGE_BYTES \<or> authenticated \<noteq> []
                   then Err ProtocolRejected else Ok (IncomingApplication plain), s')
              | ReceivedCommit NewEpoch \<Rightarrow>
                  if \<not> phase_one_invariants_hold L s'
                  then (Err ProtocolRejected, s' \<lparr> sg_inactive := True \<rparr>)
                  else (Ok IncomingEpochAdvanced, s')
              | ReceivedCommit RemovedEffect \<Rightarrow> (Ok IncomingRemoved, s' \<lparr> sg_inactive := True \<rparr>)
              | ReceivedCommit ReInit \<Rightarrow> (Err ProtocolRejected, s')
              | ReceivedOther \<Rightarrow> (Err ProtocolRejected, s'))))"

definition protect_application_message ::
    "('m, 'k, 'g, 'c, 'r) mls_rs \<Rightarrow> 'g session_mls_group \<Rightarrow> bytes \<Rightarrow>
     (message_session_error + bytes) \<times> 'g session_mls_group" where
  "protect_application_message L s plaintext =
     (case validate_application_message plaintext of Inl e \<Rightarrow> (Err e, s)
      | Inr _ \<Rightarrow>
        (case encrypt_application_message L s plaintext of
           (Inl e, s) \<Rightarrow> (Err (message_session_error_of e), s)
         | (Inr message, s) \<Rightarrow> (ProtectedMessage_from_vec message, s)))"

definition process_protected_message ::
    "('m, 'k, 'g, 'c, 'r) mls_rs \<Rightarrow> 'g session_mls_group \<Rightarrow> bytes \<Rightarrow>
     (message_session_error + message_event) \<times> 'g session_mls_group" where
  "process_protected_message L s message =
     (case process_message L s message of
        (Inl e, s) \<Rightarrow> (Err (message_session_error_of e), s)
      | (Inr (IncomingApplication plaintext), s) \<Rightarrow>
          (and_then (ApplicationMessage_from_vec plaintext) (\<lambda>m. Ok (EventApplication m)), s)
      | (Inr IncomingEpochAdvanced, s) \<Rightarrow> (Ok EventEpochAdvanced, s)
      | (Inr IncomingRemoved, s) \<Rightarrow> (Ok EventRemoved, s))"

end
