(* ===== verification/Mls_Persistence.thy ===== *)
theory Mls_Persistence
  imports Mls_Group
begin

text \<open>
  How a group of \<open>crates/session-crypto-mls/src/lib.rs\<close> reaches storage: the digest of a storage call, the
  authority that binds one call to one applied addition, and the staged write of a durable addition.
  SHA-256 is a parameter. Threads and authorities (an \<open>Arc\<close> each) are numbers; a mutex of this code is
  poisoned only by a panic inside a critical section, and none of them can panic, so locking
  always succeeds here.
\<close>

section \<open>The digest of a storage call\<close>

definition PROVIDER_STATE_WRITE_DIGEST_CONTEXT :: bytes where
  "PROVIDER_STATE_WRITE_DIGEST_CONTEXT =
     map (\<lambda>c. of_nat (of_char c)) ''session-chat/provider-state-write/v1''"

definition update_provider_state_digest_bytes :: "bytes \<Rightarrow> mls_adapter_error + bytes" where
  "update_provider_state_digest_bytes bs =
     (if length bs \<ge> 2 ^ 64 then Err InputTooLarge else Ok (be_bytes 8 (length bs) @ bs))"

fun digest_epoch_records :: "(u64 \<times> bytes) list \<Rightarrow> mls_adapter_error + bytes" where
  "digest_epoch_records [] = Ok []"
| "digest_epoch_records ((epoch_id, bs) # es) =
     and_then (update_provider_state_digest_bytes bs) (\<lambda>b.
     and_then (digest_epoch_records es) (\<lambda>rest. Ok (be_bytes 8 (unat epoch_id) @ b @ rest)))"

definition update_provider_state_digest_epochs ::
    "u8 \<Rightarrow> (u64 \<times> bytes) list \<Rightarrow> mls_adapter_error + bytes" where
  "update_provider_state_digest_epochs kind es =
     (if length es \<ge> 2 ^ 64 then Err InputTooLarge
      else and_then (digest_epoch_records es) (\<lambda>b. Ok (kind # be_bytes 8 (length es) @ b)))"

definition provider_state_write_input :: "provider_state_write \<Rightarrow> mls_adapter_error + bytes" where
  "provider_state_write_input w =
     and_then (update_provider_state_digest_bytes (ps_group_id w)) (\<lambda>gid.
     and_then (update_provider_state_digest_bytes (ps_data w)) (\<lambda>data.
     and_then (update_provider_state_digest_epochs 73 (ps_epoch_inserts w)) (\<lambda>inserts.
     and_then (update_provider_state_digest_epochs 85 (ps_epoch_updates w)) (\<lambda>updates.
       Ok (PROVIDER_STATE_WRITE_DIGEST_CONTEXT @ gid @ data @ inserts @ updates)))))"

definition provider_state_write_digest ::
    "(bytes \<Rightarrow> bytes) \<Rightarrow> provider_state_write \<Rightarrow> mls_adapter_error + bytes" where
  "provider_state_write_digest sha256 w =
     and_then (provider_state_write_input w) (\<lambda>input.
       fixed_bytes UnexpectedProviderOutput 32 (sha256 input))"

section \<open>Write authorities\<close>

record write_authorities =
  wa_active :: "nat \<Rightarrow> (nat \<times> bytes option) option"
  wa_current :: "nat \<Rightarrow> nat option"

definition activate :: "nat \<Rightarrow> nat \<Rightarrow> write_authorities \<Rightarrow> mls_adapter_error + write_authorities" where
  "activate thread authority w =
     (if wa_active w authority \<noteq> None then Err ProtocolRejected
      else if wa_current w thread \<noteq> None then Err ProtocolRejected
      else Ok (w \<lparr> wa_current := (wa_current w)(thread := Some authority),
                   wa_active := (wa_active w)(authority := Some (thread, None)) \<rparr>))"

definition capture ::
    "(bytes \<Rightarrow> bytes) \<Rightarrow> nat \<Rightarrow> nat \<Rightarrow> provider_state_write \<Rightarrow> write_authorities \<Rightarrow>
     mls_adapter_error + write_authorities" where
  "capture sha256 thread authority call w =
     and_then (provider_state_write_digest sha256 call) (\<lambda>digest.
       case wa_active w authority of None \<Rightarrow> Err ProtocolRejected
       | Some (owner, captured) \<Rightarrow>
           if owner \<noteq> thread then Err ProtocolRejected
           else if captured \<noteq> None then Err ProtocolRejected
           else Ok (w \<lparr> wa_active := (wa_active w)(authority := Some (owner, Some digest)) \<rparr>))"

definition authorizes_current_write ::
    "(bytes \<Rightarrow> bytes) \<Rightarrow> nat \<Rightarrow> nat \<Rightarrow> provider_state_write \<Rightarrow> write_authorities \<Rightarrow> bool" where
  "authorizes_current_write sha256 thread authority call w =
     (case provider_state_write_digest sha256 call of Inl _ \<Rightarrow> False
      | Inr digest \<Rightarrow> wa_active w authority = Some (thread, Some digest))"

definition capture_current_provider_state_write ::
    "(bytes \<Rightarrow> bytes) \<Rightarrow> nat \<Rightarrow> provider_state_write \<Rightarrow> write_authorities \<Rightarrow>
     mls_adapter_error + write_authorities" where
  "capture_current_provider_state_write sha256 thread call w =
     (case wa_current w thread of None \<Rightarrow> Ok w
      | Some authority \<Rightarrow> capture sha256 thread authority call w)"

definition release_guard :: "nat \<Rightarrow> nat \<Rightarrow> write_authorities \<Rightarrow> write_authorities" where
  "release_guard thread authority w =
     w \<lparr> wa_active := (wa_active w)(authority := None),
         wa_current := (if wa_current w thread = Some authority then (wa_current w)(thread := None)
                        else wa_current w) \<rparr>"

section \<open>Writing a group\<close>

text \<open>
  \<open>'st\<close> is the storage behind the library's storage trait. \<open>store\<close> is its write method: it may inspect the
  authorities, which is how a storage adapter recognises the write it has been staged for.
\<close>

type_synonym 'st store_write =
  "write_authorities \<Rightarrow> nat \<Rightarrow> provider_state_write \<Rightarrow> 'st \<Rightarrow> bool \<times> 'st"

definition bound_storage_write ::
    "(bytes \<Rightarrow> bytes) \<Rightarrow> 'st store_write \<Rightarrow> nat \<Rightarrow> provider_state_write \<Rightarrow> write_authorities \<times> 'st \<Rightarrow>
     bool \<times> write_authorities \<times> 'st" where
  "bound_storage_write sha256 store thread call = (\<lambda>(w, st).
     case capture_current_provider_state_write sha256 thread call w of
       Inl _ \<Rightarrow> (False, w, st)
     | Inr w \<Rightarrow> (case store w thread call st of (ok, st) \<Rightarrow> (ok, w, st)))"

definition write_provider_state ::
    "('m, 'k, 'g, 'c, 'r) mls_rs \<Rightarrow> (bytes \<Rightarrow> bytes) \<Rightarrow> 'st store_write \<Rightarrow> nat \<Rightarrow> 'g session_mls_group \<Rightarrow>
     write_authorities \<times> 'st \<Rightarrow> (mls_adapter_error + unit) \<times> 'g session_mls_group \<times> write_authorities \<times> 'st"
  where
  "write_provider_state L sha256 store thread s env =
     (case lib_snapshot L (sg_inner s) of None \<Rightarrow> (Err ProtocolRejected, s, env)
      | Some call \<Rightarrow>
        (case bound_storage_write sha256 store thread call env of
           (False, env) \<Rightarrow> (Err ProtocolRejected, s, env)
         | (True, env) \<Rightarrow> (Ok (), s \<lparr> sg_inner := lib_written L (sg_inner s) \<rparr>, env)))"

definition write_transient_state_to_storage ::
    "('m, 'k, 'g, 'c, 'r) mls_rs \<Rightarrow> (bytes \<Rightarrow> bytes) \<Rightarrow> 'st store_write \<Rightarrow> nat \<Rightarrow> 'g session_mls_group \<Rightarrow>
     write_authorities \<times> 'st \<Rightarrow> (mls_adapter_error + unit) \<times> 'g session_mls_group \<times> write_authorities \<times> 'st"
  where
  "write_transient_state_to_storage L sha256 store thread s env =
     write_provider_state L sha256 store thread s env"

definition write_to_storage ::
    "('m, 'k, 'g, 'c, 'r) mls_rs \<Rightarrow> (bytes \<Rightarrow> bytes) \<Rightarrow> 'st store_write \<Rightarrow> nat \<Rightarrow> 'g session_mls_group \<Rightarrow>
     write_authorities \<times> 'st \<Rightarrow> (mls_adapter_error + unit) \<times> 'g session_mls_group \<times> write_authorities \<times> 'st"
  where
  "write_to_storage L sha256 store thread s env =
     (if sg_pending_addition_revision s \<noteq> None then (Err ProtocolRejected, s, env)
      else write_provider_state L sha256 store thread s env)"

section \<open>The staged write of a durable addition\<close>

datatype 'e persistence_error = Staging 'e | StaleSnapshot | ProviderError mls_adapter_error

record storage_binding =
  sb_group_id :: bytes
  sb_epoch_before :: u64
  sb_epoch_after :: u64
  sb_reference :: bytes
  sb_credential_identity :: bytes
  sb_leaf_signature_key :: bytes
  sb_welcome :: bytes
  sb_authority :: nat

definition authorizes_current_provider_write ::
    "(bytes \<Rightarrow> bytes) \<Rightarrow> nat \<Rightarrow> storage_binding \<Rightarrow> provider_state_write \<Rightarrow> write_authorities \<Rightarrow> bool" where
  "authorizes_current_provider_write sha256 thread b call w =
     authorizes_current_write sha256 thread (sb_authority b) call w"

definition welcome_for_current_provider_write ::
    "(bytes \<Rightarrow> bytes) \<Rightarrow> nat \<Rightarrow> storage_binding \<Rightarrow> provider_state_write \<Rightarrow> write_authorities \<Rightarrow> bytes option"
  where
  "welcome_for_current_provider_write sha256 thread b call w =
     (if authorizes_current_provider_write sha256 thread b call w then Some (sb_welcome b) else None)"

record persisted_addition =
  pe_welcome :: bytes
  pe_commit :: bytes

definition binding_of :: "applied_addition \<Rightarrow> storage_binding" where
  "binding_of a =
     \<lparr> sb_group_id = aa_group_id a, sb_epoch_before = aa_epoch_before a, sb_epoch_after = aa_epoch_after a,
       sb_reference = aa_reference a, sb_credential_identity = aa_credential_identity a,
       sb_leaf_signature_key = aa_leaf_signature_key a, sb_welcome = aa_welcome a,
       sb_authority = aa_authority a \<rparr>"

definition is_stale ::
    "('m, 'k, 'g, 'c, 'r) mls_rs \<Rightarrow> applied_addition \<Rightarrow> 'g session_mls_group \<Rightarrow> bool" where
  "is_stale L a s \<longleftrightarrow>
     aa_binding a \<noteq> sg_binding s \<or> aa_revision a \<noteq> sg_revision s
     \<or> sg_pending_addition_revision s \<noteq> Some (aa_revision a)
     \<or> aa_group_id a \<noteq> sg_group_id s \<or> aa_epoch_after a \<noteq> epoch L s"

definition write_staged ::
    "('m, 'k, 'g, 'c, 'r) mls_rs \<Rightarrow> (bytes \<Rightarrow> bytes) \<Rightarrow> 'st store_write \<Rightarrow> nat \<Rightarrow> applied_addition \<Rightarrow>
     'g session_mls_group \<Rightarrow> write_authorities \<times> 'st \<Rightarrow>
     ('e persistence_error + persisted_addition) \<times> 'g session_mls_group \<times> write_authorities \<times> 'st" where
  "write_staged L sha256 store thread a s = (\<lambda>(w, st).
     case activate thread (aa_authority a) w of Inl e \<Rightarrow> (Err (ProviderError e), s, w, st)
     | Inr w \<Rightarrow>
       (case write_provider_state L sha256 store thread s (w, st) of
          (Inl e, s, w, st) \<Rightarrow> (Err (ProviderError e), s, release_guard thread (aa_authority a) w, st)
        | (Inr _, s, w, st) \<Rightarrow>
            (Ok \<lparr> pe_welcome = aa_welcome a, pe_commit = aa_commit a \<rparr>,
             s \<lparr> sg_pending_addition_revision := None \<rparr>,
             release_guard thread (aa_authority a) w, st)))"

text \<open>
  \<open>stage\<close> is the caller's callback. It cannot reach the group, which is borrowed, so the second check
  of the revision sees the same group.
\<close>

definition stage_and_write_to_storage ::
    "('m, 'k, 'g, 'c, 'r) mls_rs \<Rightarrow> (bytes \<Rightarrow> bytes) \<Rightarrow> 'st store_write \<Rightarrow> nat \<Rightarrow>
     (storage_binding \<Rightarrow> 'st \<Rightarrow> ('e + unit) \<times> 'st) \<Rightarrow> applied_addition \<Rightarrow>
     'g session_mls_group \<Rightarrow> write_authorities \<times> 'st \<Rightarrow>
     ('e persistence_error + persisted_addition) \<times> 'g session_mls_group \<times> write_authorities \<times> 'st" where
  "stage_and_write_to_storage L sha256 store thread stage a s = (\<lambda>(w, st).
     if is_stale L a s then (Err StaleSnapshot, s, w, st)
     else case stage (binding_of a) st of
       (Inl e, st) \<Rightarrow> (Err (Staging e), s, w, st)
     | (Inr _, st) \<Rightarrow>
         if aa_revision a \<noteq> sg_revision s \<or> sg_pending_addition_revision s \<noteq> Some (aa_revision a)
         then (Err StaleSnapshot, s, w, st)
         else write_staged L sha256 store thread a s (w, st))"

end
