(* ===== verification/Mls_Client.thy ===== *)
theory Mls_Client
  imports Mls_Group
begin

text \<open>
  Clients of \<open>crates/session-crypto-mls/src/lib.rs\<close>: the durable identity record and its storage, transient
  and durable clients, and the transitions that let a transient client be used once.
\<close>

section \<open>The durable identity record\<close>

definition DURABLE_CLIENT_IDENTITY_BYTES :: usize where "DURABLE_CLIENT_IDENTITY_BYTES = 141"
definition DURABLE_IDENTITY_MAGIC :: bytes where
  "DURABLE_IDENTITY_MAGIC = map (\<lambda>c. of_nat (of_char c)) ''SCMLSID1''"
definition DURABLE_IDENTITY_FORMAT_VERSION :: u8 where "DURABLE_IDENTITY_FORMAT_VERSION = 1"
definition DURABLE_IDENTITY_PROTOCOL_MLS_10 :: u8 where "DURABLE_IDENTITY_PROTOCOL_MLS_10 = 1"
definition DURABLE_IDENTITY_CIPHERSUITE :: u16 where "DURABLE_IDENTITY_CIPHERSUITE = 1"
definition DURABLE_IDENTITY_PROVIDER_AWS_LC :: u8 where "DURABLE_IDENTITY_PROVIDER_AWS_LC = 1"
definition SIGNATURE_PUBLIC_KEY_BYTES :: usize where "SIGNATURE_PUBLIC_KEY_BYTES = 32"
definition SIGNATURE_SECRET_KEY_BYTES :: usize where "SIGNATURE_SECRET_KEY_BYTES = 64"
definition DURABLE_IDENTITY_KEY_CHECK :: bytes where
  "DURABLE_IDENTITY_KEY_CHECK = map (\<lambda>c. of_nat (of_char c)) ''session-chat/durable-mls-identity/v1''"

record durable_client_identity =
  di_credential_identity :: bytes
  di_signature_public_key :: bytes
  di_signature_secret_key :: bytes

definition DurableClientIdentityRecord_from_storage_bytes :: "bytes \<Rightarrow> mls_adapter_error + bytes" where
  "DurableClientIdentityRecord_from_storage_bytes encoded =
     (if length encoded \<noteq> DURABLE_CLIENT_IDENTITY_BYTES then Err ProtocolRejected else Ok encoded)"

definition DurableClientIdentity_from_parts ::
    "('m, 'k, 'g, 'c, 'r) mls_rs \<Rightarrow> bytes \<Rightarrow> bytes \<Rightarrow> bytes \<Rightarrow> mls_adapter_error + durable_client_identity"
  where
  "DurableClientIdentity_from_parts L credential public secret =
     and_then (fixed_bytes ProtocolRejected SIGNATURE_PUBLIC_KEY_BYTES public) (\<lambda>public.
     if length secret \<noteq> SIGNATURE_SECRET_KEY_BYTES then Err ProtocolRejected
     else if all_zero credential \<or> all_zero public \<or> all_zero secret then Err ProtocolRejected
     else if \<not> lib_suite_available L then Err UnexpectedProviderOutput
     else and_then (ok_or ProtocolRejected (lib_signature_derive_public L secret)) (\<lambda>derived.
     if derived \<noteq> public then Err ProtocolRejected
     else and_then (ok_or ProtocolRejected (lib_sign L secret DURABLE_IDENTITY_KEY_CHECK)) (\<lambda>signature.
     if \<not> lib_verify L public signature DURABLE_IDENTITY_KEY_CHECK then Err ProtocolRejected
     else Ok \<lparr> di_credential_identity = credential, di_signature_public_key = public,
               di_signature_secret_key = secret \<rparr>)))"

definition DurableClientIdentity_generate ::
    "('m, 'k, 'g, 'c, 'r) mls_rs \<Rightarrow> 'r \<Rightarrow> (mls_adapter_error + durable_client_identity) \<times> 'r" where
  "DurableClientIdentity_generate L r =
     (if \<not> lib_suite_available L then (Err UnexpectedProviderOutput, r)
      else case lib_random_bytes L SESSION_CREDENTIAL_ID_BYTES r of
        (None, r) \<Rightarrow> (Err ProtocolRejected, r)
      | (Some credential, r) \<Rightarrow>
        (case lib_signature_generate L r of (None, r) \<Rightarrow> (Err ProtocolRejected, r)
         | (Some (secret, public), r) \<Rightarrow> (DurableClientIdentity_from_parts L credential public secret, r)))"

definition slice :: "nat \<Rightarrow> nat \<Rightarrow> 'a list \<Rightarrow> 'a list" where
  "slice i j xs = take (j - i) (drop i xs)"

definition DurableClientIdentity_decode ::
    "('m, 'k, 'g, 'c, 'r) mls_rs \<Rightarrow> bytes \<Rightarrow> mls_adapter_error + durable_client_identity" where
  "DurableClientIdentity_decode L encoded =
     (if length encoded \<noteq> DURABLE_CLIENT_IDENTITY_BYTES
         \<or> slice 0 8 encoded \<noteq> DURABLE_IDENTITY_MAGIC
         \<or> encoded ! 8 \<noteq> DURABLE_IDENTITY_FORMAT_VERSION
         \<or> encoded ! 9 \<noteq> DURABLE_IDENTITY_PROTOCOL_MLS_10
         \<or> be_nat [encoded ! 10, encoded ! 11] \<noteq> unat DURABLE_IDENTITY_CIPHERSUITE
         \<or> encoded ! 12 \<noteq> DURABLE_IDENTITY_PROVIDER_AWS_LC
      then Err ProtocolRejected
      else DurableClientIdentity_from_parts L (slice 13 45 encoded) (slice 45 77 encoded)
             (slice 77 141 encoded))"

definition DurableClientIdentity_encode :: "durable_client_identity \<Rightarrow> bytes" where
  "DurableClientIdentity_encode d =
     DURABLE_IDENTITY_MAGIC @ [DURABLE_IDENTITY_FORMAT_VERSION, DURABLE_IDENTITY_PROTOCOL_MLS_10]
     @ be_bytes 2 (unat DURABLE_IDENTITY_CIPHERSUITE) @ [DURABLE_IDENTITY_PROVIDER_AWS_LC]
     @ di_credential_identity d @ di_signature_public_key d @ di_signature_secret_key d"

section \<open>Clients\<close>

definition TRANSIENT_CLIENT_FRESH :: u8 where "TRANSIENT_CLIENT_FRESH = 0"
definition TRANSIENT_CLIENT_KEY_PACKAGE_ISSUED :: u8 where "TRANSIENT_CLIENT_KEY_PACKAGE_ISSUED = 1"
definition TRANSIENT_CLIENT_CONSUMED :: u8 where "TRANSIENT_CLIENT_CONSUMED = 2"

record 'c session_mls_client =
  sc_inner :: 'c
  sc_credential_identity :: bytes
  sc_signature_public_key :: bytes
  sc_bound_group_id :: "bytes option"
  sc_transient_use_state :: u8
  sc_durable :: bool

definition transient_client ::
    "('m, 'k, 'g, 'c, 'r) mls_rs \<Rightarrow> bytes \<Rightarrow> 'r \<Rightarrow> (mls_adapter_error + 'c session_mls_client) \<times> 'r" where
  "transient_client L credential r =
     (case lib_signature_generate L r of (None, r) \<Rightarrow> (Err ProtocolRejected, r)
      | (Some (secret, public), r) \<Rightarrow>
        (and_then (fixed_bytes UnexpectedProviderOutput SIGNATURE_PUBLIC_KEY_BYTES public) (\<lambda>key.
           Ok \<lparr> sc_inner = lib_build_client L \<lparr> si_credential = MlsBasic credential, si_signature_key = public \<rparr> secret,
                sc_credential_identity = credential, sc_signature_public_key = key,
                sc_bound_group_id = None, sc_transient_use_state = TRANSIENT_CLIENT_FRESH,
                sc_durable = False \<rparr>), r))"

definition create_client_with_credential_identity ::
    "('m, 'k, 'g, 'c, 'r) mls_rs \<Rightarrow> bytes \<Rightarrow> 'r \<Rightarrow> (mls_adapter_error + 'c session_mls_client) \<times> 'r" where
  "create_client_with_credential_identity L credential r =
     (if \<not> lib_suite_available L then (Err UnexpectedProviderOutput, r)
      else transient_client L credential r)"

definition create_client ::
    "('m, 'k, 'g, 'c, 'r) mls_rs \<Rightarrow> 'r \<Rightarrow> (mls_adapter_error + 'c session_mls_client) \<times> 'r" where
  "create_client L r =
     (if \<not> lib_suite_available L then (Err UnexpectedProviderOutput, r)
      else case lib_random_bytes L SESSION_CREDENTIAL_ID_BYTES r of
        (None, r) \<Rightarrow> (Err ProtocolRejected, r)
      | (Some bs, r) \<Rightarrow>
          if all_zero bs then (Err UnexpectedProviderOutput, r)
          else create_client_with_credential_identity L bs r)"

text \<open>
  The stores a caller supplies are inside the client the library builds; this constructor takes the
  library with those stores.
\<close>

definition create_transient_client_with_storage ::
    "('m, 'k, 'g, 'c, 'r) mls_rs \<Rightarrow> 'r \<Rightarrow> (mls_adapter_error + 'c session_mls_client) \<times> 'r" where
  "create_transient_client_with_storage L r =
     (if \<not> lib_suite_available L then (Err UnexpectedProviderOutput, r)
      else case lib_random_bytes L SESSION_CREDENTIAL_ID_BYTES r of
        (None, r) \<Rightarrow> (Err ProtocolRejected, r)
      | (Some bs, r) \<Rightarrow>
          if all_zero bs then (Err UnexpectedProviderOutput, r) else transient_client L bs r)"

definition build_stored_client ::
    "('m, 'k, 'g, 'c, 'r) mls_rs \<Rightarrow> durable_client_identity \<Rightarrow> bytes \<Rightarrow> 'c session_mls_client" where
  "build_stored_client L d gid =
     \<lparr> sc_inner = lib_build_client L \<lparr> si_credential = MlsBasic (di_credential_identity d),
           si_signature_key = di_signature_public_key d \<rparr> (di_signature_secret_key d),
       sc_credential_identity = di_credential_identity d,
       sc_signature_public_key = di_signature_public_key d,
       sc_bound_group_id = Some gid, sc_transient_use_state = TRANSIENT_CLIENT_FRESH,
       sc_durable = True \<rparr>"

text \<open>The \<open>DurableClientIdentityStorage\<close> trait.\<close>

record 'st identity_storage =
  is_load :: "bytes \<Rightarrow> 'st \<Rightarrow> unit + bytes option"
  is_insert :: "bytes \<Rightarrow> bytes \<Rightarrow> 'st \<Rightarrow> (unit + unit) \<times> 'st"

definition create_durable_client_with_storage ::
    "('m, 'k, 'g, 'c, 'r) mls_rs \<Rightarrow> 'st identity_storage \<Rightarrow> bytes \<Rightarrow> 'r \<Rightarrow> 'st \<Rightarrow>
     (mls_adapter_error + 'c session_mls_client) \<times> 'r \<times> 'st" where
  "create_durable_client_with_storage L S gid r st =
     (case is_load S gid st of Inl _ \<Rightarrow> (Err ProtocolRejected, r, st)
      | Inr (Some _) \<Rightarrow> (Err ProtocolRejected, r, st)
      | Inr None \<Rightarrow>
        (case DurableClientIdentity_generate L r of (Inl e, r) \<Rightarrow> (Err e, r, st)
         | (Inr d, r) \<Rightarrow>
           (case is_insert S gid (DurableClientIdentity_encode d) st of
              (Inl _, st) \<Rightarrow> (Err ProtocolRejected, r, st)
            | (Inr _, st) \<Rightarrow> (Ok (build_stored_client L d gid), r, st))))"

definition load_durable_client_with_storage ::
    "('m, 'k, 'g, 'c, 'r) mls_rs \<Rightarrow> 'st identity_storage \<Rightarrow> bytes \<Rightarrow> 'st \<Rightarrow>
     mls_adapter_error + 'c session_mls_client" where
  "load_durable_client_with_storage L S gid st =
     and_then (map_err (\<lambda>_. ProtocolRejected) (is_load S gid st)) (\<lambda>stored.
     and_then (ok_or ProtocolRejected stored) (\<lambda>encoded.
     and_then (DurableClientIdentity_decode L encoded) (\<lambda>d. Ok (build_stored_client L d gid))))"

definition transition_transient_use ::
    "'c session_mls_client \<Rightarrow> u8 \<Rightarrow> u8 \<Rightarrow> mls_adapter_error + 'c session_mls_client" where
  "transition_transient_use cl expected next =
     (if sc_durable cl then Ok cl
      else if sc_transient_use_state cl = expected then Ok (cl \<lparr> sc_transient_use_state := next \<rparr>)
      else Err ProtocolRejected)"

definition ensure_group_scope :: "'c session_mls_client \<Rightarrow> bytes \<Rightarrow> mls_adapter_error + unit" where
  "ensure_group_scope cl gid =
     (case sc_bound_group_id cl of None \<Rightarrow> Ok ()
      | Some bound \<Rightarrow> if bound \<noteq> gid then Err ProtocolRejected else Ok ())"

definition check_local_identity ::
    "('m, 'k, 'g, 'c, 'r) mls_rs \<Rightarrow> 'c session_mls_client \<Rightarrow> 'g \<Rightarrow> mls_adapter_error + unit" where
  "check_local_identity L cl inner =
     and_then (ok_or ProtocolRejected (lib_own_identity L inner)) (\<lambda>identity.
     and_then (ok_or ProtocolRejected (basic_identity (si_credential identity))) (\<lambda>identifier.
     if identifier \<noteq> sc_credential_identity cl \<or> si_signature_key identity \<noteq> sc_signature_public_key cl
     then Err ProtocolRejected else Ok ()))"

definition load_group ::
    "('m, 'k, 'g, 'c, 'r) mls_rs \<Rightarrow> 'c session_mls_client \<Rightarrow> nat \<Rightarrow> bytes \<Rightarrow>
     mls_adapter_error + 'g session_mls_group" where
  "load_group L cl binding gid =
     and_then (ensure_group_scope cl gid) (\<lambda>_.
     and_then (ok_or ProtocolRejected (lib_load_group L (sc_inner cl) gid)) (\<lambda>inner.
     and_then (check_local_identity L cl inner) (\<lambda>_.
       SessionMlsGroup_from_provider L binding (sc_durable cl) inner)))"

definition validate_local_identity ::
    "('m, 'k, 'g, 'c, 'r) mls_rs \<Rightarrow> 'c session_mls_client \<Rightarrow> 'g session_mls_group \<Rightarrow>
     mls_adapter_error + unit" where
  "validate_local_identity L cl s = check_local_identity L cl (sg_inner s)"

definition generate_key_package ::
    "('m, 'k, 'g, 'c, 'r) mls_rs \<Rightarrow> 'c session_mls_client \<Rightarrow> u64 \<Rightarrow>
     (mls_adapter_error + bytes) \<times> 'c session_mls_client" where
  "generate_key_package L cl now =
     (case transition_transient_use cl TRANSIENT_CLIENT_FRESH TRANSIENT_CLIENT_KEY_PACKAGE_ISSUED of
        Inl e \<Rightarrow> (Err e, cl)
      | Inr cl \<Rightarrow>
        (case lib_generate_key_package L (sc_inner cl) now of (message, inner) \<Rightarrow>
          (and_then (ok_or ProtocolRejected message) (\<lambda>message.
           and_then (ok_or UnexpectedProviderOutput (lib_to_bytes L message)) (\<lambda>bs.
             if length bs > MAX_KEY_PACKAGE_BYTES then Err UnexpectedProviderOutput else Ok bs)),
           cl \<lparr> sc_inner := inner \<rparr>)))"

definition create_group ::
    "('m, 'k, 'g, 'c, 'r) mls_rs \<Rightarrow> 'c session_mls_client \<Rightarrow> nat \<Rightarrow> bytes \<Rightarrow> u64 \<Rightarrow>
     (mls_adapter_error + 'g session_mls_group) \<times> 'c session_mls_client" where
  "create_group L cl binding gid now =
     (case transition_transient_use cl TRANSIENT_CLIENT_FRESH TRANSIENT_CLIENT_CONSUMED of
        Inl e \<Rightarrow> (Err e, cl)
      | Inr cl \<Rightarrow>
        (case ensure_group_scope cl gid of Inl e \<Rightarrow> (Err e, cl)
         | Inr _ \<Rightarrow>
           (case lib_create_group L (sc_inner cl) gid now of (inner, client) \<Rightarrow>
             (and_then (ok_or ProtocolRejected inner) (SessionMlsGroup_from_provider L binding (sc_durable cl)),
              cl \<lparr> sc_inner := client \<rparr>))))"

definition accept_joined_group ::
    "('m, 'k, 'g, 'c, 'r) mls_rs \<Rightarrow> 'c session_mls_client \<Rightarrow> nat \<Rightarrow> 'g \<times> u16 list \<Rightarrow>
     mls_adapter_error + 'g session_mls_group" where
  "accept_joined_group L cl binding = (\<lambda>(inner, extensions).
     if list_ex (\<lambda>t. t \<noteq> RATCHET_TREE) extensions then Err ProtocolRejected
     else and_then (SessionMlsGroup_from_provider L binding (sc_durable cl) inner) (\<lambda>s.
     and_then (ensure_group_scope cl (sg_group_id s)) (\<lambda>_.
     and_then (validate_local_identity L cl s) (\<lambda>_.
     if member_count L s \<noteq> 2 then Err UnexpectedProviderOutput else Ok s))))"

definition join_group ::
    "('m, 'k, 'g, 'c, 'r) mls_rs \<Rightarrow> 'c session_mls_client \<Rightarrow> nat \<Rightarrow> bytes \<Rightarrow> u64 \<Rightarrow>
     (mls_adapter_error + 'g session_mls_group) \<times> 'c session_mls_client" where
  "join_group L cl binding welcome now =
     (case transition_transient_use cl TRANSIENT_CLIENT_KEY_PACKAGE_ISSUED TRANSIENT_CLIENT_CONSUMED of
        Inl e \<Rightarrow> (Err e, cl)
      | Inr cl \<Rightarrow>
        (case decode_exact L welcome of Inl _ \<Rightarrow> (Err ProtocolRejected, cl)
         | Inr message \<Rightarrow>
           if lib_wire_format L message \<noteq> WelcomeFormat \<or> lib_message_suite L message \<noteq> Some CIPHERSUITE
           then (Err ProtocolRejected, cl)
           else (case lib_join_group L (sc_inner cl) message now of (joined, inner) \<Rightarrow>
             (and_then (ok_or ProtocolRejected joined) (accept_joined_group L cl binding),
              cl \<lparr> sc_inner := inner \<rparr>))))"

end
