(* ===== verification/Mls_Invariants.thy ===== *)
theory Mls_Invariants
  imports Mls_Persistence Mls_Client
begin

text \<open>
  Sequences of operations on an MLS group and on a client, with what they keep: the revision that binds
  an applied addition, the roster of a two-member group, the single use of a transient client; and
  that the digest input of a storage call determines the call.
\<close>

section \<open>Operations on a group\<close>

text \<open>
  One use of a group by its owner. A prepared change is either applied or dropped (\<open>applied\<close>); \<open>binding\<close>
  and \<open>authority\<close> numbers name what the code allocates.
\<close>

datatype 'm group_op =
    GAdd "'m validated_key_package" u64 bool nat
  | GRemove u64 bool
  | GUpdate u64 bool
  | GEncrypt bytes
  | GProcess bytes

fun group_apply ::
    "('m, 'k, 'g, 'c, 'r) mls_rs \<Rightarrow> 'm group_op \<Rightarrow> 'g session_mls_group \<Rightarrow>
     applied_addition option \<times> 'g session_mls_group" where
  "group_apply L (GAdd v now applied authority) s =
     (case prepare_add L s v now of (Inl _, s) \<Rightarrow> (None, s)
      | (Inr p, s) \<Rightarrow>
          if \<not> applied then (None, drop_prepared L s)
          else (case (if sg_durable s then apply_durable_addition L authority p s
                      else apply_transient_addition L authority p s) of
              (Inl _, s) \<Rightarrow> (None, s)
            | (Inr a, s) \<Rightarrow> (Some a, s)))"
| "group_apply L (GRemove now applied) s =
     (case prepare_remove_peer L s now of (Inl _, s) \<Rightarrow> (None, s)
      | (Inr p, s) \<Rightarrow> (None, if applied then snd (apply_removal L p s) else drop_prepared L s))"
| "group_apply L (GUpdate now applied) s =
     (case prepare_epoch_update L s now of (Inl _, s) \<Rightarrow> (None, s)
      | (Inr p, s) \<Rightarrow> (None, if applied then snd (apply_epoch_update L p s) else drop_prepared L s))"
| "group_apply L (GEncrypt plaintext) s = (None, snd (encrypt_application_message L s plaintext))"
| "group_apply L (GProcess message) s = (None, snd (process_message L s message))"

fun group_run ::
    "('m, 'k, 'g, 'c, 'r) mls_rs \<Rightarrow> 'm group_op list \<Rightarrow> 'g session_mls_group \<Rightarrow>
     applied_addition list \<times> 'g session_mls_group" where
  "group_run L [] s = ([], s)"
| "group_run L (op # ops) s =
     (case group_apply L op s of (a, s) \<Rightarrow>
       (case group_run L ops s of (as, s) \<Rightarrow> ((case a of None \<Rightarrow> as | Some a \<Rightarrow> a # as), s)))"

text \<open>What an operation leaves alone: everything but the library's group and the activity flag.\<close>

definition same_owner :: "'g session_mls_group \<Rightarrow> 'g session_mls_group \<Rightarrow> bool" where
  "same_owner s s' \<longleftrightarrow> sg_group_id s' = sg_group_id s \<and> sg_binding s' = sg_binding s
     \<and> sg_durable s' = sg_durable s
     \<and> sg_pending_addition_revision s' = sg_pending_addition_revision s"

lemma same_owner_refl [simp]: "same_owner s s"
  by (simp add: same_owner_def)

lemma same_owner_trans: "same_owner a b \<Longrightarrow> same_owner b c \<Longrightarrow> same_owner a c"
  by (simp add: same_owner_def)

lemma apply_pending_frame:
  "apply_pending L e n s = (r, s') \<Longrightarrow> same_owner s s' \<and> sg_revision s' = sg_revision s"
  by (auto simp: apply_pending_def same_owner_def clear_pending_def Let_def split: prod.splits bool.splits if_splits)

lemma prepare_add_frame:
  "prepare_add L s v now = (r, s') \<Longrightarrow> same_owner s s' \<and> sg_revision s' = sg_revision s + 1"
  by (auto simp: prepare_add_def same_owner_def clear_pending_def invalidate_state_binding_def Let_def
      split: prod.splits option.splits if_splits sum.splits)

lemma prepare_remove_frame:
  "prepare_remove_peer L s now = (r, s') \<Longrightarrow> same_owner s s' \<and> sg_revision s' = sg_revision s + 1"
  by (auto simp: prepare_remove_peer_def same_owner_def clear_pending_def invalidate_state_binding_def
      Let_def split: prod.splits option.splits if_splits sum.splits)

lemma prepare_update_frame:
  "prepare_epoch_update L s now = (r, s') \<Longrightarrow> same_owner s s' \<and> sg_revision s' = sg_revision s + 1"
  by (auto simp: prepare_epoch_update_def same_owner_def clear_pending_def invalidate_state_binding_def
      Let_def split: prod.splits option.splits if_splits sum.splits)

lemma encrypt_frame:
  "encrypt_application_message L s p = (r, s') \<Longrightarrow> same_owner s s' \<and> sg_revision s' = sg_revision s + 1"
  by (auto simp: encrypt_application_message_def same_owner_def invalidate_state_binding_def Let_def
      split: prod.splits option.splits if_splits)

lemma process_frame:
  "process_message L s m = (r, s') \<Longrightarrow> same_owner s s' \<and> sg_revision s' = sg_revision s + 1"
  by (auto simp: process_message_def same_owner_def invalidate_state_binding_def Let_def
      split: prod.splits option.splits if_splits sum.splits received_message.splits commit_effect.splits)

lemma apply_provider_frame:
  "apply_provider L authority p s = (r, s') \<Longrightarrow>
     same_owner s s' \<and> (case r of Inl _ \<Rightarrow> sg_revision s' = sg_revision s
       | Inr a \<Rightarrow> sg_revision s' = sg_revision s + 1 \<and> aa_revision a = sg_revision s'
           \<and> aa_binding a = sg_binding s' \<and> aa_group_id a = sg_group_id s' \<and> aa_epoch_after a = epoch L s')"
  by (auto simp: apply_provider_def invalidate_state_binding_def Let_def same_owner_def
      split: prod.splits sum.splits dest!: apply_pending_frame)

lemma drop_frame: "same_owner s (drop_prepared L s)" "sg_revision (drop_prepared L s) = sg_revision s"
  by (simp_all add: drop_prepared_def clear_pending_def same_owner_def)

text \<open>Every operation that applies no addition moves the revision by exactly one.\<close>

lemma group_apply_frame:
  assumes "group_apply L op s = (None, s')"
  shows "same_owner s s' \<and> sg_revision s' = sg_revision s + 1"
proof (cases op)
  case (GAdd v now applied authority)
  obtain r s1 where p: "prepare_add L s v now = (r, s1)" by force
  note f = prepare_add_frame [OF p]
  show ?thesis
  proof (cases r)
    case (Inr q)
    obtain r2 s2 where a: "apply_provider L authority q s1 = (r2, s2)" by force
    show ?thesis
      using assms p Inr f drop_frame(1) [of s1 L] drop_frame(2) [of L s1] apply_provider_frame [OF a] a
      by (cases r2) (auto simp: GAdd apply_durable_addition_def apply_transient_addition_def
          same_owner_def split: if_splits)
  qed (use assms p f in \<open>simp add: GAdd\<close>)
next
  case (GRemove now applied)
  obtain r s1 where p: "prepare_remove_peer L s now = (r, s1)" by force
  note f = prepare_remove_frame [OF p]
  show ?thesis
  proof (cases r)
    case (Inr q)
    obtain r2 s2 where a: "apply_pending L (pr_epoch_before q) 1 s1 = (r2, s2)" by force
    show ?thesis
      using assms p Inr f drop_frame(1) [of s1 L] drop_frame(2) [of L s1] apply_pending_frame [OF a] a
      by (cases r2) (auto simp: GRemove apply_removal_def same_owner_def split: if_splits)
  qed (use assms p f in \<open>simp add: GRemove\<close>)
next
  case (GUpdate now applied)
  obtain r s1 where p: "prepare_epoch_update L s now = (r, s1)" by force
  note f = prepare_update_frame [OF p]
  show ?thesis
  proof (cases r)
    case (Inr q)
    obtain r2 s2 where a: "apply_pending L (pu_epoch_before q) (pu_member_count_before q) s1 = (r2, s2)" by force
    show ?thesis
      using assms p Inr f drop_frame(1) [of s1 L] drop_frame(2) [of L s1] apply_pending_frame [OF a] a
      by (cases r2) (auto simp: GUpdate apply_epoch_update_def same_owner_def split: if_splits)
  qed (use assms p f in \<open>simp add: GUpdate\<close>)
next
  case (GEncrypt plaintext)
  with assms encrypt_frame [of L s plaintext] show ?thesis by (metis group_apply.simps(4) prod.collapse snd_conv)
next
  case (GProcess message)
  with assms process_frame [of L s message] show ?thesis by (metis group_apply.simps(5) prod.collapse snd_conv)
qed

lemma group_run_frame:
  "group_run L ops s = ([], s') \<Longrightarrow>
     same_owner s s' \<and> sg_revision s' = sg_revision s + word_of_nat (length ops)"
proof (induction ops arbitrary: s)
  case (Cons op ops)
  obtain a s1 where g: "group_apply L op s = (a, s1)" by force
  with Cons.prems have n: "a = None" "group_run L ops s1 = ([], s')"
    by (auto split: prod.splits option.splits)
  from Cons.IH [OF n(2)] group_apply_frame [of L op s s1] g n(1) show ?case
    by (auto simp: same_owner_def algebra_simps)
qed (simp add: same_owner_def)

section \<open>The two-member roster\<close>

definition roster_of :: "('m, 'k, 'g, 'c, 'r) mls_rs \<Rightarrow> 'g \<Rightarrow> u16 \<times> u16 \<times> bytes \<times> mls_member list" where
  "roster_of L g = (lib_protocol_version L g, lib_cipher_suite L g, lib_group_id L g, lib_members L g)"

text \<open>
  What the adapter relies on: the library changes a group's parameters and roster only when it applies
  its pending commit or processes a commit that starts a new epoch.
\<close>

definition lib_keeps_roster :: "('m, 'k, 'g, 'c, 'r) mls_rs \<Rightarrow> bool" where
  "lib_keeps_roster L \<longleftrightarrow>
     (\<forall>g m t. roster_of L (snd (lib_commit_add L g m t)) = roster_of L g)
     \<and> (\<forall>g i t. roster_of L (snd (lib_commit_remove L g i t)) = roster_of L g)
     \<and> (\<forall>g t. roster_of L (snd (lib_commit_update L g t)) = roster_of L g)
     \<and> (\<forall>g. roster_of L (lib_clear_pending L g) = roster_of L g)
     \<and> (\<forall>g. \<not> fst (lib_apply_pending L g) \<longrightarrow> roster_of L (snd (lib_apply_pending L g)) = roster_of L g)
     \<and> (\<forall>g p. roster_of L (snd (lib_encrypt L g p)) = roster_of L g)
     \<and> (\<forall>g m. fst (lib_process L g m) \<noteq> Some (ReceivedCommit NewEpoch)
          \<and> fst (lib_process L g m) \<noteq> Some (ReceivedCommit RemovedEffect) \<longrightarrow>
          roster_of L (snd (lib_process L g m)) = roster_of L g)"

definition group_sound :: "('m, 'k, 'g, 'c, 'r) mls_rs \<Rightarrow> 'g session_mls_group \<Rightarrow> bool" where
  "group_sound L s \<longleftrightarrow> sg_inactive s \<or> phase_one_invariants_hold L s"

lemma phase_one_roster:
  "roster_of L (sg_inner s') = roster_of L (sg_inner s) \<Longrightarrow> sg_group_id s' = sg_group_id s \<Longrightarrow>
     phase_one_invariants_hold L s' = phase_one_invariants_hold L s"
  by (simp add: phase_one_invariants_hold_def roster_of_def)

lemma group_sound_cong:
  "roster_of L (sg_inner s') = roster_of L (sg_inner s) \<Longrightarrow> sg_group_id s' = sg_group_id s \<Longrightarrow>
     sg_inactive s' = sg_inactive s \<Longrightarrow> group_sound L s' = group_sound L s"
  using phase_one_roster [of L s' s] by (simp add: group_sound_def)

lemma keeps_clear:
  "lib_keeps_roster L \<Longrightarrow> group_sound L (clear_pending L s) = group_sound L s"
  by (rule group_sound_cong) (simp_all add: clear_pending_def lib_keeps_roster_def)

lemma apply_pending_sound:
  assumes "lib_keeps_roster L" "group_sound L s" "apply_pending L e n s = (r, s')"
  shows "group_sound L s'"
proof (cases "fst (lib_apply_pending L (sg_inner s))")
  case True
  then show ?thesis
    using assms by (auto simp: apply_pending_def Let_def keeps_clear group_sound_def
        clear_pending_def split: prod.splits if_splits)
next
  case False
  obtain inner where i: "lib_apply_pending L (sg_inner s) = (False, inner)"
    using False by (cases "lib_apply_pending L (sg_inner s)") auto
  have "roster_of L inner = roster_of L (sg_inner s)"
    using assms(1) i unfolding lib_keeps_roster_def by (metis fst_conv snd_conv)
  then have "group_sound L (s \<lparr> sg_inner := inner \<rparr>)"
    using assms(2) group_sound_cong [of L "s \<lparr> sg_inner := inner \<rparr>" s] by simp
  then show ?thesis using assms(1,3) i keeps_clear by (auto simp: apply_pending_def)
qed

lemma group_sound_revision [simp]: "group_sound L (s \<lparr> sg_revision := n \<rparr>) = group_sound L s"
  by (rule group_sound_cong) simp_all

lemma group_sound_pending [simp]:
  "group_sound L (s \<lparr> sg_pending_addition_revision := n \<rparr>) = group_sound L s"
  by (rule group_sound_cong) simp_all

lemma group_sound_inner:
  "roster_of L inner = roster_of L (sg_inner s) \<Longrightarrow>
     group_sound L (s \<lparr> sg_revision := n, sg_inner := inner \<rparr>) = group_sound L s"
  "roster_of L inner = roster_of L (sg_inner s) \<Longrightarrow>
     group_sound L (s \<lparr> sg_inner := inner, sg_revision := n \<rparr>) = group_sound L s"
  by (rule group_sound_cong; simp)+

lemma prepare_add_sound:
  assumes "lib_keeps_roster L" "group_sound L s" "prepare_add L s v now = (r, s')"
  shows "group_sound L s'"
proof -
  have "roster_of L inner = roster_of L (sg_inner s)"
    if "lib_commit_add L (sg_inner s) (vk_message v) now = (out, inner)" for out inner
    using assms(1) that unfolding lib_keeps_roster_def by (metis snd_conv)
  with assms show ?thesis
    by (auto simp: prepare_add_def invalidate_state_binding_def Let_def keeps_clear group_sound_inner
        split: prod.splits option.splits if_splits sum.splits)
qed

lemma prepare_remove_sound:
  assumes "lib_keeps_roster L" "group_sound L s" "prepare_remove_peer L s now = (r, s')"
  shows "group_sound L s'"
proof -
  have "roster_of L inner = roster_of L (sg_inner s)"
    if "lib_commit_remove L (sg_inner s) i now = (out, inner)" for out inner i
    using assms(1) that unfolding lib_keeps_roster_def by (metis snd_conv)
  with assms show ?thesis
    by (auto simp: prepare_remove_peer_def invalidate_state_binding_def Let_def keeps_clear group_sound_inner
        split: prod.splits option.splits if_splits sum.splits)
qed

lemma prepare_update_sound:
  assumes "lib_keeps_roster L" "group_sound L s" "prepare_epoch_update L s now = (r, s')"
  shows "group_sound L s'"
proof -
  have "roster_of L inner = roster_of L (sg_inner s)"
    if "lib_commit_update L (sg_inner s) now = (out, inner)" for out inner
    using assms(1) that unfolding lib_keeps_roster_def by (metis snd_conv)
  with assms show ?thesis
    by (auto simp: prepare_epoch_update_def invalidate_state_binding_def Let_def keeps_clear
        group_sound_inner split: prod.splits option.splits if_splits sum.splits)
qed

lemma encrypt_sound:
  assumes "lib_keeps_roster L" "group_sound L s" "encrypt_application_message L s p = (r, s')"
  shows "group_sound L s'"
proof -
  have "roster_of L inner = roster_of L (sg_inner s)"
    if "lib_encrypt L (sg_inner s) p = (out, inner)" for out inner
    using assms(1) that unfolding lib_keeps_roster_def by (metis snd_conv)
  with assms show ?thesis
    by (auto simp: encrypt_application_message_def invalidate_state_binding_def Let_def group_sound_inner
        split: prod.splits option.splits if_splits)
qed

lemma process_sound:
  assumes "lib_keeps_roster L" "group_sound L s" "process_message L s m = (r, s')"
  shows "group_sound L s'"
proof -
  have keeps: "roster_of L inner = roster_of L (sg_inner s)"
    if "lib_process L (sg_inner s) message = (out, inner)"
      "out \<noteq> Some (ReceivedCommit NewEpoch)" "out \<noteq> Some (ReceivedCommit RemovedEffect)" for message out inner
    using assms(1) that unfolding lib_keeps_roster_def by (metis fst_conv snd_conv)
  let ?s = "invalidate_state_binding s"
  have s: "group_sound L ?s" "sg_inner ?s = sg_inner s"
    using assms(2) by (simp_all add: invalidate_state_binding_def)
  show ?thesis
  proof (cases "sg_inactive ?s \<or> (\<exists>e. decode_exact L m = Inl e)")
    case True
    then have "s' = ?s" using assms(3) by (auto simp: process_message_def Let_def split: if_splits)
    then show ?thesis using s by simp
  next
    case False
    then obtain message where d: "decode_exact L m = Inr message" by (cases "decode_exact L m") auto
    obtain out inner where i: "lib_process L (sg_inner s) message = (out, inner)" by force
    have same: "group_sound L (?s \<lparr> sg_inner := inner \<rparr>)"
      if "out \<noteq> Some (ReceivedCommit NewEpoch)" "out \<noteq> Some (ReceivedCommit RemovedEffect)"
      using keeps [OF i that] s group_sound_cong [of L "?s \<lparr> sg_inner := inner \<rparr>" ?s] by simp
    show ?thesis
      using assms(3) False s same i
      by (auto simp: process_message_def Let_def d group_sound_def
          split: option.splits received_message.splits commit_effect.splits if_splits)
  qed
qed

lemma apply_provider_sound:
  assumes "lib_keeps_roster L" "group_sound L s" "apply_provider L authority p s = (r, s')"
  shows "group_sound L s'"
  using assms apply_pending_sound [OF assms(1,2)]
  by (auto simp: apply_provider_def invalidate_state_binding_def Let_def split: prod.splits sum.splits)

lemma group_apply_sound:
  assumes "lib_keeps_roster L" "group_sound L s"
  shows "group_sound L (snd (group_apply L op s))"
proof (cases op)
  case (GAdd v now applied authority)
  obtain r s1 where p: "prepare_add L s v now = (r, s1)" by force
  note f = prepare_add_sound [OF assms p]
  show ?thesis
  proof (cases r)
    case (Inr q)
    obtain r2 s2 where a: "apply_provider L authority q s1 = (r2, s2)" by force
    show ?thesis
      using p Inr f apply_provider_sound [OF assms(1) f a] a keeps_clear [OF assms(1)]
      by (cases r2) (simp_all add: GAdd apply_durable_addition_def apply_transient_addition_def drop_prepared_def)
  qed (use p f in \<open>simp add: GAdd\<close>)
next
  case (GRemove now applied)
  obtain r s1 where p: "prepare_remove_peer L s now = (r, s1)" by force
  note f = prepare_remove_sound [OF assms p]
  show ?thesis
  proof (cases r)
    case (Inr q)
    obtain r2 s2 where a: "apply_pending L (pr_epoch_before q) 1 s1 = (r2, s2)" by force
    show ?thesis
      using p Inr f apply_pending_sound [OF assms(1) f a] a keeps_clear [OF assms(1)]
      by (cases r2) (simp_all add: GRemove apply_removal_def drop_prepared_def)
  qed (use p f in \<open>simp add: GRemove\<close>)
next
  case (GUpdate now applied)
  obtain r s1 where p: "prepare_epoch_update L s now = (r, s1)" by force
  note f = prepare_update_sound [OF assms p]
  show ?thesis
  proof (cases r)
    case (Inr q)
    obtain r2 s2 where a: "apply_pending L (pu_epoch_before q) (pu_member_count_before q) s1 = (r2, s2)" by force
    show ?thesis
      using p Inr f apply_pending_sound [OF assms(1) f a] a keeps_clear [OF assms(1)]
      by (cases r2) (simp_all add: GUpdate apply_epoch_update_def drop_prepared_def)
  qed (use p f in \<open>simp add: GUpdate\<close>)
next
  case (GEncrypt plaintext)
  then show ?thesis using encrypt_sound [OF assms prod.collapse [symmetric]] by simp
next
  case (GProcess message)
  then show ?thesis using process_sound [OF assms prod.collapse [symmetric]] by simp
qed

lemma group_run_sound:
  "lib_keeps_roster L \<Longrightarrow> group_sound L s \<Longrightarrow> group_sound L (snd (group_run L ops s))"
proof (induction ops arbitrary: s)
  case (Cons op ops)
  then show ?case using group_apply_sound [OF Cons.prems, of op]
    by (auto split: prod.splits) (metis Cons.IH Cons.prems(1) snd_conv)
qed simp

text \<open>The roster loop accepts exactly the rosters of acceptable members with distinct identities.\<close>

lemma phase_one_members_iff:
  "phase_one_members seen ms \<longleftrightarrow> list_all phase_one_member ms
     \<and> distinct (map (\<lambda>m. basic_identity (si_credential (mm_signing_identity m))) ms)
     \<and> set seen \<inter> set (map (\<lambda>m. basic_identity (si_credential (mm_signing_identity m))) ms) = {}"
  by (induction seen ms rule: phase_one_members.induct) auto

section \<open>The digest input\<close>

lemma be_bytes_inject: "be_bytes k m = be_bytes k n \<Longrightarrow> m < 256 ^ k \<Longrightarrow> n < 256 ^ k \<Longrightarrow> m = n"
  by (metis be_nat_be_bytes)

lemma digest_bytes_prefix:
  assumes "update_provider_state_digest_bytes a = Ok x" "update_provider_state_digest_bytes b = Ok y"
    and "x @ p = y @ q"
  shows "a = b \<and> p = q"
proof -
  have l: "length a < 256 ^ 8" "length b < 256 ^ 8"
    and xy: "x = be_bytes 8 (length a) @ a" "y = be_bytes 8 (length b) @ b"
    using assms(1,2) by (auto simp: update_provider_state_digest_bytes_def split: if_splits)
  from assms(3) xy have "be_bytes 8 (length a) = be_bytes 8 (length b)" "a @ p = b @ q" by auto
  with be_bytes_inject l have "length a = length b" by blast
  with \<open>a @ p = b @ q\<close> show ?thesis by simp
qed

lemma u64_bytes_inject: "be_bytes 8 (unat (a :: u64)) = be_bytes 8 (unat b) \<Longrightarrow> a = b"
proof -
  have "unat (a :: u64) < 256 ^ 8" "unat (b :: u64) < 256 ^ 8"
    using unsigned_less [of a, where 'a = nat] unsigned_less [of b, where 'a = nat] by simp_all
  then show "be_bytes 8 (unat a) = be_bytes 8 (unat b) \<Longrightarrow> a = b"
    using be_bytes_inject word_unat_eq_iff by blast
qed

lemma digest_epochs_prefix:
  "digest_epoch_records es = Ok x \<Longrightarrow> digest_epoch_records fs = Ok y \<Longrightarrow> length es = length fs \<Longrightarrow>
     x @ p = y @ q \<Longrightarrow> es = fs \<and> p = q"
proof (induction es arbitrary: fs x y)
  case (Cons e es)
  obtain i bs where e: "e = (i, bs)" by force
  obtain j cs gs where f: "fs = (j, cs) # gs" using Cons.prems(3) by (cases fs) auto
  obtain b r where b: "update_provider_state_digest_bytes bs = Ok b" "digest_epoch_records es = Ok r"
      "x = be_bytes 8 (unat i) @ b @ r"
    using Cons.prems(1) by (auto simp: e ok_iff)
  obtain c t where c: "update_provider_state_digest_bytes cs = Ok c" "digest_epoch_records gs = Ok t"
      "y = be_bytes 8 (unat j) @ c @ t"
    using Cons.prems(2) by (auto simp: f ok_iff)
  from Cons.prems(4) b(3) c(3) have "be_bytes 8 (unat i) = be_bytes 8 (unat j)"
    and rest: "b @ r @ p = c @ t @ q" by auto
  then have "i = j" by (simp add: u64_bytes_inject)
  moreover from digest_bytes_prefix [OF b(1) c(1) rest] have "bs = cs" "r @ p = t @ q" by simp_all
  ultimately show ?case using Cons.IH [OF b(2) c(2)] Cons.prems(3) by (simp add: e f)
qed auto

lemma digest_section_prefix:
  assumes "update_provider_state_digest_epochs kind es = Ok x"
    "update_provider_state_digest_epochs kind fs = Ok y" "x @ p = y @ q"
  shows "es = fs \<and> p = q"
proof -
  obtain r t where r: "digest_epoch_records es = Ok r" "x = kind # be_bytes 8 (length es) @ r"
      "length es < 256 ^ 8"
    and t: "digest_epoch_records fs = Ok t" "y = kind # be_bytes 8 (length fs) @ t"
      "length fs < 256 ^ 8"
    using assms(1,2) by (auto simp: update_provider_state_digest_epochs_def ok_iff split: if_splits)
  from assms(3) r(2) t(2) have "be_bytes 8 (length es) = be_bytes 8 (length fs)" "r @ p = t @ q" by auto
  with be_bytes_inject r(3) t(3) have "length es = length fs" by blast
  from digest_epochs_prefix [OF r(1) t(1) this \<open>r @ p = t @ q\<close>] show ?thesis .
qed

lemma write_input_inject:
  assumes "provider_state_write_input v = Ok b" "provider_state_write_input w = Ok b"
  shows "v = w"
proof -
  obtain g d i u where v: "update_provider_state_digest_bytes (ps_group_id v) = Ok g"
      "update_provider_state_digest_bytes (ps_data v) = Ok d"
      "update_provider_state_digest_epochs 73 (ps_epoch_inserts v) = Ok i"
      "update_provider_state_digest_epochs 85 (ps_epoch_updates v) = Ok u"
      "b = PROVIDER_STATE_WRITE_DIGEST_CONTEXT @ g @ d @ i @ u"
    using assms(1) by (auto simp: provider_state_write_input_def ok_iff)
  obtain g' d' i' u' where w: "update_provider_state_digest_bytes (ps_group_id w) = Ok g'"
      "update_provider_state_digest_bytes (ps_data w) = Ok d'"
      "update_provider_state_digest_epochs 73 (ps_epoch_inserts w) = Ok i'"
      "update_provider_state_digest_epochs 85 (ps_epoch_updates w) = Ok u'"
      "b = PROVIDER_STATE_WRITE_DIGEST_CONTEXT @ g' @ d' @ i' @ u'"
    using assms(2) by (auto simp: provider_state_write_input_def ok_iff)
  from v(5) w(5) have "g @ d @ i @ u = g' @ d' @ i' @ u'" by simp
  from digest_bytes_prefix [OF v(1) w(1) this] have 1: "ps_group_id v = ps_group_id w" "d @ i @ u = d' @ i' @ u'"
    by simp_all
  from digest_bytes_prefix [OF v(2) w(2) 1(2)] have 2: "ps_data v = ps_data w" "i @ u = i' @ u'" by simp_all
  from digest_section_prefix [OF v(3) w(3) 2(2)] have 3: "ps_epoch_inserts v = ps_epoch_inserts w" "u = u'"
    by simp_all
  have "ps_epoch_updates v = ps_epoch_updates w"
    using digest_section_prefix [OF v(4) w(4), of "[]" "[]"] 3(2) by simp
  with 1 2 3 show ?thesis by simp
qed

section \<open>Operations on a client\<close>

datatype client_op =
    CGenerateKeyPackage u64
  | CCreateGroup nat bytes u64
  | CJoinGroup nat bytes u64

datatype client_use = UsedForKeyPackage | UsedForGroup | UsedForWelcome

text \<open>
  The uses of the client's identity in a run, read off what an operation did: it used the identity if it
  returned a key package or a group, or if it failed and left the client's use state changed.
\<close>

definition used ::
    "'a \<Rightarrow> (mls_adapter_error + 'b) \<times> 'c session_mls_client \<Rightarrow> 'c session_mls_client \<Rightarrow>
     'a option \<times> 'c session_mls_client" where
  "used u out cl =
     ((if is_ok (fst out) \<or> sc_transient_use_state (snd out) \<noteq> sc_transient_use_state cl then Some u else None),
      snd out)"

fun client_apply ::
    "('m, 'k, 'g, 'c, 'r) mls_rs \<Rightarrow> client_op \<Rightarrow> 'c session_mls_client \<Rightarrow>
     client_use option \<times> 'c session_mls_client" where
  "client_apply L (CGenerateKeyPackage now) cl = used UsedForKeyPackage (generate_key_package L cl now) cl"
| "client_apply L (CCreateGroup binding gid now) cl = used UsedForGroup (create_group L cl binding gid now) cl"
| "client_apply L (CJoinGroup binding welcome now) cl = used UsedForWelcome (join_group L cl binding welcome now) cl"

fun client_run ::
    "('m, 'k, 'g, 'c, 'r) mls_rs \<Rightarrow> client_op list \<Rightarrow> 'c session_mls_client \<Rightarrow>
     client_use list \<times> 'c session_mls_client" where
  "client_run L [] cl = ([], cl)"
| "client_run L (op # ops) cl =
     (case client_apply L op cl of (u, cl) \<Rightarrow>
       (case client_run L ops cl of (us, cl) \<Rightarrow> ((case u of None \<Rightarrow> us | Some u \<Rightarrow> u # us), cl)))"

lemmas transient_consts = TRANSIENT_CLIENT_FRESH_def TRANSIENT_CLIENT_KEY_PACKAGE_ISSUED_def
  TRANSIENT_CLIENT_CONSUMED_def

text \<open>How one operation moves a transient client.\<close>

lemma client_apply_transient:
  assumes "\<not> sc_durable cl" "client_apply L op cl = (u, cl')"
  shows "\<not> sc_durable cl' \<and>
    (u = None \<and> sc_transient_use_state cl' = sc_transient_use_state cl
     \<or> u = Some UsedForKeyPackage \<and> sc_transient_use_state cl = 0 \<and> sc_transient_use_state cl' = 1
     \<or> u = Some UsedForGroup \<and> sc_transient_use_state cl = 0 \<and> sc_transient_use_state cl' = 2
     \<or> u = Some UsedForWelcome \<and> sc_transient_use_state cl = 1 \<and> sc_transient_use_state cl' = 2)"
  using assms
  by (cases op) (auto simp: used_def transition_transient_use_def generate_key_package_def create_group_def
      join_group_def transient_consts split: sum.splits prod.splits if_splits)

lemma client_run_transient:
  "\<not> sc_durable cl \<Longrightarrow>
     (sc_transient_use_state cl = 2 \<longrightarrow> fst (client_run L ops cl) = [])
     \<and> (sc_transient_use_state cl = 1 \<longrightarrow> fst (client_run L ops cl) \<in> {[], [UsedForWelcome]})
     \<and> (sc_transient_use_state cl = 0 \<longrightarrow> fst (client_run L ops cl) \<in>
          {[], [UsedForGroup], [UsedForKeyPackage], [UsedForKeyPackage, UsedForWelcome]})"
proof (induction ops arbitrary: cl)
  case (Cons op ops)
  obtain u cl' where a: "client_apply L op cl = (u, cl')" by force
  obtain us cl'' where r: "client_run L ops cl' = (us, cl'')" by force
  have run: "fst (client_run L (op # ops) cl) = (case u of None \<Rightarrow> us | Some x \<Rightarrow> x # us)"
    and us: "us = fst (client_run L ops cl')"
    by (simp_all add: a r)
  show ?case
    using client_apply_transient [OF Cons.prems a] Cons.IH [of cl'] unfolding run us by auto
qed simp

end
