(* ===== verification/Mls_Properties.thy ===== *)
theory Mls_Properties
  imports Mls_Invariants
begin

text \<open>
  The properties of the MLS adapter: an applied durable addition reaches storage with its exact staging
  or not at all, a storage authority recognises exactly the captured call, a usable group is always a
  two-party group of the closed profile, a transient client is used once, and a durable client
  reloads as itself.
\<close>

section \<open>A concrete library\<close>

text \<open>
  A group is its epoch, its roster and a pending roster; messages are byte strings.
\<close>

record toy_group =
  tg_epoch :: u64
  tg_members :: "mls_member list"
  tg_pending :: "mls_member list option"

definition toy_capabilities :: mls_capabilities where
  "toy_capabilities = \<lparr> ca_protocol_versions = [MLS_10], ca_cipher_suites = [CIPHERSUITE],
     ca_extensions = [], ca_proposals = [], ca_credentials = [BASIC_CREDENTIAL_TYPE] \<rparr>"

definition toy_member :: "u8 \<Rightarrow> mls_member" where
  "toy_member k = \<lparr> mm_index = ucast k, mm_signing_identity = \<lparr> si_credential = MlsBasic (replicate 32 k),
     si_signature_key = replicate 32 k \<rparr>, mm_capabilities = toy_capabilities, mm_extensions = [] \<rparr>"

definition toy_commit :: "mls_member list \<Rightarrow> bytes list \<Rightarrow> toy_group \<Rightarrow> bytes commit_output option \<times> toy_group" where
  "toy_commit members welcomes g =
     (Some \<lparr> co_commit_message = [9], co_welcome_messages = welcomes, co_contains_update_path = True \<rparr>,
      g \<lparr> tg_pending := Some members \<rparr>)"

definition toy_lib :: "(bytes, bytes, toy_group, unit, u8) mls_rs" where
  "toy_lib = \<lparr> lib_decode = (\<lambda>bs. Some (bs, [])), lib_to_bytes = Some,
     lib_wire_format = (\<lambda>_. KeyPackageFormat), lib_message_suite = (\<lambda>_. Some CIPHERSUITE),
     lib_as_key_package = Some, lib_welcome_references = (\<lambda>_. [replicate 32 13]),
     lib_validate_key_package = (\<lambda>m _. Some m), lib_kp_version = (\<lambda>_. MLS_10),
     lib_kp_cipher_suite = (\<lambda>_. CIPHERSUITE), lib_kp_extensions = (\<lambda>_. []), lib_kp_encode = Some,
     lib_kp_view = (\<lambda>bs. Some (\<lparr> pv_version = MLS_10, pv_cipher_suite = CIPHERSUITE,
        pv_leaf_node = \<lparr> ln_signing_identity = \<lparr> si_credential = MlsBasic (replicate 32 14),
            si_signature_key = replicate 32 15 \<rparr>, ln_capabilities = toy_capabilities, ln_extensions = [] \<rparr>,
        pv_extensions = [] \<rparr>, [])),
     lib_kp_signing_identity = (\<lambda>_. \<lparr> si_credential = MlsBasic (replicate 32 14), si_signature_key = replicate 32 15 \<rparr>),
     lib_kp_reference = (\<lambda>_. Some (replicate 32 13)), lib_suite_available = True,
     lib_protocol_version = (\<lambda>_. MLS_10), lib_cipher_suite = (\<lambda>_. CIPHERSUITE),
     lib_group_id = (\<lambda>_. replicate 32 1), lib_epoch = tg_epoch, lib_members = tg_members,
     lib_own_index = (\<lambda>_. 1), lib_own_identity = (\<lambda>_. Some (mm_signing_identity (toy_member 1))),
     lib_commit_add = (\<lambda>g m t. toy_commit (tg_members g @ [toy_member 14]) [[8]] g),
     lib_commit_remove = (\<lambda>g i t. toy_commit (take 1 (tg_members g)) [] g),
     lib_commit_update = (\<lambda>g t. toy_commit (tg_members g) [] g),
     lib_clear_pending = (\<lambda>g. g \<lparr> tg_pending := None \<rparr>),
     lib_apply_pending = (\<lambda>g. case tg_pending g of None \<Rightarrow> (False, g)
        | Some ms \<Rightarrow> (True, g \<lparr> tg_epoch := tg_epoch g + 1, tg_members := ms, tg_pending := None \<rparr>)),
     lib_encrypt = (\<lambda>g p. (Some (1 # p), g)),
     lib_process = (\<lambda>g m. (Some (ReceivedApplication m []), g)),
     lib_snapshot = (\<lambda>g. Some \<lparr> ps_group_id = replicate 32 1, ps_data = [ucast (tg_epoch g)],
        ps_epoch_inserts = [], ps_epoch_updates = [] \<rparr>),
     lib_written = (\<lambda>g. g),
     lib_random_bytes = (\<lambda>n r. (Some (replicate n r), r + 1)),
     lib_signature_generate = (\<lambda>r. (Some (replicate 64 r, replicate 32 r), r + 1)),
     lib_signature_derive_public = (\<lambda>sk. Some (replicate 32 (hd sk))),
     lib_sign = (\<lambda>sk m. Some sk), lib_verify = (\<lambda>pk m s. True),
     lib_build_client = (\<lambda>_ _. ()), lib_generate_key_package = (\<lambda>c _. (Some [1], c)),
     lib_create_group = (\<lambda>c _ _. (Some \<lparr> tg_epoch = 0, tg_members = [toy_member 1], tg_pending = None \<rparr>, c)),
     lib_join_group = (\<lambda>c _ _. (None, c)), lib_load_group = (\<lambda>c _. None) \<rparr>"

definition toy_session :: "u64 \<Rightarrow> u64 option \<Rightarrow> toy_group \<Rightarrow> toy_group session_mls_group" where
  "toy_session revision pending inner = \<lparr> sg_inner = inner, sg_group_id = replicate 32 1, sg_binding = 3,
     sg_revision = revision, sg_pending_addition_revision = pending, sg_inactive = False, sg_durable = True \<rparr>"

definition toy_validated :: "bytes validated_key_package" where
  "toy_validated = \<lparr> vk_message = [1], vk_reference = replicate 32 13,
     vk_credential_identity = replicate 32 14, vk_leaf_signature_key = replicate 32 15 \<rparr>"

definition toy_alone :: toy_group where
  "toy_alone = \<lparr> tg_epoch = 4, tg_members = [toy_member 1], tg_pending = None \<rparr>"

definition toy_both :: toy_group where
  "toy_both = \<lparr> tg_epoch = 5, tg_members = [toy_member 1, toy_member 14], tg_pending = None \<rparr>"

definition toy_applied :: "nat \<Rightarrow> applied_addition" where
  "toy_applied authority = \<lparr> aa_group_id = replicate 32 1, aa_epoch_before = 4, aa_epoch_after = 5, aa_binding = 3,
     aa_revision = 2, aa_authority = authority, aa_reference = replicate 32 13,
     aa_credential_identity = replicate 32 14, aa_leaf_signature_key = replicate 32 15,
     aa_welcome = [8], aa_commit = [9] \<rparr>"

definition toy_prepared :: prepared_addition where
  "toy_prepared = \<lparr> pa_epoch_before = 4, pa_reference = replicate 32 13,
     pa_credential_identity = replicate 32 14, pa_leaf_signature_key = replicate 32 15,
     pa_welcome = [8], pa_commit = [9] \<rparr>"

lemma toy_roster: "phase_one_members [] [toy_member 1]" "phase_one_members [] [toy_member 1, toy_member 14]"
  by (simp_all add: phase_one_member_def toy_member_def basic_identity_def phase_one_capabilities_def
      toy_capabilities_def SESSION_CREDENTIAL_ID_BYTES_def all_zero_replicate)

lemma toy_prepare:
  "prepare_add toy_lib (toy_session 0 None toy_alone) toy_validated 100 =
     (Ok toy_prepared, toy_session 1 None (toy_alone \<lparr> tg_pending := Some [toy_member 1, toy_member 14] \<rparr>))"
  by (simp add: prepare_add_def toy_session_def invalidate_state_binding_def member_count_def toy_alone_def
      toy_lib_def toy_member_def basic_identity_def toy_validated_def toy_commit_def check_addition_def
      WelcomeMessage_from_provider_def MlsWireMessage_from_provider_def MAX_PROTECTED_MESSAGE_BYTES_def
      epoch_def toy_prepared_def Let_def)

lemma toy_apply:
  "apply_durable_addition toy_lib authority toy_prepared
     (toy_session 1 None (toy_alone \<lparr> tg_pending := Some [toy_member 1, toy_member 14] \<rparr>))
     = (Ok (toy_applied authority), toy_session 2 (Some 2) toy_both)"
proof -
  have "phase_one_invariants_hold toy_lib (toy_session 1 None toy_both)"
    using toy_roster(2) by (simp add: phase_one_invariants_hold_def toy_session_def toy_both_def toy_lib_def)
  moreover have "lib_apply_pending toy_lib (toy_alone \<lparr> tg_pending := Some [toy_member 1, toy_member 14] \<rparr>)
      = (True, toy_both)"
    by (simp add: toy_lib_def toy_alone_def toy_both_def)
  moreover have "lib_epoch toy_lib toy_both = 5" "length (lib_members toy_lib toy_both) = 2"
    by (simp_all add: toy_lib_def toy_both_def)
  ultimately show ?thesis
    by (simp add: apply_durable_addition_def apply_provider_def apply_pending_def toy_session_def epoch_def
        member_count_def toy_prepared_def invalidate_state_binding_def toy_applied_def Let_def)
qed

section \<open>Properties\<close>

text \<open>
  How the staged write of an addition that is not stale ends. A callback that fails ends it, with storage as
  the callback left it. Otherwise storage is written by one call at most, the group's snapshot, made
  while the addition's own authority is the one that authorises it.
\<close>

lemma staged_write_cases:
  assumes "\<not> is_stale L a s"
  shows "case stage (binding_of a) st of
      (Inl e, st') \<Rightarrow>
        stage_and_write_to_storage L sha256 store thread stage a s (w, st) = (Err (Staging e), s, w, st')
    | (Inr _, st') \<Rightarrow>
        (case stage_and_write_to_storage L sha256 store thread stage a s (w, st) of
           (Inl e, s', w', st'') \<Rightarrow> s' = s \<and> (st'' = st' \<or>
             (\<exists>call w1. lib_snapshot L (sg_inner s) = Some call
               \<and> authorizes_current_provider_write sha256 thread (binding_of a) call w1
               \<and> store w1 thread call st' = (False, st'')))
         | (Inr p, s', w', st'') \<Rightarrow>
             p = \<lparr> pe_welcome = sb_welcome (binding_of a), pe_commit = aa_commit a \<rparr>
             \<and> sg_pending_addition_revision s' = None
             \<and> (\<exists>call w1. lib_snapshot L (sg_inner s) = Some call
                 \<and> authorizes_current_provider_write sha256 thread (binding_of a) call w1
                 \<and> store w1 thread call st' = (True, st'')))"
proof (cases "stage (binding_of a) st")
  case (Pair r st')
  have rev: "aa_revision a = sg_revision s" "sg_pending_addition_revision s = Some (aa_revision a)"
    using assms by (auto simp: is_stale_def)
  show ?thesis
  proof (cases r)
    case (Inl e)
    then show ?thesis using assms Pair by (simp add: stage_and_write_to_storage_def)
  next
    case (Inr u)
    then have eq: "stage_and_write_to_storage L sha256 store thread stage a s (w, st)
        = write_staged L sha256 store thread a s (w, st')"
      using assms Pair rev by (simp add: stage_and_write_to_storage_def)
    have auth: "authorizes_current_provider_write sha256 thread (binding_of a) call w2"
      if "activate thread (aa_authority a) w = Inr w1"
        "capture_current_provider_state_write sha256 thread call w1 = Inr w2" for call w1 w2
      using that
      by (auto simp: activate_def capture_current_provider_state_write_def capture_def ok_iff
          authorizes_current_provider_write_def authorizes_current_write_def binding_of_def split: if_splits)
    show ?thesis unfolding eq Pair Inr
      by (auto simp: write_staged_def write_provider_state_def bound_storage_write_def binding_of_def [of a]
          split: sum.splits option.splits prod.splits bool.splits dest: auth [unfolded binding_of_def])
  qed
qed

text \<open>
  C11: an applied durable addition reaches storage with its exact staging or not at all. After a
  durable Add is applied, the plain write of the group is refused and leaves storage untouched,
  through any sequence of further operations on the group that applies no other Add. The staged
  write is open to the applied addition while no operation intervenes. It runs the staging callback on the
  addition's own binding first; when the callback fails, nothing is written after it and the error is
  returned. When it succeeds, storage is written by one call at most, the snapshot of the group, while
  the binding's authority authorises that call: if storage accepts it, the addition is no longer
  pending and the staged Welcome is returned with its commit; otherwise the group is as it was, the addition
  still pending. Once an operation has intervened, or for any value of another group, revision or
  epoch, the staged write is refused as stale before the staging callback runs.
\<close>

theorem unresolved_addition_blocks_storage:
  assumes "apply_durable_addition L authority p s0 = (Ok a, s1)"
    and "group_run L ops s1 = ([], s2)" and "length ops < 2 ^ 64"
  shows "write_to_storage L sha256 store thread s2 (w, st) = (Err ProtocolRejected, s2, w, st)
    \<and> (ops = [] \<longrightarrow> \<not> is_stale L a s2
        \<and> (case stage (binding_of a) st of
            (Inl e, st') \<Rightarrow>
              stage_and_write_to_storage L sha256 store thread stage a s2 (w, st) = (Err (Staging e), s2, w, st')
          | (Inr _, st') \<Rightarrow>
              (case stage_and_write_to_storage L sha256 store thread stage a s2 (w, st) of
                 (Inl e, s', w', st'') \<Rightarrow> s' = s2 \<and> (st'' = st' \<or>
                   (\<exists>call w1. lib_snapshot L (sg_inner s2) = Some call
                     \<and> authorizes_current_provider_write sha256 thread (binding_of a) call w1
                     \<and> store w1 thread call st' = (False, st'')))
               | (Inr p, s', w', st'') \<Rightarrow>
                   p = \<lparr> pe_welcome = sb_welcome (binding_of a), pe_commit = aa_commit a \<rparr>
                   \<and> sg_pending_addition_revision s' = None
                   \<and> (\<exists>call w1. lib_snapshot L (sg_inner s2) = Some call
                       \<and> authorizes_current_provider_write sha256 thread (binding_of a) call w1
                       \<and> store w1 thread call st' = (True, st'')))))
    \<and> (\<forall>b. ops \<noteq> [] \<or> aa_binding b \<noteq> aa_binding a \<or> aa_revision b \<noteq> aa_revision a
          \<or> aa_group_id b \<noteq> aa_group_id a \<or> aa_epoch_after b \<noteq> aa_epoch_after a \<longrightarrow>
        stage_and_write_to_storage L sha256 store thread stage b s2 (w, st) = (Err StaleSnapshot, s2, w, st))"
proof -
  obtain s where p: "apply_provider L authority p s0 = (Ok a, s)"
    and s1: "s1 = s \<lparr> sg_pending_addition_revision := Some (aa_revision a) \<rparr>"
    using assms(1) by (auto simp: apply_durable_addition_def split: prod.splits sum.splits)
  from apply_provider_frame [OF p] have a: "aa_revision a = sg_revision s1" "aa_binding a = sg_binding s1"
    "aa_group_id a = sg_group_id s1" "aa_epoch_after a = epoch L s1"
    by (simp_all add: s1 epoch_def)
  have pending1: "sg_pending_addition_revision s1 = Some (aa_revision a)" by (simp add: s1)
  from group_run_frame [OF assms(2)] have s2: "same_owner s1 s2"
    "sg_revision s2 = sg_revision s1 + word_of_nat (length ops)" by simp_all
  then have pending: "sg_pending_addition_revision s2 = Some (aa_revision a)"
    using pending1 by (simp add: same_owner_def)
  have moved: "sg_revision s2 \<noteq> aa_revision a" if "ops \<noteq> []"
  proof
    assume "sg_revision s2 = aa_revision a"
    then have "word_of_nat (length ops) = (0 :: u64)" using s2(2) a(1) by simp
    then have "unat (word_of_nat (length ops) :: u64) = 0" by simp
    then show False using assms(3) that by (simp add: unat_of_nat)
  qed
  have stale: "is_stale L b s2" if "ops \<noteq> [] \<or> aa_binding b \<noteq> aa_binding a \<or> aa_revision b \<noteq> aa_revision a
          \<or> aa_group_id b \<noteq> aa_group_id a \<or> aa_epoch_after b \<noteq> aa_epoch_after a" for b
  proof (cases "ops = []")
    case True
    then have "s2 = s1" using assms(2) by simp
    then show ?thesis using that True a pending by (auto simp: is_stale_def)
  next
    case False
    then show ?thesis using moved pending by (auto simp: is_stale_def)
  qed
  have "\<not> is_stale L a s2" if "ops = []"
    using that assms(2) a pending1 by (auto simp: is_stale_def)
  moreover have "stage_and_write_to_storage L sha256 store thread stage b s2 (w, st) = (Err StaleSnapshot, s2, w, st)"
    if "is_stale L b s2" for b
    using that by (simp add: stage_and_write_to_storage_def)
  moreover have "write_to_storage L sha256 store thread s2 (w, st) = (Err ProtocolRejected, s2, w, st)"
    by (simp add: write_to_storage_def pending)
  ultimately show ?thesis using stale staged_write_cases [of L a s2 sha256 store thread stage w st] by simp
qed

theorem unresolved_addition_blocks_storage_witness:
  "let s1 = toy_session 2 (Some 2) toy_both; s2 = snd (encrypt_application_message toy_lib s1 [7]);
       w = \<lparr> wa_active = (\<lambda>_. None), wa_current = (\<lambda>_. None) \<rparr> in
   write_to_storage toy_lib (\<lambda>_. replicate 32 0) (\<lambda>_ _ _ st. (True, Suc st)) 0 s2 (w, 0)
     = (Err ProtocolRejected, s2, w, 0)
   \<and> stage_and_write_to_storage toy_lib (\<lambda>_. replicate 32 0) (\<lambda>_ _ _ st. (True, Suc st)) 0
       (\<lambda>_ st. (Inl (), st)) (toy_applied 8) s1 (w, 0) = (Err (Staging ()), s1, w, 0)"
  using unresolved_addition_blocks_storage [OF toy_apply, where ops = "[GEncrypt [7]]"
      and ?s2.0 = "snd (encrypt_application_message toy_lib (toy_session 2 (Some 2) toy_both) [7])"
      and ?sha256.0 = "\<lambda>_. replicate 32 0" and store = "\<lambda>_ _ _ st. (True, Suc st)" and thread = 0
      and w = "\<lparr> wa_active = (\<lambda>_. None), wa_current = (\<lambda>_. None) \<rparr>" and st = 0, THEN conjunct1]
    unresolved_addition_blocks_storage [OF toy_apply [of 8], where ops = "[]"
      and ?s2.0 = "toy_session 2 (Some 2) toy_both" and stage = "\<lambda>_ st. (Inl (), st)"
      and ?sha256.0 = "\<lambda>_. replicate 32 0" and store = "\<lambda>_ _ _ st. (True, Suc st)" and thread = 0
      and w = "\<lparr> wa_active = (\<lambda>_. None), wa_current = (\<lambda>_. None) \<rparr>" and st = 0, THEN conjunct2, THEN conjunct1]
  by (auto simp: Let_def)




text \<open>
  C18: a storage authority recognises exactly the write it captured. After an authority has captured a
  storage call it authorises that call on its own thread. Whatever call it authorises is on that thread, and its
  canonical rendering and the captured call's have the same SHA-256 digest; the renderings are equal
  only if the two calls have the same group identifier, state bytes and epoch records, in order and under
  the same heads.
\<close>

theorem captured_write_is_exact:
  assumes "capture sha256 thread authority call w = Ok w'"
  shows "authorizes_current_write sha256 thread authority call w'
    \<and> (\<forall>thread' call'. authorizes_current_write sha256 thread' authority call' w' \<longrightarrow>
        thread' = thread
        \<and> (\<exists>x y. provider_state_write_input call = Ok x \<and> provider_state_write_input call' = Ok y
            \<and> sha256 x = sha256 y \<and> (x = y \<longleftrightarrow> call' = call)))"
proof -
  obtain digest where d: "provider_state_write_digest sha256 call = Ok digest"
    "wa_active w' authority = Some (thread, Some digest)"
    using assms by (auto simp: capture_def ok_iff split: option.splits prod.splits if_splits)
  have "thread' = thread \<and> (\<exists>x y. provider_state_write_input call = Ok x
      \<and> provider_state_write_input call' = Ok y \<and> sha256 x = sha256 y \<and> (x = y \<longleftrightarrow> call' = call))"
    if auth: "authorizes_current_write sha256 thread' authority call' w'" for thread' call'
  proof -
    obtain digest' where d': "provider_state_write_digest sha256 call' = Ok digest'"
      "wa_active w' authority = Some (thread', Some digest')"
      using auth by (auto simp: authorizes_current_write_def split: sum.splits)
    obtain x y where xy: "provider_state_write_input call = Ok x" "provider_state_write_input call' = Ok y"
      "sha256 x = digest" "sha256 y = digest'"
      using d(1) d'(1) by (auto simp: provider_state_write_digest_def fixed_bytes_def ok_iff split: if_splits)
    have "thread' = thread" "digest' = digest" using d(2) d'(2) by simp_all
    moreover have "x = y \<longleftrightarrow> call' = call" using xy(1,2) write_input_inject by force
    ultimately show ?thesis using xy by blast
  qed
  with d show ?thesis by (simp add: authorizes_current_write_def)
qed

definition ex_call :: provider_state_write where
  "ex_call = \<lparr> ps_group_id = [1], ps_data = [2, 3], ps_epoch_inserts = [(4, [5])], ps_epoch_updates = [] \<rparr>"

theorem captured_write_is_exact_witness:
  "\<exists>w'. capture (\<lambda>_. replicate 32 1) 6 8 ex_call
      \<lparr> wa_active = (\<lambda>_. Some (6, None)), wa_current = (\<lambda>_. None) \<rparr> = Ok w'
    \<and> authorizes_current_write (\<lambda>_. replicate 32 1) 6 8 ex_call w'
    \<and> \<not> authorizes_current_write (\<lambda>_. replicate 32 1) 7 8 ex_call w'"
proof -
  have "provider_state_write_digest (\<lambda>_. replicate 32 1) ex_call = Ok (replicate 32 1)"
    by (simp add: provider_state_write_digest_def provider_state_write_input_def ex_call_def
        update_provider_state_digest_bytes_def update_provider_state_digest_epochs_def fixed_bytes_def)
  then obtain w' where w': "capture (\<lambda>_. replicate 32 1) 6 8 ex_call
      \<lparr> wa_active = (\<lambda>_. Some (6, None)), wa_current = (\<lambda>_. None) \<rparr> = Ok w'"
    "authorizes_current_write (\<lambda>_. replicate 32 1) 6 8 ex_call w'"
    by (simp add: capture_def authorizes_current_write_def)
  have "\<not> authorizes_current_write (\<lambda>_. replicate 32 1) 7 8 ex_call w'"
    using captured_write_is_exact [OF w'(1), THEN conjunct2, rule_format, of 7 ex_call] by linarith
  with w' show ?thesis by blast
qed



section \<open>The durable identity\<close>

lemma from_parts_ok:
  "DurableClientIdentity_from_parts L credential public secret = Ok d \<Longrightarrow>
     d = \<lparr> di_credential_identity = credential, di_signature_public_key = public,
           di_signature_secret_key = secret \<rparr>
     \<and> length public = 32 \<and> length secret = 64"
  by (auto simp: DurableClientIdentity_from_parts_def fixed_bytes_def SIGNATURE_PUBLIC_KEY_BYTES_def
      SIGNATURE_SECRET_KEY_BYTES_def ok_iff split: if_splits)

lemma decode_encode_identity:
  assumes "DurableClientIdentity_from_parts L credential public secret = Ok d" "length credential = 32"
  shows "DurableClientIdentity_decode L (DurableClientIdentity_encode d) = Ok d"
proof -
  note d = from_parts_ok [OF assms(1)]
  define head where "head = DURABLE_IDENTITY_MAGIC @ [DURABLE_IDENTITY_FORMAT_VERSION,
     DURABLE_IDENTITY_PROTOCOL_MLS_10] @ be_bytes 2 (unat DURABLE_IDENTITY_CIPHERSUITE)
     @ [DURABLE_IDENTITY_PROVIDER_AWS_LC]"
  have head: "head = [83, 67, 77, 76, 83, 73, 68, 49, 1, 1, 0, 1, 1]"
    by (simp add: head_def DURABLE_IDENTITY_MAGIC_def DURABLE_IDENTITY_FORMAT_VERSION_def
        DURABLE_IDENTITY_PROTOCOL_MLS_10_def DURABLE_IDENTITY_CIPHERSUITE_def
        DURABLE_IDENTITY_PROVIDER_AWS_LC_def numeral_2_eq_2)
  have enc: "DurableClientIdentity_encode d = head @ credential @ public @ secret"
    using d by (simp add: DurableClientIdentity_encode_def head_def)
  let ?bs = "head @ credential @ public @ secret"
  have parts: "slice 13 45 ?bs = credential" "slice 45 77 ?bs = public" "slice 77 141 ?bs = secret"
    "slice 0 8 ?bs = DURABLE_IDENTITY_MAGIC" "length ?bs = 141"
    "?bs ! 8 = 1" "?bs ! 9 = 1" "?bs ! 10 = 0" "?bs ! 11 = 1" "?bs ! 12 = 1"
    using d assms(2) by (simp_all add: slice_def head DURABLE_IDENTITY_MAGIC_def)
  have "DurableClientIdentity_decode L ?bs = DurableClientIdentity_from_parts L credential public secret"
    by (simp only: DurableClientIdentity_decode_def parts DURABLE_CLIENT_IDENTITY_BYTES_def)
      (simp add: DURABLE_IDENTITY_FORMAT_VERSION_def DURABLE_IDENTITY_PROTOCOL_MLS_10_def
        DURABLE_IDENTITY_CIPHERSUITE_def DURABLE_IDENTITY_PROVIDER_AWS_LC_def)
  then show ?thesis by (simp only: enc assms(1))
qed

text \<open>
  C39: a durable client reloads as itself. When \<open>create_durable_client_with_storage\<close> returns a client, loading
  from the storage it left gives the same client: the same credential identity, signature key,
  bound group and library configuration.
\<close>

theorem durable_client_reloads:
  assumes "\<And>bs st st'. is_insert S gid bs st = (Ok (), st') \<Longrightarrow> is_load S gid st' = Ok (Some bs)"
    and "\<And>n r bs r'. lib_random_bytes L n r = (Some bs, r') \<Longrightarrow> length bs = n"
    and "create_durable_client_with_storage L S gid r st = (Ok cl, r', st')"
  shows "load_durable_client_with_storage L S gid st' = Ok cl"
proof -
  obtain d r1 where g: "DurableClientIdentity_generate L r = (Ok d, r1)"
    and i: "is_insert S gid (DurableClientIdentity_encode d) st = (Ok (), st')"
    and cl: "cl = build_stored_client L d gid"
    using assms(3)
    by (auto simp: create_durable_client_with_storage_def split: sum.splits option.splits prod.splits)
  obtain credential public secret where "DurableClientIdentity_from_parts L credential public secret = Ok d"
    "length credential = 32"
    using g assms(2)
    by (auto simp: DurableClientIdentity_generate_def SESSION_CREDENTIAL_ID_BYTES_def
        split: if_splits prod.splits option.splits)
  from decode_encode_identity [OF this] assms(1) [OF i] show ?thesis
    by (simp add: load_durable_client_with_storage_def cl)
qed

definition toy_store :: "bytes option identity_storage" where
  "toy_store = \<lparr> is_load = (\<lambda>_ st. Ok st), is_insert = (\<lambda>_ bs _. (Ok (), Some bs)) \<rparr>"

theorem durable_client_reloads_witness:
  "\<exists>cl r' st'. create_durable_client_with_storage toy_lib toy_store [1] 1 None = (Ok cl, r', st')
    \<and> load_durable_client_with_storage toy_lib toy_store [1] st' = Ok cl"
proof -
  have "\<exists>cl r' st'. create_durable_client_with_storage toy_lib toy_store [1] 1 None = (Ok cl, r', st')"
    by (simp add: create_durable_client_with_storage_def toy_store_def DurableClientIdentity_generate_def
        DurableClientIdentity_from_parts_def toy_lib_def fixed_bytes_def SIGNATURE_PUBLIC_KEY_BYTES_def
        SIGNATURE_SECRET_KEY_BYTES_def SESSION_CREDENTIAL_ID_BYTES_def all_zero_replicate)
  then obtain cl r' st' where c:
    "create_durable_client_with_storage toy_lib toy_store [1] 1 None = (Ok cl, r', st')" by blast
  have "load_durable_client_with_storage toy_lib toy_store [1] st' = Ok cl"
    by (rule durable_client_reloads [OF _ _ c]) (auto simp: toy_store_def toy_lib_def)
  with c show ?thesis by blast
qed

end
