(* ===== verification/Admission.thy ===== *)
theory Admission
  imports Hpke_Join Mls_Group
begin

text \<open>
  Capability admission: \<open>crates/session-admission/src/lib.rs\<close> and
  \<open>crates/admission-capability/src/lib.rs\<close>. An opened join request is verified and its replay values
  reserved, bound to the issued invitation, put to an approval decision, and turned into an MLS
  addition. The values handed from step to step are one-shot: Rust moves them, so a definition takes
  the value and the three states it borrows, the verifier, the invitation registry and the group, and
  returns those it changed. Dropping a prepared addition is a definition of its own.
\<close>

section \<open>The provider-neutral contract\<close>

definition ADMISSION_IDENTIFIER_BYTES :: usize where "ADMISSION_IDENTIFIER_BYTES = 16"

datatype admission_method = SecretCapabilityMethod

datatype approval_decision = Approve | Reject

datatype admission_contract_error = InvalidContext

record approval_context =
  ac_method :: admission_method
  ac_invitation_id :: ident
  ac_join_request_id :: ident
  ac_key_package_reference :: bytes
  ac_expires_at :: u64

definition ApprovalContext_new ::
    "admission_method \<Rightarrow> ident \<Rightarrow> ident \<Rightarrow> bytes \<Rightarrow> u64 \<Rightarrow> admission_contract_error + approval_context" where
  "ApprovalContext_new m iid jid reference expires_at =
     (if all_zero iid \<or> all_zero jid \<or> all_zero reference \<or> expires_at = 0 then Err InvalidContext
      else Ok \<lparr> ac_method = m, ac_invitation_id = iid, ac_join_request_id = jid,
                ac_key_package_reference = reference, ac_expires_at = expires_at \<rparr>)"

section \<open>The verifier\<close>

datatype capability_admission_error = AdmissionInvalidPolicy | AdmissionRejected | AdmissionReplay
  | AdmissionCapacityExceeded | AdmissionReservationMismatch

record capability_admission_policy =
  cp_maximum_request_lifetime :: u64
  cp_maximum_future_skew :: u64
  cp_maximum_pending :: usize

definition CapabilityAdmissionPolicy_new ::
    "u64 \<Rightarrow> u64 \<Rightarrow> usize \<Rightarrow> capability_admission_error + capability_admission_policy" where
  "CapabilityAdmissionPolicy_new lifetime skew pending =
     (if lifetime = 0 \<or> pending = 0 then Err AdmissionInvalidPolicy
      else Ok \<lparr> cp_maximum_request_lifetime = lifetime, cp_maximum_future_skew = skew,
                cp_maximum_pending = pending \<rparr>)"

record replay_generation =
  rg_invitation_id :: ident
  rg_join_challenge :: bytes
  rg_invitation_key_id :: ident
  rg_intended_verifier :: bytes

record replay_reservation =
  rr_generation :: replay_generation
  rr_join_request_id :: ident
  rr_request_nonce :: bytes
  rr_reservation_id :: u64

record pending_replay =
  pe_generation :: replay_generation
  pe_join_request_id :: ident
  pe_request_nonce :: bytes
  pe_expires_at :: u64
  pe_reservation_id :: u64

record capability_admission_verifier =
  cv_policy :: capability_admission_policy
  cv_pending :: "pending_replay list"
  cv_next_reservation_id :: u64

definition CapabilityAdmissionVerifier_new :: "capability_admission_policy \<Rightarrow> capability_admission_verifier" where
  "CapabilityAdmissionVerifier_new p = \<lparr> cv_policy = p, cv_pending = [], cv_next_reservation_id = 1 \<rparr>"

record 'm verified_capability_admission =
  ve_opened :: opened_capability_join_request
  ve_validated :: "'m validated_key_package"
  ve_reservation :: replay_reservation

record 'm pending_capability_approval =
  pc_verified :: "'m verified_capability_admission"
  pc_invitation_reservation :: invitation_reservation
  pc_approval_context :: approval_context

record 'm approved_capability_admission =
  ad_verified :: "'m verified_capability_admission"
  ad_invitation_reservation :: invitation_reservation

datatype 'm capability_approval_outcome =
  OutcomeApproved "'m approved_capability_admission" | OutcomeRejected

abbreviation request_of :: "'m verified_capability_admission \<Rightarrow> capability_join_request" where
  "request_of w \<equiv> op_request (ve_opened w)"

definition generation_of :: "capability_join_request \<Rightarrow> replay_generation" where
  "generation_of r = \<lparr> rg_invitation_id = ib_invitation_id (jr_invitation r),
     rg_join_challenge = ib_join_challenge (jr_invitation r),
     rg_invitation_key_id = ib_invitation_key_id (jr_invitation r),
     rg_intended_verifier = ib_intended_verifier (jr_invitation r) \<rparr>"

definition owns :: "replay_reservation \<Rightarrow> pending_replay \<Rightarrow> bool" where
  "owns res e \<longleftrightarrow> pe_reservation_id e = rr_reservation_id res \<and> pe_generation e = rr_generation res
     \<and> pe_join_request_id e = rr_join_request_id res \<and> pe_request_nonce e = rr_request_nonce res"

text \<open>\<open>Vec::position\<close> and \<open>Vec::remove\<close>: the index of the first match, and the list without it.\<close>

fun position :: "('a \<Rightarrow> bool) \<Rightarrow> 'a list \<Rightarrow> usize option" where
  "position P [] = None"
| "position P (x # xs) = (if P x then Some 0 else map_option Suc (position P xs))"

definition remove_at :: "usize \<Rightarrow> 'a list \<Rightarrow> 'a list" where
  "remove_at i xs = take i xs @ drop (Suc i) xs"

definition reservation_position :: "capability_admission_verifier \<Rightarrow> replay_reservation \<Rightarrow> usize option" where
  "reservation_position v res = position (owns res) (cv_pending v)"

definition remove_reservation ::
    "capability_admission_verifier \<Rightarrow> replay_reservation \<Rightarrow>
     (capability_admission_error + unit) \<times> capability_admission_verifier" where
  "remove_reservation v res =
     (case reservation_position v res of None \<Rightarrow> (Err AdmissionReservationMismatch, v)
      | Some i \<Rightarrow> (Ok (), v \<lparr> cv_pending := remove_at i (cv_pending v) \<rparr>))"

definition pending_count :: "capability_admission_verifier \<Rightarrow> usize" where
  "pending_count v = length (cv_pending v)"

section \<open>Verification\<close>

definition request_window ::
    "capability_admission_policy \<Rightarrow> capability_join_request \<Rightarrow> u64 \<Rightarrow> capability_admission_error + unit" where
  "request_window p r now =
     (let latest_issue = saturating_add now (cp_maximum_future_skew p) in
      and_then (ok_or AdmissionRejected (checked_sub (rb_expires_at (jr_request r)) (rb_issued_at (jr_request r)))) (\<lambda>lifetime.
      if rb_issued_at (jr_request r) > latest_issue \<or> rb_expires_at (jr_request r) \<le> now
         \<or> ep_expires_at (jr_response_endpoint r) \<le> now \<or> lifetime > cp_maximum_request_lifetime p
      then Err AdmissionRejected else Ok ()))"

definition bound_key_package ::
    "('m, 'k, 'g, 'c, 'r) mls_rs \<Rightarrow> capability_join_request \<Rightarrow> u64 \<Rightarrow>
     capability_admission_error + 'm validated_key_package" where
  "bound_key_package L r now =
     and_then (map_err (\<lambda>_. AdmissionRejected) (validate_key_package L (kb_key_package (jr_mls r)) now)) (\<lambda>v.
     if kb_key_package_reference (jr_mls r) \<noteq> vk_reference v
        \<or> kb_credential_identity (jr_mls r) \<noteq> vk_credential_identity v
        \<or> kb_leaf_signature_key (jr_mls r) \<noteq> vk_leaf_signature_key v
     then Err AdmissionRejected else Ok v)"

definition is_replay :: "capability_join_request \<Rightarrow> u64 \<Rightarrow> pending_replay \<Rightarrow> bool" where
  "is_replay r now e \<longleftrightarrow> pe_expires_at e > now \<and> pe_generation e = generation_of r
     \<and> (pe_join_request_id e = rb_join_request_id (jr_request r)
        \<or> pe_request_nonce e = rb_request_nonce (jr_request r))"

definition verify_and_reserve ::
    "('m, 'k, 'g, 'c, 'r) mls_rs \<Rightarrow> capability_admission_verifier \<Rightarrow> opened_capability_join_request \<Rightarrow> u64 \<Rightarrow>
     (capability_admission_error + 'm verified_capability_admission) \<times> capability_admission_verifier" where
  "verify_and_reserve L v opened now =
     (let r = op_request opened in
      case request_window (cv_policy v) r now of Inl e \<Rightarrow> (Err e, v)
      | Inr _ \<Rightarrow>
      (case bound_key_package L r now of Inl e \<Rightarrow> (Err e, v)
       | Inr validated \<Rightarrow>
         if list_ex (is_replay r now) (cv_pending v) then (Err AdmissionReplay, v)
         else if length (filter (\<lambda>e. pe_expires_at e > now) (cv_pending v)) \<ge> cp_maximum_pending (cv_policy v)
         then (Err AdmissionCapacityExceeded, v)
         else (case checked_add (cv_next_reservation_id v) 1 of
             None \<Rightarrow> (Err AdmissionCapacityExceeded, v)
           | Some next \<Rightarrow>
               (Ok \<lparr> ve_opened = opened, ve_validated = validated,
                     ve_reservation = \<lparr> rr_generation = generation_of r,
                       rr_join_request_id = rb_join_request_id (jr_request r),
                       rr_request_nonce = rb_request_nonce (jr_request r),
                       rr_reservation_id = cv_next_reservation_id v \<rparr> \<rparr>,
                v \<lparr> cv_pending := filter (\<lambda>e. pe_expires_at e > now) (cv_pending v)
                      @ [\<lparr> pe_generation = generation_of r,
                           pe_join_request_id = rb_join_request_id (jr_request r),
                           pe_request_nonce = rb_request_nonce (jr_request r),
                           pe_expires_at = rb_expires_at (jr_request r),
                           pe_reservation_id = cv_next_reservation_id v \<rparr>],
                    cv_next_reservation_id := next \<rparr>))))"

definition release_verified ::
    "capability_admission_verifier \<Rightarrow> 'm verified_capability_admission \<Rightarrow>
     (capability_admission_error + unit) \<times> capability_admission_verifier" where
  "release_verified v w = remove_reservation v (ve_reservation w)"

section \<open>Approval\<close>

definition bound_to_invitation ::
    "'m verified_capability_admission \<Rightarrow> signed_capability_invitation_v2 \<Rightarrow> bool" where
  "bound_to_invitation w i \<longleftrightarrow>
     ib_invitation_id (jr_invitation (request_of w)) = cl_invitation_id (cl2_base (inv2_claims i))
     \<and> ib_join_challenge (jr_invitation (request_of w)) = cl_join_challenge (cl2_base (inv2_claims i))
     \<and> ib_invitation_key_id (jr_invitation (request_of w)) = cl2_invitation_key_id (inv2_claims i)
     \<and> ib_intended_verifier (jr_invitation (request_of w)) = inv2_verifying_key i
     \<and> op_invitation_signature (ve_opened w) = inv2_signature i"

text \<open>The rejection of \<open>reserve_v2_for_approval\<close>: the replay reservation is given back first.\<close>

definition reject_verified ::
    "capability_admission_verifier \<Rightarrow> 'm verified_capability_admission \<Rightarrow>
     capability_admission_error \<times> capability_admission_verifier" where
  "reject_verified v w =
     (case remove_reservation v (ve_reservation w) of (Inl e, v) \<Rightarrow> (e, v)
      | (Inr _, v) \<Rightarrow> (AdmissionRejected, v))"

definition reserve_v2_for_approval ::
    "capability_admission_verifier \<Rightarrow> registry \<Rightarrow> signed_capability_invitation_v2 \<Rightarrow>
     'm verified_capability_admission \<Rightarrow> u64 \<Rightarrow>
     (capability_admission_error + 'm pending_capability_approval) \<times> capability_admission_verifier \<times> registry" where
  "reserve_v2_for_approval v g i w now =
     (if reservation_position v (ve_reservation w) = None then (Err AdmissionReservationMismatch, v, g)
      else if \<not> bound_to_invitation w i
      then (case reject_verified v w of (e, v) \<Rightarrow> (Err e, v, g))
      else case ApprovalContext_new SecretCapabilityMethod (ib_invitation_id (jr_invitation (request_of w)))
             (rb_join_request_id (jr_request (request_of w))) (vk_reference (ve_validated w))
             (rb_expires_at (jr_request (request_of w))) of
        Inl _ \<Rightarrow> (case reject_verified v w of (e, v) \<Rightarrow> (Err e, v, g))
      | Inr context \<Rightarrow>
        (case reserve_v2_after_admission g i (rb_join_request_id (jr_request (request_of w))) now of
           (Inl _, g) \<Rightarrow> (case reject_verified v w of (e, v) \<Rightarrow> (Err e, v, g))
         | (Inr reservation, g) \<Rightarrow>
             (Ok \<lparr> pc_verified = w, pc_invitation_reservation = reservation,
                   pc_approval_context = context \<rparr>, v, g)))"

definition release_pending ::
    "capability_admission_verifier \<Rightarrow> registry \<Rightarrow> 'm pending_capability_approval \<Rightarrow> u64 \<Rightarrow>
     (capability_admission_error + unit) \<times> capability_admission_verifier \<times> registry" where
  "release_pending v g p now =
     (case release g (pc_invitation_reservation p) now of (invitation_result, g) \<Rightarrow>
      (case remove_reservation v (ve_reservation (pc_verified p)) of (replay_result, v) \<Rightarrow>
        (if \<not> is_ok invitation_result \<or> \<not> is_ok replay_result then Err AdmissionReservationMismatch
         else Ok (), v, g)))"

text \<open>The checks an approval and a preparation repeat: unexpired request, endpoint and reservation.\<close>

definition still_admissible ::
    "registry \<Rightarrow> 'm verified_capability_admission \<Rightarrow> invitation_reservation \<Rightarrow> u64 \<Rightarrow> bool" where
  "still_admissible g w res now \<longleftrightarrow>
     rb_expires_at (jr_request (request_of w)) > now
     \<and> ep_expires_at (jr_response_endpoint (request_of w)) > now
     \<and> is_ok (validate_reservation g res now)"

definition decide_v2 ::
    "capability_admission_verifier \<Rightarrow> registry \<Rightarrow> 'm pending_capability_approval \<Rightarrow> approval_decision \<Rightarrow> u64 \<Rightarrow>
     (capability_admission_error + 'm capability_approval_outcome) \<times> capability_admission_verifier \<times> registry" where
  "decide_v2 v g p decision now =
     (if reservation_position v (ve_reservation (pc_verified p)) = None
      then (Err AdmissionReservationMismatch, v, snd (release g (pc_invitation_reservation p) now))
      else case decision of
        Reject \<Rightarrow> (case release_pending v g p now of (r, v, g) \<Rightarrow> (and_then r (\<lambda>_. Ok OutcomeRejected), v, g))
      | Approve \<Rightarrow>
          if \<not> still_admissible g (pc_verified p) (pc_invitation_reservation p) now
          then (case release_pending v g p now of (_, v, g) \<Rightarrow> (Err AdmissionRejected, v, g))
          else (Ok (OutcomeApproved \<lparr> ad_verified = pc_verified p,
                     ad_invitation_reservation = pc_invitation_reservation p \<rparr>), v, g))"

section \<open>The coupled addition\<close>

record prepared_approved_addition =
  pp_inner :: prepared_addition
  pp_replay_reservation :: replay_reservation
  pp_invitation_reservation :: invitation_reservation
  pp_now :: u64
  pp_request_expires_at :: u64
  pp_response_endpoint :: local_welcome_deposit_endpoint

definition prepare_approved_add ::
    "('m, 'k, 'g, 'c, 'r) mls_rs \<Rightarrow> capability_admission_verifier \<Rightarrow> registry \<Rightarrow> 'g session_mls_group \<Rightarrow>
     'm approved_capability_admission \<Rightarrow> u64 \<Rightarrow>
     (capability_admission_error + prepared_approved_addition)
       \<times> capability_admission_verifier \<times> registry \<times> 'g session_mls_group" where
  "prepare_approved_add L v g s a now =
     (let w = ad_verified a; res = ad_invitation_reservation a in
      if reservation_position v (ve_reservation w) = None
      then (Err AdmissionReservationMismatch, v, snd (release g res now), s)
      else if \<not> still_admissible g w res now
      then (Err AdmissionRejected, snd (remove_reservation v (ve_reservation w)), snd (release g res now), s)
      else case prepare_add L s (ve_validated w) now of
        (Inr inner, s) \<Rightarrow>
          (Ok \<lparr> pp_inner = inner, pp_replay_reservation = ve_reservation w,
                pp_invitation_reservation = res, pp_now = now,
                pp_request_expires_at = rb_expires_at (jr_request (request_of w)),
                pp_response_endpoint = jr_response_endpoint (request_of w) \<rparr>, v, g, s)
      | (Inl _, s) \<Rightarrow>
          (case remove_reservation v (ve_reservation w) of
             (Inl e, v) \<Rightarrow> (Err e, v, snd (release g res now), s)
           | (Inr _, v) \<Rightarrow> (Err AdmissionRejected, v, snd (release g res now), s)))"

definition validate_before_apply ::
    "registry \<Rightarrow> prepared_approved_addition \<Rightarrow> u64 \<Rightarrow> capability_admission_error + unit" where
  "validate_before_apply g p now =
     (if pp_request_expires_at p \<le> now \<or> ep_expires_at (pp_response_endpoint p) \<le> now
      then Err AdmissionRejected
      else map_err (\<lambda>_. AdmissionRejected) (validate_reservation g (pp_invitation_reservation p) now))"

text \<open>
  \<open>Drop\<close> of a prepared addition whose states are not preserved. What it releases depends on what is
  still there: \<open>holds_inner\<close> and \<open>holds_res\<close> tell whether the MLS addition and the invitation
  reservation have been taken.
\<close>

definition drop_prepared_approved ::
    "('m, 'k, 'g, 'c, 'r) mls_rs \<Rightarrow> bool \<Rightarrow> bool \<Rightarrow> u64 \<Rightarrow> prepared_approved_addition \<Rightarrow>
     capability_admission_verifier \<Rightarrow> registry \<Rightarrow> 'g session_mls_group \<Rightarrow>
     capability_admission_verifier \<times> registry \<times> 'g session_mls_group" where
  "drop_prepared_approved L holds_inner holds_res now p v g s =
     (snd (remove_reservation v (pp_replay_reservation p)),
      (if holds_res then snd (release g (pp_invitation_reservation p) now) else g),
      (if holds_inner then drop_prepared L s else s))"

record committed_capability_join =
  cj_committed :: applied_addition
  cj_response_endpoint :: local_welcome_deposit_endpoint

definition apply_join ::
    "('m, 'k, 'g, 'c, 'r) mls_rs \<Rightarrow> nat \<Rightarrow> prepared_approved_addition \<Rightarrow> u64 \<Rightarrow>
     capability_admission_verifier \<Rightarrow> registry \<Rightarrow> 'g session_mls_group \<Rightarrow>
     (capability_admission_error + committed_capability_join)
       \<times> capability_admission_verifier \<times> registry \<times> 'g session_mls_group" where
  "apply_join L authority p now v g s =
     (case validate_before_apply g p now of
        Inl e \<Rightarrow> (Err e, drop_prepared_approved L True True now p v g s)
      | Inr _ \<Rightarrow>
        (case apply_transient_addition L authority (pp_inner p) s of
           (Inl _, s) \<Rightarrow> (Err AdmissionRejected, drop_prepared_approved L False True now p v g s)
         | (Inr committed, s) \<Rightarrow>
           (case consume_after_membership g (pp_invitation_reservation p) now of
              (Inl _, g) \<Rightarrow> (Err AdmissionReservationMismatch, drop_prepared_approved L False False now p v g s)
            | (Inr _, g) \<Rightarrow>
                (Ok \<lparr> cj_committed = committed, cj_response_endpoint = pp_response_endpoint p \<rparr>, v, g, s))))"

record applied_awaiting_durability =
  aw_committed :: applied_addition
  aw_response_endpoint :: local_welcome_deposit_endpoint
  aw_replay_reservation :: replay_reservation
  aw_invitation_reservation :: invitation_reservation
  aw_applied_at :: u64

definition apply_awaiting_durability ::
    "('m, 'k, 'g, 'c, 'r) mls_rs \<Rightarrow> nat \<Rightarrow> prepared_approved_addition \<Rightarrow> u64 \<Rightarrow>
     capability_admission_verifier \<Rightarrow> registry \<Rightarrow> 'g session_mls_group \<Rightarrow>
     (capability_admission_error + applied_awaiting_durability)
       \<times> capability_admission_verifier \<times> registry \<times> 'g session_mls_group" where
  "apply_awaiting_durability L authority p now v g s =
     (case validate_before_apply g p now of
        Inl e \<Rightarrow> (Err e, drop_prepared_approved L True True now p v g s)
      | Inr _ \<Rightarrow>
        (case apply_durable_addition L authority (pp_inner p) s of
           (Inl _, s) \<Rightarrow> (Err AdmissionRejected, drop_prepared_approved L False True now p v g s)
         | (Inr committed, s) \<Rightarrow>
             (Ok \<lparr> aw_committed = committed, aw_response_endpoint = pp_response_endpoint p,
                   aw_replay_reservation = pp_replay_reservation p,
                   aw_invitation_reservation = pp_invitation_reservation p,
                   aw_applied_at = now \<rparr>, v, g, s)))"

record shadow_settlement =
  ss_replay_reservation :: replay_reservation
  ss_invitation_reservation :: invitation_reservation
  ss_applied_at :: u64

definition into_durable_owner_parts ::
    "applied_awaiting_durability \<Rightarrow> applied_addition \<times> local_welcome_deposit_endpoint \<times> shadow_settlement" where
  "into_durable_owner_parts w =
     (aw_committed w, aw_response_endpoint w,
      \<lparr> ss_replay_reservation = aw_replay_reservation w,
        ss_invitation_reservation = aw_invitation_reservation w, ss_applied_at = aw_applied_at w \<rparr>)"

definition invitation_lifecycle_of :: "registry \<Rightarrow> applied_awaiting_durability \<Rightarrow> invitation_lifecycle option" where
  "invitation_lifecycle_of g w = lifecycle g (rg_invitation_id (rr_generation (aw_replay_reservation w)))"

definition release_shadows ::
    "replay_reservation \<Rightarrow> invitation_reservation \<Rightarrow> u64 \<Rightarrow> capability_admission_verifier \<Rightarrow> registry \<Rightarrow>
     (capability_admission_error + unit) \<times> capability_admission_verifier \<times> registry" where
  "release_shadows replay res now v g =
     (case release g res now of (invitation_result, g) \<Rightarrow>
      (case remove_reservation v replay of (replay_result, v) \<Rightarrow>
        (if \<not> is_ok invitation_result \<or> \<not> is_ok replay_result then Err AdmissionReservationMismatch
         else Ok (), v, g)))"

definition awaiting_release_proven_uncommitted ::
    "applied_awaiting_durability \<Rightarrow> capability_admission_verifier \<Rightarrow> registry \<Rightarrow>
     (capability_admission_error + unit) \<times> capability_admission_verifier \<times> registry" where
  "awaiting_release_proven_uncommitted w v g =
     release_shadows (aw_replay_reservation w) (aw_invitation_reservation w) (aw_applied_at w) v g"

definition finalize_committed ::
    "shadow_settlement \<Rightarrow> registry \<Rightarrow> (capability_admission_error + unit) \<times> registry" where
  "finalize_committed t g =
     (case consume_after_membership g (ss_invitation_reservation t) (ss_applied_at t) of
        (r, g) \<Rightarrow> (map_err (\<lambda>_. AdmissionReservationMismatch) r, g))"

definition release_proven_uncommitted ::
    "shadow_settlement \<Rightarrow> capability_admission_verifier \<Rightarrow> registry \<Rightarrow>
     (capability_admission_error + unit) \<times> capability_admission_verifier \<times> registry" where
  "release_proven_uncommitted t v g =
     release_shadows (ss_replay_reservation t) (ss_invitation_reservation t) (ss_applied_at t) v g"

end
