(* ===== verification/Admission_System.thy ===== *)
theory Admission_System
  imports Admission "HOL-Library.Multiset" "HOL-Library.Sublist"
begin

text \<open>
  Sequences of admission calls. The inviter holds a verifier, a registry and a group, and the one-shot
  values the calls have returned; each call takes a value it holds and may return another. A prepared
  addition borrows all three states, so preparing and applying (or dropping) one is a single operation;
  the same holds for an applied addition and its settlement. Registry calls come in between, and the
  group may be replaced by any other state of it. The log records what the calls achieved; an approved
  outcome is logged with the decision the caller passed.
\<close>

section \<open>The verifier's invariant\<close>

definition conflicts :: "pending_replay \<Rightarrow> pending_replay \<Rightarrow> bool" where
  "conflicts e f \<longleftrightarrow> pe_generation e = pe_generation f
     \<and> (pe_join_request_id e = pe_join_request_id f \<or> pe_request_nonce e = pe_request_nonce f)"

definition verifier_inv :: "capability_admission_verifier \<Rightarrow> bool" where
  "verifier_inv v \<longleftrightarrow> length (cv_pending v) \<le> cp_maximum_pending (cv_policy v)
     \<and> list_all (\<lambda>e. pe_reservation_id e < cv_next_reservation_id v) (cv_pending v)
     \<and> distinct (map pe_reservation_id (cv_pending v))
     \<and> sorted_wrt (\<lambda>e f. \<not> conflicts e f) (cv_pending v)"

lemma position_Some: "position P xs = Some i \<Longrightarrow> i < length xs \<and> P (xs ! i)"
  by (induction xs arbitrary: i) (auto split: if_splits)

lemma position_None: "position P xs = None \<longleftrightarrow> (\<forall>x \<in> set xs. \<not> P x)"
  by (induction xs) auto

lemma mset_remove_at: "i < length xs \<Longrightarrow> mset xs = add_mset (xs ! i) (mset (remove_at i xs))"
  by (metis add_mset_remove_trivial id_take_nth_drop mset.simps(2) mset_append remove_at_def
      union_mset_add_mset_right)

lemma set_remove_at: "set (remove_at i xs) \<subseteq> set xs"
  by (auto simp: remove_at_def dest: in_set_takeD in_set_dropD)

lemma remove_at_Cons: "remove_at i (x # xs) = (case i of 0 \<Rightarrow> xs | Suc j \<Rightarrow> x # remove_at j xs)"
  by (simp add: remove_at_def split: nat.split)

lemma subseq_remove_at: "subseq (remove_at i xs) xs"
proof (induction xs arbitrary: i)
  case (Cons x xs)
  then show ?case by (cases i) (auto simp: remove_at_Cons)
qed (simp add: remove_at_def)

lemma subseq_keeps:
  assumes "subseq xs ys"
  shows "(sorted_wrt R ys \<longrightarrow> sorted_wrt R xs) \<and> (distinct (map f ys) \<longrightarrow> distinct (map f xs))
    \<and> set xs \<subseteq> set ys \<and> length xs \<le> length ys"
  using assms by (induction rule: list_emb.induct) auto

lemma verifier_inv_subseq:
  assumes "verifier_inv v" and "subseq es (cv_pending v)"
  shows "verifier_inv (v \<lparr> cv_pending := es \<rparr>)"
  using assms(1) subseq_keeps [OF assms(2), of "\<lambda>e f. \<not> conflicts e f" pe_reservation_id]
  by (auto simp: verifier_inv_def list_all_iff)

lemma verifier_inv_new: "verifier_inv (CapabilityAdmissionVerifier_new p)"
  by (simp add: verifier_inv_def CapabilityAdmissionVerifier_new_def)

lemma remove_reservation_inv:
  "verifier_inv v \<Longrightarrow> verifier_inv (snd (remove_reservation v res))"
  by (auto simp: remove_reservation_def verifier_inv_subseq subseq_remove_at split: option.split)

lemma remove_reservation_next [simp]:
  "cv_next_reservation_id (snd (remove_reservation v res)) = cv_next_reservation_id v"
  by (simp add: remove_reservation_def split: option.split)

text \<open>Reservation identifiers are unique, so a removed reservation is gone.\<close>

lemma remove_reservation_gone:
  assumes "verifier_inv v" and "remove_reservation v res = (r, v')"
  shows "reservation_position v' res = None"
proof (cases "reservation_position v res")
  case None
  then show ?thesis using assms(2) by (auto simp: remove_reservation_def)
next
  case (Some i)
  let ?es = "cv_pending v"
  from Some have i: "i < length ?es" "owns res (?es ! i)"
    by (auto simp: reservation_position_def dest: position_Some)
  have "mset (map pe_reservation_id ?es) =
      add_mset (pe_reservation_id (?es ! i)) (mset (map pe_reservation_id (remove_at i ?es)))"
    using mset_remove_at [OF i(1)] by (metis mset_map msed_map_invL image_mset_add_mset)
  moreover have "distinct (map pe_reservation_id ?es)" using assms(1) by (simp add: verifier_inv_def)
  ultimately have "pe_reservation_id (?es ! i) \<notin> set (map pe_reservation_id (remove_at i ?es))"
    by (metis distinct.simps(2) mset.simps(2) mset_eq_imp_distinct_iff)
  then have "\<forall>e \<in> set (remove_at i ?es). \<not> owns res e"
    using i(2) by (metis imageI list.set_map owns_def)
  then show ?thesis
    using assms(2) Some by (auto simp: remove_reservation_def reservation_position_def position_None)
qed

lemma verify_and_reserve_ok:
  assumes "verify_and_reserve L v opened now = (Ok w, v')"
  shows "ve_opened w = opened \<and> is_ok (request_window (cv_policy v) (op_request opened) now)
    \<and> bound_key_package L (op_request opened) now = Ok (ve_validated w)
    \<and> ve_reservation w = \<lparr> rr_generation = generation_of (op_request opened),
          rr_join_request_id = rb_join_request_id (jr_request (op_request opened)),
          rr_request_nonce = rb_request_nonce (jr_request (op_request opened)),
          rr_reservation_id = cv_next_reservation_id v \<rparr>
    \<and> unat (cv_next_reservation_id v') = Suc (unat (cv_next_reservation_id v))"
  using assms
  by (auto simp: verify_and_reserve_def Let_def is_ok_def dest: checked_add_SomeD
      split: sum.splits if_splits option.splits)

lemma verify_and_reserve_err: "verify_and_reserve L v opened now = (Err e, v') \<Longrightarrow> v' = v"
  by (auto simp: verify_and_reserve_def Let_def split: sum.splits if_splits option.splits)

lemma verify_and_reserve_inv:
  assumes "verifier_inv v"
  shows "verifier_inv (snd (verify_and_reserve L v opened now))"
proof (cases "verify_and_reserve L v opened now")
  case (Pair r v')
  show ?thesis
  proof (cases r)
    case (Inl e)
    then show ?thesis using assms verify_and_reserve_err Pair by fastforce
  next
    case (Inr w)
    let ?es = "filter (\<lambda>e. pe_expires_at e > now) (cv_pending v)"
    let ?req = "op_request opened"
    obtain next' where next': "checked_add (cv_next_reservation_id v) 1 = Some next'"
      and few: "length ?es < cp_maximum_pending (cv_policy v)"
      and fresh: "\<not> list_ex (is_replay ?req now) (cv_pending v)"
      and v': "v' = v \<lparr> cv_pending := ?es @ [\<lparr> pe_generation = generation_of ?req,
           pe_join_request_id = rb_join_request_id (jr_request ?req),
           pe_request_nonce = rb_request_nonce (jr_request ?req),
           pe_expires_at = rb_expires_at (jr_request ?req),
           pe_reservation_id = cv_next_reservation_id v \<rparr>], cv_next_reservation_id := next' \<rparr>"
      using Pair Inr
      by (auto simp: verify_and_reserve_def Let_def not_le split: sum.splits if_splits option.splits)
    have less: "cv_next_reservation_id v < next'"
      using checked_add_SomeD [OF next'] by (simp add: word_less_nat_alt)
    have es: "verifier_inv (v \<lparr> cv_pending := ?es \<rparr>)"
      by (rule verifier_inv_subseq [OF assms subseq_filter_left])
    show ?thesis
      using es fresh few less by (auto simp: Pair v' verifier_inv_def list_all_iff list_ex_iff sorted_wrt_append
          conflicts_def is_replay_def intro: less_trans)
  qed
qed

section \<open>The system\<close>

datatype 'm admission_event =
    EvVerified "'m verified_capability_admission" u64
  | EvReserved "'m verified_capability_admission" signed_capability_invitation_v2 u64
  | EvApproved "'m verified_capability_admission" approval_decision u64
  | EvJoined "'m verified_capability_admission" applied_addition u64

datatype settlement = SettleCommitted | SettleUncommitted | SettleUnresolved

datatype ('sk, 'hk, 'g) admission_op =
    AVerify opened_capability_join_request u64
  | ARelease nat
  | AReserve nat signed_capability_invitation_v2 u64
  | ADecide nat approval_decision u64
  | AJoin nat nat u64 u64
  | AJoinDropped nat u64
  | AJoinDurable nat nat u64 u64 settlement
  | ARegistry "('sk, 'hk) registry_op" u64
  | AGroup "'g session_mls_group"

record ('m, 'g) admission_system =
  sy_verifier :: capability_admission_verifier
  sy_registry :: registry
  sy_group :: "'g session_mls_group"
  sy_verified :: "'m verified_capability_admission list"
  sy_pending :: "'m pending_capability_approval list"
  sy_approved :: "'m approved_capability_admission list"

definition set_states ::
    "capability_admission_verifier \<Rightarrow> registry \<Rightarrow> 'g session_mls_group \<Rightarrow> ('m, 'g) admission_system \<Rightarrow>
     ('m, 'g) admission_system" where
  "set_states v g s y = y \<lparr> sy_verifier := v, sy_registry := g, sy_group := s \<rparr>"

definition settle_with ::
    "settlement \<Rightarrow> applied_awaiting_durability \<Rightarrow> capability_admission_verifier \<Rightarrow> registry \<Rightarrow>
     capability_admission_verifier \<times> registry" where
  "settle_with how w v g = (case into_durable_owner_parts w of (_, _, t) \<Rightarrow>
     (case how of SettleCommitted \<Rightarrow> (v, snd (finalize_committed t g))
      | SettleUncommitted \<Rightarrow> snd (release_proven_uncommitted t v g)
      | SettleUnresolved \<Rightarrow> (v, g)))"

text \<open>A prepared addition is finished in one of three ways.\<close>

definition finish_join ::
    "('m, 'k, 'g, 'c, 'r) mls_rs \<Rightarrow> 'm approved_capability_admission \<Rightarrow> nat \<Rightarrow> u64 \<Rightarrow> settlement option \<Rightarrow>
     prepared_approved_addition \<Rightarrow> capability_admission_verifier \<Rightarrow> registry \<Rightarrow> 'g session_mls_group \<Rightarrow>
     'm admission_event list \<times> capability_admission_verifier \<times> registry \<times> 'g session_mls_group" where
  "finish_join L a authority now how p v g s =
     (case how of
        None \<Rightarrow> (case apply_join L authority p now v g s of
            (Inl _, v, g, s) \<Rightarrow> ([], v, g, s)
          | (Inr j, v, g, s) \<Rightarrow> ([EvJoined (ad_verified a) (cj_committed j) now], v, g, s))
      | Some how \<Rightarrow> (case apply_awaiting_durability L authority p now v g s of
            (Inl _, v, g, s) \<Rightarrow> ([], v, g, s)
          | (Inr w, v, g, s) \<Rightarrow>
              (case settle_with how w v g of (v, g) \<Rightarrow>
                ([EvJoined (ad_verified a) (aw_committed w) now], v, g, s))))"

definition run_join ::
    "('m, 'k, 'g, 'c, 'r) mls_rs \<Rightarrow> nat \<Rightarrow> nat \<Rightarrow> u64 \<Rightarrow> u64 \<Rightarrow> settlement option \<Rightarrow>
     ('m, 'g) admission_system \<Rightarrow> 'm admission_event list \<times> ('m, 'g) admission_system" where
  "run_join L i authority t now how y =
     (if i \<ge> length (sy_approved y) then ([], y)
      else let a = sy_approved y ! i; y' = y \<lparr> sy_approved := remove_at i (sy_approved y) \<rparr> in
      case prepare_approved_add L (sy_verifier y) (sy_registry y) (sy_group y) a t of
        (Inl _, v, g, s) \<Rightarrow> ([], set_states v g s y')
      | (Inr p, v, g, s) \<Rightarrow>
          (case finish_join L a authority now how p v g s of (ev, v, g, s) \<Rightarrow> (ev, set_states v g s y')))"

fun admission_apply ::
    "cbor \<Rightarrow> ('sk, 'vk) ed25519 \<Rightarrow> ('m, 'k, 'g, 'c, 'r) mls_rs \<Rightarrow> ('sk, 'hk, 'g) admission_op \<Rightarrow>
     ('m, 'g) admission_system \<Rightarrow> 'm admission_event list \<times> ('m, 'g) admission_system" where
  "admission_apply C E L (AVerify opened now) y =
     (case verify_and_reserve L (sy_verifier y) opened now of
        (Inl _, v) \<Rightarrow> ([], y \<lparr> sy_verifier := v \<rparr>)
      | (Inr w, v) \<Rightarrow> ([EvVerified w now], y \<lparr> sy_verifier := v, sy_verified := sy_verified y @ [w] \<rparr>))"
| "admission_apply C E L (ARelease i) y =
     (if i \<ge> length (sy_verified y) then ([], y)
      else ([], y \<lparr> sy_verifier := snd (release_verified (sy_verifier y) (sy_verified y ! i)),
                    sy_verified := remove_at i (sy_verified y) \<rparr>))"
| "admission_apply C E L (AReserve i iv now) y =
     (if i \<ge> length (sy_verified y) then ([], y)
      else let w = sy_verified y ! i; y' = y \<lparr> sy_verified := remove_at i (sy_verified y) \<rparr> in
      case reserve_v2_for_approval (sy_verifier y) (sy_registry y) iv w now of
        (Inl _, v, g) \<Rightarrow> ([], y' \<lparr> sy_verifier := v, sy_registry := g \<rparr>)
      | (Inr p, v, g) \<Rightarrow> ([EvReserved w iv now],
           y' \<lparr> sy_verifier := v, sy_registry := g, sy_pending := sy_pending y @ [p] \<rparr>))"
| "admission_apply C E L (ADecide i decision now) y =
     (if i \<ge> length (sy_pending y) then ([], y)
      else let p = sy_pending y ! i; y' = y \<lparr> sy_pending := remove_at i (sy_pending y) \<rparr> in
      case decide_v2 (sy_verifier y) (sy_registry y) p decision now of
        (Inr (OutcomeApproved a), v, g) \<Rightarrow> ([EvApproved (ad_verified a) decision now],
           y' \<lparr> sy_verifier := v, sy_registry := g, sy_approved := sy_approved y @ [a] \<rparr>)
      | (_, v, g) \<Rightarrow> ([], y' \<lparr> sy_verifier := v, sy_registry := g \<rparr>))"
| "admission_apply C E L (AJoin i authority t now) y = run_join L i authority t now None y"
| "admission_apply C E L (AJoinDropped i t) y =
     (if i \<ge> length (sy_approved y) then ([], y)
      else let y' = y \<lparr> sy_approved := remove_at i (sy_approved y) \<rparr> in
      case prepare_approved_add L (sy_verifier y) (sy_registry y) (sy_group y) (sy_approved y ! i) t of
        (Inl _, v, g, s) \<Rightarrow> ([], set_states v g s y')
      | (Inr p, v, g, s) \<Rightarrow>
          (case drop_prepared_approved L True True t p v g s of (v, g, s) \<Rightarrow> ([], set_states v g s y')))"
| "admission_apply C E L (AJoinDurable i authority t now how) y = run_join L i authority t now (Some how) y"
| "admission_apply C E L (ARegistry op now) y =
     ([], y \<lparr> sy_registry := snd (registry_apply C E (sy_registry y) (op, now)) \<rparr>)"
| "admission_apply C E L (AGroup s) y = ([], y \<lparr> sy_group := s \<rparr>)"

fun admission_run ::
    "cbor \<Rightarrow> ('sk, 'vk) ed25519 \<Rightarrow> ('m, 'k, 'g, 'c, 'r) mls_rs \<Rightarrow> ('sk, 'hk, 'g) admission_op list \<Rightarrow>
     'm admission_event list \<times> ('m, 'g) admission_system \<Rightarrow>
     'm admission_event list \<times> ('m, 'g) admission_system" where
  "admission_run C E L [] st = st"
| "admission_run C E L (op # ops) (log, y) =
     (case admission_apply C E L op y of (ev, y') \<Rightarrow> admission_run C E L ops (log @ ev, y'))"

definition admission_start ::
    "capability_admission_policy \<Rightarrow> invitation_policy \<Rightarrow> 'g session_mls_group \<Rightarrow> ('m, 'g) admission_system" where
  "admission_start p q s = \<lparr> sy_verifier = CapabilityAdmissionVerifier_new p,
     sy_registry = InvitationRegistry_new q, sy_group = s, sy_verified = [], sy_pending = [], sy_approved = [] \<rparr>"

section \<open>What the single calls establish\<close>

definition verified_facts ::
    "('m, 'k, 'g, 'c, 'r) mls_rs \<Rightarrow> 'm verified_capability_admission \<Rightarrow> u64 \<Rightarrow> bool" where
  "verified_facts L w t \<longleftrightarrow> t < rb_expires_at (jr_request (request_of w))
     \<and> t < ep_expires_at (jr_response_endpoint (request_of w))
     \<and> validate_key_package L (kb_key_package (jr_mls (request_of w))) t = Ok (ve_validated w)
     \<and> kb_key_package_reference (jr_mls (request_of w)) = vk_reference (ve_validated w)
     \<and> kb_credential_identity (jr_mls (request_of w)) = vk_credential_identity (ve_validated w)
     \<and> kb_leaf_signature_key (jr_mls (request_of w)) = vk_leaf_signature_key (ve_validated w)"

definition reservation_for :: "'m verified_capability_admission \<Rightarrow> signed_capability_invitation_v2 \<Rightarrow> invitation_reservation" where
  "reservation_for w i = \<lparr> res_invitation_id = cl_invitation_id (cl2_base (inv2_claims i)),
     res_join_request_id = rb_join_request_id (jr_request (request_of w)),
     res_record_signature = inv2_signature i, res_schema = V2 \<rparr>"

abbreviation admission_id :: "'m verified_capability_admission \<Rightarrow> u64" where
  "admission_id w \<equiv> rr_reservation_id (ve_reservation w)"

lemma verify_facts:
  "verify_and_reserve L v opened now = (Ok w, v') \<Longrightarrow> verified_facts L w now"
  by (drule verify_and_reserve_ok)
    (auto simp: verified_facts_def request_window_def bound_key_package_def Let_def ok_iff is_ok_iff not_le
      split: if_splits)

lemma reserve_for_approval_ok:
  assumes "reserve_v2_for_approval v g i w now = (Ok p, v', g')"
  shows "pc_verified p = w \<and> pc_invitation_reservation p = reservation_for w i \<and> bound_to_invitation w i
    \<and> v' = v \<and> reserve_v2_after_admission g i (rb_join_request_id (jr_request (request_of w))) now
               = (Ok (reservation_for w i), g')"
proof -
  obtain res where r: "reserve_v2_after_admission g i (rb_join_request_id (jr_request (request_of w))) now = (Ok res, g')"
    and p: "p = \<lparr> pc_verified = w, pc_invitation_reservation = res, pc_approval_context = pc_approval_context p \<rparr>"
    "bound_to_invitation w i" "v' = v"
    using assms by (auto simp: reserve_v2_for_approval_def split: if_splits sum.splits prod.splits)
  have "res = reservation_for w i"
    using r by (auto simp: reserve_v2_after_admission_def reservation_for_def InvitationRecord_matches_v2_def Let_def
        split: if_splits sum.splits option.splits stored_lifecycle.splits)
  then show ?thesis using r p by (metis pending_capability_approval.select_convs(1,2))
qed

lemma decide_ok:
  assumes "decide_v2 v g p decision now = (Ok (OutcomeApproved a), v', g')"
  shows "decision = Approve \<and> ad_verified a = pc_verified p
    \<and> ad_invitation_reservation a = pc_invitation_reservation p \<and> v' = v \<and> g' = g
    \<and> still_admissible g (pc_verified p) (pc_invitation_reservation p) now"
  using assms
  by (auto simp: decide_v2_def ok_iff split: if_splits approval_decision.splits prod.splits)

lemma prepare_approved_ok:
  assumes "prepare_approved_add L v g s a now = (Ok p, v', g', s')"
  shows "v' = v \<and> g' = g \<and> still_admissible g (ad_verified a) (ad_invitation_reservation a) now
    \<and> prepare_add L s (ve_validated (ad_verified a)) now = (Ok (pp_inner p), s')
    \<and> pp_replay_reservation p = ve_reservation (ad_verified a)
    \<and> pp_invitation_reservation p = ad_invitation_reservation a \<and> pp_now p = now
    \<and> pp_request_expires_at p = rb_expires_at (jr_request (request_of (ad_verified a)))
    \<and> pp_response_endpoint p = jr_response_endpoint (request_of (ad_verified a))"
  using assms
  by (auto simp: prepare_approved_add_def Let_def split: if_splits prod.splits sum.splits)

lemma prepare_add_ok:
  assumes "prepare_add L s k now = (Ok p, s')"
  shows "pa_reference p = vk_reference k \<and> pa_credential_identity p = vk_credential_identity k
    \<and> pa_leaf_signature_key p = vk_leaf_signature_key k"
  using assms by (auto simp: prepare_add_def Let_def split: if_splits prod.splits sum.splits option.splits)

end
