(* ===== verification/Admission_Invariants.thy ===== *)
theory Admission_Invariants
  imports Admission_System
begin

text \<open>
  The invariant of the admission system: every one-shot value the inviter holds, and every addition
  that was applied, comes from the calls the log records, in order; the values and the applied additions
  have distinct reservation identifiers; and the registry moves only by its own record steps.
\<close>

section \<open>Applying an addition\<close>

definition carries :: "prepared_addition \<Rightarrow> applied_addition \<Rightarrow> bool" where
  "carries p c \<longleftrightarrow> aa_reference c = pa_reference p \<and> aa_credential_identity c = pa_credential_identity p
     \<and> aa_leaf_signature_key c = pa_leaf_signature_key p \<and> aa_epoch_after c = aa_epoch_before c + 1"

lemma apply_provider_carries:
  "apply_provider L authority p s = (Ok c, s') \<Longrightarrow> carries p c"
  by (auto simp: apply_provider_def apply_pending_def carries_def epoch_def invalidate_state_binding_def Let_def
      split: prod.splits sum.splits bool.splits if_splits)

lemma apply_durable_carries:
  "apply_durable_addition L authority p s = (Ok c, s') \<Longrightarrow> carries p c"
  by (auto simp: apply_durable_addition_def split: prod.splits sum.splits dest: apply_provider_carries)

lemma before_apply_ok:
  "validate_before_apply g p now = Ok u \<Longrightarrow> now < pp_request_expires_at p
     \<and> now < ep_expires_at (pp_response_endpoint p) \<and> holds_reservation g (pp_invitation_reservation p) now"
  by (auto simp: validate_before_apply_def ok_iff not_le validate_reservation_iff split: if_splits)

lemma apply_join_ok:
  assumes "apply_join L authority p now v g s = (Ok j, v', g', s')"
  shows "v' = v \<and> carries (pp_inner p) (cj_committed j) \<and> now < pp_request_expires_at p
    \<and> now < ep_expires_at (pp_response_endpoint p)
    \<and> consume_after_membership g (pp_invitation_reservation p) now = (Ok (), g')
    \<and> cj_response_endpoint j = pp_response_endpoint p"
proof -
  obtain u c s1 where *: "validate_before_apply g p now = Ok u"
    "apply_provider L authority (pp_inner p) s = (Ok c, s1)"
    "consume_after_membership g (pp_invitation_reservation p) now = (Ok (), g')"
    "j = \<lparr> cj_committed = c, cj_response_endpoint = pp_response_endpoint p \<rparr>" "v' = v"
    using assms by (auto simp: apply_join_def apply_transient_addition_def drop_prepared_approved_def
        split: sum.splits prod.splits)
  then show ?thesis using before_apply_ok [OF *(1)] apply_provider_carries [OF *(2)] by simp
qed

lemma apply_awaiting_ok:
  assumes "apply_awaiting_durability L authority p now v g s = (Ok w, v', g', s')"
  shows "v' = v \<and> g' = g \<and> carries (pp_inner p) (aw_committed w) \<and> now < pp_request_expires_at p
    \<and> now < ep_expires_at (pp_response_endpoint p)
    \<and> holds_reservation g (pp_invitation_reservation p) now
    \<and> aw_replay_reservation w = pp_replay_reservation p
    \<and> aw_invitation_reservation w = pp_invitation_reservation p \<and> aw_applied_at w = now"
proof -
  obtain u c s1 where *: "validate_before_apply g p now = Ok u"
    "apply_durable_addition L authority (pp_inner p) s = (Ok c, s1)"
    "w = \<lparr> aw_committed = c, aw_response_endpoint = pp_response_endpoint p,
       aw_replay_reservation = pp_replay_reservation p,
       aw_invitation_reservation = pp_invitation_reservation p, aw_applied_at = now \<rparr>" "v' = v" "g' = g"
    using assms by (auto simp: apply_awaiting_durability_def drop_prepared_approved_def
        split: sum.splits prod.splits)
  then show ?thesis using before_apply_ok [OF *(1)] apply_durable_carries [OF *(2)] by simp
qed

section \<open>The registry moves by record steps\<close>

definition reg_moves :: "u64 list \<Rightarrow> registry \<Rightarrow> registry \<Rightarrow> bool" where
  "reg_moves ts = (\<lambda>g g'. \<exists>t \<in> set ts. \<exists>out. record_step t g out g')\<^sup>*\<^sup>*"

lemma reg_moves_refl [simp, intro]: "reg_moves ts g g"
  by (simp add: reg_moves_def)

lemma reg_moves_trans: "reg_moves ts a b \<Longrightarrow> reg_moves ts b c \<Longrightarrow> reg_moves ts a c"
  by (simp add: reg_moves_def)

lemma reg_moves_step: "record_step t g out g' \<Longrightarrow> t \<in> set ts \<Longrightarrow> reg_moves ts g g'"
  by (auto simp: reg_moves_def)

lemma reg_moves_mono: "reg_moves ts a b \<Longrightarrow> set ts \<subseteq> set us \<Longrightarrow> reg_moves us a b"
  unfolding reg_moves_def by (erule rtranclp_mono [THEN predicate2D, rotated]) blast

lemma reg_moves_call [intro]:
  "t \<in> set ts \<Longrightarrow> reg_moves ts g (snd (release g res t))"
  "t \<in> set ts \<Longrightarrow> reg_moves ts g (snd (consume_after_membership g res t))"
  "t \<in> set ts \<Longrightarrow> reg_moves ts g (snd (reserve_v2_after_admission g i jid t))"
  "t \<in> set ts \<Longrightarrow> reg_moves ts g (snd (registry_apply C E g (op, t)))"
  using release_step [of g res t] consume_step [of g res t] reserve_v2_step [of g i jid t]
    registry_apply_step [of C E g op t]
  by (auto simp: prod_eq_iff split: sum.splits intro: reg_moves_step)

lemma reg_moves_inv:
  assumes "reg_moves ts g g'" and "registry_inv g"
  shows "registry_inv g'"
  using assms unfolding reg_moves_def by (induction rule: rtranclp_induct) (auto intro: record_step_inv)

lemma reg_moves_consumed:
  assumes "reg_moves ts g g'" and "registry_inv g" and "bt_get (reg_records g) iid = Some r"
    and "rec_lifecycle r = StoredConsumed" and "\<forall>t \<in> set ts. is_live t r"
  shows "bt_get (reg_records g') iid = Some r"
  using assms(1) unfolding reg_moves_def
proof (induction rule: rtranclp_induct)
  case (step a b)
  have "registry_inv a" using reg_moves_inv [OF _ assms(2)] step.hyps(1) by (auto simp: reg_moves_def)
  then show ?case using step assms(4,5) record_step_consumed by (auto simp: registry_inv_def)
qed (fact assms(3))

section \<open>What every call keeps\<close>

definition keeps :: "capability_admission_verifier \<Rightarrow> capability_admission_verifier \<Rightarrow> bool" where
  "keeps v v' \<longleftrightarrow> (verifier_inv v \<longrightarrow> verifier_inv v')
     \<and> cv_next_reservation_id v' = cv_next_reservation_id v"

lemma keeps_refl [simp, intro]: "keeps v v"
  by (simp add: keeps_def)

lemma keeps_remove [simp, intro]: "keeps v (snd (remove_reservation v res))"
  by (simp add: keeps_def remove_reservation_inv)

lemma keeps_trans: "keeps a b \<Longrightarrow> keeps b c \<Longrightarrow> keeps a c"
  by (simp add: keeps_def)

lemma reject_verified_snd: "snd (reject_verified v w) = snd (remove_reservation v (ve_reservation w))"
  by (simp add: reject_verified_def split: prod.split sum.split)

lemma reserve_for_approval_effect:
  assumes "reserve_v2_for_approval v g i w now = (r, v', g')"
  shows "keeps v v' \<and> reg_moves [now] g g'"
proof -
  obtain q g1 where q: "reserve_v2_after_admission g i (rb_join_request_id (jr_request (request_of w))) now = (q, g1)"
    by force
  then have "reg_moves [now] g g1"
    using reg_moves_call(3) [of now "[now]" g i "rb_join_request_id (jr_request (request_of w))"] by simp
  moreover have "v' = v \<or> v' = snd (remove_reservation v (ve_reservation w))" "g' = g \<or> g' = g1"
    using assms q reject_verified_snd [of v w]
    by (auto simp: reserve_v2_for_approval_def split: if_splits sum.splits prod.splits)
  ultimately show ?thesis by auto
qed

lemma release_pending_snd:
  "snd (release_pending v g p now) = (snd (remove_reservation v (ve_reservation (pc_verified p))),
     snd (release g (pc_invitation_reservation p) now))"
  by (simp add: release_pending_def split: prod.split)

lemma decide_effect:
  assumes "decide_v2 v g p decision now = (r, v', g')"
  shows "keeps v v' \<and> reg_moves [now] g g'"
proof -
  have "v' = v \<or> v' = snd (remove_reservation v (ve_reservation (pc_verified p)))"
    "g' = g \<or> g' = snd (release g (pc_invitation_reservation p) now)"
    using assms release_pending_snd [of v g p now]
    by (auto simp: decide_v2_def split: if_splits approval_decision.splits prod.splits)
  then show ?thesis by auto
qed

lemma prepare_approved_effect:
  assumes "prepare_approved_add L v g s a now = (r, v', g', s')"
  shows "keeps v v' \<and> reg_moves [now] g g'"
proof -
  have "v' = v \<or> v' = snd (remove_reservation v (ve_reservation (ad_verified a)))"
    "g' = g \<or> g' = snd (release g (ad_invitation_reservation a) now)"
    using assms
    by (auto simp: prepare_approved_add_def Let_def split: if_splits prod.splits sum.splits)
  then show ?thesis by auto
qed

lemma drop_prepared_effect:
  assumes "drop_prepared_approved L hi hr now p v g s = (v', g', s')"
  shows "keeps v v' \<and> reg_moves [now] g g'"
  using assms by (auto simp: drop_prepared_approved_def split: if_splits)

lemma apply_join_effect:
  assumes "apply_join L authority p now v g s = (r, v', g', s')"
  shows "keeps v v' \<and> reg_moves [now] g g'"
proof (cases "validate_before_apply g p now")
  case (Inl e)
  then show ?thesis using assms drop_prepared_effect [of L True True now p v g s] by (auto simp: apply_join_def)
next
  case (Inr u)
  obtain q s1 where q: "apply_transient_addition L authority (pp_inner p) s = (q, s1)" by force
  obtain x g1 where x: "consume_after_membership g (pp_invitation_reservation p) now = (x, g1)" by force
  then have g1: "reg_moves [now] g g1" using reg_moves_call(2) [of now "[now]" g "pp_invitation_reservation p"] by simp
  show ?thesis
  proof (cases q)
    case (Inl e)
    then show ?thesis using assms Inr q drop_prepared_effect [of L False True now p v g s1]
      by (auto simp: apply_join_def)
  next
    case Q: (Inr c)
    then show ?thesis using assms Inr q x g1 drop_prepared_effect [of L False False now p v g1 s1] reg_moves_trans
      by (cases x) (auto simp: apply_join_def)
  qed
qed

lemma settle_effect:
  assumes "settle_with how w v g = (v', g')"
  shows "keeps v v' \<and> reg_moves [aw_applied_at w] g g'"
proof -
  let ?t = "aw_applied_at w" and ?res = "aw_invitation_reservation w"
  have "v' = v \<or> v' = snd (remove_reservation v (aw_replay_reservation w))"
    "g' \<in> {g, snd (consume_after_membership g ?res ?t), snd (release g ?res ?t)}"
    using assms
    by (auto simp: settle_with_def into_durable_owner_parts_def finalize_committed_def
        release_proven_uncommitted_def release_shadows_def split: prod.splits settlement.splits)
  then show ?thesis by auto
qed

lemma apply_awaiting_err_effect:
  assumes "apply_awaiting_durability L authority p now v g s = (Err e, v', g', s')"
  shows "keeps v v' \<and> reg_moves [now] g g'"
proof (cases "validate_before_apply g p now")
  case (Inl e)
  then show ?thesis using assms drop_prepared_effect [of L True True now p v g s]
    by (auto simp: apply_awaiting_durability_def)
next
  case (Inr u)
  obtain q s1 where q: "apply_durable_addition L authority (pp_inner p) s = (q, s1)" by force
  then show ?thesis using assms Inr drop_prepared_effect [of L False True now p v g s1]
    by (cases q) (auto simp: apply_awaiting_durability_def)
qed

lemma finish_join_effect:
  assumes "finish_join L a authority now how p v g s = (ev, v', g', s')"
  shows "keeps v v' \<and> reg_moves [now] g g'"
proof (cases how)
  case None
  obtain r v1 g1 s1 where r: "apply_join L authority p now v g s = (r, v1, g1, s1)" by (metis prod_cases4)
  show ?thesis using assms None r apply_join_effect [OF r] by (cases r) (auto simp: finish_join_def)
next
  case (Some h)
  obtain r v1 g1 s1 where r: "apply_awaiting_durability L authority p now v g s = (r, v1, g1, s1)"
    by (metis prod_cases4)
  show ?thesis
  proof (cases r)
    case (Inl e)
    then show ?thesis using assms Some r apply_awaiting_err_effect [OF r [unfolded Inl]]
      by (auto simp: finish_join_def)
  next
    case (Inr w)
    note w = apply_awaiting_ok [OF r [unfolded Inr]]
    obtain v2 g2 where "settle_with h w v g = (v2, g2)" by force
    then show ?thesis using assms Some r Inr w settle_effect [of h w v g v2 g2] by (auto simp: finish_join_def)
  qed
qed

text \<open>An event of a finished addition names the approved value and its key package, before expiry.\<close>

definition joined_from :: "'m verified_capability_admission \<Rightarrow> applied_addition \<Rightarrow> u64 \<Rightarrow> bool" where
  "joined_from w c t \<longleftrightarrow> t < rb_expires_at (jr_request (request_of w))
     \<and> t < ep_expires_at (jr_response_endpoint (request_of w))
     \<and> aa_reference c = vk_reference (ve_validated w)
     \<and> aa_credential_identity c = vk_credential_identity (ve_validated w)
     \<and> aa_leaf_signature_key c = vk_leaf_signature_key (ve_validated w)
     \<and> aa_epoch_after c = aa_epoch_before c + 1"

lemma finish_join_event:
  assumes p: "prepare_approved_add L v0 g0 s0 a t = (Ok p, v, g, s)"
    and f: "finish_join L a authority now how p v g s = (ev, v', g', s')"
  shows "ev = [] \<or> (\<exists>c. ev = [EvJoined (ad_verified a) c now] \<and> joined_from (ad_verified a) c now)"
proof -
  note prep = prepare_approved_ok [OF p]
  have carried: "joined_from (ad_verified a) c now"
    if "carries (pp_inner p) c" "now < pp_request_expires_at p" "now < ep_expires_at (pp_response_endpoint p)" for c
    using that prep prepare_add_ok [of L s0 "ve_validated (ad_verified a)" t "pp_inner p" s]
    by (simp add: joined_from_def carries_def)
  show ?thesis
  proof (cases how)
    case None
    obtain r v1 g1 s1 where r: "apply_join L authority p now v g s = (r, v1, g1, s1)" by (metis prod_cases4)
    show ?thesis
    proof (cases r)
      case (Inr j)
      from apply_join_ok [OF r [unfolded Inr]] carried f None r Inr show ?thesis by (auto simp: finish_join_def)
    qed (use f None r in \<open>auto simp: finish_join_def\<close>)
  next
    case (Some h)
    obtain r v1 g1 s1 where r: "apply_awaiting_durability L authority p now v g s = (r, v1, g1, s1)"
      by (metis prod_cases4)
    show ?thesis
    proof (cases r)
      case (Inr w)
      from apply_awaiting_ok [OF r [unfolded Inr]] carried f Some r Inr show ?thesis
        by (auto simp: finish_join_def split: prod.splits)
    qed (use f Some r in \<open>auto simp: finish_join_def\<close>)
  qed
qed

section \<open>Where the values come from\<close>

definition verified_in ::
    "('m, 'k, 'g, 'c, 'r) mls_rs \<Rightarrow> 'm admission_event list \<Rightarrow> 'm verified_capability_admission \<Rightarrow> bool" where
  "verified_in L log w \<longleftrightarrow> (\<exists>t0. verified_facts L w t0 \<and> subseq [EvVerified w t0] log)"

definition reserved_in ::
    "('m, 'k, 'g, 'c, 'r) mls_rs \<Rightarrow> 'm admission_event list \<Rightarrow> 'm verified_capability_admission \<Rightarrow>
     invitation_reservation \<Rightarrow> bool" where
  "reserved_in L log w res \<longleftrightarrow> (\<exists>t0 i t1. verified_facts L w t0 \<and> bound_to_invitation w i
     \<and> res = reservation_for w i \<and> subseq [EvVerified w t0, EvReserved w i t1] log)"

definition approved_in ::
    "('m, 'k, 'g, 'c, 'r) mls_rs \<Rightarrow> 'm admission_event list \<Rightarrow> 'm verified_capability_admission \<Rightarrow>
     invitation_reservation \<Rightarrow> bool" where
  "approved_in L log w res \<longleftrightarrow> (\<exists>t0 i t1 t2. verified_facts L w t0 \<and> bound_to_invitation w i
     \<and> res = reservation_for w i \<and> subseq [EvVerified w t0, EvReserved w i t1, EvApproved w Approve t2] log
     \<and> t2 < rb_expires_at (jr_request (request_of w)) \<and> t2 < ep_expires_at (jr_response_endpoint (request_of w)))"

lemma in_log_append:
  "verified_in L log w \<Longrightarrow> verified_in L (log @ ev) w"
  "reserved_in L log w res \<Longrightarrow> reserved_in L (log @ ev) w res"
  "approved_in L log w res \<Longrightarrow> approved_in L (log @ ev) w res"
  unfolding verified_in_def reserved_in_def approved_in_def by (blast intro: list_emb_prefix)+

lemma in_log_next:
  "verified_facts L w t \<Longrightarrow> verified_in L (log @ [EvVerified w t]) w"
  "verified_in L log w \<Longrightarrow> bound_to_invitation w i \<Longrightarrow>
     reserved_in L (log @ [EvReserved w i t]) w (reservation_for w i)"
  "reserved_in L log w res \<Longrightarrow> still_admissible g w res t \<Longrightarrow> approved_in L (log @ [EvApproved w Approve t]) w res"
proof -
  have snoc: "subseq (xs @ [e]) (log @ [e])" if "subseq xs log" for xs and e :: "'a admission_event"
    using that by (simp add: list_emb_append_mono)
  show "verified_facts L w t \<Longrightarrow> verified_in L (log @ [EvVerified w t]) w"
    using snoc [of "[]"] by (auto simp: verified_in_def)
  show "verified_in L log w \<Longrightarrow> bound_to_invitation w i \<Longrightarrow>
     reserved_in L (log @ [EvReserved w i t]) w (reservation_for w i)"
    using snoc unfolding verified_in_def reserved_in_def by (metis append_Cons append_Nil)
  show "reserved_in L log w res \<Longrightarrow> still_admissible g w res t \<Longrightarrow> approved_in L (log @ [EvApproved w Approve t]) w res"
    using snoc unfolding reserved_in_def approved_in_def still_admissible_def by (metis append_Cons append_Nil)
qed

text \<open>Every applied addition in the log was approved before it.\<close>

definition joins_ok :: "('m, 'k, 'g, 'c, 'r) mls_rs \<Rightarrow> 'm admission_event list \<Rightarrow> bool" where
  "joins_ok L log \<longleftrightarrow> (\<forall>pre w c t post. log = pre @ EvJoined w c t # post \<longrightarrow>
     (\<exists>res. approved_in L pre w res) \<and> joined_from w c t)"

lemma joins_ok_append:
  assumes "joins_ok L log" and "ev = [] \<or> (\<exists>e. ev = [e]
      \<and> (\<forall>w c t. e = EvJoined w c t \<longrightarrow> (\<exists>res. approved_in L log w res) \<and> joined_from w c t))"
  shows "joins_ok L (log @ ev)"
proof -
  have "(\<exists>res. approved_in L pre w res) \<and> joined_from w c t" if "log @ ev = pre @ EvJoined w c t # post" for pre w c t post
  proof (cases "ev = []")
    case True
    then have "log = pre @ EvJoined w c t # post" using that by simp
    then show ?thesis using assms(1) unfolding joins_ok_def by blast
  next
    case False
    then obtain e where e: "ev = [e]"
      "\<forall>w c t. e = EvJoined w c t \<longrightarrow> (\<exists>res. approved_in L log w res) \<and> joined_from w c t"
      using assms(2) by blast
    show ?thesis
    proof (cases post rule: rev_cases)
      case Nil
      then show ?thesis using e that by auto
    next
      case (snoc post' x)
      then have "log = pre @ EvJoined w c t # post'" using e(1) that by simp
      then show ?thesis using assms(1) unfolding joins_ok_def by blast
    qed
  qed
  then show ?thesis by (auto simp: joins_ok_def)
qed

fun joined_value :: "'m admission_event \<Rightarrow> 'm verified_capability_admission option" where
  "joined_value (EvJoined w c t) = Some w"
| "joined_value _ = None"

definition value_ids :: "'m admission_event list \<Rightarrow> ('m, 'g) admission_system \<Rightarrow> u64 multiset" where
  "value_ids log y = image_mset admission_id (mset (sy_verified y) + mset (map pc_verified (sy_pending y))
     + mset (map ad_verified (sy_approved y)) + mset (List.map_filter joined_value log))"

definition admission_inv ::
    "('m, 'k, 'g, 'c, 'r) mls_rs \<Rightarrow> 'm admission_event list \<Rightarrow> ('m, 'g) admission_system \<Rightarrow> bool" where
  "admission_inv L log y \<longleftrightarrow> verifier_inv (sy_verifier y) \<and> registry_inv (sy_registry y)
     \<and> (\<forall>w \<in> set (sy_verified y). verified_in L log w)
     \<and> (\<forall>p \<in> set (sy_pending y). reserved_in L log (pc_verified p) (pc_invitation_reservation p))
     \<and> (\<forall>a \<in> set (sy_approved y). approved_in L log (ad_verified a) (ad_invitation_reservation a))
     \<and> joins_ok L log
     \<and> (\<forall>x. count (value_ids log y) x \<le> 1)
     \<and> (\<forall>x. x \<in># value_ids log y \<longrightarrow> x < cv_next_reservation_id (sy_verifier y))"

lemma admission_inv_start: "admission_inv L [] (admission_start p q s)"
  by (simp add: admission_inv_def admission_start_def verifier_inv_new registry_inv_new joins_ok_def
      value_ids_def List.map_filter_def)

text \<open>A call that only moves or drops values keeps the identifiers.\<close>

lemma ids_submultiset:
  assumes "admission_inv L log y" and "value_ids log' y' \<subseteq># value_ids log y"
    and "keeps (sy_verifier y) (sy_verifier y')"
  shows "(\<forall>x. count (value_ids log' y') x \<le> 1)
    \<and> (\<forall>x. x \<in># value_ids log' y' \<longrightarrow> x < cv_next_reservation_id (sy_verifier y'))"
proof -
  have "count (value_ids log' y') x \<le> 1" for x
    using assms(1) le_trans [OF mset_subset_eq_count [OF assms(2)]] unfolding admission_inv_def by blast
  then show ?thesis
    using assms(1,3) mset_subset_eqD [OF assms(2)] by (auto simp: admission_inv_def keeps_def)
qed

lemma mset_take_out:
  "i < length xs \<Longrightarrow> mset xs = add_mset (xs ! i) (mset (remove_at i xs))"
  "i < length xs \<Longrightarrow> mset (map f xs) = add_mset (f (xs ! i)) (mset (map f (remove_at i xs)))"
  using mset_remove_at [of i xs] by (simp_all add: mset_map)

lemma remove_at_in: "x \<in> set (remove_at i xs) \<Longrightarrow> x \<in> set xs"
  using set_remove_at by fast

lemmas in_log_keep = in_log_append(1) in_log_append(2) in_log_append(3)

lemma verify_keeps_inv:
  assumes inv: "admission_inv L log y" and a: "admission_apply C E L (AVerify opened now) y = (ev, y')"
  shows "admission_inv L (log @ ev) y'"
proof -
  obtain r v where v: "verify_and_reserve L (sy_verifier y) opened now = (r, v)" by force
  have vinv: "verifier_inv v"
    using verify_and_reserve_inv [of "sy_verifier y" L opened now] inv v by (simp add: admission_inv_def)
  show ?thesis
  proof (cases r)
    case (Inl e)
    then have "v = sy_verifier y" using verify_and_reserve_err v by blast
    then show ?thesis using inv a v Inl by simp
  next
    case (Inr w)
    note ok = verify_and_reserve_ok [OF v [unfolded Inr]] and facts = verify_facts [OF v [unfolded Inr]]
    have y': "ev = [EvVerified w now]" "y' = y \<lparr> sy_verifier := v, sy_verified := sy_verified y @ [w] \<rparr>"
      using a v Inr by simp_all
    have ids: "value_ids (log @ ev) y' = add_mset (cv_next_reservation_id (sy_verifier y)) (value_ids log y)"
      using ok by (simp add: value_ids_def y' List.map_filter_def)
    have less: "x < cv_next_reservation_id v" if "x \<le> cv_next_reservation_id (sy_verifier y)" for x
      using ok that by (simp add: word_less_nat_alt word_le_nat_alt)
    have "joins_ok L (log @ ev)"
      by (rule joins_ok_append) (use inv y' in \<open>auto simp: admission_inv_def\<close>)
    moreover have "count (value_ids log y) (cv_next_reservation_id (sy_verifier y)) = 0"
      using inv by (metis admission_inv_def count_inI less_irrefl)
    ultimately show ?thesis
      using inv vinv ids less in_log_next(1) [OF facts, of log]
      by (auto simp: admission_inv_def y' intro: in_log_keep less_imp_le)
  qed
qed

lemma release_keeps_inv:
  assumes inv: "admission_inv L log y" and a: "admission_apply C E L (ARelease i) y = (ev, y')"
  shows "admission_inv L (log @ ev) y'"
proof (cases "i < length (sy_verified y)")
  case True
  then have y': "ev = []" "y' = y \<lparr> sy_verifier := snd (release_verified (sy_verifier y) (sy_verified y ! i)),
      sy_verified := remove_at i (sy_verified y) \<rparr>" using a by auto
  have k: "keeps (sy_verifier y) (sy_verifier y')" by (simp add: y' release_verified_def)
  have "value_ids log y' \<subseteq># value_ids log y"
    by (simp add: value_ids_def y' mset_take_out(1) [OF True] image_mset_subseteq_mono)
  from ids_submultiset [OF inv this k] inv k show ?thesis
    by (auto simp: admission_inv_def y' keeps_def dest: remove_at_in)
qed (use inv a in simp)

lemma reserve_keeps_inv:
  assumes inv: "admission_inv L log y" and a: "admission_apply C E L (AReserve i iv now) y = (ev, y')"
  shows "admission_inv L (log @ ev) y'"
proof (cases "i < length (sy_verified y)")
  case True
  let ?w = "sy_verified y ! i" and ?y = "y \<lparr> sy_verified := remove_at i (sy_verified y) \<rparr>"
  obtain r v g where r: "reserve_v2_for_approval (sy_verifier y) (sy_registry y) iv ?w now = (r, v, g)"
    by (metis prod_cases3)
  note eff = reserve_for_approval_effect [OF r]
  then have ginv: "registry_inv g" using inv reg_moves_inv by (auto simp: admission_inv_def)
  have w: "verified_in L log ?w" using inv True by (auto simp: admission_inv_def)
  show ?thesis
  proof (cases r)
    case (Inl e)
    then have y': "ev = []" "y' = ?y \<lparr> sy_verifier := v, sy_registry := g \<rparr>" using a r True by (auto simp: Let_def)
    have "value_ids log y' \<subseteq># value_ids log y"
      by (simp add: value_ids_def y' mset_take_out(1) [OF True] image_mset_subseteq_mono)
    from ids_submultiset [OF inv this] inv eff ginv show ?thesis
      by (auto simp: admission_inv_def y' keeps_def dest: remove_at_in)
  next
    case (Inr p)
    note ok = reserve_for_approval_ok [OF r [unfolded Inr]]
    have y': "ev = [EvReserved ?w iv now]"
      "y' = ?y \<lparr> sy_verifier := v, sy_registry := g, sy_pending := sy_pending y @ [p] \<rparr>"
      using a r True Inr by (auto simp: Let_def)
    have "value_ids (log @ ev) y' = value_ids log y"
      using ok by (simp add: value_ids_def y' mset_take_out(1) [OF True] List.map_filter_def)
    then have "value_ids (log @ ev) y' \<subseteq># value_ids log y" by simp
    note ids = ids_submultiset [OF inv this]
    have "joins_ok L (log @ ev)"
      by (rule joins_ok_append) (use inv y' in \<open>auto simp: admission_inv_def\<close>)
    with ids inv eff ginv ok in_log_next(2) [OF w, of iv now] show ?thesis
      by (auto simp: admission_inv_def y' keeps_def intro: in_log_keep dest: remove_at_in)
  qed
qed (use inv a in simp)

lemma decide_keeps_inv:
  assumes inv: "admission_inv L log y" and a: "admission_apply C E L (ADecide i decision now) y = (ev, y')"
  shows "admission_inv L (log @ ev) y'"
proof (cases "i < length (sy_pending y)")
  case True
  let ?p = "sy_pending y ! i" and ?y = "y \<lparr> sy_pending := remove_at i (sy_pending y) \<rparr>"
  obtain r v g where r: "decide_v2 (sy_verifier y) (sy_registry y) ?p decision now = (r, v, g)"
    by (metis prod_cases3)
  note eff = decide_effect [OF r]
  then have ginv: "registry_inv g" using inv reg_moves_inv by (auto simp: admission_inv_def)
  have p: "reserved_in L log (pc_verified ?p) (pc_invitation_reservation ?p)"
    using inv True by (auto simp: admission_inv_def)
  show ?thesis
  proof (cases "\<exists>b. r = Ok (OutcomeApproved b)")
    case False
    then have y': "ev = []" "y' = ?y \<lparr> sy_verifier := v, sy_registry := g \<rparr>"
      using a r True by (auto simp: Let_def split: sum.splits capability_approval_outcome.splits)
    have "value_ids log y' \<subseteq># value_ids log y"
      by (simp add: value_ids_def y' mset_take_out(2) [OF True] image_mset_subseteq_mono del: mset_map)
    from ids_submultiset [OF inv this] inv eff ginv show ?thesis
      by (auto simp: admission_inv_def y' keeps_def dest: remove_at_in)
  next
    case True': True
    then obtain b where b: "r = Ok (OutcomeApproved b)" by blast
    note ok = decide_ok [OF r [unfolded b]]
    have y': "ev = [EvApproved (ad_verified b) Approve now]"
      "y' = ?y \<lparr> sy_verifier := v, sy_registry := g, sy_approved := sy_approved y @ [b] \<rparr>"
      using a r True b ok by (auto simp: Let_def)
    have "value_ids (log @ ev) y' = value_ids log y"
      using ok by (simp add: value_ids_def y' mset_take_out(2) [OF True] List.map_filter_def del: mset_map)
    then have "value_ids (log @ ev) y' \<subseteq># value_ids log y" by simp
    note ids = ids_submultiset [OF inv this]
    have "joins_ok L (log @ ev)"
      by (rule joins_ok_append) (use inv y' in \<open>auto simp: admission_inv_def\<close>)
    with ids inv eff ginv ok in_log_next(3) [OF p, of "sy_registry y" now] show ?thesis
      by (auto simp: admission_inv_def y' keeps_def intro: in_log_keep dest: remove_at_in)
  qed
qed (use inv a in simp)

text \<open>Both ways of using an approved value: it leaves the list, and at most a join is logged.\<close>

lemma use_approved_keeps_inv:
  assumes inv: "admission_inv L log y" and i: "i < length (sy_approved y)"
    and y': "y' = set_states v g s (y \<lparr> sy_approved := remove_at i (sy_approved y) \<rparr>)"
    and eff: "keeps (sy_verifier y) v" "registry_inv g"
    and ev: "ev = [] \<or> (\<exists>c t. ev = [EvJoined (ad_verified (sy_approved y ! i)) c t]
        \<and> joined_from (ad_verified (sy_approved y ! i)) c t)"
  shows "admission_inv L (log @ ev) y'"
proof -
  let ?a = "sy_approved y ! i"
  have "value_ids (log @ ev) y' \<subseteq># value_ids log y"
    using ev by (auto simp: value_ids_def y' set_states_def mset_take_out(2) [OF i] List.map_filter_def
        image_mset_subseteq_mono simp del: mset_map)
  moreover have "approved_in L log (ad_verified ?a) (ad_invitation_reservation ?a)"
    using inv i by (auto simp: admission_inv_def)
  then have "joins_ok L (log @ ev)"
    using inv ev by (intro joins_ok_append) (auto simp: admission_inv_def)
  ultimately show ?thesis
    using ids_submultiset [OF inv, of "log @ ev" y'] inv eff
    by (auto simp: admission_inv_def y' set_states_def keeps_def intro: in_log_keep dest: remove_at_in)
qed

lemma run_join_keeps_inv:
  assumes inv: "admission_inv L log y" and a: "run_join L i authority t now how y = (ev, y')"
  shows "admission_inv L (log @ ev) y'"
proof (cases "i < length (sy_approved y)")
  case True
  obtain r v g s where p: "prepare_approved_add L (sy_verifier y) (sy_registry y) (sy_group y) (sy_approved y ! i) t
      = (r, v, g, s)" by (metis prod_cases4)
  note eff = prepare_approved_effect [OF p]
  have ginv: "registry_inv g" using eff inv reg_moves_inv by (auto simp: admission_inv_def)
  show ?thesis
  proof (cases r)
    case (Inl e)
    have *: "ev = []" "y' = set_states v g s (y \<lparr> sy_approved := remove_at i (sy_approved y) \<rparr>)"
      using a p Inl True by (simp_all add: run_join_def Let_def)
    show ?thesis by (rule use_approved_keeps_inv [OF inv True *(2)]) (use eff ginv *(1) in auto)
  next
    case (Inr q)
    obtain ev' v' g' s' where f: "finish_join L (sy_approved y ! i) authority now how q v g s = (ev', v', g', s')"
      by (metis prod_cases4)
    have *: "ev = ev'" "y' = set_states v' g' s' (y \<lparr> sy_approved := remove_at i (sy_approved y) \<rparr>)"
      using a p Inr True f by (simp_all add: run_join_def Let_def)
    note eff' = finish_join_effect [OF f]
    have "keeps (sy_verifier y) v'" using keeps_trans eff eff' by blast
    moreover have "registry_inv g'" using ginv eff' reg_moves_inv by blast
    ultimately show ?thesis
      using finish_join_event [OF p [unfolded Inr] f] *(1)
      by (intro use_approved_keeps_inv [OF inv True *(2)]) auto
  qed
qed (use inv a in \<open>simp add: run_join_def\<close>)

lemma dropped_keeps_inv:
  assumes inv: "admission_inv L log y" and a: "admission_apply C E L (AJoinDropped i t) y = (ev, y')"
  shows "admission_inv L (log @ ev) y'"
proof (cases "i < length (sy_approved y)")
  case True
  obtain r v g s where p: "prepare_approved_add L (sy_verifier y) (sy_registry y) (sy_group y) (sy_approved y ! i) t
      = (r, v, g, s)" by (metis prod_cases4)
  note eff = prepare_approved_effect [OF p]
  have ginv: "registry_inv g" using eff inv reg_moves_inv by (auto simp: admission_inv_def)
  show ?thesis
  proof (cases r)
    case (Inl e)
    have *: "ev = []" "y' = set_states v g s (y \<lparr> sy_approved := remove_at i (sy_approved y) \<rparr>)"
      using a p Inl True by (simp_all add: Let_def)
    show ?thesis by (rule use_approved_keeps_inv [OF inv True *(2)]) (use eff ginv *(1) in auto)
  next
    case (Inr q)
    obtain v' g' s' where f: "drop_prepared_approved L True True t q v g s = (v', g', s')" by (metis prod_cases3)
    have *: "ev = []" "y' = set_states v' g' s' (y \<lparr> sy_approved := remove_at i (sy_approved y) \<rparr>)"
      using a p Inr True f by (simp_all add: Let_def)
    note eff' = drop_prepared_effect [OF f]
    have "keeps (sy_verifier y) v'" using keeps_trans eff eff' by blast
    moreover have "registry_inv g'" using ginv eff' reg_moves_inv by blast
    ultimately show ?thesis
      using *(1) by (intro use_approved_keeps_inv [OF inv True *(2)]) auto
  qed
qed (use inv a in simp)

lemma admission_apply_inv:
  assumes inv: "admission_inv L log y" and a: "admission_apply C E L op y = (ev, y')"
  shows "admission_inv L (log @ ev) y'"
proof (cases op)
  case (ARegistry rop now)
  then show ?thesis using inv a registry_apply_inv [of "sy_registry y" C E rop now]
    by (auto simp: admission_inv_def value_ids_def)
next
  case (AGroup s)
  then show ?thesis using inv a by (auto simp: admission_inv_def value_ids_def)
qed (use inv a in \<open>auto intro: verify_keeps_inv release_keeps_inv reserve_keeps_inv decide_keeps_inv
      run_join_keeps_inv dropped_keeps_inv simp del: admission_apply.simps(1-4,6)\<close>)

lemma admission_run_inv:
  "admission_inv L log y \<Longrightarrow> admission_run C E L ops (log, y) = (log', y') \<Longrightarrow> admission_inv L log' y'"
proof (induction ops arbitrary: log y)
  case (Cons op ops)
  obtain ev y1 where a: "admission_apply C E L op y = (ev, y1)" by force
  from Cons.IH [OF admission_apply_inv [OF Cons.prems(1) a]] Cons.prems(2) a show ?case by simp
qed simp

lemma admission_run_append:
  "admission_run C E L (ops @ ops') st = admission_run C E L ops' (admission_run C E L ops st)"
  by (induction ops arbitrary: st) (auto split: prod.split)

lemma admission_run_log:
  "admission_run C E L ops (log, y) = (log', y') \<Longrightarrow> \<exists>more. log' = log @ more"
proof (induction ops arbitrary: log y)
  case (Cons op ops)
  obtain ev y1 where a: "admission_apply C E L op y = (ev, y1)" by force
  from Cons.IH [of "log @ ev" y1] Cons.prems a show ?case by auto
qed simp

end
