(* ===== verification/Admission_Outcomes.thy ===== *)
theory Admission_Outcomes
  imports Admission_Invariants
begin

text \<open>
  How joins end: after an invitation is consumed nothing more is admitted on it, and a join that does
  not go through leaves no reservation behind in the verifier or the registry.
\<close>


section \<open>Consumed invitations\<close>

fun op_times :: "('sk, 'hk, 'g) admission_op \<Rightarrow> u64 list" where
  "op_times (AReserve i iv now) = [now]"
| "op_times (ADecide i d now) = [now]"
| "op_times (AJoin i authority t now) = [t, now]"
| "op_times (AJoinDropped i t) = [t]"
| "op_times (AJoinDurable i authority t now how) = [t, now]"
| "op_times (ARegistry op now) = [now]"
| "op_times _ = []"

lemma run_join_moves:
  assumes "run_join L i authority t now how y = (ev, y')"
  shows "reg_moves [t, now] (sy_registry y) (sy_registry y')"
proof (cases "i < length (sy_approved y)")
  case True
  obtain r v g s where p: "prepare_approved_add L (sy_verifier y) (sy_registry y) (sy_group y) (sy_approved y ! i) t
      = (r, v, g, s)" by (metis prod_cases4)
  have g: "reg_moves [t, now] (sy_registry y) g"
    by (rule reg_moves_mono [OF conjunct2 [OF prepare_approved_effect [OF p]]]) simp
  show ?thesis
  proof (cases r)
    case (Inl e)
    then show ?thesis using assms p g True by (auto simp: run_join_def Let_def set_states_def)
  next
    case (Inr q)
    obtain ev' v' g' s' where f: "finish_join L (sy_approved y ! i) authority now how q v g s = (ev', v', g', s')"
      by (metis prod_cases4)
    have "reg_moves [t, now] g g'"
      by (rule reg_moves_mono [OF conjunct2 [OF finish_join_effect [OF f]]]) simp
    from reg_moves_trans [OF g this] show ?thesis
      using assms p True Inr f by (auto simp: run_join_def Let_def set_states_def)
  qed
qed (use assms in \<open>auto simp: run_join_def\<close>)

lemma dropped_moves:
  assumes "admission_apply C E L (AJoinDropped i t) y = (ev, y')"
  shows "reg_moves [t] (sy_registry y) (sy_registry y')"
proof (cases "i < length (sy_approved y)")
  case True
  obtain r v g s where p: "prepare_approved_add L (sy_verifier y) (sy_registry y) (sy_group y) (sy_approved y ! i) t
      = (r, v, g, s)" by (metis prod_cases4)
  note g = conjunct2 [OF prepare_approved_effect [OF p]]
  show ?thesis
  proof (cases r)
    case (Inl e)
    then show ?thesis using assms p g True by (auto simp: Let_def set_states_def)
  next
    case (Inr q)
    obtain v' g' s' where f: "drop_prepared_approved L True True t q v g s = (v', g', s')" by (metis prod_cases3)
    from reg_moves_trans [OF g conjunct2 [OF drop_prepared_effect [OF f]]] show ?thesis
      using assms p True Inr f by (auto simp: Let_def set_states_def)
  qed
qed (use assms in auto)

lemma admission_apply_moves:
  assumes "admission_apply C E L op y = (ev, y')"
  shows "reg_moves (op_times op) (sy_registry y) (sy_registry y')"
proof (cases op)
  case (AReserve i iv now)
  obtain r v g where "reserve_v2_for_approval (sy_verifier y) (sy_registry y) iv (sy_verified y ! i) now = (r, v, g)"
    by (metis prod_cases3)
  then show ?thesis using assms AReserve reserve_for_approval_effect
    by (cases r) (fastforce simp: Let_def split: if_splits)+
next
  case (ADecide i decision now)
  obtain r v g where r: "decide_v2 (sy_verifier y) (sy_registry y) (sy_pending y ! i) decision now = (r, v, g)"
    by (metis prod_cases3)
  then show ?thesis using assms ADecide decide_effect [OF r]
    by (auto simp: Let_def split: if_splits sum.splits capability_approval_outcome.splits)
next
  case (AJoinDropped i t)
  then show ?thesis using assms dropped_moves by auto
next
  case (AJoin i authority t now)
  then show ?thesis using assms run_join_moves by auto
next
  case (AJoinDurable i authority t now how)
  then show ?thesis using assms run_join_moves by auto
next
  case (ARegistry rop now)
  then show ?thesis using assms reg_moves_call(4) [of now "[now]" "sy_registry y" C E rop] by auto
qed (use assms in \<open>auto split: prod.splits sum.splits if_splits\<close>)

definition invitation_of :: "'m verified_capability_admission \<Rightarrow> ident" where
  "invitation_of w = ib_invitation_id (jr_invitation (request_of w))"

fun admits :: "ident \<Rightarrow> 'm admission_event \<Rightarrow> bool" where
  "admits iid (EvVerified w t) = False"
| "admits iid (EvReserved w i t) = (invitation_of w = iid)"
| "admits iid (EvApproved w d t) = (invitation_of w = iid)"
| "admits iid (EvJoined w c t) = (invitation_of w = iid)"

lemma held_invitation:
  "reserved_in L log w res \<Longrightarrow> res_invitation_id res = invitation_of w"
  "approved_in L log w res \<Longrightarrow> res_invitation_id res = invitation_of w"
  by (auto simp: reserved_in_def approved_in_def reservation_for_def bound_to_invitation_def invitation_of_def)

lemma run_join_admissible:
  assumes "run_join L i authority t now how y = (ev, y')" and "ev \<noteq> []"
  shows "i < length (sy_approved y)"
    and "holds_reservation (sy_registry y) (ad_invitation_reservation (sy_approved y ! i)) t"
    and "\<exists>c. ev = [EvJoined (ad_verified (sy_approved y ! i)) c now]"
proof -
  show i: "i < length (sy_approved y)" using assms by (auto simp: run_join_def split: if_splits)
  obtain r v g s where p: "prepare_approved_add L (sy_verifier y) (sy_registry y) (sy_group y) (sy_approved y ! i) t
      = (r, v, g, s)" by (metis prod_cases4)
  obtain q where q: "r = Ok q" using assms p i by (cases r) (auto simp: run_join_def Let_def)
  show "holds_reservation (sy_registry y) (ad_invitation_reservation (sy_approved y ! i)) t"
    using prepare_approved_ok [OF p [unfolded q]]
    by (auto simp: still_admissible_def is_ok_iff validate_reservation_iff)
  obtain ev' v' g' s' where f: "finish_join L (sy_approved y ! i) authority now how q v g s = (ev', v', g', s')"
    by (metis prod_cases4)
  show "\<exists>c. ev = [EvJoined (ad_verified (sy_approved y ! i)) c now]"
    using finish_join_event [OF p [unfolded q] f] assms p q i f by (auto simp: run_join_def Let_def)
qed

lemma consumed_not_held:
  "bt_get (reg_records g) iid = Some r \<Longrightarrow> rec_lifecycle r = StoredConsumed \<Longrightarrow> res_invitation_id res = iid \<Longrightarrow>
     \<not> holds_reservation g res t"
  by (auto simp: holds_reservation_def)

lemma consumed_admits_nothing:
  assumes inv: "admission_inv L log y" and a: "admission_apply C E L op y = (ev, y')"
    and r: "bt_get (reg_records (sy_registry y)) iid = Some r" "rec_lifecycle r = StoredConsumed"
  shows "\<not> list_ex (admits iid) ev"
proof -
  have join: ?thesis if j: "run_join L i authority t now how y = (ev, y')" for i authority t now how
  proof (cases "ev = []")
    case False
    note adm = run_join_admissible [OF j False]
    have "approved_in L log (ad_verified (sy_approved y ! i)) (ad_invitation_reservation (sy_approved y ! i))"
      using inv adm(1) by (auto simp: admission_inv_def)
    then have "invitation_of (ad_verified (sy_approved y ! i)) \<noteq> iid"
      using adm(2) consumed_not_held [OF r] held_invitation(2) by metis
    then show ?thesis using adm(3) by auto
  qed simp
  show ?thesis
  proof (cases op)
    case (AReserve i iv now)
    obtain x v g where x: "reserve_v2_for_approval (sy_verifier y) (sy_registry y) iv (sy_verified y ! i) now = (x, v, g)"
      by (metis prod_cases3)
    show ?thesis
    proof (cases x)
      case (Inr p)
      note ok = reserve_for_approval_ok [OF x [unfolded Inr]]
      then have "cl_invitation_id (cl2_base (inv2_claims iv)) \<noteq> iid"
        using consumed_refuses(2) [OF r, of iv] by (metis fst_conv is_ok_iff)
      then show ?thesis using a AReserve x Inr ok
        by (auto simp: Let_def bound_to_invitation_def invitation_of_def split: if_splits)
    qed (use a AReserve x in \<open>auto simp: Let_def split: if_splits\<close>)
  next
    case (ADecide i decision now)
    obtain x v g where x: "decide_v2 (sy_verifier y) (sy_registry y) (sy_pending y ! i) decision now = (x, v, g)"
      by (metis prod_cases3)
    show ?thesis
    proof (cases "i < length (sy_pending y) \<and> (\<exists>b. x = Ok (OutcomeApproved b))")
      case True
      then obtain b where b: "x = Ok (OutcomeApproved b)" "i < length (sy_pending y)" by blast
      note ok = decide_ok [OF x [unfolded b]]
      have "reserved_in L log (pc_verified (sy_pending y ! i)) (pc_invitation_reservation (sy_pending y ! i))"
        using inv b(2) by (auto simp: admission_inv_def)
      then have "invitation_of (ad_verified b) \<noteq> iid"
        using ok consumed_not_held [OF r] held_invitation(1)
        by (metis is_ok_iff still_admissible_def validate_reservation_iff)
      then show ?thesis using a ADecide x b by (auto simp: Let_def)
    qed (use a ADecide x in \<open>auto simp: Let_def split: if_splits sum.splits capability_approval_outcome.splits\<close>)
  qed (use a join in \<open>auto simp: Let_def split: if_splits prod.splits sum.splits\<close>)
qed

lemma consumed_run_admits_nothing:
  assumes "admission_inv L log y" and "admission_run C E L ops (log, y) = (log @ later, y')"
    and "bt_get (reg_records (sy_registry y)) iid = Some r" and "rec_lifecycle r = StoredConsumed"
    and "\<forall>op \<in> set ops. \<forall>t \<in> set (op_times op). t < rec_expires_at r"
  shows "\<not> list_ex (admits iid) later"
  using assms
proof (induction ops arbitrary: log y later)
  case (Cons op ops)
  obtain ev y1 where a: "admission_apply C E L op y = (ev, y1)" by force
  obtain rest where rest: "log @ later = (log @ ev) @ rest"
    using admission_run_log [of C E L ops "log @ ev" y1 "log @ later" y'] Cons.prems(2) a by auto
  have r: "bt_get (reg_records (sy_registry y1)) iid = Some r"
    using reg_moves_consumed [OF admission_apply_moves [OF a] _ Cons.prems(3,4)] Cons.prems(1,5)
    by (simp add: admission_inv_def is_live_def)
  have "\<not> list_ex (admits iid) rest"
    by (rule Cons.IH [OF admission_apply_inv [OF Cons.prems(1) a] _ r Cons.prems(4)])
      (use Cons.prems a rest in auto)
  then show ?case using consumed_admits_nothing [OF Cons.prems(1) a Cons.prems(3,4)] rest by auto
qed simp

section \<open>Joins that do not go through\<close>

lemma release_gone:
  assumes "t \<le> u"
  shows "\<not> holds_reservation (snd (release g res t)) res u"
proof (cases "holds_reservation g res t")
  case True
  then have "snd (release g res t) = set_lifecycle g (res_invitation_id res) StoredAvailable"
    using validate_reservation_iff [of g res t] by (auto simp: release_validates split: sum.splits)
  then show ?thesis by (auto simp: holds_reservation_def set_lifecycle_get)
next
  case False
  then have "snd (release g res t) = g"
    using validate_reservation_iff [of g res t] by (auto simp: release_validates split: sum.splits)
  then show ?thesis using False assms by (auto simp: holds_reservation_def is_live_def)
qed

text \<open>No reservation is left: the verifier has no entry for it and the registry does not hold it from \<open>t\<close> on.\<close>

definition released ::
    "'m approved_capability_admission \<Rightarrow> u64 \<Rightarrow> capability_admission_verifier \<Rightarrow> registry \<Rightarrow> bool" where
  "released a t v g \<longleftrightarrow> reservation_position v (ve_reservation (ad_verified a)) = None
     \<and> (\<forall>u \<ge> t. \<not> is_ok (validate_reservation g (ad_invitation_reservation a) u))"

lemma released_both:
  assumes "verifier_inv v" and "res = ve_reservation (ad_verified a)"
  shows "released a t (snd (remove_reservation v res)) (snd (release g (ad_invitation_reservation a) t))"
  using assms remove_reservation_gone [OF assms(1), of res] release_gone
  by (auto simp: released_def is_ok_iff validate_reservation_iff prod_eq_iff)

lemma prepare_err_released:
  assumes "verifier_inv v" and "prepare_approved_add L v g s a t = (Err e, v', g', s')"
  shows "released a t v' g'"
proof (cases "reservation_position v (ve_reservation (ad_verified a))")
  case None
  then have "v' = v" "g' = snd (release g (ad_invitation_reservation a) t)"
    using assms(2) by (simp_all add: prepare_approved_add_def)
  then show ?thesis using None release_gone by (auto simp: released_def is_ok_iff validate_reservation_iff)
next
  case (Some i)
  then have "v' = snd (remove_reservation v (ve_reservation (ad_verified a)))"
    "g' = snd (release g (ad_invitation_reservation a) t)"
    using assms(2) by (auto simp: prepare_approved_add_def Let_def split: if_splits prod.splits sum.splits)
  then show ?thesis using released_both [OF assms(1) refl] by simp
qed

lemma drop_released:
  assumes "verifier_inv v" and "prepare_approved_add L v0 g0 s0 a t = (Ok p, v, g, s)"
    and "drop_prepared_approved L hi True now p v g s' = (v', g', s'')"
  shows "released a now v' g'"
  using released_both [OF assms(1), of "pp_replay_reservation p" a now g] prepare_approved_ok [OF assms(2)] assms(3)
  by (auto simp: drop_prepared_approved_def)

lemma apply_join_err_released:
  assumes "verifier_inv v" and p: "prepare_approved_add L v0 g0 s0 a t = (Ok p, v, g, s)"
    and r: "apply_join L authority p now v g s = (Err e, v', g', s')"
  shows "released a now v' g'"
proof (cases "validate_before_apply g p now")
  case (Inl x)
  then show ?thesis using r drop_released [OF assms(1) p] by (auto simp: apply_join_def)
next
  case (Inr x)
  then have "consume_after_membership g (pp_invitation_reservation p) now
      = (Ok (), set_lifecycle g (res_invitation_id (pp_invitation_reservation p)) StoredConsumed)"
    using before_apply_ok [OF Inr] validate_reservation_iff [of g "pp_invitation_reservation p" now]
    by (auto simp: consume_validates split: sum.splits)
  moreover obtain y s1 where "apply_transient_addition L authority (pp_inner p) s = (y, s1)" by force
  ultimately show ?thesis using r Inr drop_released [OF assms(1) p] by (cases y) (auto simp: apply_join_def)
qed

lemma apply_awaiting_err_released:
  assumes "verifier_inv v" and p: "prepare_approved_add L v0 g0 s0 a t = (Ok p, v, g, s)"
    and r: "apply_awaiting_durability L authority p now v g s = (Err e, v', g', s')"
  shows "released a now v' g'"
proof (cases "validate_before_apply g p now")
  case (Inl x)
  then show ?thesis using r drop_released [OF assms(1) p] by (auto simp: apply_awaiting_durability_def)
next
  case (Inr x)
  obtain y s1 where "apply_durable_addition L authority (pp_inner p) s = (y, s1)" by force
  then show ?thesis using r Inr drop_released [OF assms(1) p] by (cases y) (auto simp: apply_awaiting_durability_def)
qed

lemma settle_uncommitted_released:
  assumes "verifier_inv v" and p: "prepare_approved_add L v0 g0 s0 a t = (Ok p, v, g, s)"
    and w: "apply_awaiting_durability L authority p now v g s = (Ok w, v1, g1, s1)"
    and st: "settle_with SettleUncommitted w v1 g1 = (v', g')"
  shows "released a now v' g'"
proof -
  note ok = apply_awaiting_ok [OF w] and prep = prepare_approved_ok [OF p]
  have "v' = snd (remove_reservation v (ve_reservation (ad_verified a)))"
    "g' = snd (release g (ad_invitation_reservation a) now)"
    using st ok prep
    by (auto simp: settle_with_def into_durable_owner_parts_def release_proven_uncommitted_def release_shadows_def
        split: prod.splits)
  then show ?thesis using released_both [OF assms(1) refl] by simp
qed

lemma released_mono: "released a t v g \<Longrightarrow> t \<le> u \<Longrightarrow> released a u v g"
  by (auto simp: released_def intro: order_trans)

lemma run_join_released:
  assumes "verifier_inv (sy_verifier y)" and i: "i < length (sy_approved y)"
    and j: "run_join L i authority t now how y = (ev, y')" and "ev = [] \<or> how = Some SettleUncommitted"
  shows "released (sy_approved y ! i) (max t now) (sy_verifier y') (sy_registry y')"
proof -
  obtain r v g s where p: "prepare_approved_add L (sy_verifier y) (sy_registry y) (sy_group y) (sy_approved y ! i) t
      = (r, v, g, s)" by (metis prod_cases4)
  show ?thesis
  proof (cases r)
    case (Inl e)
    from released_mono [OF prepare_err_released [OF assms(1) p [unfolded Inl]], of "max t now"] show ?thesis
      using j p i Inl by (auto simp: run_join_def Let_def set_states_def)
  next
    case (Inr q)
    note p = p [unfolded Inr] and v = prepare_approved_ok [OF p [unfolded Inr]]
    obtain ev' v' g' s' where f: "finish_join L (sy_approved y ! i) authority now how q v g s = (ev', v', g', s')"
      by (metis prod_cases4)
    have y': "ev = ev'" "sy_verifier y' = v'" "sy_registry y' = g'"
      using j p i f by (auto simp: run_join_def Let_def set_states_def)
    have vinv: "verifier_inv v" using assms(1) v by simp
    have "released (sy_approved y ! i) now v' g'"
    proof (cases how)
      case None
      then show ?thesis using f y' assms(4) apply_join_err_released [OF vinv p]
        by (auto simp: finish_join_def split: prod.splits sum.splits)
    next
      case (Some h)
      obtain x v1 g1 s1 where x: "apply_awaiting_durability L authority q now v g s = (x, v1, g1, s1)"
        by (metis prod_cases4)
      show ?thesis
      proof (cases x)
        case (Inl e)
        then show ?thesis using f Some x apply_awaiting_err_released [OF vinv p] by (auto simp: finish_join_def)
      next
        case (Inr w)
        obtain v2 g2 where "settle_with h w v1 g1 = (v2, g2)" by force
        then show ?thesis using f Some x Inr y' assms(4) settle_uncommitted_released [OF vinv p]
          by (auto simp: finish_join_def)
      qed
    qed
    from released_mono [OF this, of "max t now"] show ?thesis by (simp add: y')
  qed
qed

lemma dropped_released:
  assumes "verifier_inv (sy_verifier y)" and i: "i < length (sy_approved y)"
    and a: "admission_apply C E L (AJoinDropped i t) y = (ev, y')"
  shows "released (sy_approved y ! i) t (sy_verifier y') (sy_registry y')"
proof -
  obtain r v g s where p: "prepare_approved_add L (sy_verifier y) (sy_registry y) (sy_group y) (sy_approved y ! i) t
      = (r, v, g, s)" by (metis prod_cases4)
  show ?thesis
  proof (cases r)
    case (Inl e)
    then show ?thesis using prepare_err_released [OF assms(1) p [unfolded Inl]] a p i
      by (auto simp: Let_def set_states_def)
  next
    case (Inr q)
    note p = p [unfolded Inr]
    obtain v' g' s' where f: "drop_prepared_approved L True True t q v g s = (v', g', s')" by (metis prod_cases3)
    have "verifier_inv v" using assms(1) prepare_approved_ok [OF p] by simp
    from drop_released [OF this p f] show ?thesis using a p i f by (auto simp: Let_def set_states_def)
  qed
qed

section \<open>Joins that consume\<close>

lemma consume_held:
  assumes "holds_reservation g res t"
  shows "\<exists>r. consume_after_membership g res t = (Ok (), set_lifecycle g (res_invitation_id res) StoredConsumed)
    \<and> bt_get (reg_records (set_lifecycle g (res_invitation_id res) StoredConsumed)) (res_invitation_id res) = Some r
    \<and> rec_lifecycle r = StoredConsumed \<and> t < rec_expires_at r"
proof -
  have "validate_reservation g res t = Ok ()" using assms by (simp add: validate_reservation_iff)
  moreover obtain r where "bt_get (reg_records g) (res_invitation_id res) = Some r" "is_live t r"
    using assms by (auto simp: holds_reservation_def)
  ultimately show ?thesis by (simp add: consume_validates set_lifecycle_get is_live_def)
qed

lemma run_join_consumes:
  assumes j: "run_join L i authority t now how y = ([e], y')" and how: "how \<in> {None, Some SettleCommitted}"
  shows "\<exists>r. bt_get (reg_records (sy_registry y')) (res_invitation_id (ad_invitation_reservation (sy_approved y ! i))) = Some r
    \<and> rec_lifecycle r = StoredConsumed \<and> now < rec_expires_at r"
proof -
  let ?res = "ad_invitation_reservation (sy_approved y ! i)"
  have i: "i < length (sy_approved y)" using run_join_admissible(1) [OF j] by simp
  obtain x v g s where p: "prepare_approved_add L (sy_verifier y) (sy_registry y) (sy_group y) (sy_approved y ! i) t
      = (x, v, g, s)" by (metis prod_cases4)
  obtain q where q: "x = Ok q" using j p i by (cases x) (auto simp: run_join_def Let_def)
  note prep = prepare_approved_ok [OF p [unfolded q]]
  have "\<exists>g'. consume_after_membership g ?res now = (Ok (), g') \<and> sy_registry y' = g'
      \<and> holds_reservation g ?res now"
  proof (cases how)
    case None
    obtain z v1 g1 s1 where z: "apply_join L authority q now v g s = (z, v1, g1, s1)" by (metis prod_cases4)
    obtain c where c: "z = Ok c" using j p q i z None by (cases z) (auto simp: run_join_def finish_join_def Let_def)
    note ok = apply_join_ok [OF z [unfolded c]]
    then have "holds_reservation g ?res now"
      using prep validate_reservation_iff by (auto simp: consume_validates split: sum.splits)
    then show ?thesis
      using ok prep j p q i z c None by (auto simp: run_join_def finish_join_def set_states_def Let_def)
  next
    case (Some h)
    then have h: "h = SettleCommitted" using how by simp
    obtain z v1 g1 s1 where z: "apply_awaiting_durability L authority q now v g s = (z, v1, g1, s1)"
      by (metis prod_cases4)
    obtain c where c: "z = Ok c"
      using j p q i z Some by (cases z) (auto simp: run_join_def finish_join_def Let_def split: prod.splits)
    note ok = apply_awaiting_ok [OF z [unfolded c]]
    have held: "holds_reservation g ?res now" using ok prep by simp
    from consume_held [OF held] obtain g' where g': "consume_after_membership g ?res now = (Ok (), g')" by blast
    then have "sy_registry y' = g'"
      using ok prep j p q i z c Some h
      by (auto simp: run_join_def finish_join_def settle_with_def into_durable_owner_parts_def finalize_committed_def
          set_states_def Let_def)
    then show ?thesis using g' held by blast
  qed
  then show ?thesis using consume_held [of g ?res now] by auto
qed

end
