(* ===== verification/Admission_Properties.thy ===== *)
theory Admission_Properties
  imports Admission_Outcomes Hpke_Properties Mls_Properties
begin

text \<open>
  The properties of capability admission: an addition follows the verification, the binding to the
  invitation and the approval of exactly its request; an invitation admits one member; a join
  that does not go through leaves no reservation behind; replays are refused within a bound.
\<close>

section \<open>A concrete admission\<close>

definition ex_admission_policy :: capability_admission_policy where
  "ex_admission_policy = \<lparr> cp_maximum_request_lifetime = 1000, cp_maximum_future_skew = 10, cp_maximum_pending = 2 \<rparr>"

definition ex_inviter_policy :: invitation_policy where
  "ex_inviter_policy = \<lparr> ip_maximum_lifetime = 1000, ip_maximum_future_skew = 10, ip_maximum_live = 2 \<rparr>"

definition ex_opened :: opened_capability_join_request where
  "ex_opened = \<lparr> op_request = ex_join_request, op_invitation_signature = replicate 64 1 \<rparr>"

definition ex_key_package :: "bytes validated_key_package" where
  "ex_key_package = toy_validated \<lparr> vk_message := [1, 2, 3] \<rparr>"

definition ex_verified :: "bytes verified_capability_admission" where
  "ex_verified = \<lparr> ve_opened = ex_opened, ve_validated = ex_key_package,
     ve_reservation = \<lparr> rr_generation = generation_of ex_join_request, rr_join_request_id = replicate 16 11,
       rr_request_nonce = replicate 32 12, rr_reservation_id = 1 \<rparr> \<rparr>"

definition ex_verifier :: capability_admission_verifier where
  "ex_verifier = \<lparr> cv_policy = ex_admission_policy,
     cv_pending = [\<lparr> pe_generation = generation_of ex_join_request, pe_join_request_id = replicate 16 11,
       pe_request_nonce = replicate 32 12, pe_expires_at = 300, pe_reservation_id = 1 \<rparr>],
     cv_next_reservation_id = 2 \<rparr>"

definition ex_registry :: "stored_lifecycle \<Rightarrow> registry" where
  "ex_registry l = \<lparr> reg_policy = ex_inviter_policy, reg_records = [(replicate 16 1,
     \<lparr> rec_schema = V2, rec_expires_at = 400, rec_verifying_key = replicate 32 5,
       rec_signature = replicate 64 1, rec_lifecycle = l \<rparr>)] \<rparr>"

definition ex_invitation_reservation :: invitation_reservation where
  "ex_invitation_reservation = \<lparr> res_invitation_id = replicate 16 1, res_join_request_id = replicate 16 11,
     res_record_signature = replicate 64 1, res_schema = V2 \<rparr>"

definition ex_approved :: "bytes approved_capability_admission" where
  "ex_approved = \<lparr> ad_verified = ex_verified, ad_invitation_reservation = ex_invitation_reservation \<rparr>"

definition ex_ready :: "(bytes, toy_group) admission_system" where
  "ex_ready = \<lparr> sy_verifier = ex_verifier, sy_registry = ex_registry (StoredReserved (replicate 16 11)),
     sy_group = toy_session 0 None toy_alone, sy_verified = [], sy_pending = [], sy_approved = [ex_approved] \<rparr>"

definition ex_admission_ops :: "(u8, unit, toy_group) admission_op list" where
  "ex_admission_ops = [ARegistry (OpIssueV2 \<lparr> gen_invitation = ex_invitation_v2, gen_private_key = () \<rparr>) 100,
     AVerify ex_opened 110, AReserve 0 ex_invitation_v2 120, ADecide 0 Approve 130]"

definition ex_log :: "bytes admission_event list" where
  "ex_log = [EvVerified ex_verified 110, EvReserved ex_verified ex_invitation_v2 120, EvApproved ex_verified Approve 130]"

lemma ex_issue:
  "issue_v2 (InvitationRegistry_new ex_inviter_policy) \<lparr> gen_invitation = ex_invitation_v2, gen_private_key = () \<rparr> 100
     = (Ok \<lparr> gen_invitation = ex_invitation_v2, gen_private_key = () \<rparr>, ex_registry StoredAvailable)"
  by (simp add: issue_v2_def InvitationRegistry_new_def validate_time_values_def ex_inviter_policy_def
      ex_invitation_v2_def ex_claims_v2_def ex_claims_def insert_record_def ex_registry_def saturating_add_def
      checked_add_def saturating_sub_def bt_get_def bt_values_def bt_retain_def Let_def)

lemma ex_verify:
  "verify_and_reserve toy_lib (CapabilityAdmissionVerifier_new ex_admission_policy) ex_opened 110
     = (Ok ex_verified, ex_verifier)"
proof -
  have "validate_key_package toy_lib [1, 2, 3] 110 = Ok ex_key_package"
    by (simp add: validate_key_package_def MAX_KEY_PACKAGE_BYTES_def decode_exact_def toy_lib_def
        policy_view_accepts_def phase_one_capabilities_def toy_capabilities_def bind_key_package_def
        basic_identity_def fixed_bytes_def SESSION_CREDENTIAL_ID_BYTES_def KEY_PACKAGE_REFERENCE_BYTES_def
        nonzero_def all_zero_replicate ex_key_package_def toy_validated_def Let_def)
  then have "bound_key_package toy_lib ex_join_request 110 = Ok ex_key_package"
    by (simp add: bound_key_package_def ex_join_request_def ex_key_package_def toy_validated_def)
  moreover have "request_window ex_admission_policy ex_join_request 110 = Ok ()"
    by (simp add: request_window_def ex_admission_policy_def ex_join_request_def ex_endpoint_def
        saturating_add_def checked_add_def checked_sub_def Let_def)
  ultimately show ?thesis
    by (simp add: verify_and_reserve_def CapabilityAdmissionVerifier_new_def ex_opened_def ex_verified_def
        ex_verifier_def ex_admission_policy_def checked_add_def ex_join_request_def Let_def)
qed

lemma ex_position: "reservation_position ex_verifier (ve_reservation ex_verified) = Some 0"
  by (simp add: reservation_position_def ex_verifier_def ex_verified_def owns_def)

lemma ex_reserve:
  "reserve_v2_for_approval ex_verifier (ex_registry StoredAvailable) ex_invitation_v2 ex_verified 120
     = (Ok \<lparr> pc_verified = ex_verified, pc_invitation_reservation = ex_invitation_reservation,
             pc_approval_context = \<lparr> ac_method = SecretCapabilityMethod, ac_invitation_id = replicate 16 1,
               ac_join_request_id = replicate 16 11, ac_key_package_reference = replicate 32 13,
               ac_expires_at = 300 \<rparr> \<rparr>,
        ex_verifier, ex_registry (StoredReserved (replicate 16 11)))"
proof -
  have "bound_to_invitation ex_verified ex_invitation_v2"
    by (simp add: bound_to_invitation_def ex_verified_def ex_opened_def ex_join_request_def ex_invitation_v2_def
        ex_claims_v2_def ex_claims_def)
  moreover have "reserve_v2_after_admission (ex_registry StoredAvailable) ex_invitation_v2 (replicate 16 11) 120
      = (Ok ex_invitation_reservation, ex_registry (StoredReserved (replicate 16 11)))"
    by (simp add: reserve_v2_after_admission_def ex_registry_def ex_invitation_v2_def ex_claims_v2_def ex_claims_def
        validate_time_values_def ex_inviter_policy_def saturating_add_def checked_add_def saturating_sub_def
        bt_get_def InvitationRecord_matches_v2_def ex_invitation_reservation_def set_lifecycle_def bt_update_def
        all_zero_replicate Let_def)
  ultimately show ?thesis
    by (simp add: reserve_v2_for_approval_def ex_position)
      (simp add: ApprovalContext_new_def ex_verified_def ex_opened_def ex_join_request_def ex_key_package_def
        toy_validated_def all_zero_replicate)
qed

lemma ex_admissible:
  "t < 300 \<Longrightarrow> still_admissible (ex_registry (StoredReserved (replicate 16 11))) ex_verified ex_invitation_reservation t"
  by (auto simp: still_admissible_def ex_verified_def ex_opened_def ex_join_request_def ex_endpoint_def is_ok_iff
      validate_reservation_iff holds_reservation_def ex_registry_def ex_invitation_reservation_def bt_get_def
      is_live_def intro: less_trans)

lemma ex_admission_run:
  "admission_run rfc_cbor ex_ed toy_lib ex_admission_ops
     ([], admission_start ex_admission_policy ex_inviter_policy (toy_session 0 None toy_alone)) = (ex_log, ex_ready)"
  by (simp add: ex_admission_ops_def admission_start_def ex_issue ex_verify ex_reserve decide_v2_def ex_position
      ex_admissible ex_log_def ex_ready_def ex_approved_def remove_at_def Let_def)

lemma ex_prepare_approved:
  "prepare_approved_add toy_lib ex_verifier (ex_registry (StoredReserved (replicate 16 11)))
     (toy_session 0 None toy_alone) ex_approved 140
   = (Ok \<lparr> pp_inner = toy_prepared, pp_replay_reservation = ve_reservation ex_verified,
           pp_invitation_reservation = ex_invitation_reservation, pp_now = 140, pp_request_expires_at = 300,
           pp_response_endpoint = ex_endpoint \<rparr>, ex_verifier,
      ex_registry (StoredReserved (replicate 16 11)),
      toy_session 1 None (toy_alone \<lparr> tg_pending := Some [toy_member 1, toy_member 14] \<rparr>))"
proof -
  have "prepare_add toy_lib (toy_session 0 None toy_alone) ex_key_package 140
      = (Ok toy_prepared, toy_session 1 None (toy_alone \<lparr> tg_pending := Some [toy_member 1, toy_member 14] \<rparr>))"
    by (simp add: prepare_add_def toy_session_def invalidate_state_binding_def member_count_def toy_alone_def
        toy_lib_def toy_member_def basic_identity_def ex_key_package_def toy_validated_def toy_commit_def
        check_addition_def WelcomeMessage_from_provider_def MlsWireMessage_from_provider_def
        MAX_PROTECTED_MESSAGE_BYTES_def epoch_def toy_prepared_def Let_def)
  then show ?thesis
    by (simp add: prepare_approved_add_def ex_approved_def ex_position ex_admissible)
      (simp add: ex_verified_def ex_opened_def ex_join_request_def)
qed

lemma ex_transient:
  "apply_transient_addition toy_lib authority toy_prepared
     (toy_session 1 None (toy_alone \<lparr> tg_pending := Some [toy_member 1, toy_member 14] \<rparr>))
     = (Ok (toy_applied authority), toy_session 2 None toy_both)"
proof -
  from toy_apply [of authority] obtain s where
    "apply_provider toy_lib authority toy_prepared
       (toy_session 1 None (toy_alone \<lparr> tg_pending := Some [toy_member 1, toy_member 14] \<rparr>)) = (Ok (toy_applied authority), s)"
    "s \<lparr> sg_pending_addition_revision := Some 2 \<rparr> = toy_session 2 (Some 2) toy_both"
    "sg_pending_addition_revision s = None"
    by (auto simp: apply_durable_addition_def apply_provider_def apply_pending_def toy_session_def Let_def
        invalidate_state_binding_def toy_applied_def split: prod.splits sum.splits bool.splits if_splits)
  then show ?thesis by (cases s) (simp add: apply_transient_addition_def toy_session_def)
qed

definition ex_joined :: "bytes admission_event" where
  "ex_joined = EvJoined ex_verified (toy_applied 7) 150"

definition ex_after :: "(bytes, toy_group) admission_system" where
  "ex_after = ex_ready \<lparr> sy_registry := ex_registry StoredConsumed, sy_group := toy_session 2 None toy_both,
     sy_approved := [] \<rparr>"

lemma ex_join: "admission_apply rfc_cbor ex_ed toy_lib (AJoin 0 7 140 150) ex_ready = ([ex_joined], ex_after)"
proof -
  let ?res = "ex_invitation_reservation" and ?g = "ex_registry (StoredReserved (replicate 16 11))"
  have "validate_reservation ?g ?res 150 = Ok ()"
    by (simp add: validate_reservation_def ex_registry_def ex_invitation_reservation_def bt_get_def)
  moreover from this have "consume_after_membership ?g ?res 150 = (Ok (), ex_registry StoredConsumed)"
    by (simp add: consume_validates ex_registry_def ex_invitation_reservation_def set_lifecycle_def bt_update_def)
  ultimately show ?thesis
    by (simp add: run_join_def ex_ready_def ex_prepare_approved finish_join_def apply_join_def validate_before_apply_def
        ex_endpoint_def ex_transient set_states_def remove_at_def ex_joined_def ex_after_def Let_def)
      (simp add: ex_approved_def)
qed

section \<open>Properties\<close>

text \<open>
  C9: an admitted join was approved. In every sequence of admission, registry and group calls from a fresh
  inviter, an addition that the admission API applies was preceded, in this order, by the verification of a
  request, its binding to an invitation with the identifiers, challenge, keys and signature the request
  names, and a decision on it that was \<open>Approve\<close> and was made before request and response endpoint expired; it
  adds exactly the key package, credential and signature key of that request, which validated at the
  verification; request and response endpoint were still unexpired; and the admission is used for no
  other addition. Direct calls of the group are outside this claim.
\<close>

theorem join_follows_admission:
  assumes "admission_run C E L ops ([], admission_start p q s) = (log, y)"
    and "log = pre @ EvJoined w c t # post"
  shows "(\<exists>t0 i t1 t2. subseq [EvVerified w t0, EvReserved w i t1, EvApproved w Approve t2] pre \<and> bound_to_invitation w i
      \<and> t2 < rb_expires_at (jr_request (request_of w)) \<and> t2 < ep_expires_at (jr_response_endpoint (request_of w))
      \<and> validate_key_package L (kb_key_package (jr_mls (request_of w))) t0 = Ok (ve_validated w))
    \<and> aa_reference c = kb_key_package_reference (jr_mls (request_of w))
    \<and> aa_credential_identity c = kb_credential_identity (jr_mls (request_of w))
    \<and> aa_leaf_signature_key c = kb_leaf_signature_key (jr_mls (request_of w))
    \<and> aa_epoch_after c = aa_epoch_before c + 1
    \<and> t < rb_expires_at (jr_request (request_of w)) \<and> t < ep_expires_at (jr_response_endpoint (request_of w))
    \<and> (\<forall>w' c' t'. EvJoined w' c' t' \<in> set (pre @ post) \<longrightarrow> admission_id w' \<noteq> admission_id w)"
proof -
  from admission_run_inv [OF admission_inv_start assms(1)] have inv: "admission_inv L log y" .
  then obtain res where res: "approved_in L pre w res" "joined_from w c t"
    using assms(2) unfolding admission_inv_def joins_ok_def by blast
  have "admission_id w' \<noteq> admission_id w" if e: "EvJoined w' c' t' \<in> set (pre @ post)" for w' c' t'
  proof
    assume same: "admission_id w' = admission_id w"
    have "w' \<in> set (List.map_filter joined_value (pre @ post))"
      using e by (force simp: List.map_filter_def)
    then have "admission_id w \<in># image_mset admission_id (mset (List.map_filter joined_value (pre @ post)))"
      using same by (metis image_eqI set_image_mset set_mset_mset)
    then have "2 \<le> count (image_mset admission_id (mset (List.map_filter joined_value log))) (admission_id w)"
      by (simp add: assms(2) List.map_filter_def Suc_le_eq)
    also have "\<dots> \<le> count (value_ids log y) (admission_id w)" by (simp add: value_ids_def)
    also have "\<dots> \<le> 1" using inv unfolding admission_inv_def by blast
    finally show False by simp
  qed
  moreover obtain t0 i t1 t2 where "verified_facts L w t0" "bound_to_invitation w i"
    "subseq [EvVerified w t0, EvReserved w i t1, EvApproved w Approve t2] pre"
    "t2 < rb_expires_at (jr_request (request_of w))" "t2 < ep_expires_at (jr_response_endpoint (request_of w))"
    using res(1) unfolding approved_in_def by blast
  ultimately show ?thesis using res(2) unfolding joined_from_def verified_facts_def by metis
qed

theorem join_follows_admission_witness:
  "admission_run rfc_cbor ex_ed toy_lib (ex_admission_ops @ [AJoin 0 7 140 150])
     ([], admission_start ex_admission_policy ex_inviter_policy (toy_session 0 None toy_alone))
     = (ex_log @ [ex_joined], ex_after)
   \<and> aa_reference (toy_applied 7) = kb_key_package_reference (jr_mls (request_of ex_verified))"
proof -
  have run: "admission_run rfc_cbor ex_ed toy_lib (ex_admission_ops @ [AJoin 0 7 140 150])
     ([], admission_start ex_admission_policy ex_inviter_policy (toy_session 0 None toy_alone))
     = (ex_log @ [ex_joined], ex_after)"
    by (simp add: admission_run_append ex_admission_run ex_join del: admission_apply.simps)
  with join_follows_admission [OF run, of ex_log ex_verified "toy_applied 7" 150 "[]"] show ?thesis
    by (simp add: ex_joined_def)
qed

text \<open>
  C10: an invitation admits one member. Once a join of a reachable system has consumed its invitation,
  either directly or when its durable commit was confirmed, then in every later sequence of calls before the
  invitation expires no request is reserved, approved or joined on that invitation, however many were
  verified, reserved or approved before.
\<close>

theorem invitation_admits_one:
  assumes "admission_run C E L ops ([], admission_start p q s) = (log, y)"
    and "op = AJoin i authority t now \<or> op = AJoinDurable i authority t now SettleCommitted"
    and "admission_apply C E L op y = ([EvJoined w c now], y')"
  shows "\<exists>r. bt_get (reg_records (sy_registry y')) (invitation_of w) = Some r \<and> rec_lifecycle r = StoredConsumed
    \<and> now < rec_expires_at r
    \<and> (\<forall>ops' later y''. admission_run C E L ops' (log @ [EvJoined w c now], y')
            = ((log @ [EvJoined w c now]) @ later, y'')
          \<and> (\<forall>op' \<in> set ops'. \<forall>u \<in> set (op_times op'). u < rec_expires_at r) \<longrightarrow>
        \<not> list_ex (admits (invitation_of w)) later)"
proof -
  from admission_run_inv [OF admission_inv_start assms(1)] have inv: "admission_inv L log y" .
  from admission_apply_inv [OF inv assms(3)] have inv': "admission_inv L (log @ [EvJoined w c now]) y'" .
  obtain how where how: "how \<in> {None, Some SettleCommitted}" "run_join L i authority t now how y = ([EvJoined w c now], y')"
    using assms(2,3) by (elim disjE) auto
  have i: "i < length (sy_approved y)" and w: "w = ad_verified (sy_approved y ! i)"
    using run_join_admissible [OF how(2)] by auto
  have "approved_in L log w (ad_invitation_reservation (sy_approved y ! i))"
    using inv i w by (auto simp: admission_inv_def)
  then have rid: "res_invitation_id (ad_invitation_reservation (sy_approved y ! i)) = invitation_of w"
    by (rule held_invitation(2))
  obtain r where r: "bt_get (reg_records (sy_registry y')) (invitation_of w) = Some r"
    "rec_lifecycle r = StoredConsumed" "now < rec_expires_at r"
    using run_join_consumes [OF how(2,1)] rid by auto
  with consumed_run_admits_nothing [OF inv' _ r(1,2)] show ?thesis by blast
qed

theorem invitation_admits_one_witness:
  "\<exists>r. bt_get (reg_records (ex_registry StoredConsumed)) (replicate 16 1) = Some r \<and> 150 < rec_expires_at r
    \<and> (\<forall>later y''. admission_run rfc_cbor ex_ed toy_lib [AVerify ex_opened 160] (ex_log @ [ex_joined], ex_after)
            = ((ex_log @ [ex_joined]) @ later, y'') \<longrightarrow> \<not> list_ex (admits (replicate 16 1)) later)"
proof -
  have "invitation_of ex_verified = replicate 16 1"
    by (simp add: invitation_of_def ex_verified_def ex_opened_def ex_join_request_def)
  with invitation_admits_one [OF ex_admission_run _ ex_join [unfolded ex_joined_def]] show ?thesis
    by (fastforce simp: ex_joined_def ex_after_def ex_ready_def simp del: admission_run.simps)
qed

text \<open>
  C20: a join that does not go through leaves nothing reserved. When preparing, applying or a durable
  commit fails, or the prepared addition is dropped, or the durable owner proves that nothing was
  committed, the verifier has no entry for the request any more and the registry holds the invitation for
  it at no later time.
\<close>

theorem failed_join_releases:
  assumes "admission_run C E L ops ([], admission_start p q s) = (log, y)"
    and "i < length (sy_approved y)"
    and "op = AJoin i authority t now \<or> op = AJoinDurable i authority t now how \<or> op = AJoinDropped i now"
    and "admission_apply C E L op y = (ev, y')"
    and "ev = [] \<or> op = AJoinDurable i authority t now SettleUncommitted"
  shows "reservation_position (sy_verifier y') (ve_reservation (ad_verified (sy_approved y ! i))) = None
    \<and> (\<forall>u. t \<le> u \<and> now \<le> u \<longrightarrow>
         \<not> is_ok (validate_reservation (sy_registry y') (ad_invitation_reservation (sy_approved y ! i)) u))"
proof -
  from admission_run_inv [OF admission_inv_start assms(1)] have inv: "verifier_inv (sy_verifier y)"
    by (simp add: admission_inv_def)
  have "released (sy_approved y ! i) (max t now) (sy_verifier y') (sy_registry y')"
    using assms(3)
  proof (elim disjE)
    assume op: "op = AJoin i authority t now"
    then show ?thesis using run_join_released [OF inv assms(2), of L authority t now None ev y'] assms(4,5) by simp
  next
    assume op: "op = AJoinDurable i authority t now how"
    then show ?thesis using run_join_released [OF inv assms(2), of L authority t now "Some how" ev y'] assms(4,5) by simp
  next
    assume op: "op = AJoinDropped i now"
    show ?thesis
      by (rule released_mono [OF dropped_released [OF inv assms(2) assms(4) [unfolded op]]]) simp
  qed
  then show ?thesis by (auto simp: released_def)
qed

theorem failed_join_releases_witness:
  "\<exists>y'. admission_apply rfc_cbor ex_ed toy_lib (AJoinDropped 0 140) ex_ready = ([], y')
    \<and> reservation_position (sy_verifier y') (ve_reservation ex_verified) = None
    \<and> \<not> is_ok (validate_reservation (sy_registry y') ex_invitation_reservation 140)"
proof -
  obtain ev y' where a: "admission_apply rfc_cbor ex_ed toy_lib (AJoinDropped 0 140) ex_ready = (ev, y')" by force
  then have ev: "ev = []"
    by (auto simp: ex_ready_def ex_prepare_approved set_states_def Let_def split: prod.splits)
  have "0 < length (sy_approved ex_ready)" "sy_approved ex_ready ! 0 = ex_approved" by (simp_all add: ex_ready_def)
  then show ?thesis
    using failed_join_releases [OF ex_admission_run, of 0 "AJoinDropped 0 140" 7 140 140 SettleUnresolved ev y'] a ev
    by (simp add: ex_approved_def)
qed

text \<open>
  C19: replays are refused, within a bound. In every reachable system the verifier keeps at most the configured
  number of requests, with distinct reservation identifiers and no two of one invitation generation
  with the same request identifier or nonce; and while a kept request is unexpired, verifying another with
  its identifier or nonce for the same generation is refused and changes nothing.
\<close>

theorem replay_is_refused:
  assumes "admission_run C E L ops ([], admission_start p q s) = (log, y)"
  shows "pending_count (sy_verifier y) \<le> cp_maximum_pending (cv_policy (sy_verifier y))
    \<and> distinct (map pe_reservation_id (cv_pending (sy_verifier y)))
    \<and> (\<forall>i j. i < j \<and> j < length (cv_pending (sy_verifier y)) \<longrightarrow>
         \<not> conflicts (cv_pending (sy_verifier y) ! i) (cv_pending (sy_verifier y) ! j))
    \<and> (\<forall>e opened now. e \<in> set (cv_pending (sy_verifier y)) \<and> now < pe_expires_at e
          \<and> pe_generation e = generation_of (op_request opened)
          \<and> (pe_join_request_id e = rb_join_request_id (jr_request (op_request opened))
             \<or> pe_request_nonce e = rb_request_nonce (jr_request (op_request opened))) \<longrightarrow>
        (\<exists>x. verify_and_reserve L (sy_verifier y) opened now = (Err x, sy_verifier y)))"
proof -
  from admission_run_inv [OF admission_inv_start assms] have inv: "verifier_inv (sy_verifier y)"
    by (simp add: admission_inv_def)
  have "\<exists>x. verify_and_reserve L (sy_verifier y) opened now = (Err x, sy_verifier y)"
    if "e \<in> set (cv_pending (sy_verifier y))" "is_replay (op_request opened) now e" for e opened now
  proof -
    have "list_ex (is_replay (op_request opened) now) (cv_pending (sy_verifier y))"
      using that by (auto simp: list_ex_iff)
    then show ?thesis by (auto simp: verify_and_reserve_def Let_def split: sum.split)
  qed
  then show ?thesis
    using inv by (auto simp: verifier_inv_def pending_count_def is_replay_def sorted_wrt_iff_nth_less)
qed

theorem replay_is_refused_witness:
  "\<exists>x. verify_and_reserve toy_lib ex_verifier ex_opened 160 = (Err x, ex_verifier)"
proof -
  have "\<exists>e \<in> set (cv_pending ex_verifier). 160 < pe_expires_at e
      \<and> pe_generation e = generation_of (op_request ex_opened)
      \<and> pe_join_request_id e = rb_join_request_id (jr_request (op_request ex_opened))"
    by (simp add: ex_verifier_def ex_opened_def ex_join_request_def)
  moreover have "sy_verifier ex_ready = ex_verifier" by (simp add: ex_ready_def)
  ultimately show ?thesis using replay_is_refused [OF ex_admission_run] by metis
qed

end
