(* ===== verification/Memory_Transport.thy ===== *)
theory Memory_Transport
  imports Mailbox
begin

text \<open>
  The fault-controlled memory transport of \<open>crates/transport-memory/src/lib.rs\<close>: mailboxes with bounded
  envelopes, attempts and scheduled copies, the synchronous operations, the fault controls of the
  conformance tests, and the asynchronous operations around the dispatch checkpoints. None of the
  asynchronous operations awaits, so each runs to its end in one poll.
\<close>

section \<open>Data\<close>

definition DEPOSIT_DOMAIN :: bytes where
  "DEPOSIT_DOMAIN = ascii_bytes ''session-chat/memory-transport/deposit/v1'' @ [0]"
definition RECEIVE_DOMAIN :: bytes where
  "RECEIVE_DOMAIN = ascii_bytes ''session-chat/memory-transport/receive/v1'' @ [0]"
definition ACKNOWLEDGEMENT_DOMAIN :: bytes where
  "ACKNOWLEDGEMENT_DOMAIN = ascii_bytes ''session-chat/memory-transport/ack/v1'' @ [0]"
definition ENVELOPE_DOMAIN :: bytes where
  "ENVELOPE_DOMAIN = ascii_bytes ''session-chat/memory-transport/envelope/v1'' @ [0]"

definition MAX_MEMORY_MAILBOX_LIFETIME_SECONDS :: u64 where "MAX_MEMORY_MAILBOX_LIFETIME_SECONDS = 24 * 60 * 60"
definition MAX_MEMORY_LIVE_MAILBOXES :: usize where "MAX_MEMORY_LIVE_MAILBOXES = 64"
definition MAX_MEMORY_ENVELOPES_PER_MAILBOX :: usize where "MAX_MEMORY_ENVELOPES_PER_MAILBOX = 64"
definition MAX_MEMORY_DELIVERY_ATTEMPTS_PER_ENVELOPE :: usize where
  "MAX_MEMORY_DELIVERY_ATTEMPTS_PER_ENVELOPE = 64"
definition MAX_MEMORY_RETAINED_CANONICAL_BYTES_PER_MAILBOX :: usize where
  "MAX_MEMORY_RETAINED_CANONICAL_BYTES_PER_MAILBOX = 4 * 1024 * 1024"

datatype memory_transport_error =
  MemoryInvalidPolicy | MemoryRejected | MemoryCapacityExceeded | MemoryProviderFailure

record memory_mailbox_policy =
  yp_maximum_lifetime :: u64
  yp_maximum_live_mailboxes :: usize
  yp_maximum_envelopes :: usize
  yp_maximum_attempts :: usize
  yp_maximum_scheduled :: usize

definition MemoryMailboxPolicy_new ::
    "u64 \<Rightarrow> usize \<Rightarrow> usize \<Rightarrow> usize \<Rightarrow> memory_transport_error + memory_mailbox_policy" where
  "MemoryMailboxPolicy_new lifetime live envelopes attempts =
     (if lifetime = 0 \<or> lifetime > MAX_MEMORY_MAILBOX_LIFETIME_SECONDS
         \<or> live = 0 \<or> live > MAX_MEMORY_LIVE_MAILBOXES
         \<or> envelopes = 0 \<or> envelopes > MAX_MEMORY_ENVELOPES_PER_MAILBOX
         \<or> attempts = 0 \<or> attempts > MAX_MEMORY_DELIVERY_ATTEMPTS_PER_ENVELOPE
      then Err MemoryInvalidPolicy
      else if envelopes * attempts * 2 \<ge> 2 ^ 64 then Err MemoryInvalidPolicy
      else Ok \<lparr> yp_maximum_lifetime = lifetime, yp_maximum_live_mailboxes = live,
                yp_maximum_envelopes = envelopes, yp_maximum_attempts = attempts,
                yp_maximum_scheduled = envelopes * attempts * 2 \<rparr>)"

datatype delivery_action = Deliver | DropDelivery | Hold | Duplicate

datatype memory_availability = MemoryAvailable | MemoryUnavailable

datatype acknowledgement_loss = BeforeCommit | AfterCommit

text \<open>The deposit, receive and acknowledgement authorities are three types with the same four fields.\<close>

record memory_authority =
  au_transport_instance_id :: ident
  au_mailbox_id :: ident
  au_secret :: bytes
  au_expires_at :: u64

record memory_mailbox =
  mx_deposit :: memory_authority
  mx_receive :: memory_authority
  mx_acknowledgement :: memory_authority

record memory_accepted =
  ma_digest :: bytes
  ma_encoded_len :: usize
  ma_delivery_id :: ident
  ma_envelope :: "opaque_envelope option"
  ma_attempts :: usize

record memory_mailbox_record =
  mb_expires_at :: u64
  mb_deposit_digest :: bytes
  mb_receive_digest :: bytes
  mb_acknowledgement_digest :: bytes
  mb_accepted :: "(ident, memory_accepted) btree_map"
  mb_visible :: "ident list"

record stale_replay =
  sr_mailbox_id :: ident
  sr_delivery_id :: ident
  sr_envelope :: opaque_envelope
  sr_encoded_len :: usize

record memory_transport =
  mt_policy :: memory_mailbox_policy
  mt_instance_id :: ident
  mt_mailboxes :: "(ident, memory_mailbox_record) btree_map"
  mt_actions :: "delivery_action list"
  mt_held :: "(ident \<times> ident) list"
  mt_stale_replays :: "stale_replay list"
  mt_availability :: memory_availability
  mt_corrupt_next_poll :: "(ident \<times> ident) option"
  mt_acknowledgement_loss :: "acknowledgement_loss option"

section \<open>Helpers\<close>

definition memory_random_nonzero :: "'g rng \<Rightarrow> usize \<Rightarrow> 'g \<Rightarrow> (memory_transport_error + bytes) \<times> 'g" where
  "memory_random_nonzero rng n g =
     (case rng g n of (None, g) \<Rightarrow> (Err MemoryProviderFailure, g)
      | (Some bs, g) \<Rightarrow> (if all_zero bs then Err MemoryProviderFailure else Ok bs, g))"

definition memory_secret_matches :: "(bytes \<Rightarrow> bytes) \<Rightarrow> bytes \<Rightarrow> bytes \<Rightarrow> bytes \<Rightarrow> bool" where
  "memory_secret_matches sha256 domain expected secret \<longleftrightarrow> expected = domain_digest sha256 domain secret"

definition memory_transport_failure :: "transport_failure_code \<Rightarrow> transport_failure" where
  "memory_transport_failure code = TransportFailure_new code Never"

fun map_memory_failure :: "memory_transport_error \<Rightarrow> transport_failure" where
  "map_memory_failure MemoryInvalidPolicy = memory_transport_failure Misconfigured"
| "map_memory_failure MemoryCapacityExceeded = memory_transport_failure QueueFull"
| "map_memory_failure MemoryRejected = memory_transport_failure Internal"
| "map_memory_failure MemoryProviderFailure = memory_transport_failure Internal"

definition set_mailbox :: "ident \<Rightarrow> memory_mailbox_record \<Rightarrow> memory_transport \<Rightarrow> memory_transport" where
  "set_mailbox mid r t = t \<lparr> mt_mailboxes := bt_update mid (\<lambda>_. r) (mt_mailboxes t) \<rparr>"

definition find_accepted :: "memory_mailbox_record \<Rightarrow> ident \<Rightarrow> memory_accepted option" where
  "find_accepted r did = find (\<lambda>a. ma_delivery_id a = did) (bt_values (mb_accepted r))"

text \<open>\<open>values_mut().find(..)\<close> followed by clearing the envelope of what it found.\<close>

fun clear_accepted :: "ident \<Rightarrow> (ident, memory_accepted) btree_map \<Rightarrow> (ident, memory_accepted) btree_map" where
  "clear_accepted did [] = []"
| "clear_accepted did ((k, a) # m) =
     (if ma_delivery_id a = did then (k, a \<lparr> ma_envelope := None \<rparr>) # m else (k, a) # clear_accepted did m)"

definition forget_delivery :: "ident \<Rightarrow> memory_mailbox_record \<Rightarrow> memory_mailbox_record" where
  "forget_delivery did r = r \<lparr> mb_accepted := clear_accepted did (mb_accepted r),
     mb_visible := filter (\<lambda>d. d \<noteq> did) (mb_visible r) \<rparr>"

text \<open>\<open>try_fold\<close> with a checked addition on \<open>usize\<close>.\<close>

definition checked_sum :: "usize list \<Rightarrow> usize option" where
  "checked_sum ns = (if sum_list ns < 2 ^ 64 then Some (sum_list ns) else None)"

definition exceeds_retained :: "usize list \<Rightarrow> usize \<Rightarrow> bool" where
  "exceeds_retained ns n = (case checked_sum ns of None \<Rightarrow> True
     | Some k \<Rightarrow> k + n \<ge> 2 ^ 64 \<or> k + n > MAX_MEMORY_RETAINED_CANONICAL_BYTES_PER_MAILBOX)"

definition delivery_is_live :: "memory_mailbox_record \<Rightarrow> ident \<Rightarrow> u64 \<Rightarrow> bool" where
  "delivery_is_live r did now \<longleftrightarrow> list_ex (\<lambda>a. ma_delivery_id a = did
     \<and> (case ma_envelope a of None \<Rightarrow> False | Some env \<Rightarrow> env_expires_at env > now)) (bt_values (mb_accepted r))"

definition scheduled_count :: "memory_transport \<Rightarrow> ident \<Rightarrow> usize" where
  "scheduled_count t mid =
     (case bt_get (mt_mailboxes t) mid of None \<Rightarrow> 0 | Some r \<Rightarrow> length (mb_visible r))
     + length (filter (\<lambda>h. fst h = mid) (mt_held t))"

section \<open>Fault controls\<close>

definition DeterministicMemoryTransport_new ::
    "'g rng \<Rightarrow> memory_mailbox_policy \<Rightarrow> 'g \<Rightarrow> (memory_transport_error + memory_transport) \<times> 'g" where
  "DeterministicMemoryTransport_new rng policy g =
     (case memory_random_nonzero rng IDENTIFIER_BYTES g of (Inl e, g) \<Rightarrow> (Err e, g)
      | (Inr iid, g) \<Rightarrow> (Ok \<lparr> mt_policy = policy, mt_instance_id = iid, mt_mailboxes = [], mt_actions = [],
           mt_held = [], mt_stale_replays = [], mt_availability = MemoryAvailable,
           mt_corrupt_next_poll = None, mt_acknowledgement_loss = None \<rparr>, g))"

definition queue_action :: "delivery_action \<Rightarrow> memory_transport \<Rightarrow> (memory_transport_error + unit) \<times> memory_transport" where
  "queue_action a t =
     (if length (mt_actions t) \<ge> yp_maximum_attempts (mt_policy t) then (Err MemoryCapacityExceeded, t)
      else (Ok (), t \<lparr> mt_actions := mt_actions t @ [a] \<rparr>))"

definition set_availability :: "memory_availability \<Rightarrow> memory_transport \<Rightarrow> memory_transport" where
  "set_availability a t = t \<lparr> mt_availability := a \<rparr>"

definition fault_mailbox ::
    "(bytes \<Rightarrow> bytes) \<Rightarrow> memory_transport \<Rightarrow> memory_authority \<Rightarrow> memory_transport_error + memory_mailbox_record" where
  "fault_mailbox sha256 t auth =
     and_then (ok_or MemoryRejected (bt_get (mt_mailboxes t) (au_mailbox_id auth))) (\<lambda>r.
     if au_transport_instance_id auth \<noteq> mt_instance_id t \<or> mb_expires_at r \<noteq> au_expires_at auth
        \<or> \<not> memory_secret_matches sha256 RECEIVE_DOMAIN (mb_receive_digest r) (au_secret auth)
     then Err MemoryRejected else Ok r)"

definition has_replay :: "memory_transport \<Rightarrow> ident \<Rightarrow> ident \<Rightarrow> bool" where
  "has_replay t mid did = list_ex (\<lambda>s. sr_mailbox_id s = mid \<and> sr_delivery_id s = did) (mt_stale_replays t)"

definition corrupt_next_poll ::
    "(bytes \<Rightarrow> bytes) \<Rightarrow> memory_authority \<Rightarrow> ident \<Rightarrow> memory_transport \<Rightarrow>
     (memory_transport_error + unit) \<times> memory_transport" where
  "corrupt_next_poll sha256 auth did t =
     (if mt_corrupt_next_poll t \<noteq> None then (Err MemoryCapacityExceeded, t)
      else case fault_mailbox sha256 t auth of Inl e \<Rightarrow> (Err e, t)
      | Inr r \<Rightarrow>
        if did \<notin> set (mb_visible r) \<and> \<not> has_replay t (au_mailbox_id auth) did then (Err MemoryRejected, t)
        else (Ok (), t \<lparr> mt_corrupt_next_poll := Some (au_mailbox_id auth, did) \<rparr>))"

definition replay_stale ::
    "cbor \<Rightarrow> (bytes \<Rightarrow> bytes) \<Rightarrow> memory_authority \<Rightarrow> ident \<Rightarrow> opaque_envelope \<Rightarrow> memory_transport \<Rightarrow>
     (memory_transport_error + unit) \<times> memory_transport" where
  "replay_stale C sha256 auth did env t =
     (case OpaqueEnvelope_encode_canonical C env of Inl _ \<Rightarrow> (Err MemoryRejected, t)
      | Inr encoded \<Rightarrow>
      (case fault_mailbox sha256 t auth of Inl e \<Rightarrow> (Err e, t)
       | Inr r \<Rightarrow>
         let mine = filter (\<lambda>s. sr_mailbox_id s = au_mailbox_id auth) (mt_stale_replays t) in
         if (case find_accepted r did of None \<Rightarrow> True
             | Some a \<Rightarrow> ma_digest a \<noteq> domain_digest sha256 ENVELOPE_DOMAIN encoded) then (Err MemoryRejected, t)
         else if length mine \<ge> yp_maximum_scheduled (mt_policy t) then (Err MemoryCapacityExceeded, t)
         else if exceeds_retained (map sr_encoded_len mine) (length encoded) then (Err MemoryCapacityExceeded, t)
         else (Ok (), t \<lparr> mt_stale_replays := mt_stale_replays t
                 @ [\<lparr> sr_mailbox_id = au_mailbox_id auth, sr_delivery_id = did, sr_envelope = env,
                      sr_encoded_len = length encoded \<rparr>] \<rparr>)))"

definition lose_next_acknowledgement ::
    "acknowledgement_loss \<Rightarrow> memory_transport \<Rightarrow> (memory_transport_error + unit) \<times> memory_transport" where
  "lose_next_acknowledgement loss t =
     (if mt_acknowledgement_loss t \<noteq> None then (Err MemoryCapacityExceeded, t)
      else (Ok (), t \<lparr> mt_acknowledgement_loss := Some loss \<rparr>))"

record memory_conformance_snapshot =
  cs_live_envelopes :: usize
  cs_live_encoded_bytes :: usize
  cs_visible_copies :: usize
  cs_held_copies :: usize
  cs_queued_delivery_actions :: usize
  cs_queued_stale_replays :: usize
  cs_corrupt_poll_armed :: bool
  cs_acknowledgement_loss_armed :: bool
  cs_availability :: memory_availability

definition live_lens :: "memory_mailbox_record \<Rightarrow> usize list" where
  "live_lens r = map ma_encoded_len (filter (\<lambda>a. ma_envelope a \<noteq> None) (bt_values (mb_accepted r)))"

definition conformance_snapshot :: "memory_transport \<Rightarrow> memory_conformance_snapshot" where
  "conformance_snapshot t =
     \<lparr> cs_live_envelopes = length (concat (map live_lens (bt_values (mt_mailboxes t)))),
       cs_live_encoded_bytes = sum_list (concat (map live_lens (bt_values (mt_mailboxes t)))),
       cs_visible_copies = sum_list (map (\<lambda>r. length (mb_visible r)) (bt_values (mt_mailboxes t))),
       cs_held_copies = length (mt_held t), cs_queued_delivery_actions = length (mt_actions t),
       cs_queued_stale_replays = length (mt_stale_replays t),
       cs_corrupt_poll_armed = (mt_corrupt_next_poll t \<noteq> None),
       cs_acknowledgement_loss_armed = (mt_acknowledgement_loss t \<noteq> None),
       cs_availability = mt_availability t \<rparr>"

section \<open>Mailboxes and scheduling\<close>

definition memory_live :: "u64 \<Rightarrow> memory_mailbox_record \<Rightarrow> bool" where
  "memory_live now r \<longleftrightarrow> mb_expires_at r > now"

definition memory_authority_for :: "memory_transport \<Rightarrow> ident \<Rightarrow> bytes \<Rightarrow> u64 \<Rightarrow> memory_authority" where
  "memory_authority_for t mid secret expires_at =
     \<lparr> au_transport_instance_id = mt_instance_id t, au_mailbox_id = mid, au_secret = secret,
       au_expires_at = expires_at \<rparr>"

text \<open>What follows the draws of \<open>create_mailbox\<close>: the expired mailboxes and what hangs on them go.\<close>

definition install_memory_mailbox ::
    "(bytes \<Rightarrow> bytes) \<Rightarrow> memory_transport \<Rightarrow> ident \<Rightarrow> bytes \<Rightarrow> bytes \<Rightarrow> bytes \<Rightarrow> u64 \<Rightarrow> u64
      \<Rightarrow> (memory_transport_error + memory_mailbox) \<times> memory_transport" where
  "install_memory_mailbox sha256 t mid dsec rsec asec expires_at now =
     (if dsec = rsec \<or> dsec = asec \<or> rsec = asec then (Err MemoryProviderFailure, t)
      else let record = \<lparr> mb_expires_at = expires_at,
                 mb_deposit_digest = domain_digest sha256 DEPOSIT_DOMAIN dsec,
                 mb_receive_digest = domain_digest sha256 RECEIVE_DOMAIN rsec,
                 mb_acknowledgement_digest = domain_digest sha256 ACKNOWLEDGEMENT_DOMAIN asec,
                 mb_accepted = [], mb_visible = [] \<rparr>;
             kept = bt_retain (memory_live now) (mt_mailboxes t) in
        (Ok \<lparr> mx_deposit = memory_authority_for t mid dsec expires_at,
              mx_receive = memory_authority_for t mid rsec expires_at,
              mx_acknowledgement = memory_authority_for t mid asec expires_at \<rparr>,
         t \<lparr> mt_mailboxes := bt_insert mid record kept,
             mt_held := filter (\<lambda>h. bt_get kept (fst h) \<noteq> None \<or> fst h = mid) (mt_held t),
             mt_stale_replays := filter (\<lambda>s. bt_get kept (sr_mailbox_id s) \<noteq> None) (mt_stale_replays t),
             mt_corrupt_next_poll := (case mt_corrupt_next_poll t of None \<Rightarrow> None
                | Some (m, d) \<Rightarrow> if bt_get kept m = None then None else Some (m, d)) \<rparr>))"

definition create_mailbox ::
    "'g rng \<Rightarrow> (bytes \<Rightarrow> bytes) \<Rightarrow> memory_transport \<Rightarrow> 'g \<Rightarrow> u64 \<Rightarrow> u64
      \<Rightarrow> (memory_transport_error + memory_mailbox) \<times> memory_transport \<times> 'g" where
  "create_mailbox rng sha256 t g expires_at now =
     (case checked_sub expires_at now of
        None \<Rightarrow> (Err MemoryRejected, t, g)
      | Some lifetime \<Rightarrow>
        if lifetime = 0 \<or> lifetime > yp_maximum_lifetime (mt_policy t) then (Err MemoryRejected, t, g)
        else if length (filter (memory_live now) (bt_values (mt_mailboxes t)))
                  \<ge> yp_maximum_live_mailboxes (mt_policy t)
        then (Err MemoryCapacityExceeded, t, g)
        else (case memory_random_nonzero rng IDENTIFIER_BYTES g of
            (Inl e, g1) \<Rightarrow> (Err e, t, g1)
          | (Inr mid, g1) \<Rightarrow>
            if bt_get (mt_mailboxes t) mid \<noteq> None then (Err MemoryProviderFailure, t, g1)
            else (case memory_random_nonzero rng CAPABILITY_BYTES g1 of
                (Inl e, g2) \<Rightarrow> (Err e, t, g2)
              | (Inr dsec, g2) \<Rightarrow> (case memory_random_nonzero rng CAPABILITY_BYTES g2 of
                (Inl e, g3) \<Rightarrow> (Err e, t, g3)
              | (Inr rsec, g3) \<Rightarrow> (case memory_random_nonzero rng CAPABILITY_BYTES g3 of
                (Inl e, g4) \<Rightarrow> (Err e, t, g4)
              | (Inr asec, g4) \<Rightarrow>
                (let (r, t') = install_memory_mailbox sha256 t mid dsec rsec asec expires_at now
                 in (r, t', g4)))))))"

definition release_held ::
    "usize \<Rightarrow> u64 \<Rightarrow> memory_transport \<Rightarrow> (memory_transport_error + ident) \<times> memory_transport" where
  "release_held index now t =
     (if index \<ge> length (mt_held t) then (Err MemoryRejected, t)
      else let (mid, did) = mt_held t ! index in
        (case bt_get (mt_mailboxes t) mid of None \<Rightarrow> (Err MemoryRejected, t)
         | Some r \<Rightarrow>
           if mb_expires_at r \<le> now \<or> \<not> delivery_is_live r did now then (Err MemoryRejected, t)
           else (Ok did, set_mailbox mid (r \<lparr> mb_visible := mb_visible r @ [did] \<rparr>)
                   (t \<lparr> mt_held := take index (mt_held t) @ drop (Suc index) (mt_held t) \<rparr>))))"

fun action_slots :: "delivery_action \<Rightarrow> usize" where
  "action_slots Deliver = 1"
| "action_slots Hold = 1"
| "action_slots Duplicate = 2"
| "action_slots DropDelivery = 0"

definition over_scheduled :: "memory_transport \<Rightarrow> ident \<Rightarrow> delivery_action \<Rightarrow> bool" where
  "over_scheduled t mid action \<longleftrightarrow>
     usize_saturating_add (scheduled_count t mid) (action_slots action) > yp_maximum_scheduled (mt_policy t)"

definition show_copies :: "ident list \<Rightarrow> ident \<Rightarrow> memory_transport \<Rightarrow> (memory_transport_error + unit) \<times> memory_transport" where
  "show_copies dids mid t = (case bt_get (mt_mailboxes t) mid of None \<Rightarrow> (Err MemoryRejected, t)
     | Some r \<Rightarrow> (Ok (), set_mailbox mid (r \<lparr> mb_visible := mb_visible r @ dids \<rparr>) t))"

definition schedule ::
    "ident \<Rightarrow> ident \<Rightarrow> delivery_action \<Rightarrow> memory_transport \<Rightarrow> (memory_transport_error + unit) \<times> memory_transport" where
  "schedule mid did action t =
     (if over_scheduled t mid action then (Err MemoryCapacityExceeded, t)
      else case action of
        Deliver \<Rightarrow> show_copies [did] mid t
      | DropDelivery \<Rightarrow> (Ok (), t)
      | Hold \<Rightarrow> (Ok (), t \<lparr> mt_held := mt_held t @ [(mid, did)] \<rparr>)
      | Duplicate \<Rightarrow> show_copies [did, did] mid t)"

section \<open>The synchronous operations\<close>

text \<open>
  The block of \<open>deposit\<close> that chooses the delivery identifier: an early return of the method is
  \<open>Inl\<close> of its result, and otherwise the block gives the identifier and the updated record.
\<close>

definition accept_envelope ::
    "'g rng \<Rightarrow> memory_mailbox_policy \<Rightarrow> memory_mailbox_record \<Rightarrow> 'g \<Rightarrow> opaque_envelope \<Rightarrow> usize \<Rightarrow> bytes
      \<Rightarrow> ((memory_transport_error + ident) + ident \<times> memory_mailbox_record) \<times> 'g" where
  "accept_envelope rng policy r g env encoded_len digest =
     (case bt_get (mb_accepted r) (envelope_id env) of
        Some a \<Rightarrow>
          (if ma_digest a \<noteq> digest then Inl (Err MemoryRejected)
           else if ma_envelope a = None then Inl (Ok (ma_delivery_id a))
           else if ma_attempts a \<ge> yp_maximum_attempts policy then Inl (Err MemoryCapacityExceeded)
           else Inr (ma_delivery_id a, r \<lparr> mb_accepted :=
             bt_update (envelope_id env) (\<lambda>a. a \<lparr> ma_attempts := ma_attempts a + 1 \<rparr>) (mb_accepted r) \<rparr>), g)
      | None \<Rightarrow>
          if length (mb_accepted r) \<ge> yp_maximum_envelopes policy then (Inl (Err MemoryCapacityExceeded), g)
          else if exceeds_retained (live_lens r) encoded_len then (Inl (Err MemoryCapacityExceeded), g)
          else (case memory_random_nonzero rng IDENTIFIER_BYTES g of
              (Inl e, g') \<Rightarrow> (Inl (Err e), g')
            | (Inr bs, g') \<Rightarrow>
              (case DeliveryId_from_provider_bytes bs of
                 None \<Rightarrow> (Inl (Err MemoryProviderFailure), g')
               | Some did \<Rightarrow>
                 if find_accepted r did \<noteq> None then (Inl (Err MemoryProviderFailure), g')
                 else (Inr (did, r \<lparr> mb_accepted := bt_insert (envelope_id env)
                        \<lparr> ma_digest = digest, ma_encoded_len = encoded_len, ma_delivery_id = did,
                          ma_envelope = Some env, ma_attempts = 1 \<rparr> (mb_accepted r) \<rparr>), g'))))"

definition next_action :: "memory_transport \<Rightarrow> delivery_action" where
  "next_action t = (case mt_actions t of [] \<Rightarrow> Deliver | a # _ \<Rightarrow> a)"

definition memory_deposit ::
    "cbor \<Rightarrow> 'g rng \<Rightarrow> (bytes \<Rightarrow> bytes) \<Rightarrow> memory_transport \<Rightarrow> 'g \<Rightarrow> memory_authority \<Rightarrow> opaque_envelope \<Rightarrow> u64
      \<Rightarrow> (memory_transport_error + ident) \<times> memory_transport \<times> 'g" where
  "memory_deposit C rng sha256 t g ep env now =
     (if au_transport_instance_id ep \<noteq> mt_instance_id t \<or> au_expires_at ep \<le> now
         \<or> env_expires_at env \<le> now \<or> env_expires_at env > au_expires_at ep \<or> all_zero (envelope_id env)
      then (Err MemoryRejected, t, g)
      else case OpaqueEnvelope_encode_canonical C env of
        Inl _ \<Rightarrow> (Err MemoryRejected, t, g)
      | Inr encoded \<Rightarrow>
        (case bt_get (mt_mailboxes t) (au_mailbox_id ep) of
           None \<Rightarrow> (Err MemoryRejected, t, g)
         | Some r \<Rightarrow>
           if mb_expires_at r \<noteq> au_expires_at ep
              \<or> \<not> memory_secret_matches sha256 DEPOSIT_DOMAIN (mb_deposit_digest r) (au_secret ep)
           then (Err MemoryRejected, t, g)
           else if over_scheduled t (au_mailbox_id ep) (next_action t) then (Err MemoryCapacityExceeded, t, g)
           else (case accept_envelope rng (mt_policy t) r g env (length encoded)
                        (domain_digest sha256 ENVELOPE_DOMAIN encoded) of
              (Inl result, g') \<Rightarrow> (result, t, g')
            | (Inr (did, r'), g') \<Rightarrow>
              (case schedule (au_mailbox_id ep) did (next_action t)
                      ((set_mailbox (au_mailbox_id ep) r' t) \<lparr> mt_actions := tl (mt_actions t) \<rparr>) of
                 (Inl e, t') \<Rightarrow> (Err e, t', g')
               | (Inr _, t') \<Rightarrow> (Ok did, t', g')))))"

text \<open>
  The loop of \<open>receive\<close>. It has no counter: whether it ends depends on every round taking at least
  one entry off the queue, and \<open>None\<close> is a loop that does not end.
\<close>

partial_function (option) receive_loop ::
    "u64 \<Rightarrow> memory_mailbox_record \<Rightarrow> (received_envelope option \<times> memory_mailbox_record) option" where
  "receive_loop now r =
     (case mb_visible r of
        [] \<Rightarrow> Some (None, r)
      | did # rest \<Rightarrow>
        (case find_accepted r did of
           None \<Rightarrow> receive_loop now (r \<lparr> mb_visible := rest \<rparr>)
         | Some a \<Rightarrow>
           (case ma_envelope a of
              None \<Rightarrow> receive_loop now (r \<lparr> mb_visible := rest \<rparr>)
            | Some env \<Rightarrow>
              if env_expires_at env \<le> now then receive_loop now (forget_delivery did r)
              else Some (Some \<lparr> re_delivery_id = did, re_envelope = env \<rparr>, r))))"

declare receive_loop.simps [code]

definition memory_receive ::
    "(bytes \<Rightarrow> bytes) \<Rightarrow> memory_transport \<Rightarrow> memory_authority \<Rightarrow> u64
      \<Rightarrow> ((memory_transport_error + received_envelope option) \<times> memory_transport) option" where
  "memory_receive sha256 t auth now =
     (if au_transport_instance_id auth \<noteq> mt_instance_id t \<or> au_expires_at auth \<le> now
      then Some (Err MemoryRejected, t)
      else case bt_get (mt_mailboxes t) (au_mailbox_id auth) of
        None \<Rightarrow> Some (Err MemoryRejected, t)
      | Some r \<Rightarrow>
        if mb_expires_at r \<noteq> au_expires_at auth
           \<or> \<not> memory_secret_matches sha256 RECEIVE_DOMAIN (mb_receive_digest r) (au_secret auth)
        then Some (Err MemoryRejected, t)
        else map_option (\<lambda>(found, r'). (Ok found, set_mailbox (au_mailbox_id auth) r' t)) (receive_loop now r))"

definition drop_deliveries :: "ident \<Rightarrow> ident list \<Rightarrow> memory_transport \<Rightarrow> memory_transport" where
  "drop_deliveries mid dids t = t
     \<lparr> mt_held := filter (\<lambda>(m, d). m \<noteq> mid \<or> d \<notin> set dids) (mt_held t),
       mt_stale_replays := filter (\<lambda>s. sr_mailbox_id s \<noteq> mid \<or> sr_delivery_id s \<notin> set dids) (mt_stale_replays t),
       mt_corrupt_next_poll := (case mt_corrupt_next_poll t of None \<Rightarrow> None
          | Some (m, d) \<Rightarrow> if m = mid \<and> d \<in> set dids then None else Some (m, d)) \<rparr>"

definition memory_acknowledge ::
    "(bytes \<Rightarrow> bytes) \<Rightarrow> memory_transport \<Rightarrow> memory_authority \<Rightarrow> ident \<Rightarrow> u64
      \<Rightarrow> (memory_transport_error + unit) \<times> memory_transport" where
  "memory_acknowledge sha256 t auth did now =
     (if au_transport_instance_id auth \<noteq> mt_instance_id t \<or> au_expires_at auth \<le> now
      then (Err MemoryRejected, t)
      else case bt_get (mt_mailboxes t) (au_mailbox_id auth) of
        None \<Rightarrow> (Err MemoryRejected, t)
      | Some r \<Rightarrow>
        if mb_expires_at r \<noteq> au_expires_at auth
           \<or> \<not> memory_secret_matches sha256 ACKNOWLEDGEMENT_DOMAIN (mb_acknowledgement_digest r) (au_secret auth)
        then (Err MemoryRejected, t)
        else if find_accepted r did = None then (Err MemoryRejected, t)
        else (Ok (), drop_deliveries (au_mailbox_id auth) [did]
                (set_mailbox (au_mailbox_id auth) (forget_delivery did r) t)))"

section \<open>The asynchronous operations\<close>

definition memory_authorised ::
    "(bytes \<Rightarrow> bytes) \<Rightarrow> memory_transport \<Rightarrow> memory_authority \<Rightarrow> bytes \<Rightarrow> (memory_mailbox_record \<Rightarrow> bytes) \<Rightarrow> u64
      \<Rightarrow> transport_failure + memory_mailbox_record" where
  "memory_authorised sha256 t auth domain digest_of now =
     and_then (ok_or (memory_transport_failure InvalidAuthority) (bt_get (mt_mailboxes t) (au_mailbox_id auth))) (\<lambda>r.
     if au_transport_instance_id auth \<noteq> mt_instance_id t \<or> au_expires_at auth \<le> now
        \<or> mb_expires_at r \<noteq> au_expires_at auth
        \<or> \<not> memory_secret_matches sha256 domain (digest_of r) (au_secret auth)
     then Err (memory_transport_failure InvalidAuthority) else Ok r)"

text \<open>
  A control is the sequence of readings the operation makes, so an operation returns what is left
  of it. The state of the transport is paired with the generator that \<open>deposit\<close> draws from.
\<close>

definition dispatch_deposit ::
    "cbor \<Rightarrow> 'g rng \<Rightarrow> (bytes \<Rightarrow> bytes) \<Rightarrow> memory_transport \<times> 'g \<Rightarrow> memory_authority \<Rightarrow> deposit_request \<Rightarrow> control
      \<Rightarrow> (transport_failure + ident) \<times> (memory_transport \<times> 'g) \<times> control" where
  "dispatch_deposit C rng sha256 tg ep request ctl =
     (let budget = dr_budget request; canonical = dr_envelope request; t = fst tg; ctl1 = after_reading ctl in
      case checkpoint ctl budget of
        Inl f \<Rightarrow> (Err f, tg, ctl1)
      | Inr obs \<Rightarrow>
        if mt_availability t = MemoryUnavailable then (Err (memory_transport_failure Unavailable), tg, ctl1)
        else if ce_expires_at canonical \<le> do_wall_now obs \<or> ce_expires_at canonical > au_expires_at ep
        then (Err (memory_transport_failure ExpiredEnvelope), tg, ctl1)
        else (case memory_authorised sha256 t ep DEPOSIT_DOMAIN mb_deposit_digest (do_wall_now obs) of
           Inl f \<Rightarrow> (Err f, tg, ctl1)
         | Inr r \<Rightarrow>
           if (case bt_get (mb_accepted r) (ce_envelope_id canonical) of None \<Rightarrow> False
               | Some a \<Rightarrow> ma_digest a \<noteq> domain_digest sha256 ENVELOPE_DOMAIN (ce_bytes canonical))
           then (Err (memory_transport_failure IdempotencyConflict), tg, ctl1)
           else (case OpaqueEnvelope_decode_canonical C (ce_bytes canonical) of
              Inl _ \<Rightarrow> (Err (memory_transport_failure CorruptRemoteResponse), tg, ctl1)
            | Inr env \<Rightarrow>
              (case memory_deposit C rng sha256 t (snd tg) ep env (do_wall_now obs) of
                 (Inl e, t', g') \<Rightarrow> (Err (map_memory_failure e), (t', g'), ctl1)
               | (Inr did, t', g') \<Rightarrow>
                 (case checkpoint ctl1 budget of
                    Inl f \<Rightarrow> (Err f, (t', g'), after_reading ctl1)
                  | Inr _ \<Rightarrow> (Ok did, (t', g'), after_reading ctl1))))))"

text \<open>
  The two loops of \<open>poll\<close>. The first carries the items, the expired identifiers and the encoded
  length; the second the items and the length. Both stop at the first item that does not fit.
\<close>

fun poll_visible ::
    "cbor \<Rightarrow> memory_mailbox_record \<Rightarrow> u64 \<Rightarrow> u32 \<Rightarrow> ident list
      \<Rightarrow> received_canonical_envelope list \<Rightarrow> ident list \<Rightarrow> usize
      \<Rightarrow> transport_failure + received_canonical_envelope list \<times> ident list \<times> usize" where
  "poll_visible C r now max_bytes [] items expired encoded = Ok (items, expired, encoded)"
| "poll_visible C r now max_bytes (did # dids) items expired encoded =
     (case find_accepted r did of
        None \<Rightarrow> poll_visible C r now max_bytes dids items expired encoded
      | Some a \<Rightarrow>
        (case ma_envelope a of
           None \<Rightarrow> poll_visible C r now max_bytes dids items expired encoded
         | Some env \<Rightarrow>
           if did \<in> rc_delivery_id ` set items then poll_visible C r now max_bytes dids items expired encoded
           else if env_expires_at env \<le> now
           then poll_visible C r now max_bytes dids items (expired @ [did]) encoded
           else (case CanonicalEnvelope_from_opaque C env of
              Inl _ \<Rightarrow> Err (memory_transport_failure CorruptRemoteResponse)
            | Inr ce \<Rightarrow>
              let encoded' = encoded + length (ce_bytes ce) in
              if encoded' \<ge> 2 ^ 64 then Err (memory_transport_failure EnvelopeTooLarge)
              else if encoded' > unat max_bytes then
                (if items = [] then Err (memory_transport_failure EnvelopeTooLarge) else Ok (items, expired, encoded))
              else poll_visible C r now max_bytes dids
                     (items @ [\<lparr> rc_delivery_id = did, rc_envelope = ce \<rparr>]) expired encoded')))"

fun poll_stale ::
    "cbor \<Rightarrow> ident \<Rightarrow> u64 \<Rightarrow> u16 \<Rightarrow> u32 \<Rightarrow> stale_replay list \<Rightarrow> received_canonical_envelope list \<Rightarrow> usize
      \<Rightarrow> transport_failure + received_canonical_envelope list" where
  "poll_stale C mid now max_envelopes max_bytes [] items encoded = Ok items"
| "poll_stale C mid now max_envelopes max_bytes (s # replays) items encoded =
     (if sr_mailbox_id s \<noteq> mid then poll_stale C mid now max_envelopes max_bytes replays items encoded
      else if length items \<ge> unat max_envelopes then Ok items
      else if env_expires_at (sr_envelope s) \<le> now
      then poll_stale C mid now max_envelopes max_bytes replays items encoded
      else (case CanonicalEnvelope_from_opaque C (sr_envelope s) of
         Inl _ \<Rightarrow> Err (memory_transport_failure CorruptRemoteResponse)
       | Inr ce \<Rightarrow>
         (case find (\<lambda>i. rc_delivery_id i = sr_delivery_id s) items of
            Some existing \<Rightarrow>
              if ce_bytes (rc_envelope existing) \<noteq> ce_bytes ce
              then Err (memory_transport_failure CorruptRemoteResponse)
              else poll_stale C mid now max_envelopes max_bytes replays items encoded
          | None \<Rightarrow>
            let encoded' = encoded + length (ce_bytes ce) in
            if encoded' \<ge> 2 ^ 64 then Err (memory_transport_failure EnvelopeTooLarge)
            else if encoded' > unat max_bytes then
              (if items = [] then Err (memory_transport_failure EnvelopeTooLarge) else Ok items)
            else poll_stale C mid now max_envelopes max_bytes replays
                   (items @ [\<lparr> rc_delivery_id = sr_delivery_id s, rc_envelope = ce \<rparr>]) encoded')))"

definition corrupt_target_is_visible :: "memory_transport \<Rightarrow> ident \<Rightarrow> memory_mailbox_record \<Rightarrow> bool" where
  "corrupt_target_is_visible t mid r = (case mt_corrupt_next_poll t of None \<Rightarrow> False
     | Some (m, d) \<Rightarrow> m = mid \<and> (d \<in> set (mb_visible r) \<or> has_replay t mid d))"

definition poll_items ::
    "cbor \<Rightarrow> memory_transport \<Rightarrow> ident \<Rightarrow> memory_mailbox_record \<Rightarrow> u64 \<Rightarrow> 'b poll_request
      \<Rightarrow> transport_failure + received_canonical_envelope list \<times> ident list" where
  "poll_items C t mid r now request =
     and_then (poll_visible C r now (pr_max_encoded_bytes request)
         (take (unat (pr_max_envelopes request)) (mb_visible r)) [] [] 0) (\<lambda>(items, expired, encoded).
     and_then (if length items < unat (pr_max_envelopes request)
         then poll_stale C mid now (pr_max_envelopes request) (pr_max_encoded_bytes request)
                (mt_stale_replays t) items encoded
         else Ok items) (\<lambda>items. Ok (items, expired)))"

text \<open>What \<open>poll\<close> does to the mailbox once its batch is built.\<close>

definition settle_poll :: "memory_transport \<Rightarrow> ident \<Rightarrow> memory_mailbox_record \<Rightarrow> ident list \<Rightarrow> u64 \<Rightarrow> memory_transport" where
  "settle_poll t mid r expired now =
     (let accepted = fold clear_accepted expired (mb_accepted r); r1 = r \<lparr> mb_accepted := accepted \<rparr>;
          r2 = r1 \<lparr> mb_visible := filter (\<lambda>d. delivery_is_live r1 d now) (mb_visible r) \<rparr> in
      (set_mailbox mid r2 t)
        \<lparr> mt_corrupt_next_poll := (case mt_corrupt_next_poll t of None \<Rightarrow> None
            | Some (m, d) \<Rightarrow> if m = mid \<and> d \<in> set expired then None else Some (m, d)),
          mt_stale_replays := filter (\<lambda>s. sr_mailbox_id s \<noteq> mid \<or> env_expires_at (sr_envelope s) > now)
            (mt_stale_replays t) \<rparr>)"

definition dispatch_poll ::
    "cbor \<Rightarrow> (bytes \<Rightarrow> bytes) \<Rightarrow> memory_transport \<Rightarrow> memory_authority \<Rightarrow> 'b poll_request \<Rightarrow> control
      \<Rightarrow> (transport_failure + 'b receive_batch) \<times> memory_transport \<times> control" where
  "dispatch_poll C sha256 t auth request ctl =
     (let ctl1 = after_reading ctl; mid = au_mailbox_id auth in
      case checkpoint ctl (pr_budget request) of
        Inl f \<Rightarrow> (Err f, t, ctl1)
      | Inr obs \<Rightarrow>
        if pr_receive_binding request \<noteq> None
        then (Err (memory_transport_failure AuthorityScopeMismatch), t, ctl1)
        else if mt_availability t = MemoryUnavailable then (Err (memory_transport_failure Unavailable), t, ctl1)
        else (case memory_authorised sha256 t auth RECEIVE_DOMAIN mb_receive_digest (do_wall_now obs) of
           Inl f \<Rightarrow> (Err f, t, ctl1)
         | Inr r \<Rightarrow>
           if pr_cursor request \<noteq> None then (Err (memory_transport_failure FailInvalidCursor), t, ctl1)
           else if corrupt_target_is_visible t mid r
           then (Err (memory_transport_failure CorruptRemoteResponse), t \<lparr> mt_corrupt_next_poll := None \<rparr>, ctl1)
           else (case poll_items C t mid r (do_wall_now obs) request of
              Inl f \<Rightarrow> (Err f, t, ctl1)
            | Inr (items, expired) \<Rightarrow>
              (case checkpoint ctl1 (pr_budget request) of
                 Inl f \<Rightarrow> (Err f, t, after_reading ctl1)
               | Inr obs' \<Rightarrow>
                 let now' = max (do_wall_now obs) (do_wall_now obs');
                     live = filter (\<lambda>i. \<not> ce_expires_at (rc_envelope i) \<le> now') items;
                     gone = map rc_delivery_id (filter (\<lambda>i. ce_expires_at (rc_envelope i) \<le> now') items) in
                 (case ReceiveBatch_new live None request now' of
                    Inl _ \<Rightarrow> (Err (memory_transport_failure CorruptRemoteResponse), t, after_reading ctl1)
                  | Inr batch \<Rightarrow> (Ok batch, settle_poll t mid r (expired @ gone) now', after_reading ctl1))))))"

definition memory_acknowledge_ids ::
    "ident \<Rightarrow> memory_mailbox_record \<Rightarrow> ident list \<Rightarrow> memory_transport \<Rightarrow> memory_transport" where
  "memory_acknowledge_ids mid r dids t =
     drop_deliveries mid dids (set_mailbox mid (fold forget_delivery dids r) t)"

definition dispatch_acknowledge ::
    "(bytes \<Rightarrow> bytes) \<Rightarrow> memory_transport \<Rightarrow> memory_authority \<Rightarrow> ident list \<Rightarrow> operation_budget \<Rightarrow> control
      \<Rightarrow> (transport_failure + unit) \<times> memory_transport \<times> control" where
  "dispatch_acknowledge sha256 t auth dids budget ctl =
     (let ctl1 = after_reading ctl; mid = au_mailbox_id auth;
          authorised = memory_authorised sha256 t auth ACKNOWLEDGEMENT_DOMAIN mb_acknowledgement_digest in
      case checkpoint ctl budget of
        Inl f \<Rightarrow> (Err f, t, ctl1)
      | Inr obs \<Rightarrow>
        if mt_availability t = MemoryUnavailable then (Err (memory_transport_failure Unavailable), t, ctl1)
        else (case authorised (do_wall_now obs) of
           Inl f \<Rightarrow> (Err f, t, ctl1)
         | Inr _ \<Rightarrow>
           (case checkpoint ctl1 budget of
              Inl f \<Rightarrow> (Err f, t, after_reading ctl1)
            | Inr obs' \<Rightarrow>
              (case authorised (max (do_wall_now obs) (do_wall_now obs')) of
                 Inl f \<Rightarrow> (Err f, t, after_reading ctl1)
               | Inr r \<Rightarrow>
                 let loss = mt_acknowledgement_loss t; t1 = t \<lparr> mt_acknowledgement_loss := None \<rparr> in
                 if loss = Some BeforeCommit
                 then (Err (memory_transport_failure Unavailable), t1, after_reading ctl1)
                 else (if loss = Some AfterCommit then Err (memory_transport_failure Unavailable) else Ok (),
                       memory_acknowledge_ids mid r dids t1, after_reading ctl1)))))"

end
