(* ===== verification/Memory_Invariants.thy ===== *)
theory Memory_Invariants
  imports Memory_Transport "HOL-Library.Multiset"
begin

text \<open>
  The invariant of the memory transport and that every operation keeps it: the bounds of its policy
  on mailboxes, envelopes, attempts, scheduled copies, queued faults and retained bytes, and the
  delivery identifiers of a mailbox being distinct. The last section follows one acknowledged
  delivery through the operations.
\<close>

section \<open>Accepted envelopes\<close>

lemma clear_accepted_keys: "map fst (clear_accepted did m) = map fst m"
  by (induction did m rule: clear_accepted.induct) auto

lemma clear_accepted_ids:
  "map ma_delivery_id (bt_values (clear_accepted did m)) = map ma_delivery_id (bt_values m)"
  by (induction did m rule: clear_accepted.induct) (auto simp: bt_values_def)

lemma clear_accepted_attempts:
  "map ma_attempts (bt_values (clear_accepted did m)) = map ma_attempts (bt_values m)"
  by (induction did m rule: clear_accepted.induct) (auto simp: bt_values_def)

lemma clear_accepted_length: "length (clear_accepted did m) = length m"
  by (metis clear_accepted_keys length_map)

lemma clear_accepted_wf: "bt_wf (clear_accepted did m) \<longleftrightarrow> bt_wf m"
  by (simp add: bt_wf_def clear_accepted_keys)

lemma clear_accepted_lens:
  "sum_list (map ma_encoded_len (filter (\<lambda>a. ma_envelope a \<noteq> None) (bt_values (clear_accepted did m))))
     \<le> sum_list (map ma_encoded_len (filter (\<lambda>a. ma_envelope a \<noteq> None) (bt_values m)))"
  by (induction did m rule: clear_accepted.induct) (auto simp: bt_values_def)

lemma find_clear_accepted:
  "find (\<lambda>a. ma_delivery_id a = d) (bt_values (clear_accepted did m)) =
     map_option (\<lambda>a. if d = did then a \<lparr> ma_envelope := None \<rparr> else a)
       (find (\<lambda>a. ma_delivery_id a = d) (bt_values m))"
  by (induction did m rule: clear_accepted.induct) (auto simp: bt_values_def option.map_ident)

lemma clear_accepted_idem: "clear_accepted did (clear_accepted did m) = clear_accepted did m"
  by (induction did m rule: clear_accepted.induct) auto

lemma clear_accepted_commute:
  "clear_accepted d (clear_accepted d' m) = clear_accepted d' (clear_accepted d m)"
  by (induction d' m rule: clear_accepted.induct) auto

lemma forget_idem: "forget_delivery did (forget_delivery did r) = forget_delivery did r"
  by (simp add: forget_delivery_def clear_accepted_idem)

lemma forget_commute: "forget_delivery d (forget_delivery d' r) = forget_delivery d' (forget_delivery d r)"
  by (simp add: forget_delivery_def clear_accepted_commute conj_commute)

lemma find_forget:
  "find_accepted (forget_delivery did r) d =
     map_option (\<lambda>a. if d = did then a \<lparr> ma_envelope := None \<rparr> else a) (find_accepted r d)"
  by (simp add: find_accepted_def forget_delivery_def find_clear_accepted)

text \<open>Forgetting a set of deliveries a second time changes nothing.\<close>

lemma fold_forget_settled:
  assumes "\<forall>d \<in> set ds. forget_delivery d r = r"
  shows "fold forget_delivery ds r = r"
  using assms by (induction ds) auto

lemma forget_fold_commute:
  "forget_delivery d (fold forget_delivery ds r) = fold forget_delivery ds (forget_delivery d r)"
  by (induction ds arbitrary: r) (simp_all add: forget_commute)

lemma fold_forget_forgets: "d \<in> set ds \<Longrightarrow> forget_delivery d (fold forget_delivery ds r) = fold forget_delivery ds r"
proof (induction ds arbitrary: r)
  case (Cons x ds)
  then show ?case by (cases "d = x") (simp_all add: forget_fold_commute forget_idem)
qed simp

lemma fold_forget_idem: "fold forget_delivery ds (fold forget_delivery ds r) = fold forget_delivery ds r"
  by (rule fold_forget_settled) (simp add: fold_forget_forgets)

lemma insert_values:
  "bt_get m k = None \<Longrightarrow> mset (bt_values (bt_insert k v m)) = add_mset v (mset (bt_values m))"
  by (induction k v m rule: bt_insert.induct) (auto simp: bt_get_def bt_values_def split: if_splits)

lemma find_accepted_iff:
  assumes "distinct (map ma_delivery_id (bt_values (mb_accepted r)))"
  shows "find_accepted r d = Some a \<longleftrightarrow> a \<in> set (bt_values (mb_accepted r)) \<and> ma_delivery_id a = d"
proof -
  have "distinct (map ma_delivery_id as) \<Longrightarrow>
      find (\<lambda>a. ma_delivery_id a = d) as = Some a \<longleftrightarrow> a \<in> set as \<and> ma_delivery_id a = d" for as
    by (induction as) (auto simp: rev_image_eqI)
  from this [OF assms] show ?thesis by (simp add: find_accepted_def)
qed

lemma find_accepted_None:
  "find_accepted r d = None \<longleftrightarrow> d \<notin> ma_delivery_id ` set (bt_values (mb_accepted r))"
  by (auto simp: find_accepted_def find_None_iff)

section \<open>The invariant\<close>

definition memory_record_ok :: "memory_mailbox_policy \<Rightarrow> memory_mailbox_record \<Rightarrow> bool" where
  "memory_record_ok p r \<longleftrightarrow> bt_wf (mb_accepted r) \<and> length (mb_accepted r) \<le> yp_maximum_envelopes p
     \<and> distinct (map ma_delivery_id (bt_values (mb_accepted r)))
     \<and> list_all (\<lambda>n. n \<le> yp_maximum_attempts p) (map ma_attempts (bt_values (mb_accepted r)))
     \<and> sum_list (live_lens r) \<le> MAX_MEMORY_RETAINED_CANONICAL_BYTES_PER_MAILBOX"

definition held_count :: "memory_transport \<Rightarrow> ident \<Rightarrow> nat" where
  "held_count t mid = length (filter (\<lambda>h. fst h = mid) (mt_held t))"

definition replays_ok :: "memory_mailbox_policy \<Rightarrow> stale_replay list \<Rightarrow> bool" where
  "replays_ok p replays \<longleftrightarrow> (\<forall>mid. let mine = filter (\<lambda>s. sr_mailbox_id s = mid) replays in
     length mine \<le> yp_maximum_scheduled p
     \<and> sum_list (map sr_encoded_len mine) \<le> MAX_MEMORY_RETAINED_CANONICAL_BYTES_PER_MAILBOX)"

definition mailboxes_ok :: "memory_transport \<Rightarrow> bool" where
  "mailboxes_ok t \<longleftrightarrow> (\<forall>mid r. bt_get (mt_mailboxes t) mid = Some r \<longrightarrow> memory_record_ok (mt_policy t) r
     \<and> length (mb_visible r) + held_count t mid \<le> yp_maximum_scheduled (mt_policy t))"

definition memory_inv :: "memory_transport \<Rightarrow> bool" where
  "memory_inv t \<longleftrightarrow> bt_wf (mt_mailboxes t)
     \<and> length (mt_mailboxes t) \<le> yp_maximum_live_mailboxes (mt_policy t)
     \<and> mailboxes_ok t \<and> (\<forall>h \<in> set (mt_held t). bt_get (mt_mailboxes t) (fst h) \<noteq> None)
     \<and> replays_ok (mt_policy t) (mt_stale_replays t)
     \<and> (\<forall>s \<in> set (mt_stale_replays t). bt_get (mt_mailboxes t) (sr_mailbox_id s) \<noteq> None)
     \<and> length (mt_actions t) \<le> yp_maximum_attempts (mt_policy t)
     \<and> 0 < yp_maximum_attempts (mt_policy t) \<and> yp_maximum_scheduled (mt_policy t) < 2 ^ 64 - 1"

lemmas memory_inv_defs = memory_inv_def mailboxes_ok_def held_count_def

lemma scheduled_count_held: "bt_get (mt_mailboxes t) mid = Some r \<Longrightarrow>
    scheduled_count t mid = length (mb_visible r) + held_count t mid"
  by (simp add: scheduled_count_def held_count_def)

lemma policy_scheduled:
  assumes "MemoryMailboxPolicy_new a b c d = Inr p"
  shows "0 < yp_maximum_attempts p \<and> yp_maximum_scheduled p < 2 ^ 64 - 1"
proof -
  have "c \<le> 64" "d \<le> 64" and p: "0 < yp_maximum_attempts p" "yp_maximum_scheduled p = c * d * 2"
    using assms by (auto simp: MemoryMailboxPolicy_new_def MAX_MEMORY_ENVELOPES_PER_MAILBOX_def
        MAX_MEMORY_DELIVERY_ATTEMPTS_PER_ENVELOPE_def split: if_splits)
  then have "c * d \<le> 64 * 64" by (intro mult_le_mono)
  with p show ?thesis by simp
qed

lemma new_inv:
  "MemoryMailboxPolicy_new a b c d = Inr p \<Longrightarrow> DeterministicMemoryTransport_new rng p g = (Inr t, g')
     \<Longrightarrow> memory_inv t"
  using policy_scheduled [of a b c d p]
  by (simp add: DeterministicMemoryTransport_new_def memory_inv_defs replays_ok_def Let_def bt_wf_simps bt_get_simps
      split: sum.splits prod.splits) (auto simp: bt_wf_simps bt_get_simps)

section \<open>What a record and the queues may become\<close>

lemma forget_ok: "memory_record_ok p r \<Longrightarrow> memory_record_ok p (forget_delivery did r)"
  using clear_accepted_lens [of did "mb_accepted r"]
  by (auto simp: memory_record_ok_def forget_delivery_def clear_accepted_wf clear_accepted_length clear_accepted_ids
      clear_accepted_attempts live_lens_def)

lemma fold_clear_ok: "memory_record_ok p r \<Longrightarrow> memory_record_ok p (r \<lparr> mb_accepted := fold clear_accepted ds (mb_accepted r) \<rparr>)"
proof (induction ds arbitrary: r)
  case (Cons d ds)
  have "memory_record_ok p (r \<lparr> mb_accepted := clear_accepted d (mb_accepted r) \<rparr>)"
    using forget_ok [OF Cons.prems, of d] by (simp add: memory_record_ok_def forget_delivery_def live_lens_def)
  from Cons.IH [OF this] show ?case by simp
qed simp

lemma memory_record_ok_visible [simp]: "memory_record_ok p (r \<lparr> mb_visible := v \<rparr>) \<longleftrightarrow> memory_record_ok p r"
  by (simp add: memory_record_ok_def live_lens_def)

lemma forget_visible: "length (mb_visible (forget_delivery did r)) \<le> length (mb_visible r)"
  by (simp add: forget_delivery_def)

lemma fold_forget_ok: "memory_record_ok p r \<Longrightarrow> memory_record_ok p (fold forget_delivery ds r)
    \<and> length (mb_visible (fold forget_delivery ds r)) \<le> length (mb_visible r)"
proof (induction ds arbitrary: r)
  case (Cons d ds)
  show ?case using Cons.IH [OF forget_ok [OF Cons.prems, of d]] forget_visible [of d r] by auto
qed simp

lemma replays_ok_filter: "replays_ok p ss \<Longrightarrow> replays_ok p (filter P ss)"
proof -
  assume ok: "replays_ok p ss"
  have len: "length (filter Q (filter P ss)) \<le> length (filter Q ss)" for Q
    by (induction ss) auto
  have "sum_list (map sr_encoded_len (filter Q (filter P ss))) \<le> sum_list (map sr_encoded_len (filter Q ss))" for Q
    by (induction ss) auto
  then show ?thesis using ok len unfolding replays_ok_def Let_def by (meson le_trans)
qed

lemma set_mailbox_simps [simp]:
  "mt_policy (set_mailbox mid r t) = mt_policy t" "mt_held (set_mailbox mid r t) = mt_held t"
  "mt_actions (set_mailbox mid r t) = mt_actions t" "mt_stale_replays (set_mailbox mid r t) = mt_stale_replays t"
  "mt_instance_id (set_mailbox mid r t) = mt_instance_id t" "mt_availability (set_mailbox mid r t) = mt_availability t"
  "mt_corrupt_next_poll (set_mailbox mid r t) = mt_corrupt_next_poll t"
  "mt_acknowledgement_loss (set_mailbox mid r t) = mt_acknowledgement_loss t"
  by (simp_all add: set_mailbox_def)

lemma get_set_mailbox:
  "bt_get (mt_mailboxes (set_mailbox mid r t)) m =
     (if m = mid then map_option (\<lambda>_. r) (bt_get (mt_mailboxes t) m) else bt_get (mt_mailboxes t) m)"
  by (simp add: set_mailbox_def bt_get_update)

lemma held_count_set [simp]: "held_count (set_mailbox mid r t) m = held_count t m"
  by (simp add: held_count_def)

lemma set_mailbox_length: "length (mt_mailboxes (set_mailbox mid r t)) = length (mt_mailboxes t)"
  by (metis (no_types, lifting) bt_keys_update length_map memory_transport.select_convs(3)
      memory_transport.surjective memory_transport.update_convs(3) set_mailbox_def)

lemma set_mailbox_inv:
  assumes "memory_inv t" and "bt_get (mt_mailboxes t) mid = Some r"
    and "memory_record_ok (mt_policy t) r'"
    and "length (mb_visible r') + held_count t mid \<le> yp_maximum_scheduled (mt_policy t)"
  shows "memory_inv (set_mailbox mid r' t)"
proof -
  have "bt_wf (mt_mailboxes (set_mailbox mid r' t))"
    using assms(1) by (simp add: set_mailbox_def bt_wf_update memory_inv_def)
  moreover have "mailboxes_ok (set_mailbox mid r' t)"
    using assms by (auto simp: mailboxes_ok_def memory_inv_def get_set_mailbox split: if_splits)
  moreover have "\<forall>h \<in> set (mt_held t). bt_get (mt_mailboxes (set_mailbox mid r' t)) (fst h) \<noteq> None"
    using assms(1,2) by (auto simp: memory_inv_def get_set_mailbox)
  moreover have "\<forall>s \<in> set (mt_stale_replays t). bt_get (mt_mailboxes (set_mailbox mid r' t)) (sr_mailbox_id s) \<noteq> None"
    using assms(1,2) by (auto simp: memory_inv_def get_set_mailbox)
  ultimately show ?thesis
    using assms(1) by (simp add: memory_inv_def set_mailbox_length)
qed

lemma visible_bound:
  assumes "memory_inv t" and "bt_get (mt_mailboxes t) mid = Some r"
  shows "memory_record_ok (mt_policy t) r \<and> length (mb_visible r) + held_count t mid \<le> yp_maximum_scheduled (mt_policy t)"
  using assms by (simp add: memory_inv_def mailboxes_ok_def)

lemma shrink_inv:
  assumes "memory_inv t" and "bt_get (mt_mailboxes t) mid = Some r"
    and "memory_record_ok (mt_policy t) r \<Longrightarrow> memory_record_ok (mt_policy t) r'" and "length (mb_visible r') \<le> length (mb_visible r)"
  shows "memory_inv (set_mailbox mid r' t)"
  using set_mailbox_inv [OF assms(1,2), of r'] visible_bound [OF assms(1,2)] assms(3,4) by simp

text \<open>The queue of held copies only loses entries, the replays name mailboxes, and the flags are free.\<close>

lemma trim_inv:
  assumes "memory_inv t" and "\<And>h. h \<in> set (mt_held t') \<Longrightarrow> h \<in> set (mt_held t)"
    and "\<And>mid. held_count t' mid \<le> held_count t mid" and "mt_mailboxes t' = mt_mailboxes t"
    and "mt_policy t' = mt_policy t" and "replays_ok (mt_policy t) (mt_stale_replays t')"
    and "length (mt_actions t') \<le> length (mt_actions t)"
    and "\<And>s. s \<in> set (mt_stale_replays t') \<Longrightarrow> bt_get (mt_mailboxes t) (sr_mailbox_id s) \<noteq> None"
  shows "memory_inv t'"
proof -
  have "mailboxes_ok t'"
    using assms(1,3) unfolding mailboxes_ok_def memory_inv_def assms(4,5) by (meson add_le_cancel_left le_trans)
  then show ?thesis using assms by (auto simp: memory_inv_def)
qed

lemma filter_filter_length: "length (filter P (filter Q xs)) \<le> length (filter P xs)"
  by (induction xs) auto

lemma drop_deliveries_inv:
  assumes "memory_inv t"
  shows "memory_inv (drop_deliveries mid ds t)"
proof (rule trim_inv [OF assms])
  show "held_count (drop_deliveries mid ds t) m \<le> held_count t m" for m
    unfolding drop_deliveries_def held_count_def by (simp add: filter_filter_length del: filter_filter)
  show "replays_ok (mt_policy t) (mt_stale_replays (drop_deliveries mid ds t))"
    using assms by (simp add: drop_deliveries_def memory_inv_def replays_ok_filter)
qed (use assms in \<open>auto simp: drop_deliveries_def memory_inv_def\<close>)

section \<open>Deposits\<close>

lemma exceeds_retained_iff:
  "exceeds_retained ns n \<longleftrightarrow> sum_list ns + n > MAX_MEMORY_RETAINED_CANONICAL_BYTES_PER_MAILBOX"
  by (auto simp: exceeds_retained_def checked_sum_def MAX_MEMORY_RETAINED_CANONICAL_BYTES_PER_MAILBOX_def)

lemma update_attempts:
  assumes "bt_wf m" and "bt_get m k = Some a" and "ma_attempts a < n"
    and "list_all (\<lambda>j. j \<le> n) (map ma_attempts (bt_values m))"
  shows "list_all (\<lambda>j. j \<le> n)
    (map ma_attempts (bt_values (bt_update k (\<lambda>a. a \<lparr> ma_attempts := ma_attempts a + 1 \<rparr>) m)))"
proof -
  have "snd e = a" if "e \<in> set m" "fst e = k" for e
    using that assms(1,2) by (metis bt_get_mem option.inject prod.collapse)
  then show ?thesis
    using assms(3,4) by (auto simp: bt_update_def bt_values_def list_all_iff split: prod.splits)
qed

lemma update_values:
  "(\<And>a. g (f a) = g a) \<Longrightarrow> map g (bt_values (bt_update k f m)) = map g (bt_values m)"
  by (induction m) (auto simp: bt_update_def bt_values_def)

lemma update_live_lens:
  "live_lens (r \<lparr> mb_accepted := bt_update k (\<lambda>a. a \<lparr> ma_attempts := ma_attempts a + 1 \<rparr>) (mb_accepted r) \<rparr>)
     = live_lens r"
proof -
  have "map ma_encoded_len (filter (\<lambda>a. ma_envelope a \<noteq> None)
      (bt_values (bt_update k (\<lambda>a. a \<lparr> ma_attempts := ma_attempts a + 1 \<rparr>) m))) =
    map ma_encoded_len (filter (\<lambda>a. ma_envelope a \<noteq> None) (bt_values m))" for m
    by (induction m) (auto simp: bt_update_def bt_values_def split: if_splits)
  then show ?thesis by (simp add: live_lens_def)
qed

lemma insert_accepted_ok:
  assumes ok: "memory_record_ok p r" and new: "bt_get (mb_accepted r) k = None"
    and room: "length (mb_accepted r) < yp_maximum_envelopes p"
    and bytes: "\<not> exceeds_retained (live_lens r) (ma_encoded_len a)"
    and fresh: "find_accepted r (ma_delivery_id a) = None"
    and att: "ma_attempts a \<le> yp_maximum_attempts p" and live: "ma_envelope a \<noteq> None"
  shows "memory_record_ok p (r \<lparr> mb_accepted := bt_insert k a (mb_accepted r) \<rparr>)"
proof -
  let ?m = "mb_accepted r" and ?m' = "bt_insert k a (mb_accepted r)"
  note vals = insert_values [OF new, of a]
  have "mset (map ma_delivery_id (bt_values ?m')) = mset (map ma_delivery_id (a # bt_values ?m))"
    by (simp add: vals)
  then have "distinct (map ma_delivery_id (bt_values ?m')) \<longleftrightarrow> distinct (map ma_delivery_id (a # bt_values ?m))"
    by (rule mset_eq_imp_distinct_iff)
  then have "distinct (map ma_delivery_id (bt_values ?m'))"
    using ok fresh by (simp add: memory_record_ok_def find_accepted_None)
  moreover have "set (bt_values ?m') = insert a (set (bt_values ?m))"
    using arg_cong [OF vals, of set_mset] by simp
  then have "list_all (\<lambda>n. n \<le> yp_maximum_attempts p) (map ma_attempts (bt_values ?m'))"
    using ok att by (simp add: memory_record_ok_def list_all_iff)
  moreover have "mset (live_lens (r \<lparr> mb_accepted := ?m' \<rparr>)) = add_mset (ma_encoded_len a) (mset (live_lens r))"
    using live by (simp add: live_lens_def vals)
  then have "sum_list (live_lens (r \<lparr> mb_accepted := ?m' \<rparr>)) = ma_encoded_len a + sum_list (live_lens r)"
    by (metis sum_mset.add_mset sum_mset_sum_list)
  moreover have "length ?m' \<le> yp_maximum_envelopes p"
    using room by (simp add: bt_insert_length_new new)
  ultimately show ?thesis
    using ok bytes by (simp add: memory_record_ok_def bt_wf_insert exceeds_retained_iff)
qed

lemma accept_envelope_ok:
  assumes acc: "accept_envelope rng p r g env n digest = (Inr (did, r'), g')" and ok: "memory_record_ok p r"
    and p: "0 < yp_maximum_attempts p"
  shows "memory_record_ok p r' \<and> mb_visible r' = mb_visible r"
proof (cases "bt_get (mb_accepted r) (envelope_id env)")
  case None
  obtain bs g1 where draw: "memory_random_nonzero rng IDENTIFIER_BYTES g = (Inr bs, g1)"
    and room: "length (mb_accepted r) < yp_maximum_envelopes p"
    and bytes: "\<not> exceeds_retained (live_lens r) n"
    using acc None by (auto simp: accept_envelope_def split: if_splits sum.splits prod.splits)
  have "find_accepted r did = None" and r': "r' = r \<lparr> mb_accepted := bt_insert (envelope_id env)
      \<lparr> ma_digest = digest, ma_encoded_len = n, ma_delivery_id = did, ma_envelope = Some env, ma_attempts = 1 \<rparr>
      (mb_accepted r) \<rparr>"
    using acc None draw room bytes by (auto simp: accept_envelope_def split: if_splits option.splits)
  with insert_accepted_ok [OF ok None room, of "\<lparr> ma_digest = digest, ma_encoded_len = n, ma_delivery_id = did,
      ma_envelope = Some env, ma_attempts = 1 \<rparr>"] bytes p
  show ?thesis by simp
next
  case (Some a)
  have att: "ma_attempts a < yp_maximum_attempts p" and r': "r' = r \<lparr> mb_accepted :=
      bt_update (envelope_id env) (\<lambda>a. a \<lparr> ma_attempts := ma_attempts a + 1 \<rparr>) (mb_accepted r) \<rparr>"
    using acc Some by (auto simp: accept_envelope_def split: if_splits)
  show ?thesis
    using ok update_attempts [OF _ Some att] unfolding r' memory_record_ok_def
    by (simp only: update_live_lens) (simp add: bt_wf_update bt_update_length update_values)
qed

lemma over_scheduled_iff:
  assumes "yp_maximum_scheduled (mt_policy t) < 2 ^ 64 - 1"
  shows "over_scheduled t mid action \<longleftrightarrow> scheduled_count t mid + action_slots action > yp_maximum_scheduled (mt_policy t)"
  using assms by (auto simp: over_scheduled_def usize_saturating_add_def)

text \<open>After the check of \<open>deposit\<close> the check of \<open>schedule\<close> and its look-ups cannot fail.\<close>

lemma schedule_succeeds:
  assumes "\<not> over_scheduled t mid action" and "bt_get (mt_mailboxes t) mid \<noteq> None"
  shows "\<exists>t'. schedule mid did action t = (Inr (), t')"
  using assms by (cases action) (auto simp: schedule_def show_copies_def)

lemma show_copies_inv:
  assumes inv: "memory_inv t" and room: "scheduled_count t mid + length ds \<le> yp_maximum_scheduled (mt_policy t)"
    and res: "show_copies ds mid t = (res, t')"
  shows "memory_inv t'"
proof (cases "bt_get (mt_mailboxes t) mid")
  case (Some r)
  have "memory_inv (set_mailbox mid (r \<lparr> mb_visible := mb_visible r @ ds \<rparr>) t)"
    using visible_bound [OF inv Some] room scheduled_count_held [OF Some]
    by (intro set_mailbox_inv [OF inv Some]) simp_all
  then show ?thesis using res Some by (auto simp: show_copies_def)
qed (use inv res in \<open>auto simp: show_copies_def\<close>)

lemma hold_inv:
  assumes inv: "memory_inv t" and get: "bt_get (mt_mailboxes t) mid = Some r"
    and room: "scheduled_count t mid + 1 \<le> yp_maximum_scheduled (mt_policy t)"
  shows "memory_inv (t \<lparr> mt_held := mt_held t @ [(mid, did)] \<rparr>)"
  using inv room get scheduled_count_held [OF get] by (auto simp: memory_inv_defs)

lemma schedule_inv:
  assumes inv: "memory_inv t" and get: "bt_get (mt_mailboxes t) mid = Some r"
    and res: "schedule mid did action t = (res, t')"
  shows "memory_inv t'"
proof (cases "over_scheduled t mid action")
  case False
  have "yp_maximum_scheduled (mt_policy t) < 2 ^ 64 - 1" using inv by (simp add: memory_inv_def)
  then have room: "scheduled_count t mid + action_slots action \<le> yp_maximum_scheduled (mt_policy t)"
    using False over_scheduled_iff by (metis not_le)
  show ?thesis
  proof (cases action)
    case Deliver
    then show ?thesis using show_copies_inv [OF inv, of mid "[did]"] room res False by (simp add: schedule_def)
  next
    case Duplicate
    then show ?thesis using show_copies_inv [OF inv, of mid "[did, did]"] room res False by (simp add: schedule_def)
  next
    case Hold
    then show ?thesis using hold_inv [OF inv get] room res False by (auto simp: schedule_def)
  qed (use inv res False in \<open>auto simp: schedule_def\<close>)
qed (use inv res in \<open>auto simp: schedule_def\<close>)

text \<open>
  A deposit either returns early with the transport as it was, or accepts the envelope, takes the
  next action off its queue and schedules the copies.
\<close>

lemma memory_deposit_cases:
  assumes "memory_deposit C rng sha256 t g ep env now = (res, t', g')"
  obtains "t' = t" "\<And>did. res = Inr did \<Longrightarrow> \<exists>r a. bt_get (mt_mailboxes t) (au_mailbox_id ep) = Some r
        \<and> bt_get (mb_accepted r) (envelope_id env) = Some a \<and> ma_envelope a = None \<and> ma_delivery_id a = did"
  | encoded r did r' where "OpaqueEnvelope_encode_canonical C env = Inr encoded"
      "bt_get (mt_mailboxes t) (au_mailbox_id ep) = Some r"
      "\<not> over_scheduled t (au_mailbox_id ep) (next_action t)"
      "accept_envelope rng (mt_policy t) r g env (length encoded) (domain_digest sha256 ENVELOPE_DOMAIN encoded)
         = (Inr (did, r'), g')"
      "(case schedule (au_mailbox_id ep) did (next_action t)
          ((set_mailbox (au_mailbox_id ep) r' t) \<lparr> mt_actions := tl (mt_actions t) \<rparr>) of
          (Inl e, u) \<Rightarrow> (Inl e, u) | (Inr _, u) \<Rightarrow> (Inr did, u)) = (res, t')"
proof (cases "t' = t \<and> (\<forall>did. res = Inr did \<longrightarrow> (\<exists>r a. bt_get (mt_mailboxes t) (au_mailbox_id ep) = Some r
        \<and> bt_get (mb_accepted r) (envelope_id env) = Some a \<and> ma_envelope a = None \<and> ma_delivery_id a = did))")
  case False
  obtain encoded r where er: "OpaqueEnvelope_encode_canonical C env = Inr encoded"
      "bt_get (mt_mailboxes t) (au_mailbox_id ep) = Some r"
      "\<not> over_scheduled t (au_mailbox_id ep) (next_action t)"
    using assms False by (auto simp: memory_deposit_def split: if_splits sum.splits option.splits)
  let ?acc = "accept_envelope rng (mt_policy t) r g env (length encoded) (domain_digest sha256 ENVELOPE_DOMAIN encoded)"
  have early: "\<exists>a. bt_get (mb_accepted r) (envelope_id env) = Some a \<and> ma_envelope a = None \<and> ma_delivery_id a = did"
    if "?acc = (Inl (Inr did), g1)" for did g1
    using that by (auto simp: accept_envelope_def split: option.splits if_splits sum.splits prod.splits)
  obtain did r' where "?acc = (Inr (did, r'), g')"
    using assms False er early
    by (cases ?acc; cases "fst ?acc")
      (fastforce simp: memory_deposit_def split: if_splits sum.splits prod.splits)+
  with that(2) [OF er this] show thesis
    using assms er False by (auto simp: memory_deposit_def split: if_splits sum.splits prod.splits)
qed (use that(1) in blast)

lemma accepted_schedules:
  assumes "bt_get (mt_mailboxes t) mid = Some r" and "\<not> over_scheduled t mid action"
    and "mb_visible r' = mb_visible r"
  shows "\<exists>u. schedule mid did action ((set_mailbox mid r' t) \<lparr> mt_actions := acts \<rparr>) = (Inr (), u)"
  using assms
  by (intro schedule_succeeds) (auto simp: over_scheduled_def scheduled_count_def get_set_mailbox)

lemma accept_envelope_visible:
  "accept_envelope rng p r g env n digest = (Inr (did, r'), g') \<Longrightarrow> mb_visible r' = mb_visible r"
  by (auto simp: accept_envelope_def split: option.splits if_splits sum.splits prod.splits)

lemma failed_memory_deposit:
  assumes "memory_deposit C rng sha256 t g ep env now = (Inl e, t', g')"
  shows "t' = t"
  using assms
proof (cases rule: memory_deposit_cases)
  case (2 encoded r did r')
  show ?thesis
    using accepted_schedules [OF 2(2,3) accept_envelope_visible [OF 2(4)], of did "tl (mt_actions t)"] 2(5) by auto
qed

lemma memory_deposit_inv:
  assumes inv: "memory_inv t" and dep: "memory_deposit C rng sha256 t g ep env now = (res, t', g')"
  shows "memory_inv t'"
  using dep
proof (cases rule: memory_deposit_cases)
  case (2 encoded r did r')
  let ?mid = "au_mailbox_id ep" let ?u = "(set_mailbox ?mid r' t) \<lparr> mt_actions := tl (mt_actions t) \<rparr>"
  have ok: "memory_record_ok (mt_policy t) r'" and vis: "mb_visible r' = mb_visible r"
    using accept_envelope_ok [OF 2(4)] visible_bound [OF inv 2(2)] inv by (auto simp: memory_inv_def)
  have "memory_inv (set_mailbox ?mid r' t)"
    by (rule shrink_inv [OF inv 2(2)]) (simp_all add: ok vis)
  then have u: "memory_inv ?u"
    by (rule trim_inv) (use inv in \<open>auto simp: held_count_def memory_inv_def get_set_mailbox\<close>)
  have get: "bt_get (mt_mailboxes ?u) ?mid = Some r'" using 2(2) by (simp add: get_set_mailbox)
  obtain v where v: "schedule ?mid did (next_action t) ?u = (Inr (), v)"
    using accepted_schedules [OF 2(2,3) vis] by blast
  from schedule_inv [OF u get v] show ?thesis using 2(5) v by simp
qed (use inv in simp)

section \<open>Mailboxes, held copies and replays\<close>

text \<open>A queue whose entries all belong to listed owners, with a bound for each owner, is bounded.\<close>

lemma owned_length:
  assumes "\<And>x. x \<in> set xs \<Longrightarrow> f x \<in> set ks" and "\<And>k. k \<in> set ks \<Longrightarrow> length (filter (\<lambda>x. f x = k) xs) \<le> b"
  shows "length xs \<le> length ks * b"
  using assms
proof (induction ks arbitrary: xs)
  case (Cons k ks)
  let ?rest = "filter (\<lambda>x. f x \<noteq> k) xs"
  have "length (filter (\<lambda>x. f x = j) ?rest) \<le> b" if "j \<in> set ks" for j
    using Cons.prems(2) [of j] that filter_filter_length [of "\<lambda>x. f x = j" "\<lambda>x. f x \<noteq> k" xs]
    by (auto intro: le_trans simp del: filter_filter)
  then have "length ?rest \<le> length ks * b"
    by (intro Cons.IH) (use Cons.prems(1) in auto)
  moreover have "length (filter (\<lambda>x. f x = k) xs) \<le> b" using Cons.prems(2) by simp
  ultimately show ?case using sum_length_filter_compl [of "\<lambda>x. f x = k" xs] by simp
next
  case Nil
  then show ?case by (cases xs) auto
qed

lemma get_key: "bt_get m k \<noteq> None \<Longrightarrow> k \<in> set (map fst m)"
  by (auto simp: bt_get_def dest: map_of_SomeD intro: rev_image_eqI)

lemma queues_bounded:
  assumes "memory_inv t"
  shows "length (mt_held t) \<le> length (mt_mailboxes t) * yp_maximum_scheduled (mt_policy t)"
    and "length (mt_stale_replays t) \<le> length (mt_mailboxes t) * yp_maximum_scheduled (mt_policy t)"
proof -
  have held: "length (filter (\<lambda>h. fst h = k) (mt_held t)) \<le> yp_maximum_scheduled (mt_policy t)"
    if "k \<in> set (map fst (mt_mailboxes t))" for k
  proof -
    from that obtain r where "bt_get (mt_mailboxes t) k = Some r"
      using assms bt_get_mem [of "mt_mailboxes t" k] by (auto simp: memory_inv_def)
    from visible_bound [OF assms this] show ?thesis by (simp add: held_count_def)
  qed
  show "length (mt_held t) \<le> length (mt_mailboxes t) * yp_maximum_scheduled (mt_policy t)"
    using owned_length [of "mt_held t" fst "map fst (mt_mailboxes t)", OF get_key held] assms
    by (simp add: memory_inv_def)
  show "length (mt_stale_replays t) \<le> length (mt_mailboxes t) * yp_maximum_scheduled (mt_policy t)"
    using owned_length [of "mt_stale_replays t" sr_mailbox_id "map fst (mt_mailboxes t)"
        "yp_maximum_scheduled (mt_policy t)", OF get_key] assms
    by (simp add: memory_inv_def replays_ok_def Let_def)
qed

lemma empty_record_ok: "memory_record_ok p \<lparr> mb_expires_at = e, mb_deposit_digest = a, mb_receive_digest = b,
    mb_acknowledgement_digest = c, mb_accepted = [], mb_visible = [] \<rparr>"
  by (simp add: memory_record_ok_def bt_wf_simps bt_values_def live_lens_def)

lemma get_kept: "bt_wf m \<Longrightarrow> bt_get (bt_retain P m) k = Some r \<Longrightarrow> bt_get m k = Some r"
  by (auto simp: bt_get_retain split: option.splits if_splits)

lemma get_kept_None: "bt_wf m \<Longrightarrow> bt_get m k = None \<Longrightarrow> bt_get (bt_retain P m) k = None"
  by (simp add: bt_get_retain)

lemma install_mailboxes_ok:
  assumes inv: "memory_inv t" and new: "bt_get (mt_mailboxes t) mid = None"
    and res: "install_memory_mailbox sha256 t mid dsec rsec asec expires_at now = (Inr mbx, t')"
  shows "mailboxes_ok t'"
  unfolding mailboxes_ok_def
proof (intro allI impI)
  fix m r assume get: "bt_get (mt_mailboxes t') m = Some r"
  let ?kept = "bt_retain (memory_live now) (mt_mailboxes t)"
  let ?keep = "\<lambda>h. bt_get ?kept (fst h) \<noteq> None \<or> fst h = mid"
  have wf: "bt_wf (mt_mailboxes t)" and held: "\<And>h. h \<in> set (mt_held t) \<Longrightarrow> fst h \<noteq> mid"
    using inv new by (auto simp: memory_inv_def)
  have pol: "mt_policy t' = mt_policy t" and held': "mt_held t' = filter ?keep (mt_held t)"
    using res by (auto simp: install_memory_mailbox_def Let_def split: if_splits)
  have count: "held_count t' m \<le> held_count t m"
    unfolding held_count_def held' by (rule filter_filter_length)
  have zero: "held_count t' mid = 0" using held by (auto simp: held_count_def held' filter_empty_conv)
  show "memory_record_ok (mt_policy t') r \<and> length (mb_visible r) + held_count t' m \<le> yp_maximum_scheduled (mt_policy t')"
  proof (cases "m = mid")
    case True
    with get res have "memory_record_ok (mt_policy t') r \<and> mb_visible r = []"
      by (auto simp: install_memory_mailbox_def Let_def bt_get_insert empty_record_ok split: if_splits)
    with zero True show ?thesis by simp
  next
    case m: False
    have "bt_get ?kept m = Some r"
      using get res m by (auto simp: install_memory_mailbox_def Let_def bt_get_insert split: if_splits)
    from visible_bound [OF inv get_kept [OF wf this]] count show ?thesis
      unfolding pol by (meson add_le_cancel_left le_trans)
  qed
qed

lemma install_inv:
  assumes inv: "memory_inv t" and new: "bt_get (mt_mailboxes t) mid = None"
    and room: "length (filter (memory_live now) (bt_values (mt_mailboxes t))) < yp_maximum_live_mailboxes (mt_policy t)"
    and res: "install_memory_mailbox sha256 t mid dsec rsec asec expires_at now = (res, t')"
  shows "memory_inv t'"
proof (cases res)
  case (Inr mbx)
  have none: "bt_get (bt_retain (memory_live now) (mt_mailboxes t)) mid = None"
    using inv new by (simp add: memory_inv_def get_kept_None)
  have "length (mt_mailboxes t') \<le> yp_maximum_live_mailboxes (mt_policy t)"
    using res Inr room by (auto simp: install_memory_mailbox_def Let_def bt_insert_length_new [OF none] bt_retain_length
        split: if_splits)
  then show ?thesis
    using install_mailboxes_ok [OF inv new res [unfolded Inr]] res Inr inv
    by (auto simp: install_memory_mailbox_def Let_def memory_inv_def bt_wf_simps bt_wf_retain bt_wf_insert bt_get_insert
        split: if_splits intro!: replays_ok_filter)
qed (use inv res in \<open>auto simp: install_memory_mailbox_def Let_def split: if_splits\<close>)

lemma create_mailbox_inv:
  assumes inv: "memory_inv t" and res: "create_mailbox rng sha256 t g expires_at now = (res, t', g')"
  shows "memory_inv t'"
proof (cases "t' = t")
  case False
  obtain mid dsec rsec asec r where "bt_get (mt_mailboxes t) mid = None"
    "length (filter (memory_live now) (bt_values (mt_mailboxes t))) < yp_maximum_live_mailboxes (mt_policy t)"
    "install_memory_mailbox sha256 t mid dsec rsec asec expires_at now = (r, t')"
    using res False by (auto simp: create_mailbox_def split: option.splits if_splits sum.splits prod.splits)
  from install_inv [OF inv this] show ?thesis .
qed (use inv in simp)

lemma take_out_length:
  "i < length xs \<Longrightarrow> length (filter P (take i xs @ drop (Suc i) xs)) + (if P (xs ! i) then 1 else 0) = length (filter P xs)"
proof -
  assume "i < length xs"
  then have "filter P xs = filter P (take i xs @ xs ! i # drop (Suc i) xs)"
    by (rule arg_cong [OF id_take_nth_drop])
  then show ?thesis by simp
qed

lemma release_held_inv:
  assumes inv: "memory_inv t" and res: "release_held index now t = (res, t')"
  shows "memory_inv t'"
proof (cases "t' = t")
  case False
  obtain mid did r where i: "index < length (mt_held t)" "mt_held t ! index = (mid, did)"
    and get: "bt_get (mt_mailboxes t) mid = Some r"
    and t': "t' = set_mailbox mid (r \<lparr> mb_visible := mb_visible r @ [did] \<rparr>)
               (t \<lparr> mt_held := take index (mt_held t) @ drop (Suc index) (mt_held t) \<rparr>)"
    using res False by (auto simp: release_held_def split: if_splits prod.splits option.splits)
  let ?u = "t \<lparr> mt_held := take index (mt_held t) @ drop (Suc index) (mt_held t) \<rparr>"
  have cnt: "held_count ?u m + (if m = mid then 1 else 0) = held_count t m" for m
    using take_out_length [OF i(1), of "\<lambda>h. fst h = m"] i(2) by (auto simp: held_count_def)
  have le: "held_count ?u m \<le> held_count t m" for m using cnt [of m] by linarith
  have u: "memory_inv ?u"
    by (rule trim_inv [OF inv _ le]) (use inv in \<open>auto simp: memory_inv_def dest: in_set_takeD in_set_dropD\<close>)
  have "memory_inv (set_mailbox mid (r \<lparr> mb_visible := mb_visible r @ [did] \<rparr>) ?u)"
    by (rule set_mailbox_inv [OF u, of mid r]) (use visible_bound [OF inv get] get cnt [of mid] in auto)
  then show ?thesis by (simp add: t')
qed (use inv in simp)

lemma replay_stale_inv:
  assumes inv: "memory_inv t" and res: "replay_stale C sha256 auth did env t = (res, t')"
  shows "memory_inv t'"
proof (cases "t' = t")
  case False
  let ?mine = "\<lambda>m. filter (\<lambda>s. sr_mailbox_id s = m) (mt_stale_replays t)"
  obtain s where t': "t' = t \<lparr> mt_stale_replays := mt_stale_replays t @ [s] \<rparr>"
    and s: "length (?mine (sr_mailbox_id s)) < yp_maximum_scheduled (mt_policy t)"
      "\<not> exceeds_retained (map sr_encoded_len (?mine (sr_mailbox_id s))) (sr_encoded_len s)"
      "bt_get (mt_mailboxes t) (sr_mailbox_id s) \<noteq> None"
    using res False
    by (auto simp: replay_stale_def fault_mailbox_def ok_iff Let_def split: if_splits sum.splits option.splits)
  have "replays_ok (mt_policy t) (mt_stale_replays t @ [s])"
    using inv s by (auto simp: memory_inv_def replays_ok_def Let_def exceeds_retained_iff)
  then show ?thesis
    using inv s(3) by (intro trim_inv [OF inv]) (auto simp: t' held_count_def memory_inv_def)
qed (use inv in simp)

section \<open>Receiving and acknowledging\<close>

definition live_envelope :: "memory_mailbox_record \<Rightarrow> u64 \<Rightarrow> ident \<Rightarrow> opaque_envelope option" where
  "live_envelope r now did = (case find_accepted r did of None \<Rightarrow> None
     | Some a \<Rightarrow> (case ma_envelope a of None \<Rightarrow> None
        | Some env \<Rightarrow> if env_expires_at env \<le> now then None else Some env))"

definition first_live :: "memory_mailbox_record \<Rightarrow> u64 \<Rightarrow> received_envelope option" where
  "first_live r now = map_option (\<lambda>did. \<lparr> re_delivery_id = did, re_envelope = the (live_envelope r now did) \<rparr>)
     (find (\<lambda>did. live_envelope r now did \<noteq> None) (mb_visible r))"

lemma live_envelope_visible [simp]: "live_envelope (r \<lparr> mb_visible := v \<rparr>) = live_envelope r"
  by (simp add: fun_eq_iff live_envelope_def find_accepted_def)

lemma live_envelope_forget:
  "live_envelope (forget_delivery did r) now d = (if d = did then None else live_envelope r now d)"
  by (auto simp: live_envelope_def find_forget split: option.splits)

lemma find_filter_same: "(\<And>x. P x \<Longrightarrow> Q x) \<Longrightarrow> find P (filter Q xs) = find P xs"
  by (induction xs) auto

lemma first_live_forget:
  assumes "live_envelope r now did = None"
  shows "first_live (forget_delivery did r) now = first_live r now"
proof -
  have same: "live_envelope (forget_delivery did r) now d = live_envelope r now d" for d
    using assms by (simp add: live_envelope_forget)
  have "find (\<lambda>d. live_envelope r now d \<noteq> None) (filter (\<lambda>d. d \<noteq> did) (mb_visible r)) =
      find (\<lambda>d. live_envelope r now d \<noteq> None) (mb_visible r)"
    by (rule find_filter_same) (use assms in auto)
  then show ?thesis by (simp add: first_live_def same) (simp add: forget_delivery_def)
qed

lemma first_live_skip:
  "mb_visible r = did # rest \<Longrightarrow> live_envelope r now did = None \<Longrightarrow>
     first_live (r \<lparr> mb_visible := rest \<rparr>) now = first_live r now"
  by (simp add: first_live_def)

text \<open>A record that only lost envelopes and entries of its queue.\<close>

definition lost_only :: "memory_mailbox_record \<Rightarrow> memory_mailbox_record \<Rightarrow> bool" where
  "lost_only r r' \<longleftrightarrow> (\<forall>p. memory_record_ok p r \<longrightarrow> memory_record_ok p r')
     \<and> length (mb_visible r') \<le> length (mb_visible r) \<and> set (mb_visible r') \<subseteq> set (mb_visible r)
     \<and> (\<forall>d a. find_accepted r d = Some a \<longrightarrow>
          (\<exists>a'. find_accepted r' d = Some a' \<and> (ma_envelope a' = None \<or> a' = a)))
     \<and> mb_expires_at r' = mb_expires_at r"

lemma lost_only_refl [simp]: "lost_only r r"
  by (simp add: lost_only_def)

lemma lost_only_trans: "lost_only r r1 \<Longrightarrow> lost_only r1 r2 \<Longrightarrow> lost_only r r2"
  by (simp add: lost_only_def) (metis (no_types, lifting) le_trans subset_trans)

lemma lost_only_visible:
  "length v \<le> length (mb_visible r) \<Longrightarrow> set v \<subseteq> set (mb_visible r) \<Longrightarrow> lost_only r (r \<lparr> mb_visible := v \<rparr>)"
  by (simp add: lost_only_def find_accepted_def)

lemma lost_only_forget: "lost_only r (forget_delivery did r)"
  unfolding lost_only_def find_forget by (auto simp: forget_ok forget_visible) (simp_all add: forget_delivery_def)

lemma lost_only_fold_forget: "lost_only r (fold forget_delivery ds r)"
  by (induction ds arbitrary: r) (auto intro: lost_only_trans lost_only_forget)

lemma lost_only_clear: "lost_only r (r \<lparr> mb_accepted := clear_accepted did (mb_accepted r) \<rparr>)"
  using fold_clear_ok [of _ r "[did]"] by (auto simp: lost_only_def find_accepted_def find_clear_accepted)

lemma lost_only_fold_clear: "lost_only r (r \<lparr> mb_accepted := fold clear_accepted ds (mb_accepted r) \<rparr>)"
proof (induction ds arbitrary: r)
  case (Cons d ds)
  from lost_only_trans [OF lost_only_clear Cons.IH] show ?case by simp
qed simp

lemma lost_only_inv:
  "memory_inv t \<Longrightarrow> bt_get (mt_mailboxes t) mid = Some r \<Longrightarrow> lost_only r r' \<Longrightarrow> memory_inv (set_mailbox mid r' t)"
  using shrink_inv [of t mid r r'] by (simp add: lost_only_def)

text \<open>The loop ends because every round shortens the queue, and it finds the first live delivery.\<close>

lemma receive_loop_returns:
  "\<exists>r'. receive_loop now r = Some (first_live r now, r') \<and> lost_only r r'"
proof (induction "length (mb_visible r)" arbitrary: r rule: less_induct)
  case less
  show ?case
  proof (cases "mb_visible r")
    case Nil
    then show ?thesis by (subst receive_loop.simps) (simp add: first_live_def)
  next
    case (Cons did rest)
    have skip: ?thesis if "receive_loop now r = receive_loop now r1" "first_live r1 now = first_live r now"
        "length (mb_visible r1) < length (mb_visible r)" "lost_only r r1" for r1
      using less [OF that(3)] that lost_only_trans by metis
    have pop: ?thesis if "live_envelope r now did = None" "receive_loop now r = receive_loop now (r \<lparr> mb_visible := rest \<rparr>)"
      by (rule skip [OF that(2) first_live_skip [OF Cons that(1)]]) (use Cons in \<open>auto intro: lost_only_visible\<close>)
    have forget: ?thesis if "live_envelope r now did = None" "receive_loop now r = receive_loop now (forget_delivery did r)"
      by (rule skip [OF that(2) first_live_forget [OF that(1)]])
        (use Cons in \<open>auto simp: lost_only_forget\<close>, simp add: forget_delivery_def Cons le_imp_less_Suc)
    show ?thesis
    proof (cases "live_envelope r now did")
      case None
      then have "receive_loop now r = receive_loop now (r \<lparr> mb_visible := rest \<rparr>)
          \<or> receive_loop now r = receive_loop now (forget_delivery did r)"
        using receive_loop.simps [of now r] by (auto simp: Cons live_envelope_def split: option.splits if_splits)
      with None pop forget show ?thesis by blast
    next
      case (Some env)
      then have "receive_loop now r = Some (first_live r now, r)"
        by (subst receive_loop.simps)
          (auto simp: Cons live_envelope_def first_live_def split: option.splits if_splits)
      then show ?thesis by simp
    qed
  qed
qed

lemma memory_receive_cases:
  obtains "memory_receive sha256 t auth now = Some (Inl MemoryRejected, t)"
  | r r' where "bt_get (mt_mailboxes t) (au_mailbox_id auth) = Some r" "lost_only r r'"
      "memory_receive sha256 t auth now = Some (Inr (first_live r now), set_mailbox (au_mailbox_id auth) r' t)"
proof (cases "memory_receive sha256 t auth now = Some (Inl MemoryRejected, t)")
  case False
  then obtain r where r: "bt_get (mt_mailboxes t) (au_mailbox_id auth) = Some r"
    "memory_receive sha256 t auth now =
       map_option (\<lambda>(found, r'). (Inr found, set_mailbox (au_mailbox_id auth) r' t)) (receive_loop now r)"
    by (auto simp: memory_receive_def split: if_splits option.splits)
  obtain r' where "receive_loop now r = Some (first_live r now, r')" "lost_only r r'"
    using receive_loop_returns by blast
  with that(2) [OF r(1)] r(2) show thesis by simp
qed (rule that(1))

end
