(* ===== verification/Memory_System.thy ===== *)
theory Memory_System
  imports Memory_Invariants
begin

text \<open>
  Sequences of operations on a memory transport: the operations as data, that every run keeps the
  invariant, and that an acknowledged delivery stays retired through a run.
\<close>

section \<open>Operations and runs\<close>

datatype 'b memory_op =
    QueueAction delivery_action
  | SetAvailability memory_availability
  | CorruptNextPoll memory_authority ident
  | ReplayStale memory_authority ident opaque_envelope
  | LoseNextAcknowledgement acknowledgement_loss
  | CreateMailbox u64 u64
  | ReleaseHeld usize u64
  | MemoryDeposit memory_authority opaque_envelope u64
  | MemoryReceive memory_authority u64
  | MemoryAcknowledge memory_authority ident u64
  | DispatchDeposit memory_authority deposit_request control
  | DispatchPoll memory_authority "'b poll_request" control
  | DispatchAcknowledge memory_authority "ident list" operation_budget control

definition after_receive :: "(bytes \<Rightarrow> bytes) \<Rightarrow> memory_authority \<Rightarrow> u64 \<Rightarrow> memory_transport \<Rightarrow> memory_transport" where
  "after_receive sha256 auth now t =
     (case memory_receive sha256 t auth now of None \<Rightarrow> t | Some (_, t') \<Rightarrow> t')"

fun memory_apply ::
    "cbor \<Rightarrow> 'g rng \<Rightarrow> (bytes \<Rightarrow> bytes) \<Rightarrow> 'b memory_op \<Rightarrow> memory_transport \<times> 'g \<Rightarrow> memory_transport \<times> 'g" where
  "memory_apply C rng sha256 (QueueAction a) (t, g) = (snd (queue_action a t), g)"
| "memory_apply C rng sha256 (SetAvailability a) (t, g) = (set_availability a t, g)"
| "memory_apply C rng sha256 (CorruptNextPoll auth did) (t, g) = (snd (corrupt_next_poll sha256 auth did t), g)"
| "memory_apply C rng sha256 (ReplayStale auth did env) (t, g) = (snd (replay_stale C sha256 auth did env t), g)"
| "memory_apply C rng sha256 (LoseNextAcknowledgement loss) (t, g) = (snd (lose_next_acknowledgement loss t), g)"
| "memory_apply C rng sha256 (CreateMailbox expires now) (t, g) = snd (create_mailbox rng sha256 t g expires now)"
| "memory_apply C rng sha256 (ReleaseHeld i now) (t, g) = (snd (release_held i now t), g)"
| "memory_apply C rng sha256 (MemoryDeposit ep env now) (t, g) = snd (memory_deposit C rng sha256 t g ep env now)"
| "memory_apply C rng sha256 (MemoryReceive auth now) (t, g) = (after_receive sha256 auth now t, g)"
| "memory_apply C rng sha256 (MemoryAcknowledge auth did now) (t, g) = (snd (memory_acknowledge sha256 t auth did now), g)"
| "memory_apply C rng sha256 (DispatchDeposit ep req ctl) (t, g) =
     fst (snd (dispatch_deposit C rng sha256 (t, g) ep req ctl))"
| "memory_apply C rng sha256 (DispatchPoll auth req ctl) (t, g) = (fst (snd (dispatch_poll C sha256 t auth req ctl)), g)"
| "memory_apply C rng sha256 (DispatchAcknowledge auth dids budget ctl) (t, g) =
     (fst (snd (dispatch_acknowledge sha256 t auth dids budget ctl)), g)"

definition memory_run ::
    "cbor \<Rightarrow> 'g rng \<Rightarrow> (bytes \<Rightarrow> bytes) \<Rightarrow> 'b memory_op list \<Rightarrow> memory_transport \<times> 'g \<Rightarrow> memory_transport \<times> 'g" where
  "memory_run C rng sha256 ops s = fold (memory_apply C rng sha256) ops s"

section \<open>What the asynchronous operations do to the state\<close>

lemma memory_authorised_get:
  "memory_authorised sha256 t auth domain digest_of now = Inr r \<Longrightarrow> bt_get (mt_mailboxes t) (au_mailbox_id auth) = Some r"
  by (auto simp: memory_authorised_def ok_iff split: if_splits)

lemma dispatch_deposit_effect:
  assumes "dispatch_deposit C rng sha256 (t, g) ep req ctl = (res, (t', g'), ctl')"
  obtains "t' = t" | env now res1 where "memory_deposit C rng sha256 t g ep env now = (res1, t', g')"
proof (cases "t' = t")
  case False
  then obtain env now where "fst (snd (memory_deposit C rng sha256 t g ep env now)) = t'"
      "snd (snd (memory_deposit C rng sha256 t g ep env now)) = g'"
    using assms by (auto simp: dispatch_deposit_def Let_def split: if_splits sum.splits prod.splits) (metis fst_conv snd_conv)+
  then show thesis using that(2) by (metis prod.collapse)
qed (rule that(1))

text \<open>The record a poll leaves, once it returned a batch.\<close>

definition polled :: "memory_mailbox_record \<Rightarrow> ident list \<Rightarrow> u64 \<Rightarrow> memory_mailbox_record" where
  "polled r expired now = (let r1 = r \<lparr> mb_accepted := fold clear_accepted expired (mb_accepted r) \<rparr> in
     r1 \<lparr> mb_visible := filter (\<lambda>d. delivery_is_live r1 d now) (mb_visible r) \<rparr>)"

lemma lost_only_polled: "lost_only r (polled r expired now)"
  unfolding polled_def Let_def
  by (rule lost_only_trans [OF lost_only_fold_clear lost_only_visible]) auto

lemma settle_poll_polled:
  "settle_poll t mid r expired now = (set_mailbox mid (polled r expired now) t)
     \<lparr> mt_corrupt_next_poll := (case mt_corrupt_next_poll t of None \<Rightarrow> None
         | Some (m, d) \<Rightarrow> if m = mid \<and> d \<in> set expired then None else Some (m, d)),
       mt_stale_replays := filter (\<lambda>s. sr_mailbox_id s \<noteq> mid \<or> env_expires_at (sr_envelope s) > now)
         (mt_stale_replays t) \<rparr>"
  by (simp add: settle_poll_def polled_def Let_def)

text \<open>The state differs from the first at most in the fault flags.\<close>

definition same_mail :: "memory_transport \<Rightarrow> memory_transport \<Rightarrow> bool" where
  "same_mail t t' \<longleftrightarrow> mt_policy t' = mt_policy t \<and> mt_mailboxes t' = mt_mailboxes t \<and> mt_held t' = mt_held t
     \<and> mt_stale_replays t' = mt_stale_replays t \<and> mt_actions t' = mt_actions t"

lemma same_mail_inv: "same_mail t t' \<Longrightarrow> memory_inv t \<Longrightarrow> memory_inv t'"
  by (simp add: same_mail_def memory_inv_defs)

lemma dispatch_poll_effect:
  assumes "dispatch_poll C sha256 t auth req ctl = (res, t', ctl')"
  obtains "same_mail t t'"
  | r expired now where "bt_get (mt_mailboxes t) (au_mailbox_id auth) = Some r"
      "t' = settle_poll t (au_mailbox_id auth) r expired now"
proof (cases "same_mail t t'")
  case False
  then obtain r expired now where "memory_authorised sha256 t auth RECEIVE_DOMAIN mb_receive_digest now = Inr r"
      "\<exists>now'. t' = settle_poll t (au_mailbox_id auth) r expired now'"
    using assms by (auto simp: dispatch_poll_def Let_def same_mail_def split: if_splits sum.splits prod.splits)
  then show thesis using that(2) memory_authorised_get by blast
qed (rule that(1))

lemma same_mail_flags [simp]: "same_mail t t" "same_mail t (t \<lparr> mt_acknowledgement_loss := l \<rparr>)"
    "same_mail t (t \<lparr> mt_corrupt_next_poll := c \<rparr>)"
  by (simp_all add: same_mail_def)

lemma dispatch_acknowledge_effect:
  assumes "dispatch_acknowledge sha256 t auth dids budget ctl = (res, t', ctl')"
  obtains f where "same_mail t t'" "res = Inl f"
  | r where "bt_get (mt_mailboxes t) (au_mailbox_id auth) = Some r"
      "t' = memory_acknowledge_ids (au_mailbox_id auth) r dids (t \<lparr> mt_acknowledgement_loss := None \<rparr>)"
proof -
  note early1 = that(1)
  let ?authorised = "memory_authorised sha256 t auth ACKNOWLEDGEMENT_DOMAIN mb_acknowledgement_digest"
  have early: thesis if "same_mail t t' \<and> \<not> is_ok res"
    using that early1 by (cases res) auto
  show thesis
  proof (cases "is_ok (checkpoint ctl budget) \<and> mt_availability t \<noteq> MemoryUnavailable")
    case False
    then have "same_mail t t' \<and> \<not> is_ok res"
      using assms by (cases "checkpoint ctl budget") (auto simp: dispatch_acknowledge_def Let_def is_ok_iff)
    then show thesis by (rule early)
  next
    case True
    then obtain obs where cp: "checkpoint ctl budget = Inr obs" and av: "mt_availability t \<noteq> MemoryUnavailable"
      by (auto simp: is_ok_iff)
    show thesis
    proof (cases "is_ok (?authorised (do_wall_now obs)) \<and> is_ok (checkpoint (after_reading ctl) budget)")
      case False
      then have "same_mail t t' \<and> \<not> is_ok res"
        using assms cp av by (cases "?authorised (do_wall_now obs)"; cases "checkpoint (after_reading ctl) budget")
          (auto simp: dispatch_acknowledge_def Let_def is_ok_iff)
      then show thesis by (rule early)
    next
      case True
      then obtain r0 obs' where ok: "?authorised (do_wall_now obs) = Inr r0"
        "checkpoint (after_reading ctl) budget = Inr obs'" by (auto simp: is_ok_iff)
      show thesis
      proof (cases "?authorised (max (do_wall_now obs) (do_wall_now obs'))")
        case (Inl f)
        then have "same_mail t t' \<and> \<not> is_ok res"
          using assms cp av ok by (auto simp: dispatch_acknowledge_def Let_def is_ok_iff)
        then show thesis by (rule early)
      next
        case (Inr r)
        then have "same_mail t t' \<and> \<not> is_ok res
            \<or> t' = memory_acknowledge_ids (au_mailbox_id auth) r dids (t \<lparr> mt_acknowledgement_loss := None \<rparr>)"
          using assms cp av ok by (auto simp: dispatch_acknowledge_def Let_def is_ok_iff split: if_splits)
        then show thesis using early that(2) [OF memory_authorised_get [OF Inr]] by blast
      qed
    qed
  qed
qed

lemma memory_acknowledge_effect:
  assumes "memory_acknowledge sha256 t auth did now = (res, t')"
  obtains "t' = t" "res = Inl MemoryRejected"
  | r where "bt_get (mt_mailboxes t) (au_mailbox_id auth) = Some r" "find_accepted r did \<noteq> None"
      "t' = memory_acknowledge_ids (au_mailbox_id auth) r [did] t"
proof -
  have "t' = t \<and> res = Inl MemoryRejected
    \<or> (\<exists>r. bt_get (mt_mailboxes t) (au_mailbox_id auth) = Some r \<and> find_accepted r did \<noteq> None
         \<and> t' = memory_acknowledge_ids (au_mailbox_id auth) r [did] t)"
    using assms by (auto simp: memory_acknowledge_def memory_acknowledge_ids_def split: if_splits option.splits)
  with that show thesis by blast
qed

section \<open>Every run keeps the invariant\<close>

lemma memory_acknowledge_ids_inv:
  "memory_inv t \<Longrightarrow> bt_get (mt_mailboxes t) mid = Some r \<Longrightarrow> memory_inv (memory_acknowledge_ids mid r dids t)"
  unfolding memory_acknowledge_ids_def by (intro drop_deliveries_inv lost_only_inv [OF _ _ lost_only_fold_forget])

lemma settle_poll_inv:
  assumes "memory_inv t" and "bt_get (mt_mailboxes t) mid = Some r"
  shows "memory_inv (settle_poll t mid r expired now)"
proof -
  have s: "memory_inv (set_mailbox mid (polled r expired now) t)"
    by (rule lost_only_inv [OF assms lost_only_polled])
  show ?thesis unfolding settle_poll_polled
    by (rule trim_inv [OF s]) (use assms in \<open>auto simp: held_count_def memory_inv_def get_set_mailbox intro: replays_ok_filter\<close>)
qed

lemma after_receive_cases:
  obtains "after_receive sha256 auth now t = t"
  | r r' where "bt_get (mt_mailboxes t) (au_mailbox_id auth) = Some r" "lost_only r r'"
      "after_receive sha256 auth now t = set_mailbox (au_mailbox_id auth) r' t"
proof (cases rule: memory_receive_cases [of sha256 t auth now])
  case 1
  show thesis by (rule that(1)) (simp add: after_receive_def 1)
next
  case (2 r r')
  show thesis by (rule that(2) [OF 2(1,2)]) (simp add: after_receive_def 2(3))
qed

lemma queue_action_inv: "memory_inv t \<Longrightarrow> memory_inv (snd (queue_action a t))"
  by (simp add: queue_action_def memory_inv_defs)

lemma flags_same_mail:
  "same_mail t (set_availability a t)" "same_mail t (snd (corrupt_next_poll sha256 auth did t))"
  "same_mail t (snd (lose_next_acknowledgement loss t))"
  by (auto simp: same_mail_def set_availability_def corrupt_next_poll_def lose_next_acknowledgement_def
      split: sum.splits)

lemma memory_apply_inv:
  assumes inv: "memory_inv t"
  shows "memory_inv (fst (memory_apply C rng sha256 op (t, g)))"
proof (cases op)
  case (CreateMailbox expires now)
  then show ?thesis using create_mailbox_inv [OF inv] by (metis memory_apply.simps(6) prod.collapse)
next
  case (MemoryDeposit ep env now)
  then show ?thesis using memory_deposit_inv [OF inv] by (metis memory_apply.simps(8) prod.collapse)
next
  case (ReleaseHeld i now)
  then show ?thesis using release_held_inv [OF inv] by (metis memory_apply.simps(7) prod.collapse fst_conv)
next
  case (ReplayStale auth did env)
  then show ?thesis using replay_stale_inv [OF inv] by (metis memory_apply.simps(4) prod.collapse fst_conv)
next
  case (MemoryReceive auth now)
  have "memory_inv (after_receive sha256 auth now t)"
    by (cases rule: after_receive_cases [of sha256 auth now t]) (simp_all add: inv lost_only_inv [OF inv])
  then show ?thesis by (simp add: MemoryReceive)
next
  case (MemoryAcknowledge auth did now)
  obtain res t' where a: "memory_acknowledge sha256 t auth did now = (res, t')" by fastforce
  from a have "memory_inv t'"
    by (cases rule: memory_acknowledge_effect) (simp_all add: inv memory_acknowledge_ids_inv [OF inv])
  then show ?thesis by (simp add: MemoryAcknowledge a)
next
  case (DispatchDeposit ep req ctl)
  obtain res t' g' ctl' where d: "dispatch_deposit C rng sha256 (t, g) ep req ctl = (res, (t', g'), ctl')"
    by (metis prod.collapse)
  from d have "memory_inv t'"
    by (cases rule: dispatch_deposit_effect) (simp_all add: inv memory_deposit_inv [OF inv])
  then show ?thesis by (simp add: DispatchDeposit d)
next
  case (DispatchPoll auth req ctl)
  obtain res t' ctl' where p: "dispatch_poll C sha256 t auth req ctl = (res, t', ctl')" by (metis prod.collapse)
  from p have "memory_inv t'"
    by (cases rule: dispatch_poll_effect) (simp_all add: same_mail_inv [OF _ inv] settle_poll_inv [OF inv])
  then show ?thesis by (simp add: DispatchPoll p)
next
  case (DispatchAcknowledge auth dids budget ctl)
  obtain res t' ctl' where a: "dispatch_acknowledge sha256 t auth dids budget ctl = (res, t', ctl')" by (metis prod.collapse)
  have loss: "memory_inv (t \<lparr> mt_acknowledgement_loss := None \<rparr>)" using inv by (simp add: memory_inv_defs)
  from a have "memory_inv t'"
    by (cases rule: dispatch_acknowledge_effect)
      (simp_all add: same_mail_inv [OF _ inv] memory_acknowledge_ids_inv [OF loss])
  then show ?thesis by (simp add: DispatchAcknowledge a)
qed (use same_mail_inv [OF flags_same_mail(1) inv] same_mail_inv [OF flags_same_mail(2) inv]
       same_mail_inv [OF flags_same_mail(3) inv] queue_action_inv [OF inv] in simp_all)

lemma memory_run_inv: "memory_inv (fst s) \<Longrightarrow> memory_inv (fst (memory_run C rng sha256 ops s))"
  unfolding memory_run_def
proof (induction ops arbitrary: s)
  case (Cons op ops)
  show ?case using Cons.IH [OF memory_apply_inv [OF Cons.prems, of C rng sha256 op "snd s"]] by simp
qed simp

section \<open>An acknowledged delivery stays retired\<close>

definition record_retired :: "memory_mailbox_record \<Rightarrow> ident \<Rightarrow> u64 \<Rightarrow> bool" where
  "record_retired r did e \<longleftrightarrow> mb_expires_at r = e \<and> did \<notin> set (mb_visible r)
     \<and> (\<exists>a. find_accepted r did = Some a \<and> ma_envelope a = None)"

definition retired :: "memory_transport \<Rightarrow> ident \<Rightarrow> ident \<Rightarrow> u64 \<Rightarrow> bool" where
  "retired t mid did e \<longleftrightarrow> (\<exists>r. bt_get (mt_mailboxes t) mid = Some r \<and> record_retired r did e)
     \<and> (mid, did) \<notin> set (mt_held t) \<and> \<not> has_replay t mid did"

text \<open>Creating a mailbox before the retired one expires, and no replay of the retired delivery.\<close>

fun op_spares :: "ident \<Rightarrow> ident \<Rightarrow> u64 \<Rightarrow> 'b memory_op \<Rightarrow> bool" where
  "op_spares mid did e (CreateMailbox expires now) \<longleftrightarrow> now < e"
| "op_spares mid did e (ReplayStale auth d env) \<longleftrightarrow> \<not> (au_mailbox_id auth = mid \<and> d = did)"
| "op_spares mid did e _ \<longleftrightarrow> True"

lemma record_retired_lost: "record_retired r did e \<Longrightarrow> lost_only r r' \<Longrightarrow> record_retired r' did e"
  by (simp add: record_retired_def lost_only_def) (metis subset_eq)

lemma retired_trim:
  "retired t mid did e \<Longrightarrow> bt_get (mt_mailboxes t') mid = bt_get (mt_mailboxes t) mid
     \<Longrightarrow> set (mt_held t') \<subseteq> set (mt_held t) \<Longrightarrow> set (mt_stale_replays t') \<subseteq> set (mt_stale_replays t)
     \<Longrightarrow> retired t' mid did e"
  by (auto simp: retired_def has_replay_def list_ex_iff)

lemma retired_set:
  assumes "retired t mid did e"
    and "\<And>r. m = mid \<Longrightarrow> bt_get (mt_mailboxes t) mid = Some r \<Longrightarrow> record_retired r did e \<Longrightarrow> record_retired r' did e"
  shows "retired (set_mailbox m r' t) mid did e"
  using assms by (auto simp: retired_def get_set_mailbox has_replay_def)

lemma retired_lost:
  assumes "retired t mid did e" and "bt_get (mt_mailboxes t) m = Some r" and "lost_only r r'"
  shows "retired (set_mailbox m r' t) mid did e"
  by (rule retired_set [OF assms(1)]) (use assms(2) record_retired_lost [OF _ assms(3)] in auto)

lemma retired_same_mail: "same_mail t t' \<Longrightarrow> retired t mid did e \<Longrightarrow> retired t' mid did e"
  by (erule retired_trim) (auto simp: same_mail_def)

lemma find_accepted_update:
  assumes "\<And>a. ma_delivery_id (f a) = ma_delivery_id a" and "\<And>a. ma_envelope (f a) = ma_envelope a"
    and "find_accepted r d = Some a"
  shows "\<exists>a'. find_accepted (r \<lparr> mb_accepted := bt_update k f (mb_accepted r) \<rparr>) d = Some a' \<and> ma_envelope a' = ma_envelope a"
proof -
  have "find (\<lambda>a. ma_delivery_id a = d) (bt_values m) = Some a \<Longrightarrow>
      \<exists>a'. find (\<lambda>a. ma_delivery_id a = d) (bt_values (bt_update k f m)) = Some a' \<and> ma_envelope a' = ma_envelope a" for m
    by (induction m) (auto simp: bt_update_def bt_values_def assms(1,2) split: if_splits)
  then show ?thesis using assms(3) by (simp add: find_accepted_def)
qed

lemma accept_envelope_retired:
  assumes acc: "accept_envelope rng p r g env n digest = (Inr (d1, r'), g')" and ok: "memory_record_ok p r"
    and p: "0 < yp_maximum_attempts p" and ret: "record_retired r did e"
  shows "record_retired r' did e \<and> d1 \<noteq> did"
proof -
  obtain a where a: "find_accepted r did = Some a" "ma_envelope a = None"
    using ret by (auto simp: record_retired_def)
  have dist: "distinct (map ma_delivery_id (bt_values (mb_accepted r)))"
    "distinct (map ma_delivery_id (bt_values (mb_accepted r')))"
    using ok accept_envelope_ok [OF acc ok p] by (auto simp: memory_record_ok_def)
  have same: "mb_visible r' = mb_visible r" "mb_expires_at r' = mb_expires_at r"
    using acc by (auto simp: accept_envelope_def split: option.splits if_splits sum.splits prod.splits)
  have "d1 \<noteq> did \<and> (\<exists>a'. find_accepted r' did = Some a' \<and> ma_envelope a' = None)"
  proof (cases "bt_get (mb_accepted r) (envelope_id env)")
    case None
    then obtain a1 where fresh: "find_accepted r d1 = None"
      and r': "r' = r \<lparr> mb_accepted := bt_insert (envelope_id env) a1 (mb_accepted r) \<rparr>"
      using acc by (auto simp: accept_envelope_def split: option.splits if_splits sum.splits prod.splits)
    have "set (bt_values (mb_accepted r')) = insert a1 (set (bt_values (mb_accepted r)))"
      using arg_cong [OF insert_values [OF None, of a1], of set_mset] by (simp add: r')
    then have "find_accepted r' did = Some a"
      using a(1) by (simp add: find_accepted_iff [OF dist(2)] find_accepted_iff [OF dist(1)])
    with a fresh show ?thesis by auto
  next
    case (Some a1)
    then have a1: "ma_envelope a1 \<noteq> None" "d1 = ma_delivery_id a1" and r': "r' = r \<lparr> mb_accepted :=
        bt_update (envelope_id env) (\<lambda>a. a \<lparr> ma_attempts := ma_attempts a + 1 \<rparr>) (mb_accepted r) \<rparr>"
      using acc by (auto simp: accept_envelope_def split: if_splits)
    have "a1 \<in> set (bt_values (mb_accepted r))"
      using Some ok by (metis bt_values_mem memory_record_ok_def)
    then have "find_accepted r d1 = Some a1" by (simp add: find_accepted_iff [OF dist(1)] a1(2))
    moreover have "\<exists>a'. find_accepted r' did = Some a' \<and> ma_envelope a' = ma_envelope a"
      unfolding r' by (rule find_accepted_update [OF _ _ a(1)]) simp_all
    ultimately show ?thesis using a a1(1) by auto
  qed
  with ret same show ?thesis by (simp add: record_retired_def)
qed

lemma show_copies_retired:
  assumes "retired t mid did e" and "m \<noteq> mid \<or> did \<notin> set ds"
  shows "retired (snd (show_copies ds m t)) mid did e"
proof (cases "bt_get (mt_mailboxes t) m")
  case (Some r)
  then have "show_copies ds m t = (Inr (), set_mailbox m (r \<lparr> mb_visible := mb_visible r @ ds \<rparr>) t)"
    by (simp add: show_copies_def)
  moreover have "retired (set_mailbox m (r \<lparr> mb_visible := mb_visible r @ ds \<rparr>) t) mid did e"
    by (rule retired_set [OF assms(1)]) (use assms(2) Some in \<open>auto simp: record_retired_def find_accepted_def\<close>)
  ultimately show ?thesis by simp
qed (use assms(1) in \<open>simp add: show_copies_def\<close>)

lemma schedule_retired:
  assumes "retired t mid did e" and "m \<noteq> mid \<or> d1 \<noteq> did"
  shows "retired (snd (schedule m d1 action t)) mid did e"
proof -
  have "retired (t \<lparr> mt_held := mt_held t @ [(m, d1)] \<rparr>) mid did e"
    using assms by (auto simp: retired_def has_replay_def)
  then show ?thesis
    using assms show_copies_retired [OF assms(1), of m "[d1]"] show_copies_retired [OF assms(1), of m "[d1, d1]"]
    by (cases action) (auto simp: schedule_def)
qed

lemma memory_deposit_retired:
  assumes inv: "memory_inv t" and ret: "retired t mid did e"
    and dep: "memory_deposit C rng sha256 t g ep env now = (res, t', g')"
  shows "retired t' mid did e"
  using dep
proof (cases rule: memory_deposit_cases)
  case (2 encoded r d1 r')
  let ?m = "au_mailbox_id ep" let ?u = "(set_mailbox ?m r' t) \<lparr> mt_actions := tl (mt_actions t) \<rparr>"
  have acc: "record_retired r' did e \<and> d1 \<noteq> did" if "?m = mid" "record_retired r did e"
    using accept_envelope_retired [OF 2(4) _ _ that(2)] visible_bound [OF inv 2(2)] inv by (simp add: memory_inv_def)
  have d1: "?m \<noteq> mid \<or> d1 \<noteq> did" using acc ret 2(2) by (auto simp: retired_def)
  have "retired (set_mailbox ?m r' t) mid did e"
    by (rule retired_set [OF ret]) (use acc 2(2) in auto)
  then have "retired ?u mid did e" by (rule retired_trim) auto
  from schedule_retired [OF this d1, of "next_action t"] show ?thesis
    using 2(5) by (auto split: prod.splits sum.splits)
qed (use ret in simp)

lemma release_held_retired:
  assumes inv: "memory_inv t" and ret: "retired t mid did e" and res: "release_held i now t = (res, t')"
  shows "retired t' mid did e"
proof (cases "t' = t")
  case False
  obtain m d r where "mt_held t ! i = (m, d)" and i: "i < length (mt_held t)"
    and get: "bt_get (mt_mailboxes t) m = Some r" and t': "t' = set_mailbox m (r \<lparr> mb_visible := mb_visible r @ [d] \<rparr>)
               (t \<lparr> mt_held := take i (mt_held t) @ drop (Suc i) (mt_held t) \<rparr>)"
    using res False by (auto simp: release_held_def split: if_splits prod.splits option.splits)
  then have "(m, d) \<in> set (mt_held t)" by (metis nth_mem)
  then have md: "(m, d) \<noteq> (mid, did)" using ret by (auto simp: retired_def)
  have "retired (t \<lparr> mt_held := take i (mt_held t) @ drop (Suc i) (mt_held t) \<rparr>) mid did e"
    by (rule retired_trim [OF ret]) (auto dest: in_set_takeD in_set_dropD)
  then show ?thesis unfolding t'
    by (rule retired_set) (use md get in \<open>auto simp: record_retired_def find_accepted_def\<close>)
qed (use ret in simp)

lemma create_mailbox_retired:
  assumes inv: "memory_inv t" and ret: "retired t mid did e" and early: "now < e"
    and res: "create_mailbox rng sha256 t g expires now = (res, t', g')"
  shows "retired t' mid did e"
proof (cases "t' = t")
  case False
  obtain m dsec rsec asec r where new: "bt_get (mt_mailboxes t) m = None"
    and ins: "install_memory_mailbox sha256 t m dsec rsec asec expires now = (r, t')"
    using res False by (auto simp: create_mailbox_def split: option.splits if_splits sum.splits prod.splits)
  obtain r0 where r0: "bt_get (mt_mailboxes t) mid = Some r0" "mb_expires_at r0 = e"
    using ret by (auto simp: retired_def record_retired_def)
  have "bt_get (bt_retain (memory_live now) (mt_mailboxes t)) mid = Some r0"
    using inv r0 early by (simp add: bt_get_retain memory_inv_def memory_live_def)
  then have "bt_get (mt_mailboxes t') mid = Some r0"
    using ins False new r0 by (auto simp: install_memory_mailbox_def Let_def bt_get_insert split: if_splits)
  then show ?thesis
    by (intro retired_trim [OF ret]) (use r0 ins in \<open>auto simp: install_memory_mailbox_def Let_def split: if_splits\<close>)
qed (use ret in simp)

lemma replay_stale_retired:
  assumes "retired t mid did e" and "\<not> (au_mailbox_id auth = mid \<and> d = did)"
  shows "retired (snd (replay_stale C sha256 auth d env t)) mid did e"
proof -
  have push: "retired (t \<lparr> mt_stale_replays := mt_stale_replays t @ [s] \<rparr>) mid did e"
    if "sr_mailbox_id s = au_mailbox_id auth" "sr_delivery_id s = d" for s
    using assms that by (auto simp: retired_def has_replay_def)
  show ?thesis
    using assms(1) push by (simp add: replay_stale_def Let_def split: sum.splits option.splits)
qed

lemma acknowledge_ids_retired:
  assumes "retired t mid did e" and "bt_get (mt_mailboxes t) m = Some r"
  shows "retired (memory_acknowledge_ids m r ds t) mid did e"
  unfolding memory_acknowledge_ids_def
  by (rule retired_trim [OF retired_lost [OF assms lost_only_fold_forget]]) (auto simp: drop_deliveries_def)

lemma settle_poll_retired:
  assumes "retired t mid did e" and "bt_get (mt_mailboxes t) m = Some r"
  shows "retired (settle_poll t m r expired now) mid did e"
  unfolding settle_poll_polled by (rule retired_trim [OF retired_lost [OF assms lost_only_polled]]) auto

lemma memory_apply_retired:
  assumes inv: "memory_inv t" and ret: "retired t mid did e" and sp: "op_spares mid did e op"
  shows "retired (fst (memory_apply C rng sha256 op (t, g))) mid did e"
proof (cases op)
  case (CreateMailbox expires now)
  then show ?thesis using create_mailbox_retired [OF inv ret] sp by (metis memory_apply.simps(6) op_spares.simps(1) prod.collapse)
next
  case (MemoryDeposit ep env now)
  then show ?thesis using memory_deposit_retired [OF inv ret] by (metis memory_apply.simps(8) prod.collapse)
next
  case (ReleaseHeld i now)
  then show ?thesis using release_held_retired [OF inv ret] by (metis memory_apply.simps(7) prod.collapse fst_conv)
next
  case (ReplayStale auth d env)
  then show ?thesis using replay_stale_retired [OF ret] sp by simp
next
  case (MemoryReceive auth now)
  have "retired (after_receive sha256 auth now t) mid did e"
    by (cases rule: after_receive_cases [of sha256 auth now t]) (simp_all add: ret retired_lost [OF ret])
  then show ?thesis by (simp add: MemoryReceive)
next
  case (MemoryAcknowledge auth d now)
  obtain res t' where a: "memory_acknowledge sha256 t auth d now = (res, t')" by fastforce
  from a have "retired t' mid did e"
    by (cases rule: memory_acknowledge_effect) (simp_all add: ret acknowledge_ids_retired [OF ret])
  then show ?thesis by (simp add: MemoryAcknowledge a)
next
  case (DispatchDeposit ep req ctl)
  obtain res t' g' ctl' where d: "dispatch_deposit C rng sha256 (t, g) ep req ctl = (res, (t', g'), ctl')"
    by (metis prod.collapse)
  from d have "retired t' mid did e"
    by (cases rule: dispatch_deposit_effect) (simp_all add: ret memory_deposit_retired [OF inv ret])
  then show ?thesis by (simp add: DispatchDeposit d)
next
  case (DispatchPoll auth req ctl)
  obtain res t' ctl' where p: "dispatch_poll C sha256 t auth req ctl = (res, t', ctl')" by (metis prod.collapse)
  from p have "retired t' mid did e"
    by (cases rule: dispatch_poll_effect) (simp_all add: retired_same_mail [OF _ ret] settle_poll_retired [OF ret])
  then show ?thesis by (simp add: DispatchPoll p)
next
  case (DispatchAcknowledge auth dids budget ctl)
  obtain res t' ctl' where a: "dispatch_acknowledge sha256 t auth dids budget ctl = (res, t', ctl')" by (metis prod.collapse)
  have loss: "retired (t \<lparr> mt_acknowledgement_loss := None \<rparr>) mid did e" by (rule retired_same_mail [OF _ ret]) simp
  from a have "retired t' mid did e"
    by (cases rule: dispatch_acknowledge_effect)
      (simp_all add: retired_same_mail [OF _ ret] acknowledge_ids_retired [OF loss])
  then show ?thesis by (simp add: DispatchAcknowledge a)
qed (use retired_same_mail [OF flags_same_mail(1) ret] retired_same_mail [OF flags_same_mail(2) ret]
       retired_same_mail [OF flags_same_mail(3) ret]
       retired_trim [OF ret, of "snd (queue_action _ t)"] in \<open>simp_all add: queue_action_def\<close>)

lemma memory_run_retired:
  "memory_inv (fst s) \<Longrightarrow> retired (fst s) mid did e \<Longrightarrow> list_all (op_spares mid did e) ops \<Longrightarrow>
     retired (fst (memory_run C rng sha256 ops s)) mid did e"
  unfolding memory_run_def
proof (induction ops arbitrary: s)
  case (Cons op ops)
  let ?s = "memory_apply C rng sha256 op s"
  have "memory_inv (fst ?s)" "retired (fst ?s) mid did e"
    using memory_apply_inv [OF Cons.prems(1), of C rng sha256 op "snd s"]
      memory_apply_retired [OF Cons.prems(1,2), of op C rng sha256 "snd s"] Cons.prems(3) by simp_all
  from Cons.IH [OF this] Cons.prems(3) show ?case by simp
qed simp

section \<open>What a receiver can be given\<close>

lemma poll_visible_ids:
  "poll_visible C r now mb dids items expired n = Inr (items', expired', n') \<Longrightarrow> i \<in> set items' \<Longrightarrow>
     i \<in> set items \<or> rc_delivery_id i \<in> set dids \<and> (\<exists>env. live_envelope r now (rc_delivery_id i) = Some env
       \<and> CanonicalEnvelope_from_opaque C env = Inr (rc_envelope i))"
proof (induction C r now mb dids items expired n rule: poll_visible.induct)
  case (2 C r now mb did dids items expired n)
  then show ?case
    by (fastforce simp: Let_def live_envelope_def split: option.splits if_splits sum.splits)
qed simp

lemma poll_stale_ids:
  "poll_stale C mid now me mb ss items n = Inr items' \<Longrightarrow> i \<in> set items' \<Longrightarrow>
     i \<in> set items \<or> (\<exists>s \<in> set ss. sr_mailbox_id s = mid \<and> sr_delivery_id s = rc_delivery_id i)"
proof (induction C mid now me mb ss items n rule: poll_stale.induct)
  case (2 C mid now me mb s ss items n)
  then show ?case by (fastforce simp: Let_def split: option.splits if_splits sum.splits)
qed simp

end
