(* ===== verification/Memory_Properties.thy ===== *)
theory Memory_Properties
  imports Memory_System Delivery_Properties
begin

text \<open>
  The properties of the memory transport (\<open>crates/transport-memory\<close>): its receive loop ends with the
  first live delivery, an acknowledged delivery is not handed out again, its state stays within its
  policy, a failed deposit leaves it as it was, and a lost acknowledgement can be retried.
\<close>

section \<open>What the properties rest on\<close>

lemma poll_batch_source:
  assumes "dispatch_poll C sha256 t auth req ctl = (Inr batch, t', ctl')" and "i \<in> set (rb_items batch)"
  shows "\<exists>r. bt_get (mt_mailboxes t) (au_mailbox_id auth) = Some r
    \<and> (rc_delivery_id i \<in> set (mb_visible r) \<or> has_replay t (au_mailbox_id auth) (rc_delivery_id i))"
proof -
  obtain r now items expired where auth: "memory_authorised sha256 t auth RECEIVE_DOMAIN mb_receive_digest now = Inr r"
    and items: "poll_items C t (au_mailbox_id auth) r now req = Inr (items, expired)" and sub: "set (rb_items batch) \<subseteq> set items"
    using assms(1) by (auto simp: dispatch_poll_def Let_def ReceiveBatch_new_def ok_iff split: if_splits sum.splits prod.splits)
  obtain vis encoded where vis: "poll_visible C r now (pr_max_encoded_bytes req)
      (take (unat (pr_max_envelopes req)) (mb_visible r)) [] [] 0 = Inr (vis, expired, encoded)"
    and rest: "items = vis \<or> poll_stale C (au_mailbox_id auth) now (pr_max_envelopes req) (pr_max_encoded_bytes req)
      (mt_stale_replays t) vis encoded = Inr items"
    using items by (auto simp: poll_items_def ok_iff split: if_splits)
  have i: "i \<in> set items" using assms(2) sub by blast
  have "rc_delivery_id i \<in> set (mb_visible r)" if "i \<in> set vis"
    using poll_visible_ids [OF vis that] by (auto dest: in_set_takeD)
  moreover have "i \<in> set vis \<or> has_replay t (au_mailbox_id auth) (rc_delivery_id i)"
    using rest i poll_stale_ids [of C "au_mailbox_id auth" now _ _ "mt_stale_replays t" vis encoded items i]
    by (auto simp: has_replay_def list_ex_iff)
  ultimately show ?thesis using memory_authorised_get [OF auth] by blast
qed

lemma first_live_visible: "first_live r now = Some re \<Longrightarrow> re_delivery_id re \<in> set (mb_visible r)"
  by (auto simp: first_live_def find_Some_iff in_set_conv_nth)

lemma fold_forget_fields:
  "mb_expires_at (fold forget_delivery ds r) = mb_expires_at r"
  "mb_deposit_digest (fold forget_delivery ds r) = mb_deposit_digest r"
  "mb_receive_digest (fold forget_delivery ds r) = mb_receive_digest r"
  "mb_acknowledgement_digest (fold forget_delivery ds r) = mb_acknowledgement_digest r"
  by (induction ds arbitrary: r) (simp_all add: forget_delivery_def)

lemma fold_forget_retired:
  assumes "find_accepted r did \<noteq> None" and "did \<in> set dids"
  shows "record_retired (fold forget_delivery dids r) did (mb_expires_at r)"
proof -
  let ?r = "fold forget_delivery dids r"
  have fix_: "forget_delivery did ?r = ?r" by (rule fold_forget_forgets [OF assms(2)])
  obtain a where "find_accepted ?r did = Some a"
    using assms(1) lost_only_fold_forget [of r dids] unfolding lost_only_def by (metis not_None_eq)
  then have "find_accepted ?r did = Some (a \<lparr> ma_envelope := None \<rparr>)"
    using find_forget [of did ?r did] fix_ by simp
  moreover have "did \<notin> set (mb_visible (forget_delivery did ?r))" by (simp add: forget_delivery_def)
  ultimately show ?thesis using fix_ by (simp add: record_retired_def fold_forget_fields)
qed

lemma acknowledge_ids_retires:
  assumes "bt_get (mt_mailboxes t) mid = Some r" and "find_accepted r did \<noteq> None" and "did \<in> set dids"
  shows "retired (memory_acknowledge_ids mid r dids t) mid did (mb_expires_at r)"
  using assms(1,3) fold_forget_retired [OF assms(2,3)]
  by (auto simp: retired_def memory_acknowledge_ids_def drop_deliveries_def set_mailbox_def bt_get_update
      has_replay_def list_ex_iff)

lemma bt_update_twice: "bt_update k (\<lambda>_. v) (bt_update k (\<lambda>_. v) m) = bt_update k (\<lambda>_. v) m"
  by (induction m) (auto simp: bt_update_def)

lemma acknowledge_ids_idem:
  "memory_acknowledge_ids mid (fold forget_delivery ds r) ds (memory_acknowledge_ids mid r ds t)
     = memory_acknowledge_ids mid r ds t"
  by (simp add: memory_acknowledge_ids_def fold_forget_idem drop_deliveries_def set_mailbox_def bt_update_twice
      split: option.splits)

text \<open>No operation changes the policy.\<close>

lemma schedule_policy: "mt_policy (snd (schedule mid did action t)) = mt_policy t"
  by (cases action) (auto simp: schedule_def show_copies_def split: option.splits)

lemma memory_deposit_policy:
  assumes "memory_deposit C rng sha256 t g ep env now = (res, t', g')"
  shows "mt_policy t' = mt_policy t"
  using assms
proof (cases rule: memory_deposit_cases)
  case (2 encoded r did r')
  have "mt_policy (snd (schedule (au_mailbox_id ep) did (next_action t)
      ((set_mailbox (au_mailbox_id ep) r' t) \<lparr> mt_actions := tl (mt_actions t) \<rparr>))) = mt_policy t"
    by (simp add: schedule_policy)
  then show ?thesis using 2(5) by (auto split: prod.splits sum.splits)
qed simp

lemma create_mailbox_policy: "mt_policy (fst (snd (create_mailbox rng sha256 t g expires now))) = mt_policy t"
  by (auto simp: create_mailbox_def install_memory_mailbox_def Let_def split: option.splits sum.splits prod.splits if_splits)

lemma memory_apply_policy: "mt_policy (fst (memory_apply C rng sha256 op (t, g))) = mt_policy t"
proof (cases op)
  case (CreateMailbox expires now)
  then show ?thesis by (simp add: create_mailbox_policy)
next
  case (MemoryDeposit ep env now)
  then show ?thesis using memory_deposit_policy by (metis memory_apply.simps(8) prod.collapse)
next
  case (ReleaseHeld i now)
  then show ?thesis by (auto simp: release_held_def split: prod.splits option.splits)
next
  case (ReplayStale auth did env)
  then show ?thesis by (auto simp: replay_stale_def Let_def split: sum.splits option.splits)
next
  case (MemoryReceive auth now)
  then show ?thesis by (cases rule: after_receive_cases [of sha256 auth now t]) simp_all
next
  case (MemoryAcknowledge auth d now)
  obtain res t' where a: "memory_acknowledge sha256 t auth d now = (res, t')" by fastforce
  from a have "mt_policy t' = mt_policy t"
    by (cases rule: memory_acknowledge_effect) (simp_all add: memory_acknowledge_ids_def drop_deliveries_def)
  then show ?thesis by (simp add: MemoryAcknowledge a)
next
  case (DispatchDeposit ep req ctl)
  obtain res t' g' ctl' where d: "dispatch_deposit C rng sha256 (t, g) ep req ctl = (res, (t', g'), ctl')"
    by (metis prod.collapse)
  from d have "mt_policy t' = mt_policy t"
    by (cases rule: dispatch_deposit_effect) (simp_all add: memory_deposit_policy)
  then show ?thesis by (simp add: DispatchDeposit d)
next
  case (DispatchPoll auth req ctl)
  obtain res t' ctl' where p: "dispatch_poll C sha256 t auth req ctl = (res, t', ctl')" by (metis prod.collapse)
  from p have "mt_policy t' = mt_policy t"
    by (cases rule: dispatch_poll_effect) (simp_all add: same_mail_def settle_poll_polled)
  then show ?thesis by (simp add: DispatchPoll p)
next
  case (DispatchAcknowledge auth dids budget ctl)
  obtain res t' ctl' where a: "dispatch_acknowledge sha256 t auth dids budget ctl = (res, t', ctl')" by (metis prod.collapse)
  from a have "mt_policy t' = mt_policy t"
    by (cases rule: dispatch_acknowledge_effect) (simp_all add: same_mail_def memory_acknowledge_ids_def drop_deliveries_def)
  then show ?thesis by (simp add: DispatchAcknowledge a)
qed (use flags_same_mail in \<open>simp_all add: same_mail_def queue_action_def\<close>)

lemma memory_run_policy: "mt_policy (fst (memory_run C rng sha256 ops s)) = mt_policy (fst s)"
  unfolding memory_run_def
proof (induction ops arbitrary: s)
  case (Cons op ops)
  show ?case using Cons.IH [of "memory_apply C rng sha256 op s"] memory_apply_policy [of C rng sha256 op "fst s" "snd s"]
    by simp
qed simp

lemma sum_bounded: "(\<And>x. x \<in> set xs \<Longrightarrow> f x \<le> k) \<Longrightarrow> sum_list (map f xs) \<le> length xs * (k :: nat)"
  by (induction xs) (auto simp: add_mono)

lemma concat_sum: "sum_list (concat (map f xs)) = sum_list (map (\<lambda>x. sum_list (f x)) xs)" for f :: "'a \<Rightarrow> nat list"
  by (induction xs) auto

section \<open>Concrete values\<close>

definition ex_memory_policy :: memory_mailbox_policy where
  "ex_memory_policy = \<lparr> yp_maximum_lifetime = 1000, yp_maximum_live_mailboxes = 4, yp_maximum_envelopes = 2,
     yp_maximum_attempts = 2, yp_maximum_scheduled = 8 \<rparr>"

text \<open>One mailbox, with what it accepted and what is visible.\<close>

definition ex_memory_record :: "(ident, memory_accepted) btree_map \<Rightarrow> ident list \<Rightarrow> memory_mailbox_record" where
  "ex_memory_record accepted visible = \<lparr> mb_expires_at = 300,
     mb_deposit_digest = domain_digest ex_sha DEPOSIT_DOMAIN (replicate 32 10),
     mb_receive_digest = domain_digest ex_sha RECEIVE_DOMAIN (replicate 32 11),
     mb_acknowledgement_digest = domain_digest ex_sha ACKNOWLEDGEMENT_DOMAIN (replicate 32 12),
     mb_accepted = accepted, mb_visible = visible \<rparr>"

definition ex_memory :: "(ident \<times> memory_mailbox_record) list \<Rightarrow> memory_transport" where
  "ex_memory mailboxes = \<lparr> mt_policy = ex_memory_policy, mt_instance_id = replicate 16 8, mt_mailboxes = mailboxes,
     mt_actions = [], mt_held = [], mt_stale_replays = [], mt_availability = MemoryAvailable,
     mt_corrupt_next_poll = None, mt_acknowledgement_loss = None \<rparr>"

definition ex_memory_accepted :: "opaque_envelope option \<Rightarrow> memory_accepted" where
  "ex_memory_accepted e = \<lparr> ma_digest = domain_digest ex_sha ENVELOPE_DOMAIN ex_welcome,
     ma_encoded_len = length ex_welcome, ma_delivery_id = replicate 16 13, ma_envelope = e, ma_attempts = 1 \<rparr>"

definition ex_memory_authority :: "u8 \<Rightarrow> memory_authority" where
  "ex_memory_authority s = \<lparr> au_transport_instance_id = replicate 16 8, au_mailbox_id = replicate 16 9,
     au_secret = replicate 32 s, au_expires_at = 300 \<rparr>"

definition ex_delivered :: memory_transport where
  "ex_delivered = ex_memory [(replicate 16 9,
     ex_memory_record [(replicate 16 7, ex_memory_accepted (Some ex_envelope))] [replicate 16 13])]"

definition ex_settled :: memory_transport where
  "ex_settled = ex_memory [(replicate 16 9,
     ex_memory_record [(replicate 16 7, ex_memory_accepted None)] [])]"

lemmas ex_memory_defs = ex_memory_policy_def ex_memory_record_def ex_memory_def ex_memory_accepted_def
  ex_memory_authority_def ex_delivered_def ex_settled_def ex_rng_def memory_random_nonzero_def IDENTIFIER_BYTES_def
  CAPABILITY_BYTES_def bt_get_def bt_update_def set_mailbox_def memory_secret_matches_def all_zero_replicate

lemma ex_memory_policy_new: "MemoryMailboxPolicy_new 1000 4 2 2 = Inr ex_memory_policy"
  by (simp add: MemoryMailboxPolicy_new_def ex_memory_policy_def MAX_MEMORY_MAILBOX_LIFETIME_SECONDS_def
      MAX_MEMORY_LIVE_MAILBOXES_def MAX_MEMORY_ENVELOPES_PER_MAILBOX_def MAX_MEMORY_DELIVERY_ATTEMPTS_PER_ENVELOPE_def)

lemma ex_memory_new: "DeterministicMemoryTransport_new ex_rng ex_memory_policy 8 = (Inr (ex_memory []), 9)"
  by (simp add: DeterministicMemoryTransport_new_def ex_memory_defs)

lemma ex_memory_create:
  "create_mailbox ex_rng ex_sha (ex_memory []) 9 300 100 =
     (Inr \<lparr> mx_deposit = ex_memory_authority 10, mx_receive = ex_memory_authority 11,
            mx_acknowledgement = ex_memory_authority 12 \<rparr>,
      ex_memory [(replicate 16 9, ex_memory_record [] [])], 13)"
  by (simp add: create_mailbox_def checked_sub_def install_memory_mailbox_def memory_authority_for_def bt_values_def
      bt_retain_def ex_memory_defs)

lemma ex_envelope_parts: "env_expires_at ex_envelope = 200" "envelope_id ex_envelope = replicate 16 7"
  by (simp_all add: ex_envelope_def)

lemma ex_memory_deposit:
  "memory_deposit rfc_cbor ex_rng ex_sha (ex_memory [(replicate 16 9, ex_memory_record [] [])]) 13
     (ex_memory_authority 10) ex_envelope 120 = (Inr (replicate 16 13), ex_delivered, 14)"
  using ex_welcome_ok(3)
  by (simp add: memory_deposit_def ex_welcome_encoded accept_envelope_def over_scheduled_def usize_saturating_add_def
      scheduled_count_def next_action_def schedule_def show_copies_def exceeds_retained_def checked_sum_def live_lens_def
      MAX_MEMORY_RETAINED_CANONICAL_BYTES_PER_MAILBOX_def DeliveryId_from_provider_bytes_def find_accepted_def
      bt_values_def ex_envelope_parts ex_memory_defs)

lemma ex_memory_run:
  "memory_run rfc_cbor ex_rng ex_sha
     [CreateMailbox 300 100, MemoryDeposit (ex_memory_authority 10) ex_envelope 120 :: unit memory_op] (ex_memory [], 9)
     = (ex_delivered, 14)"
  by (simp add: memory_run_def ex_memory_create ex_memory_deposit)

lemma ex_memory_settle:
  "memory_acknowledge_ids (replicate 16 9)
     (ex_memory_record [(replicate 16 7, ex_memory_accepted (Some ex_envelope))] [replicate 16 13])
     [replicate 16 13] ex_delivered = ex_settled"
  by (simp add: memory_acknowledge_ids_def drop_deliveries_def forget_delivery_def ex_memory_defs)

lemma ex_memory_authorised:
  "memory_authorised ex_sha ex_delivered (ex_memory_authority 12) ACKNOWLEDGEMENT_DOMAIN mb_acknowledgement_digest 120 =
     Inr (ex_memory_record [(replicate 16 7, ex_memory_accepted (Some ex_envelope))] [replicate 16 13])"
  by (simp add: memory_authorised_def ex_memory_defs)

lemma ex_delivered_flags: "mt_availability ex_delivered = MemoryAvailable" "mt_acknowledgement_loss ex_delivered = None"
    "ex_delivered \<lparr> mt_acknowledgement_loss := None \<rparr> = ex_delivered"
    "au_mailbox_id (ex_memory_authority s) = replicate 16 9"
  by (simp_all add: ex_memory_defs)

lemma ex_memory_acknowledge:
  "dispatch_acknowledge ex_sha ex_delivered (ex_memory_authority 12) [replicate 16 13] ex_budget ex_control
     = (Inr (), ex_settled, ex_control)"
  by (simp add: dispatch_acknowledge_def ex_checkpoint ex_control_rest ex_memory_authorised ex_delivered_flags
      ex_memory_settle)

section \<open>Receiving\<close>

text \<open>
  C13: The receive loop ends. Whatever the mailbox holds, \<open>receive\<close> returns: with the first delivery
  of the visible queue whose envelope is present and has not expired, or with nothing when there is
  none, if the authority names a mailbox of this transport, has not expired and has its secret; and
  otherwise with a rejection that changes nothing.
\<close>

theorem receive_returns:
  "\<exists>res t'. memory_receive sha256 t auth now = Some (res, t')
     \<and> (case memory_authorised sha256 t auth RECEIVE_DOMAIN mb_receive_digest now of
          Inl _ \<Rightarrow> res = Inl MemoryRejected \<and> t' = t
        | Inr r \<Rightarrow> res = Inr (first_live r now))"
proof (cases "memory_authorised sha256 t auth RECEIVE_DOMAIN mb_receive_digest now")
  case (Inl f)
  then have "memory_receive sha256 t auth now = Some (Inl MemoryRejected, t)"
    by (auto simp: memory_receive_def memory_authorised_def split: if_splits option.splits)
  with Inl show ?thesis by simp
next
  case (Inr r)
  obtain r' where "receive_loop now r = Some (first_live r now, r')" using receive_loop_returns by blast
  with Inr have "memory_receive sha256 t auth now = Some (Inr (first_live r now), set_mailbox (au_mailbox_id auth) r' t)"
    by (auto simp: memory_receive_def memory_authorised_def ok_iff split: if_splits)
  with Inr show ?thesis by simp
qed

text \<open>
  C14: An acknowledged delivery is not handed out again. Once the asynchronous \<open>acknowledge\<close> of a
  reachable transport has succeeded for a delivery its mailbox accepted, then after any further
  operations, up to the mailbox's expiry and with no stale replay of that delivery injected, neither
  \<open>receive\<close> nor \<open>poll\<close> on that mailbox returns it: not from a held copy released later, from a duplicate,
  or from a repeated deposit.
\<close>

theorem acknowledged_stays_acknowledged:
  assumes "MemoryMailboxPolicy_new lifetime live envelopes attempts = Inr policy"
    and "DeterministicMemoryTransport_new rng policy g0 = (Inr t0, g1)"
    and "memory_run C rng sha256 before (t0, g1) = (t, g)"
    and "dispatch_acknowledge sha256 t auth dids budget ctl = (Inr (), t1, ctl1)" and "did \<in> set dids"
    and "bt_get (mt_mailboxes t) (au_mailbox_id auth) = Some r" and "find_accepted r did \<noteq> None"
    and "list_all (op_spares (au_mailbox_id auth) did (mb_expires_at r)) later"
    and "memory_run C rng sha256 later (t1, g) = (t2, g2)"
    and "au_mailbox_id reader = au_mailbox_id auth"
  shows "(memory_receive sha256 t2 reader now = Some (Inr (Some received), t3) \<longrightarrow> re_delivery_id received \<noteq> did)
    \<and> (dispatch_poll C sha256 t2 reader request ctl2 = (Inr batch, t4, ctl3) \<longrightarrow>
         did \<notin> rc_delivery_id ` set (rb_items batch))"
proof -
  have inv: "memory_inv t"
    using memory_run_inv [of "(t0, g1)" C rng sha256 before] new_inv [OF assms(1,2)] assms(3) by simp
  have "memory_inv t1 \<and> retired t1 (au_mailbox_id auth) did (mb_expires_at r)"
    using assms(4)
  proof (cases rule: dispatch_acknowledge_effect)
    case (2 r0)
    have loss: "memory_inv (t \<lparr> mt_acknowledgement_loss := None \<rparr>)" by (rule same_mail_inv [OF _ inv]) simp
    show ?thesis using 2 assms(5-7) memory_acknowledge_ids_inv [OF loss] acknowledge_ids_retires by simp
  qed simp
  then have "retired t2 (au_mailbox_id auth) did (mb_expires_at r)"
    using memory_run_retired [of "(t1, g)" _ _ _ later C rng sha256] assms(8,9) by simp
  then obtain r2 where r2: "bt_get (mt_mailboxes t2) (au_mailbox_id reader) = Some r2" "did \<notin> set (mb_visible r2)"
    and rep: "\<not> has_replay t2 (au_mailbox_id reader) did"
    by (auto simp: retired_def record_retired_def assms(10))
  have "re_delivery_id received \<noteq> did" if "memory_receive sha256 t2 reader now = Some (Inr (Some received), t3)"
    using that r2 by (cases rule: memory_receive_cases [of sha256 t2 reader now]) (auto dest: first_live_visible)
  moreover have "did \<notin> rc_delivery_id ` set (rb_items batch)"
    if "dispatch_poll C sha256 t2 reader request ctl2 = (Inr batch, t4, ctl3)"
    using poll_batch_source [OF that] r2 rep by fastforce
  ultimately show ?thesis by blast
qed

lemma ex_memory_redeposit:
  "memory_deposit rfc_cbor ex_rng ex_sha ex_settled 14 (ex_memory_authority 10) ex_envelope 120 =
     (Inr (replicate 16 13), ex_settled, 14)"
  by (simp add: memory_deposit_def ex_welcome_encoded accept_envelope_def over_scheduled_def usize_saturating_add_def
      scheduled_count_def next_action_def ex_envelope_parts ex_memory_defs)

lemma ex_memory_rerun:
  "memory_run rfc_cbor ex_rng ex_sha [MemoryDeposit (ex_memory_authority 10) ex_envelope 120 :: unit memory_op] (ex_settled, 14)
     = (ex_settled, 14)"
  by (simp add: memory_run_def ex_memory_redeposit)

lemma ex_memory_get:
  "bt_get (mt_mailboxes ex_delivered) (au_mailbox_id (ex_memory_authority s)) =
     Some (ex_memory_record [(replicate 16 7, ex_memory_accepted (Some ex_envelope))] [replicate 16 13])"
  by (simp add: ex_memory_defs)

definition ex_poll :: "unit poll_request" where
  "ex_poll = \<lparr> pr_cursor = None, pr_receive_binding = None, pr_max_envelopes = 4, pr_max_encoded_bytes = 65536,
     pr_wait = 0, pr_budget = ex_budget \<rparr>"

text \<open>Before the acknowledgement the poll returns the delivery; after it, an empty batch.\<close>

lemma ex_memory_poll:
  "\<exists>t'. dispatch_poll rfc_cbor ex_sha ex_settled (ex_memory_authority 11) ex_poll ex_control =
     (Inr \<lparr> rb_items = [], rb_next_cursor = None, rb_receive_binding = None \<rparr>, t', ex_control)"
  by (simp add: dispatch_poll_def ex_poll_def ex_checkpoint ex_control_rest memory_authorised_def
      corrupt_target_is_visible_def poll_items_def ReceiveBatch_new_def Let_def ex_memory_defs)

theorem acknowledged_stays_acknowledged_witness:
  "\<exists>t'. dispatch_poll rfc_cbor ex_sha ex_settled (ex_memory_authority 11) ex_poll ex_control =
     (Inr \<lparr> rb_items = [], rb_next_cursor = None, rb_receive_binding = None \<rparr>, t', ex_control)
     \<and> replicate 16 13 \<notin> rc_delivery_id ` set (rb_items
          \<lparr> rb_items = [], rb_next_cursor = None, rb_receive_binding = (None :: unit option) \<rparr>)"
proof -
  obtain t' where p: "dispatch_poll rfc_cbor ex_sha ex_settled (ex_memory_authority 11) ex_poll ex_control =
      (Inr \<lparr> rb_items = [], rb_next_cursor = None, rb_receive_binding = None \<rparr>, t', ex_control)"
    using ex_memory_poll by blast
  have spares: "list_all (op_spares (au_mailbox_id (ex_memory_authority 12)) (replicate 16 13) (mb_expires_at
      (ex_memory_record [(replicate 16 7, ex_memory_accepted (Some ex_envelope))] [replicate 16 13])))
      [MemoryDeposit (ex_memory_authority 10) ex_envelope 120 :: unit memory_op]" by simp
  have accepted: "find_accepted (ex_memory_record [(replicate 16 7, ex_memory_accepted (Some ex_envelope))] [replicate 16 13])
      (replicate 16 13) \<noteq> None" by (simp add: find_accepted_def bt_values_def ex_memory_defs)
  have "replicate 16 13 \<notin> rc_delivery_id ` set (rb_items
      \<lparr> rb_items = [], rb_next_cursor = None, rb_receive_binding = (None :: unit option) \<rparr>)"
    using acknowledged_stays_acknowledged [OF ex_memory_policy_new ex_memory_new ex_memory_run ex_memory_acknowledge _
        ex_memory_get accepted spares ex_memory_rerun, of "ex_memory_authority 11" 120 undefined undefined ex_poll ex_control]
      p by (simp add: ex_delivered_flags)
  with p show ?thesis by blast
qed

section \<open>Bounds\<close>

lemma live_lens_length: "length (live_lens r) \<le> length (mb_accepted r)"
  using length_filter_le [of "\<lambda>a. ma_envelope a \<noteq> None" "bt_values (mb_accepted r)"]
  by (simp add: live_lens_def bt_values_def)

text \<open>
  C33: The transport stays within its policy. In every state reached from the constructor by any
  sequence of operations and injected faults, the mailboxes, the queued actions and, for each
  mailbox, the accepted envelopes, their attempts, their retained bytes, the scheduled copies and the
  stale replays are within the bounds the policy was built with. Every held copy and every stale replay
  belongs to a mailbox the transport still has, so every total that \<open>conformance_snapshot\<close> reports, of
  live envelopes and their bytes, of visible and held copies, of queued actions and of queued stale
  replays, is bounded too.
\<close>

theorem memory_transport_is_bounded:
  assumes "MemoryMailboxPolicy_new lifetime live envelopes attempts = Inr policy"
    and "DeterministicMemoryTransport_new rng policy g0 = (Inr t0, g1)"
    and "memory_run C rng sha256 ops (t0, g1) = (t, g)"
  shows "length (mt_mailboxes t) \<le> live \<and> length (mt_actions t) \<le> attempts
    \<and> (\<forall>mid r. bt_get (mt_mailboxes t) mid = Some r \<longrightarrow> length (mb_accepted r) \<le> envelopes
        \<and> (\<forall>a \<in> set (bt_values (mb_accepted r)). ma_attempts a \<le> attempts)
        \<and> sum_list (live_lens r) \<le> 4194304 \<and> scheduled_count t mid \<le> 2 * envelopes * attempts)
    \<and> (\<forall>mid. length (filter (\<lambda>s. sr_mailbox_id s = mid) (mt_stale_replays t)) \<le> 2 * envelopes * attempts
        \<and> sum_list (map sr_encoded_len (filter (\<lambda>s. sr_mailbox_id s = mid) (mt_stale_replays t))) \<le> 4194304)
    \<and> (\<forall>h \<in> set (mt_held t). bt_get (mt_mailboxes t) (fst h) \<noteq> None)
    \<and> (\<forall>s \<in> set (mt_stale_replays t). bt_get (mt_mailboxes t) (sr_mailbox_id s) \<noteq> None)
    \<and> cs_live_envelopes (conformance_snapshot t) \<le> live * envelopes
    \<and> cs_live_encoded_bytes (conformance_snapshot t) \<le> live * 4194304
    \<and> cs_visible_copies (conformance_snapshot t) \<le> live * (2 * envelopes * attempts)
    \<and> cs_held_copies (conformance_snapshot t) \<le> live * (2 * envelopes * attempts)
    \<and> cs_queued_delivery_actions (conformance_snapshot t) \<le> attempts
    \<and> cs_queued_stale_replays (conformance_snapshot t) \<le> live * (2 * envelopes * attempts)"
proof -
  have inv: "memory_inv t"
    using memory_run_inv [of "(t0, g1)" C rng sha256 ops] new_inv [OF assms(1,2)] assms(3) by simp
  have "mt_policy t0 = policy"
    using assms(2) by (auto simp: DeterministicMemoryTransport_new_def split: prod.splits sum.splits)
  then have pol: "mt_policy t = policy"
    using memory_run_policy [of C rng sha256 ops "(t0, g1)"] assms(3) by simp
  have p: "yp_maximum_live_mailboxes policy = live" "yp_maximum_envelopes policy = envelopes"
    "yp_maximum_attempts policy = attempts" "yp_maximum_scheduled policy = 2 * envelopes * attempts"
    using assms(1) by (auto simp: MemoryMailboxPolicy_new_def split: if_splits)
  have mailbox: "length (mb_accepted r) \<le> envelopes \<and> (\<forall>a \<in> set (bt_values (mb_accepted r)). ma_attempts a \<le> attempts)
      \<and> sum_list (live_lens r) \<le> 4194304 \<and> scheduled_count t mid \<le> 2 * envelopes * attempts"
    if "bt_get (mt_mailboxes t) mid = Some r" for mid r
    using visible_bound [OF inv that] scheduled_count_held [OF that]
    by (simp add: memory_record_ok_def list_all_iff pol p MAX_MEMORY_RETAINED_CANONICAL_BYTES_PER_MAILBOX_def)
  have some: "\<exists>mid. bt_get (mt_mailboxes t) mid = Some r" if "r \<in> set (bt_values (mt_mailboxes t))" for r
    using that inv by (simp add: memory_inv_def bt_values_mem)
  have len: "length (bt_values (mt_mailboxes t)) \<le> live" and lens: "length (mt_mailboxes t) \<le> live"
    using inv by (simp_all add: memory_inv_def pol p bt_values_def)
  have "sum_list (map (\<lambda>r. sum_list (live_lens r)) (bt_values (mt_mailboxes t))) \<le> live * 4194304"
    by (rule le_trans [OF sum_bounded mult_le_mono1 [OF len]]) (use some mailbox in blast)
  moreover have "length (mb_visible r) \<le> 2 * envelopes * attempts" if "r \<in> set (bt_values (mt_mailboxes t))" for r
    using some [OF that] mailbox scheduled_count_held [of t] by (metis add_leE)
  then have "sum_list (map (\<lambda>r. length (mb_visible r)) (bt_values (mt_mailboxes t))) \<le> live * (2 * envelopes * attempts)"
    by (intro le_trans [OF sum_bounded mult_le_mono1 [OF len]])
  moreover have "length (live_lens r) \<le> envelopes" if "r \<in> set (bt_values (mt_mailboxes t))" for r
    using some [OF that] mailbox live_lens_length [of r] le_trans by blast
  then have "sum_list (map (\<lambda>r. length (live_lens r)) (bt_values (mt_mailboxes t))) \<le> live * envelopes"
    by (intro le_trans [OF sum_bounded mult_le_mono1 [OF len]])
  moreover have "length (mt_held t) \<le> live * (2 * envelopes * attempts)"
    and "length (mt_stale_replays t) \<le> live * (2 * envelopes * attempts)"
    using queues_bounded [OF inv] lens unfolding pol p by (meson le_trans mult_le_mono1)+
  moreover have "length (mt_actions t) \<le> attempts" "replays_ok policy (mt_stale_replays t)"
    "\<forall>h \<in> set (mt_held t). bt_get (mt_mailboxes t) (fst h) \<noteq> None"
    "\<forall>s \<in> set (mt_stale_replays t). bt_get (mt_mailboxes t) (sr_mailbox_id s) \<noteq> None"
    using inv by (simp_all add: memory_inv_def pol p)
  ultimately show ?thesis
    using lens mailbox
    by (simp add: conformance_snapshot_def concat_sum length_concat comp_def replays_ok_def Let_def p
        MAX_MEMORY_RETAINED_CANONICAL_BYTES_PER_MAILBOX_def)
qed

theorem memory_transport_is_bounded_witness:
  "length (mt_mailboxes ex_delivered) \<le> 4 \<and> cs_visible_copies (conformance_snapshot ex_delivered) = 1
     \<and> cs_visible_copies (conformance_snapshot ex_delivered) \<le> 32"
  using memory_transport_is_bounded [OF ex_memory_policy_new ex_memory_new ex_memory_run]
  by (simp add: conformance_snapshot_def) (simp add: bt_values_def ex_memory_defs)

section \<open>Failures\<close>

text \<open>
  C35: A failed deposit leaves the transport as it was. The synchronous deposit takes its action off
  the queue and records the envelope before it schedules, and yet whenever it returns an error
  nothing has changed, because its scheduling step cannot fail; the asynchronous deposit changes
  nothing when it fails, unless it is the checkpoint after the accepted deposit that fails.
\<close>

theorem failed_deposit_leaves_transport:
  "(memory_deposit C rng sha256 t g ep env now = (Inl e, t', g') \<longrightarrow> t' = t)
    \<and> (dispatch_deposit C rng sha256 (t, g) ep request ctl = (Inl f, (t'', g''), ctl')
        \<and> is_ok (checkpoint (after_reading ctl) (dr_budget request)) \<longrightarrow> t'' = t)"
proof (intro conjI impI)
  assume d: "dispatch_deposit C rng sha256 (t, g) ep request ctl = (Inl f, (t'', g''), ctl')
    \<and> is_ok (checkpoint (after_reading ctl) (dr_budget request))"
  show "t'' = t"
  proof (rule ccontr)
    assume "t'' \<noteq> t"
    with d obtain env' now' e' where "memory_deposit C rng sha256 t g ep env' now' = (Inl e', t'', g'')"
      by (auto simp: dispatch_deposit_def Let_def is_ok_iff split: if_splits sum.splits prod.splits)
    with \<open>t'' \<noteq> t\<close> show False by (simp add: failed_memory_deposit)
  qed
qed (rule failed_memory_deposit)

theorem failed_deposit_leaves_transport_witness:
  "memory_deposit rfc_cbor ex_rng ex_sha ex_delivered 14 (ex_memory_authority 11) ex_envelope 120
     = (Inl MemoryRejected, ex_delivered, 14)"
proof -
  obtain t' g' where m: "memory_deposit rfc_cbor ex_rng ex_sha ex_delivered 14 (ex_memory_authority 11) ex_envelope 120
      = (Inl MemoryRejected, t', g')" "g' = 14"
    by (simp add: memory_deposit_def ex_welcome_encoded ex_envelope_parts domain_digest_def ex_sha_def ex_memory_defs)
  then show ?thesis
    using failed_deposit_leaves_transport [of rfc_cbor ex_rng ex_sha ex_delivered 14 "ex_memory_authority 11"
        ex_envelope 120 MemoryRejected t' g'] by simp
qed

text \<open>
  C34: A lost acknowledgement can be retried. When an acknowledgement would succeed but its result is
  lost before the commit, only the armed fault is spent and the retry is the acknowledgement itself;
  when it is lost after the commit, the caller sees the same failure, the state is the one a
  successful acknowledgement leaves, and repeating the request succeeds and changes nothing more.
\<close>

theorem lost_acknowledgement_retries:
  assumes "dispatch_acknowledge sha256 (t \<lparr> mt_acknowledgement_loss := None \<rparr>) auth dids budget ctl = (Inr (), t1, ctl1)"
  shows "dispatch_acknowledge sha256 (t \<lparr> mt_acknowledgement_loss := Some BeforeCommit \<rparr>) auth dids budget ctl
        = (Inl (memory_transport_failure Unavailable), t \<lparr> mt_acknowledgement_loss := None \<rparr>, ctl1)
    \<and> dispatch_acknowledge sha256 (t \<lparr> mt_acknowledgement_loss := Some acknowledgement_loss.AfterCommit \<rparr>) auth dids budget ctl
        = (Inl (memory_transport_failure Unavailable), t1, ctl1)
    \<and> dispatch_acknowledge sha256 t1 auth dids budget ctl = (Inr (), t1, ctl1)"
proof -
  let ?ack = "\<lambda>t. memory_authorised sha256 t auth ACKNOWLEDGEMENT_DOMAIN mb_acknowledgement_digest"
  let ?t0 = "t \<lparr> mt_acknowledgement_loss := None \<rparr>" let ?mid = "au_mailbox_id auth"
  have free: "?ack (t \<lparr> mt_acknowledgement_loss := l \<rparr>) = ?ack ?t0" for l
    by (simp add: memory_authorised_def fun_eq_iff)
  obtain obs obs' r0 r where ok: "checkpoint ctl budget = Inr obs" "mt_availability t \<noteq> MemoryUnavailable"
      "?ack ?t0 (do_wall_now obs) = Inr r0" "checkpoint (after_reading ctl) budget = Inr obs'"
      "?ack ?t0 (max (do_wall_now obs) (do_wall_now obs')) = Inr r"
    and t1: "t1 = memory_acknowledge_ids ?mid r dids ?t0" and ctl1: "ctl1 = after_reading (after_reading ctl)"
    using assms by (auto simp: dispatch_acknowledge_def Let_def split: if_splits sum.splits)
  have r: "bt_get (mt_mailboxes ?t0) ?mid = Some r" "r0 = r"
    using memory_authorised_get [OF ok(5)] memory_authorised_get [OF ok(3)] by auto
  have get1: "bt_get (mt_mailboxes t1) ?mid = Some (fold forget_delivery dids r)"
    using r(1) by (simp add: t1 memory_acknowledge_ids_def drop_deliveries_def set_mailbox_def bt_get_update)
  have "mt_instance_id t1 = mt_instance_id t" "mt_availability t1 = mt_availability t" "mt_acknowledgement_loss t1 = None"
    "t1 \<lparr> mt_acknowledgement_loss := None \<rparr> = t1"
    by (simp_all add: t1 memory_acknowledge_ids_def drop_deliveries_def set_mailbox_def)
  note same = this
  have again: "?ack t1 now = Inr (fold forget_delivery dids r)" if "?ack ?t0 now = Inr r" for now
    using that r(1) get1 same(1) by (auto simp: memory_authorised_def fold_forget_fields split: if_splits)
  have settled: "memory_acknowledge_ids ?mid (fold forget_delivery dids r) dids t1 = t1"
    unfolding t1 by (rule acknowledge_ids_idem)
  have "dispatch_acknowledge sha256 t1 auth dids budget ctl = (Inr (), t1, ctl1)"
    by (simp add: dispatch_acknowledge_def ok(1,2,4) same again [OF ok(3) [unfolded r(2)]] again [OF ok(5)] settled ctl1)
  moreover have "dispatch_acknowledge sha256 (t \<lparr> mt_acknowledgement_loss := Some BeforeCommit \<rparr>) auth dids budget ctl
      = (Inl (memory_transport_failure Unavailable), ?t0, ctl1)"
    by (simp add: dispatch_acknowledge_def ok free [of "Some BeforeCommit"] ctl1)
  moreover have "dispatch_acknowledge sha256 (t \<lparr> mt_acknowledgement_loss := Some acknowledgement_loss.AfterCommit \<rparr>)
      auth dids budget ctl = (Inl (memory_transport_failure Unavailable), t1, ctl1)"
    by (simp add: dispatch_acknowledge_def ok free [of "Some acknowledgement_loss.AfterCommit"] ctl1 t1)
  ultimately show ?thesis by blast
qed

theorem lost_acknowledgement_retries_witness:
  "dispatch_acknowledge ex_sha (ex_delivered \<lparr> mt_acknowledgement_loss := Some acknowledgement_loss.AfterCommit \<rparr>)
     (ex_memory_authority 12) [replicate 16 13] ex_budget ex_control
     = (Inl (memory_transport_failure Unavailable), ex_settled, ex_control)
   \<and> dispatch_acknowledge ex_sha ex_settled (ex_memory_authority 12) [replicate 16 13] ex_budget ex_control
     = (Inr (), ex_settled, ex_control)"
  using lost_acknowledgement_retries [of ex_sha ex_delivered "ex_memory_authority 12" "[replicate 16 13]" ex_budget
      ex_control ex_settled ex_control] ex_memory_acknowledge by (simp add: ex_delivered_flags)

end
