(* ===== verification/Profile.thy ===== *)
theory Profile
  imports Transport_Contract Protected_Join
begin

text \<open>
  Transport profiles from \<open>crates/session-transport/src/profile.rs\<close>: adapter manifests, the disclosure of
  the Fast profile, and the two binders that record one selected profile for one adapter. An adapter
  identifier is the byte string that \<open>AdapterId_new\<close> accepted.
\<close>

section \<open>Constants and errors\<close>

definition MANIFEST_VERSION_V1 :: u16 where "MANIFEST_VERSION_V1 = 1"
definition LOCAL_CONFIGURATION_SCHEMA_V1 :: u16 where "LOCAL_CONFIGURATION_SCHEMA_V1 = 1"
definition LOCAL_MAX_ENVELOPE_ENCODED_BYTES :: u32 where "LOCAL_MAX_ENVELOPE_ENCODED_BYTES = 65536"
definition FAST_CONFIGURATION_SCHEMA_V1 :: u16 where "FAST_CONFIGURATION_SCHEMA_V1 = 1"
definition FAST_MAX_ENVELOPE_ENCODED_BYTES :: u32 where "FAST_MAX_ENVELOPE_ENCODED_BYTES = 65536"
definition FAST_MAX_BATCH_ENCODED_BYTES :: u32 where "FAST_MAX_BATCH_ENCODED_BYTES = 192 * 1024"
definition FAST_MAX_BATCH_ENVELOPES :: u16 where "FAST_MAX_BATCH_ENVELOPES = 64"
definition FAST_MAX_CURSOR_BYTES :: u16 where "FAST_MAX_CURSOR_BYTES = 40"
definition MAX_ADAPTER_VERSION_BYTES :: usize where "MAX_ADAPTER_VERSION_BYTES = 64"

datatype binding_error_v1 =
    BindUnsupportedManifestVersion
  | BindUnsupportedProfile
  | BindUnsupportedConfigurationSchema
  | BindInvalidManifest
  | BindManifestMismatch
  | BindInvalidBindingRecord

section \<open>Disclosure\<close>

text \<open>The evidence has no other constructor than a protected join request.\<close>

datatype encrypted_content_evidence_v1 = EncryptedContentEvidenceV1

definition from_protected_join_request :: "protected_join_request \<Rightarrow> encrypted_content_evidence_v1" where
  "from_protected_join_request _ = EncryptedContentEvidenceV1"

datatype content_security_claim_v1 = UnverifiedProducerContent | EndToEndEncrypted

definition unverified_producer_content :: content_security_claim_v1 where
  "unverified_producer_content = UnverifiedProducerContent"

definition end_to_end_encrypted :: "encrypted_content_evidence_v1 \<Rightarrow> content_security_claim_v1" where
  "end_to_end_encrypted _ = EndToEndEncrypted"

fun disclosure :: "content_security_claim_v1 \<Rightarrow> string" where
  "disclosure UnverifiedProducerContent = ''Opaque content this transport does not verify as encrypted''"
| "disclosure EndToEndEncrypted = ''End-to-end encrypted content''"

record fast_profile_disclosure_v1 =
  fd_title :: string
  fd_content_security :: string
  fd_route_behavior :: string
  fd_direct_exposure :: string
  fd_relay_exposure :: string
  fd_discovery_exposure :: string
  fd_availability :: string
  fd_anonymous :: bool
  fd_offline_delivery :: bool

definition fast_disclosure :: "content_security_claim_v1 \<Rightarrow> fast_profile_disclosure_v1" where
  "fast_disclosure claim =
     \<lparr> fd_title = ''Fast'', fd_content_security = disclosure claim,
       fd_route_behavior = ''Uses a direct connection when available and an Iroh relay otherwise.'',
       fd_direct_exposure = ''A direct peer can learn your network address.'',
       fd_relay_exposure = ''An Iroh relay can observe endpoint identifiers, network addresses, timing, and traffic volume.'',
       fd_discovery_exposure = ''Iroh address lookup, DNS, and NAT traversal services can observe connection metadata.'',
       fd_availability = ''Both participants must be online for this experimental adapter.'',
       fd_anonymous = False, fd_offline_delivery = False \<rparr>"

section \<open>Manifests\<close>

definition AdapterVersionV1_new :: "bytes \<Rightarrow> binding_error_v1 + bytes" where
  "AdapterVersionV1_new value =
     (let valid_edge = (value \<noteq> [] \<and> is_ascii_alphanumeric (hd value) \<and> is_ascii_alphanumeric (last value));
          valid_bytes = list_all (\<lambda>b. is_ascii_lowercase b \<or> is_ascii_digit b \<or> b = 46 \<or> b = 45) value in
      if length value > MAX_ADAPTER_VERSION_BYTES \<or> \<not> valid_edge \<or> \<not> valid_bytes
      then Err BindInvalidManifest else Ok value)"

record adapter_limits_v1 =
  li_envelope_encoded_bytes :: u32
  li_batch_encoded_bytes :: u32
  li_batch_envelopes :: u16
  li_cursor_bytes :: u16

definition AdapterLimitsV1_new :: "u32 \<Rightarrow> u32 \<Rightarrow> u16 \<Rightarrow> u16 \<Rightarrow> binding_error_v1 + adapter_limits_v1" where
  "AdapterLimitsV1_new envelope_bytes batch_bytes batch_envelopes cursor_bytes =
     (if envelope_bytes = 0 \<or> batch_bytes = 0 \<or> batch_envelopes = 0 \<or> envelope_bytes > batch_bytes
      then Err BindInvalidManifest
      else Ok \<lparr> li_envelope_encoded_bytes = envelope_bytes, li_batch_encoded_bytes = batch_bytes,
                li_batch_envelopes = batch_envelopes, li_cursor_bytes = cursor_bytes \<rparr>)"

datatype adapter_operations_v1 = DepositOnly | DepositPollAcknowledge

datatype internal_retry_v1 = CoordinatorOnly | AdapterManaged u16

datatype egress_declaration_v1 = EgressNone | AmbientNetwork

datatype background_work_v1 = BackgroundNone | BackgroundDeclared

datatype adapter_execution_v1 = InProcess | IsolatedProcessExecution

datatype enforcement_mode_v1 =
  InProcessNoNetwork | InProcessAmbientNetwork | ScopedNetworkBroker | IsolatedProcessMode

record adapter_manifest_v1 =
  mf_adapter_id :: bytes
  mf_adapter_version :: bytes
  mf_profile :: transport_profile_id
  mf_limits :: adapter_limits_v1
  mf_operations :: adapter_operations_v1
  mf_internal_retry :: internal_retry_v1
  mf_egress :: egress_declaration_v1
  mf_background_work :: background_work_v1
  mf_execution :: adapter_execution_v1
  mf_configuration_schema_version :: u16

definition AdapterManifestV1_new ::
    "u16 \<Rightarrow> bytes \<Rightarrow> bytes \<Rightarrow> transport_profile_id \<Rightarrow> adapter_limits_v1 \<Rightarrow> adapter_operations_v1
      \<Rightarrow> internal_retry_v1 \<Rightarrow> egress_declaration_v1 \<Rightarrow> background_work_v1 \<Rightarrow> adapter_execution_v1 \<Rightarrow> u16
      \<Rightarrow> binding_error_v1 + adapter_manifest_v1" where
  "AdapterManifestV1_new version aid aversion profile limits operations retry egress background execution schema =
     (if version \<noteq> MANIFEST_VERSION_V1 then Err BindUnsupportedManifestVersion
      else if schema = 0 \<or> retry = AdapterManaged 0 then Err BindInvalidManifest
      else Ok \<lparr> mf_adapter_id = aid, mf_adapter_version = aversion, mf_profile = profile, mf_limits = limits,
                mf_operations = operations, mf_internal_retry = retry, mf_egress = egress,
                mf_background_work = background, mf_execution = execution,
                mf_configuration_schema_version = schema \<rparr>)"

section \<open>Binding\<close>

record transport_binding_record_v1 =
  tb_profile :: transport_profile_id
  tb_adapter_id :: bytes
  tb_adapter_version :: bytes
  tb_configuration_fingerprint :: bytes
  tb_enforcement :: enforcement_mode_v1
  tb_selected_at :: u64

definition bind_transport_v1 ::
    "transport_profile_id \<Rightarrow> adapter_manifest_v1 \<Rightarrow> bytes \<Rightarrow> enforcement_mode_v1 \<Rightarrow> u64
      \<Rightarrow> binding_error_v1 + transport_binding_record_v1" where
  "bind_transport_v1 selected m fingerprint enforcement selected_at =
     (if selected \<noteq> LocalV1 then Err BindUnsupportedProfile
      else if mf_configuration_schema_version m \<noteq> LOCAL_CONFIGURATION_SCHEMA_V1
      then Err BindUnsupportedConfigurationSchema
      else if mf_profile m \<noteq> selected
         \<or> li_envelope_encoded_bytes (mf_limits m) \<noteq> LOCAL_MAX_ENVELOPE_ENCODED_BYTES
         \<or> li_batch_encoded_bytes (mf_limits m) \<noteq> MAX_POLL_ENCODED_BYTES
         \<or> li_batch_envelopes (mf_limits m) \<noteq> MAX_POLL_ENVELOPES
         \<or> li_cursor_bytes (mf_limits m) \<noteq> 0
         \<or> mf_operations m \<noteq> DepositPollAcknowledge
         \<or> mf_internal_retry m \<noteq> CoordinatorOnly
         \<or> mf_egress m \<noteq> EgressNone
         \<or> mf_background_work m \<noteq> BackgroundNone
         \<or> mf_execution m \<noteq> InProcess
         \<or> enforcement \<noteq> InProcessNoNetwork
      then Err BindManifestMismatch
      else if all_zero fingerprint \<or> selected_at = 0 then Err BindInvalidBindingRecord
      else Ok \<lparr> tb_profile = selected, tb_adapter_id = mf_adapter_id m, tb_adapter_version = mf_adapter_version m,
                tb_configuration_fingerprint = fingerprint, tb_enforcement = enforcement,
                tb_selected_at = selected_at \<rparr>)"

definition bind_fast_transport_v1 ::
    "adapter_manifest_v1 \<Rightarrow> bytes \<Rightarrow> u64 \<Rightarrow> binding_error_v1 + transport_binding_record_v1" where
  "bind_fast_transport_v1 m fingerprint selected_at =
     (if mf_configuration_schema_version m \<noteq> FAST_CONFIGURATION_SCHEMA_V1
      then Err BindUnsupportedConfigurationSchema
      else if mf_profile m \<noteq> FastV1
         \<or> li_envelope_encoded_bytes (mf_limits m) \<noteq> FAST_MAX_ENVELOPE_ENCODED_BYTES
         \<or> li_batch_encoded_bytes (mf_limits m) \<noteq> FAST_MAX_BATCH_ENCODED_BYTES
         \<or> li_batch_envelopes (mf_limits m) \<noteq> FAST_MAX_BATCH_ENVELOPES
         \<or> li_cursor_bytes (mf_limits m) \<noteq> FAST_MAX_CURSOR_BYTES
         \<or> mf_operations m \<noteq> DepositPollAcknowledge
         \<or> mf_internal_retry m \<noteq> CoordinatorOnly
         \<or> mf_egress m \<noteq> AmbientNetwork
         \<or> mf_background_work m \<noteq> BackgroundDeclared
         \<or> mf_execution m \<noteq> InProcess
      then Err BindManifestMismatch
      else if all_zero fingerprint \<or> selected_at = 0 then Err BindInvalidBindingRecord
      else Ok \<lparr> tb_profile = FastV1, tb_adapter_id = mf_adapter_id m, tb_adapter_version = mf_adapter_version m,
                tb_configuration_fingerprint = fingerprint, tb_enforcement = InProcessAmbientNetwork,
                tb_selected_at = selected_at \<rparr>)"

section \<open>What a binding says\<close>

text \<open>
  The network access a binding records is the one its manifest declares: a binding of the local
  profile is to an adapter that declares no egress and no background work, and a binding of the Fast
  profile is to one that declares ambient network access, and is recorded as such.
\<close>

lemma local_binding_has_no_network:
  assumes "bind_transport_v1 selected m fp enforcement at = Inr b"
  shows "tb_profile b = LocalV1 \<and> mf_profile m = LocalV1 \<and> mf_egress m = EgressNone
    \<and> mf_background_work m = BackgroundNone \<and> tb_enforcement b = InProcessNoNetwork"
  using assms by (auto simp: bind_transport_v1_def split: if_splits)

lemma fast_binding_is_disclosed:
  assumes "bind_fast_transport_v1 m fp at = Inr b"
  shows "tb_profile b = FastV1 \<and> mf_profile m = FastV1 \<and> mf_egress m = AmbientNetwork
    \<and> tb_enforcement b = InProcessAmbientNetwork"
  using assms by (auto simp: bind_fast_transport_v1_def split: if_splits)

text \<open>No manifest can be bound under both profiles, so a binding never falls back to the other one.\<close>

lemma profiles_exclude_each_other:
  "bind_transport_v1 selected m fp enforcement at = Inr b \<Longrightarrow> bind_fast_transport_v1 m fp' at' \<noteq> Inr b'"
  using local_binding_has_no_network [of selected m fp enforcement at b] fast_binding_is_disclosed [of m fp' at' b']
  by auto

text \<open>The limits a binding accepts are limits of the transport contract.\<close>

lemma bound_limits_are_contract_limits:
  assumes "bind_transport_v1 selected m fp enforcement at = Inr b \<or> bind_fast_transport_v1 m fp' at' = Inr b'"
  shows "li_batch_encoded_bytes (mf_limits m) \<le> MAX_POLL_ENCODED_BYTES
    \<and> li_batch_envelopes (mf_limits m) \<le> MAX_POLL_ENVELOPES
    \<and> unat (li_cursor_bytes (mf_limits m)) \<le> MAX_CURSOR_BYTES
    \<and> li_envelope_encoded_bytes (mf_limits m) \<le> li_batch_encoded_bytes (mf_limits m)"
  using assms
  by (auto simp: bind_transport_v1_def bind_fast_transport_v1_def MAX_POLL_ENCODED_BYTES_def MAX_POLL_ENVELOPES_def
      MAX_CURSOR_BYTES_def LOCAL_MAX_ENVELOPE_ENCODED_BYTES_def FAST_MAX_ENVELOPE_ENCODED_BYTES_def
      FAST_MAX_BATCH_ENCODED_BYTES_def FAST_MAX_BATCH_ENVELOPES_def FAST_MAX_CURSOR_BYTES_def split: if_splits)

text \<open>Only the claim that needs evidence discloses end-to-end encryption.\<close>

lemma disclosed_encryption_needs_evidence:
  "fd_content_security (fast_disclosure claim) = ''End-to-end encrypted content'' \<longleftrightarrow>
     (\<exists>evidence. claim = end_to_end_encrypted evidence)"
  by (cases claim) (simp_all add: fast_disclosure_def end_to_end_encrypted_def)

end
