(* ===== verification/Spec2Isabelle.thy ===== *)
theory Spec2Isabelle
  imports Registry_Properties Delivery_Properties Receive_Properties Vault_Properties
    Hpke_Properties Mls_Properties Admission_Properties Memory_Properties Profile
begin

text \<open>
  A verification library for session-chat, a Rust workspace for small end-to-end encrypted sessions
  that a participant joins through a signed, single-use invitation.

  \<^bold>\<open>The program.\<close> An inviter issues a signed invitation (\<open>crates/session-protocol\<close>) and tracks it in
  a registry (\<open>crates/session-core\<close>). A joiner answers with a join request that names a
  response endpoint, sealed under the invitation's capability (\<open>crates/session-crypto-hpke\<close>). The inviter
  opens it, verifies it, reserves the invitation, waits for approval and adds the joiner to a
  two-member MLS group (\<open>crates/admission-capability\<close>, \<open>crates/session-crypto-mls\<close>), and commits the join
  in one transaction (\<open>crates/session-inviter-transaction\<close>) that consumes the reservation, records the new MLS state
  and queues the encrypted Welcome in an outbox. The delivery coordinator
  (\<open>crates/session-transport/src/coordinator.rs\<close>) leases queued Welcomes, deposits them in the
  joiner's mailbox (\<open>crates/session-transport/src/lib.rs\<close>) and reports the result to the outbox.
  Reusable mailboxes (\<open>lifecycle.rs\<close>) have generations that a provider issues and rotates. A receive
  owner (\<open>receive_state.rs\<close>) polls them through cursors, stores each page and its cursor in one step,
  and only then lets deliveries be acknowledged; \<open>crates/transport-conformance\<close> has the reference
  provider and the reference owner, and \<open>crates/transport-memory\<close> is the transport of the adverse tests,
  with controllable faults. Secrets of a session are usable only while its vault
  (\<open>crates/session-storage\<close>) is open; a sealed vault still accepts opaque envelopes.

  \<^bold>\<open>Conventions.\<close> \<open>Prelude\<close> has the shared vocabulary: \<open>u8\<close> to \<open>u64\<close> are words of that width and
  checked, saturating and wrapping arithmetic is written out; a \<open>usize\<close> is a natural number where
  only sizes of data in memory reach it; a \<open>Result\<close> is a sum with \<open>Err\<close> on the left; a \<open>BTreeMap\<close> is
  a strictly sorted association list with the laws of the locale \<open>keyed_store\<close>. A fixed-size byte
  array is a list whose length the well-formedness predicates fix. A mutating method takes the
  state and returns the result with the new state, on error paths too. Zeroing of memory on drop and
  redacted debug output have no counterpart.

  \<^bold>\<open>Theories and the code they model.\<close>
  \<^item> \<open>Cbor\<close>: the interface of the CBOR library as the record \<open>cbor\<close> and the locale \<open>cbor_library\<close> (every
    item that fits is encoded, what was encoded is read back, shortest form), with the concrete
    RFC 8949 codec \<open>rfc_cbor\<close> as an instance.
  \<^item> \<open>Wire\<close>: \<open>session-protocol/src/lib.rs\<close>, the opaque envelope, the errors and the decoding helpers of
    \<open>protected_join.rs\<close>. Locale \<open>canonical_codec\<close> states what a canonical codec promises.
  \<^item> \<open>Invitation\<close>: \<open>session-protocol/src/invitation.rs\<close>, invitations of both versions. Ed25519 is the
    parameter record \<open>ed25519\<close>; what is relied on is \<open>ed_honest\<close> (a signature made with a key verifies
    under its public key) and \<open>ed_keeps_bytes\<close> (a parsed key keeps its bytes).
  \<^item> \<open>Protected_Join\<close>: \<open>session-protocol/src/protected_join.rs\<close>, the join objects and the deposit endpoint.
  \<^item> \<open>Registry\<close>: \<open>session-core/src/lib.rs\<close>, the invitation registry.
  \<^item> \<open>Outbox_Port\<close>: \<open>session-transport/src/outbox_port.rs\<close>; the trait is the locale \<open>welcome_outbox_port\<close>.
  \<^item> \<open>Inviter_Store\<close>: \<open>session-inviter-transaction/src/lib.rs\<close>, the in-memory transaction store with its
    fault points and its outbox. \<open>Inviter_Invariants\<close> has its step relation and invariant and
    interprets the port on it.
  \<^item> \<open>Transport_Contract\<close>: \<open>session-transport/src/contract.rs\<close> and the checkpoint of \<open>dispatch.rs\<close>.
  \<^item> \<open>Mailbox\<close>: the local mailbox of \<open>session-transport/src/lib.rs\<close> and \<open>capability.rs\<close>. The random
    provider and SHA-256 are parameters; no property needs more of SHA-256 than that it is a function.
  \<^item> \<open>Coordinator\<close>: \<open>session-transport/src/coordinator.rs\<close>, for any owner, resolver and adapter.
  \<^item> \<open>Lifecycle\<close>: \<open>session-transport/src/lifecycle.rs\<close>, and \<open>Receive_State\<close>: \<open>receive_state.rs\<close>, whose owner
    port is the locale \<open>receive_state_owner\<close>.
  \<^item> \<open>Receive_Owner\<close>: \<open>transport-conformance/src/receive_owner.rs\<close>. \<open>Receive_Invariants\<close> has its step
    relation and invariant and interprets the port on it.
  \<^item> \<open>Lifecycle_Provider\<close>: \<open>transport-conformance/src/lifecycle_provider.rs\<close>, with its invariants in
    \<open>Provider_Invariants\<close> and sequences of its calls in \<open>Provider_Runs\<close>.
  \<^item> \<open>Receive_System\<close>: the provider, the owner and a client that polls, commits and acknowledges as the
    contract documents; the client is not a function of the source.
  \<^item> \<open>Vault\<close>: \<open>session-storage/src/lib.rs\<close>, the vault lifecycle, its opaque inbox, unlock attempts and the
    work limiter; the trait of a key protector is the parameter record \<open>session_key_protector\<close>.
    \<open>Vault_Invariants\<close> has its step relation and invariant.
  \<^item> \<open>Hpke_Join\<close>: \<open>session-crypto-hpke/src/lib.rs\<close>, invitation contexts and sealing and opening of requests.
    RFC 9180 HPKE, X25519 and the random source are the parameter record \<open>hpke\<close>; relied on are
    \<open>hpke_opens\<close> (a matching receiver opens what a sender sealed) and \<open>hpke_sound\<close> (random buffers have
    the requested size, and generated keys belong together).
  \<^item> \<open>Mls_Provider\<close>, \<open>Mls_Group\<close>, \<open>Mls_Persistence\<close> and \<open>Mls_Client\<close>: \<open>session-crypto/src/lib.rs\<close> and
    \<open>session-crypto-mls/src/lib.rs\<close>, the bounded messages and key packages, the two-member group, its
    writes to storage, and clients. The MLS library is the parameter record \<open>mls_rs\<close>; where a property
    needs it, \<open>lib_keeps_roster\<close> says that the library changes a roster only when it applies its pending
    commit or processes a commit that starts a new epoch or removes the member.
    \<open>Mls_Invariants\<close> has sequences of operations on a group and on a client.
  \<^item> \<open>Admission\<close>: \<open>session-admission/src/lib.rs\<close> and \<open>admission-capability/src/lib.rs\<close>, over the models of the
    registry, HPKE opening and the group. \<open>Admission_System\<close> composes them in sequences of calls that
    keep a log, with the invariant in \<open>Admission_Invariants\<close> and the ends of a join in \<open>Admission_Outcomes\<close>.
  \<^item> \<open>Memory_Transport\<close>: \<open>transport-memory/src/lib.rs\<close>, synchronous and asynchronous operations and every
    fault control. \<open>Memory_Invariants\<close> has its invariant and \<open>Memory_System\<close> sequences of its operations.
  \<^item> \<open>Profile\<close>: \<open>session-transport/src/profile.rs\<close>, adapter manifests and the two profile binders, with lemmas that
    a binding records the network access its manifest declares and that no manifest fits both profiles.

  \<^bold>\<open>What is shown.\<close>
  \<^item> \<open>Protocol_Properties\<close>: each decoder accepts exactly the canonical encodings of well-formed values
    (so no byte string has two readings and no value two encodings), signed invitations round-trip,
    and the signed bytes determine every claim and the schema.
  \<^item> \<open>Registry_Properties\<close>: single use over every sequence of calls, provenance of reservations, the
    lifecycle as an abstract machine, labelled by the calls, that the registry refines, bounds, the exact time window, and
    that an honest invitation can be carried through to consumption.
  \<^item> \<open>Inviter_Properties\<close>: the commit is atomic under every injected fault, retries are idempotent, no
    invitation or request is consumed twice, committed membership never changes, superseded leases
    are fenced, policy bounds hold in every reachable store, and leased work is deliverable. It also
    shows that a short-lived first item blocks the outbox of the in-memory store.
  \<^item> \<open>Delivery_Properties\<close>: idempotent deposit, no redelivery after acknowledgement, what is received was
    deposited, separation of the authorities of a mailbox, exact receive batches, and that a delivery
    pass that reports acceptance has put the Welcome it leased, of a committed join, in the mailbox it names.
  \<^item> \<open>Receive_Properties\<close>: no cursor skips a live delivery and nothing unstored is acknowledged, over every
    sequence of calls and restarts of provider and owner; a checkpoint is spent once and a committed
    page is durable; old leases are fenced; a generation has one successor and is cut off when its
    drain ends; poll pages are exact.
  \<^item> \<open>Vault_Properties\<close>: privileged work follows an unlock of the same session that met the policy, an ended
    unlock attempt never becomes current again, the inbox stays within its bounds, keeps what it
    accepted until expiry or a completed import and releases exactly that, and the limiter holds its bound under every
    interleaving of its threads.
  \<^item> \<open>Hpke_Properties\<close>: a sealed request opens to itself, an opened request belongs to the invitation it
    was opened with, the HPKE inputs determine the invitation, and a generated context restores.
  \<^item> \<open>Mls_Properties\<close>: a usable group is a two-party group of the closed profile, an applied durable addition
    reaches storage with its exact staging or not at all, a storage authority recognises the call
    it captured and no call of another digest, a transient client is used once and a durable client reloads as itself.
  \<^item> \<open>Admission_Properties\<close>: an addition that the admission interface applies follows verification, binding to
    the invitation and an \<open>Approve\<close> decision on exactly that request, in this order; an invitation admits one member; a join that does not go
    through leaves no reservation behind; replays are refused within a bound.
  \<^item> \<open>Memory_Properties\<close>: the receive loop ends with the first live delivery, an acknowledged delivery is not
    handed out again, the state and every reported total stay within the policy, a failed deposit changes nothing and a lost
    acknowledgement can be retried.

  \<^bold>\<open>Loops and bounds.\<close> All loops of the modelled code but one run over a finite collection and are
  structural recursions, so these functions are total and no fuel is needed. The exception is the
  loop of \<open>receive\<close> in the memory transport, which goes on until its queue yields a live delivery: it is a
  \<open>partial_function\<close> whose value \<open>None\<close> is a loop that does not end, and \<open>receive_returns\<close> shows that it
  always ends. Sequences of calls are lists of operations of any length, and reachable states are
  the results of running them from the constructor. Time is whatever the caller passes and need
  not be monotonic.

  \<^bold>\<open>Not modelled.\<close> Cryptography and MLS key schedules are parameters, as is CBOR encoding beyond its RFC 8949
  instance. SQLCipher storage (\<open>storage-sqlcipher\<close>) is SQL run by SQLite, its fault VFS wraps native file
  handles, the passphrase protector derives keys in a library, and the network adapters, \<open>sessionctl\<close>
  and the native file system are input and output. The blocking supervisor drives futures with threads
  and a condition variable, and the traces of the conformance suite are test evidence; neither has a
  model.
\<close>

end
